(* ===== verification/Prelude.thy ===== *)
theory Prelude
  imports
    Main
    "HOL-Library.Word"
    "HOL-Library.List_Lexorder"
    "HOL-Library.Product_Lexorder"
begin

text \<open>
  What every component of the development shares: the machine integers of the crate, the
  checked and saturating arithmetic of \<open>usize\<close>, little-endian byte strings, and the
  state and error passing that a host function body written with the question mark operator
  performs. An action takes the state and gives either a failure or a value, with the new
  state in both cases, so a body that fails half way keeps the changes it already made.
\<close>

section \<open>Machine integers and bytes\<close>

type_synonym u8 = "8 word"
type_synonym u32 = "32 word"
type_synonym u64 = "64 word"

text \<open>
  A wasm \<open>i32\<close> and an \<open>i64\<close> are the same bits as the unsigned words, so
  \<open>cast_unsigned\<close> and \<open>cast_signed\<close> are identities here and a signed
  comparison reads the word with \<^const>\<open>sint\<close>.
\<close>

type_synonym i32 = "32 word"
type_synonym i64 = "64 word"
type_synonym bytes = "u8 list"

text \<open>The host is a 64-bit machine: a \<open>usize\<close> is a natural number up to this bound.\<close>

definition usize_max :: nat where
  "usize_max = 2 ^ 64 - 1"

definition usize_checked_add :: "nat \<Rightarrow> nat \<Rightarrow> nat option" where
  "usize_checked_add a b = (if a + b \<le> usize_max then Some (a + b) else None)"

definition usize_saturating_add :: "nat \<Rightarrow> nat \<Rightarrow> nat" where
  "usize_saturating_add a b = min (a + b) usize_max"

definition usize_checked_mul :: "nat \<Rightarrow> nat \<Rightarrow> nat option" where
  "usize_checked_mul a b = (if a * b \<le> usize_max then Some (a * b) else None)"

definition u32_try_from_usize :: "nat \<Rightarrow> u32 option" where
  "u32_try_from_usize n = (if n < 2 ^ 32 then Some (of_nat n) else None)"

definition i32_try_from_usize :: "nat \<Rightarrow> i32 option" where
  "i32_try_from_usize n = (if n < 2 ^ 31 then Some (of_nat n) else None)"

definition i32_try_from_u32 :: "u32 \<Rightarrow> i32 option" where
  "i32_try_from_u32 n = (if unat n < 2 ^ 31 then Some n else None)"

definition u32_checked_add :: "u32 \<Rightarrow> u32 \<Rightarrow> u32 option" where
  "u32_checked_add a b = (if unat a + unat b < 2 ^ 32 then Some (a + b) else None)"

lemma unat_u32_less [simp]: "unat (x :: u32) < 4294967296"
  using unsigned_less [of x, where 'a = nat] by simp

lemma unat_u64_less [simp]: "unat (x :: u64) < 18446744073709551616"
  using unsigned_less [of x, where 'a = nat] by simp

lemma unat_u8_less [simp]: "unat (x :: u8) < 256"
  using unsigned_less [of x, where 'a = nat] by simp

lemma unat_u32_bound: "unat (x :: u32) \<le> 4294967295"
  using unat_u32_less [of x] by linarith

lemma usize_checked_add_Some [simp]:
  "usize_checked_add a b = Some c \<longleftrightarrow> c = a + b \<and> a + b \<le> usize_max"
  by (auto simp: usize_checked_add_def)

lemma usize_checked_mul_Some [simp]:
  "usize_checked_mul a b = Some c \<longleftrightarrow> c = a * b \<and> a * b \<le> usize_max"
  by (auto simp: usize_checked_mul_def)

lemma u32_try_from_usize_Some:
  "u32_try_from_usize n = Some x \<longleftrightarrow> n < 2 ^ 32 \<and> x = of_nat n"
  by (auto simp: u32_try_from_usize_def)

lemma unat_of_nat_u32 [simp]: "n < 4294967296 \<Longrightarrow> unat (of_nat n :: u32) = n"
  by (simp add: unsigned_of_nat take_bit_nat_eq_self)

lemma u32_try_from_usize_unat: "u32_try_from_usize n = Some x \<Longrightarrow> unat x = n"
  by (auto simp: u32_try_from_usize_def split: if_splits)

lemma u32_checked_add_Some:
  "u32_checked_add a b = Some c \<Longrightarrow> unat c = unat a + unat b"
  by (auto simp: u32_checked_add_def unat_word_ariths split: if_splits)

section \<open>Little-endian byte strings\<close>

fun le_bytes :: "nat \<Rightarrow> nat \<Rightarrow> bytes" where
  "le_bytes 0 k = []"
| "le_bytes (Suc n) k = of_nat (k mod 256) # le_bytes n (k div 256)"

fun le_value :: "bytes \<Rightarrow> nat" where
  "le_value [] = 0"
| "le_value (b # bs) = unat b + 256 * le_value bs"

definition u32_to_le_bytes :: "u32 \<Rightarrow> bytes" where
  "u32_to_le_bytes x = le_bytes 4 (unat x)"

definition u32_from_le_bytes :: "bytes \<Rightarrow> u32" where
  "u32_from_le_bytes bs = of_nat (le_value bs)"

definition u64_to_le_bytes :: "u64 \<Rightarrow> bytes" where
  "u64_to_le_bytes x = le_bytes 8 (unat x)"

definition u64_from_le_bytes :: "bytes \<Rightarrow> u64" where
  "u64_from_le_bytes bs = of_nat (le_value bs)"

lemma length_le_bytes [simp]: "length (le_bytes n k) = n"
  by (induction n arbitrary: k) auto

lemma le_value_le_bytes: "k < 256 ^ n \<Longrightarrow> le_value (le_bytes n k) = k"
proof (induction n arbitrary: k)
  case (Suc n)
  then have "k div 256 < 256 ^ n"
    by (simp add: less_mult_imp_div_less mult.commute)
  with Suc.IH have "le_value (le_bytes n (k div 256)) = k div 256" .
  moreover have "unat (of_nat (k mod 256) :: u8) = k mod 256"
    by (simp add: unsigned_of_nat take_bit_nat_eq_self)
  ultimately show ?case by simp
qed simp

lemma le_bytes_le_value: "le_bytes (length bs) (le_value bs) = bs"
proof (induction bs)
  case (Cons b bs)
  have "(unat b + 256 * le_value bs) mod 256 = unat b"
    and "(unat b + 256 * le_value bs) div 256 = le_value bs"
    using unat_u8_less [of b] by simp_all
  with Cons.IH show ?case by simp
qed simp

lemma le_value_bound: "le_value bs < 256 ^ length bs"
proof (induction bs)
  case (Cons b bs)
  have "unat b + 256 * le_value bs < 256 * (1 + le_value bs)"
    using unat_u8_less [of b] by simp
  also have "\<dots> \<le> 256 * 256 ^ length bs"
    using Cons.IH by simp
  finally show ?case by simp
qed simp

lemma length_u32_to_le_bytes [simp]: "length (u32_to_le_bytes x) = 4"
  by (simp add: u32_to_le_bytes_def)

lemma length_u64_to_le_bytes [simp]: "length (u64_to_le_bytes x) = 8"
  by (simp add: u64_to_le_bytes_def)

lemma u32_to_le_bytes_parts:
  "u32_to_le_bytes x = [of_nat (unat x mod 256), of_nat (unat x div 256 mod 256),
     of_nat (unat x div 65536 mod 256), of_nat (unat x div 16777216 mod 256)]"
proof -
  have "le_bytes 4 k = [of_nat (k mod 256), of_nat (k div 256 mod 256),
      of_nat (k div 65536 mod 256), of_nat (k div 16777216 mod 256)]" for k
  proof -
    have four: "4 = Suc (Suc (Suc (Suc 0)))" by simp
    have "k div 65536 = k div 256 div 256" "k div 16777216 = k div 256 div 256 div 256"
      by (simp_all flip: div_mult2_eq)
    then show ?thesis by (simp only: four le_bytes.simps)
  qed
  then show ?thesis by (simp add: u32_to_le_bytes_def)
qed

lemma u32_from_to_le_bytes [simp]: "u32_from_le_bytes (u32_to_le_bytes x) = x"
  using unat_u32_less [of x]
  by (simp add: u32_from_le_bytes_def u32_to_le_bytes_def le_value_le_bytes del: unat_u32_less)

lemma u64_from_to_le_bytes [simp]: "u64_from_le_bytes (u64_to_le_bytes x) = x"
  using unat_u64_less [of x]
  by (simp add: u64_from_le_bytes_def u64_to_le_bytes_def le_value_le_bytes del: unat_u64_less)

lemma u32_to_from_le_bytes:
  assumes "length bs = 4"
  shows "u32_to_le_bytes (u32_from_le_bytes bs) = bs"
proof -
  have "le_value bs < 4294967296"
    using le_value_bound [of bs] assms by simp
  then show ?thesis
    using le_bytes_le_value [of bs] assms
    by (simp add: u32_to_le_bytes_def u32_from_le_bytes_def)
qed

section \<open>Fallible values\<close>

text \<open>A \<open>Result\<close> is a sum with the error on the left, an \<open>Option\<close> an option.\<close>

definition rbind :: "'e + 'a \<Rightarrow> ('a \<Rightarrow> 'e + 'b) \<Rightarrow> 'e + 'b" where
  "rbind r k = (case r of Inl e \<Rightarrow> Inl e | Inr x \<Rightarrow> k x)"

definition ok_or :: "'e \<Rightarrow> 'a option \<Rightarrow> 'e + 'a" where
  "ok_or e x = (case x of None \<Rightarrow> Inl e | Some y \<Rightarrow> Inr y)"

lemma rbind_simps [simp]:
  "rbind (Inl e) k = Inl e" "rbind (Inr x) k = k x"
  by (simp_all add: rbind_def)

lemma ok_or_simps [simp]:
  "ok_or e None = Inl e" "ok_or e (Some x) = Inr x"
  by (simp_all add: ok_or_def)

lemma rbind_eq_Inr: "rbind r k = Inr y \<longleftrightarrow> (\<exists>x. r = Inr x \<and> k x = Inr y)"
  by (cases r) auto

lemma ok_or_eq_Inr [simp]: "ok_or e x = Inr y \<longleftrightarrow> x = Some y"
  by (cases x) auto

section \<open>Actions on a state\<close>

type_synonym ('w, 'f, 'a) act = "'w \<Rightarrow> ('f + 'a) \<times> 'w"

definition aret :: "'a \<Rightarrow> ('w, 'f, 'a) act" where
  "aret x w = (Inr x, w)"

definition afail :: "'f \<Rightarrow> ('w, 'f, 'a) act" where
  "afail e w = (Inl e, w)"

definition abind :: "('w, 'f, 'a) act \<Rightarrow> ('a \<Rightarrow> ('w, 'f, 'b) act) \<Rightarrow> ('w, 'f, 'b) act" where
  "abind m k w = (case m w of (r, w') \<Rightarrow> (case r of Inl e \<Rightarrow> (Inl e, w') | Inr x \<Rightarrow> k x w'))"

definition aget :: "('w \<Rightarrow> 'a) \<Rightarrow> ('w, 'f, 'a) act" where
  "aget f w = (Inr (f w), w)"

definition amod :: "('w \<Rightarrow> 'w) \<Rightarrow> ('w, 'f, unit) act" where
  "amod f w = (Inr (), f w)"

definition alift :: "'f + 'a \<Rightarrow> ('w, 'f, 'a) act" where
  "alift r w = (r, w)"

definition atry :: "('w \<Rightarrow> 'f + 'a) \<Rightarrow> ('w, 'f, 'a) act" where
  "atry f w = (f w, w)"

definition aguard :: "('w \<Rightarrow> bool) \<Rightarrow> 'f \<Rightarrow> ('w, 'f, unit) act" where
  "aguard p e w = ((if p w then Inr () else Inl e), w)"

definition amap_err :: "('f \<Rightarrow> 'g) \<Rightarrow> ('w, 'f, 'a) act \<Rightarrow> ('w, 'g, 'a) act" where
  "amap_err h m w = (case m w of (r, w') \<Rightarrow> (map_sum h id r, w'))"

named_theorems act_simps "evaluation of the action combinators"

lemmas [act_simps] =
  aret_def afail_def aget_def amod_def alift_def atry_def aguard_def

lemma abind_Inl [act_simps]: "m w = (Inl e, w') \<Longrightarrow> abind m k w = (Inl e, w')"
  by (simp add: abind_def)

lemma abind_Inr [act_simps]: "m w = (Inr x, w') \<Longrightarrow> abind m k w = k x w'"
  by (simp add: abind_def)

lemma abind_cases:
  assumes "abind m k w = (r, w')"
  obtains e where "m w = (Inl e, w')" "r = Inl e"
  | x v where "m w = (Inr x, v)" "k x v = (r, w')"
  using assms by (auto simp: abind_def split: prod.splits sum.splits)

lemma abind_InrE:
  assumes "abind m k w = (Inr y, w')"
  obtains x v where "m w = (Inr x, v)" "k x v = (Inr y, w')"
  using assms by (auto elim: abind_cases)

section \<open>Preserved invariants and untouched components\<close>

text \<open>
  \<open>keeps I m\<close>: the action keeps the invariant on every branch, failures included.
  \<open>leaves f m\<close>: the action does not change the component \<open>f\<close> of the state.
  Each rule below handles one combinator, so a whole body is handled by applying the
  collection until no combinator is left.
\<close>

definition keeps :: "('w \<Rightarrow> bool) \<Rightarrow> ('w, 'f, 'a) act \<Rightarrow> bool" where
  "keeps I m \<longleftrightarrow> (\<forall>w. I w \<longrightarrow> I (snd (m w)))"

definition leaves :: "('w \<Rightarrow> 'c) \<Rightarrow> ('w, 'f, 'a) act \<Rightarrow> bool" where
  "leaves f m \<longleftrightarrow> (\<forall>w. f (snd (m w)) = f w)"

named_theorems keeps_intros "preservation of an invariant by each step of a body"
named_theorems leaves_intros "components a step of a body does not touch"

lemma keepsI: "(\<And>w. I w \<Longrightarrow> I (snd (m w))) \<Longrightarrow> keeps I m"
  by (simp add: keeps_def)

lemma keepsD: "keeps I m \<Longrightarrow> I w \<Longrightarrow> I (snd (m w))"
  by (simp add: keeps_def)

lemma leavesI: "(\<And>w. f (snd (m w)) = f w) \<Longrightarrow> leaves f m"
  by (simp add: leaves_def)

lemma leavesD: "leaves f m \<Longrightarrow> f (snd (m w)) = f w"
  by (simp add: leaves_def)

lemma keeps_pure [keeps_intros]:
  "keeps I (aret x)" "keeps I (afail e)" "keeps I (aget g)" "keeps I (alift r)"
  "keeps I (atry h)" "keeps I (aguard p e)"
  by (simp_all add: keeps_def act_simps)

lemma leaves_pure [leaves_intros]:
  "leaves f (aret x)" "leaves f (afail e)" "leaves f (aget g)" "leaves f (alift r)"
  "leaves f (atry h)" "leaves f (aguard p e)"
  by (simp_all add: leaves_def act_simps)

lemma keeps_abind [keeps_intros]:
  "keeps I m \<Longrightarrow> (\<And>x. keeps I (k x)) \<Longrightarrow> keeps I (abind m k)"
  by (auto simp: keeps_def abind_def split: prod.splits sum.splits)

lemma leaves_abind [leaves_intros]:
  "leaves f m \<Longrightarrow> (\<And>x. leaves f (k x)) \<Longrightarrow> leaves f (abind m k)"
  by (auto simp: leaves_def abind_def split: prod.splits sum.splits) (metis snd_conv)+

lemma keeps_amod: "(\<And>w. I w \<Longrightarrow> I (g w)) \<Longrightarrow> keeps I (amod g)"
  by (simp add: keeps_def act_simps)

lemma leaves_amod: "(\<And>w. f (g w) = f w) \<Longrightarrow> leaves f (amod g)"
  by (simp add: leaves_def act_simps)

lemma keeps_amap_err [keeps_intros]: "keeps I m \<Longrightarrow> keeps I (amap_err h m)"
  by (auto simp: keeps_def amap_err_def split: prod.splits)

lemma leaves_amap_err [leaves_intros]: "leaves f m \<Longrightarrow> leaves f (amap_err h m)"
  by (auto simp: leaves_def amap_err_def split: prod.splits) (metis snd_conv)

lemma keeps_if [keeps_intros]: "keeps I m \<Longrightarrow> keeps I n \<Longrightarrow> keeps I (if b then m else n)"
  by simp

lemma leaves_if [leaves_intros]: "leaves f m \<Longrightarrow> leaves f n \<Longrightarrow> leaves f (if b then m else n)"
  by simp

lemma keeps_case_option [keeps_intros]:
  "keeps I m \<Longrightarrow> (\<And>x. keeps I (k x)) \<Longrightarrow> keeps I (case v of None \<Rightarrow> m | Some x \<Rightarrow> k x)"
  by (cases v) auto

lemma leaves_case_option [leaves_intros]:
  "leaves f m \<Longrightarrow> (\<And>x. leaves f (k x)) \<Longrightarrow> leaves f (case v of None \<Rightarrow> m | Some x \<Rightarrow> k x)"
  by (cases v) auto

lemma keeps_case_prod [keeps_intros]:
  "(\<And>x y. keeps I (k x y)) \<Longrightarrow> keeps I (case p of (x, y) \<Rightarrow> k x y)"
  by (cases p) auto

lemma leaves_case_prod [leaves_intros]:
  "(\<And>x y. leaves f (k x y)) \<Longrightarrow> leaves f (case p of (x, y) \<Rightarrow> k x y)"
  by (cases p) auto

lemma keeps_case_sum [keeps_intros]:
  "(\<And>x. keeps I (k x)) \<Longrightarrow> (\<And>y. keeps I (l y)) \<Longrightarrow>
   keeps I (case s of Inl x \<Rightarrow> k x | Inr y \<Rightarrow> l y)"
  by (cases s) auto

lemma leaves_case_sum [leaves_intros]:
  "(\<And>x. leaves f (k x)) \<Longrightarrow> (\<And>y. leaves f (l y)) \<Longrightarrow>
   leaves f (case s of Inl x \<Rightarrow> k x | Inr y \<Rightarrow> l y)"
  by (cases s) auto

end
