(* ===== verification/Ordered_Maps.thy ===== *)
theory Ordered_Maps
  imports Prelude
begin

text \<open>
  The ordered map and the ordered set of the standard library (\<open>BTreeMap\<close>,
  \<open>BTreeSet\<close>), as association lists kept in key order. Iteration gives the entries in
  key order, which the callout and the context tables rely on. A set is a map to unit.
\<close>

section \<open>Operations\<close>

type_synonym ('k, 'v) btree_map = "('k \<times> 'v) list"
type_synonym 'k btree_set = "('k, unit) btree_map"

definition btm_get :: "('k, 'v) btree_map \<Rightarrow> 'k \<Rightarrow> 'v option" where
  "btm_get m k = map_of m k"

fun btm_insert :: "'k::linorder \<Rightarrow> 'v \<Rightarrow> ('k, 'v) btree_map \<Rightarrow> ('k, 'v) btree_map" where
  "btm_insert k v [] = [(k, v)]"
| "btm_insert k v (e # m) =
     (if k < fst e then (k, v) # e # m
      else if k = fst e then (k, v) # m
      else e # btm_insert k v m)"

definition btm_remove :: "'k \<Rightarrow> ('k, 'v) btree_map \<Rightarrow> ('k, 'v) btree_map" where
  "btm_remove k m = filter (\<lambda>e. fst e \<noteq> k) m"

definition btm_ok :: "('k::linorder, 'v) btree_map \<Rightarrow> bool" where
  "btm_ok m \<longleftrightarrow> sorted_wrt (<) (map fst m)"

text \<open>An update in place of one entry, as \<open>get_mut\<close> gives it.\<close>

definition btm_adjust :: "'k \<Rightarrow> ('v \<Rightarrow> 'v) \<Rightarrow> ('k, 'v) btree_map \<Rightarrow> ('k, 'v) btree_map" where
  "btm_adjust k f m = map (\<lambda>e. if fst e = k then (fst e, f (snd e)) else e) m"

definition bts_contains :: "'k btree_set \<Rightarrow> 'k \<Rightarrow> bool" where
  "bts_contains s k \<longleftrightarrow> btm_get s k \<noteq> None"

definition bts_insert :: "'k::linorder \<Rightarrow> 'k btree_set \<Rightarrow> 'k btree_set" where
  "bts_insert k s = btm_insert k () s"

section \<open>The interface and its laws\<close>

locale ordered_map =
  fixes empty :: "'m"
    and get :: "'m \<Rightarrow> 'k::linorder \<Rightarrow> 'v option"
    and ins :: "'k \<Rightarrow> 'v \<Rightarrow> 'm \<Rightarrow> 'm"
    and rem :: "'k \<Rightarrow> 'm \<Rightarrow> 'm"
    and len :: "'m \<Rightarrow> nat"
    and iter :: "'m \<Rightarrow> ('k \<times> 'v) list"
    and ok :: "'m \<Rightarrow> bool"
  assumes get_empty: "get empty k = None"
    and get_ins: "get (ins k v m) k' = (if k' = k then Some v else get m k')"
    and get_rem: "get (rem k m) k' = (if k' = k then None else get m k')"
    and ok_empty: "ok empty"
    and ok_ins: "ok m \<Longrightarrow> ok (ins k v m)"
    and ok_rem: "ok m \<Longrightarrow> ok (rem k m)"
    and len_dom: "ok m \<Longrightarrow> len m = card (dom (get m))"
    and finite_dom: "finite (dom (get m))"
    and iter_get: "ok m \<Longrightarrow> (k, v) \<in> set (iter m) \<longleftrightarrow> get m k = Some v"
    and iter_sorted: "ok m \<Longrightarrow> sorted_wrt (<) (map fst (iter m))"
begin

lemma dom_ins: "dom (get (ins k v m)) = insert k (dom (get m))"
  by (auto simp: get_ins split: if_splits)

lemma dom_rem: "dom (get (rem k m)) = dom (get m) - {k}"
  by (auto simp: get_rem split: if_splits)

lemma len_ins_new: "ok m \<Longrightarrow> get m k = None \<Longrightarrow> len (ins k v m) = Suc (len m)"
  by (simp add: len_dom ok_ins dom_ins finite_dom domIff)

lemma len_ins_old: "ok m \<Longrightarrow> get m k \<noteq> None \<Longrightarrow> len (ins k v m) = len m"
  by (simp add: len_dom ok_ins dom_ins domIff insert_absorb)

lemma len_rem_old: "ok m \<Longrightarrow> get m k \<noteq> None \<Longrightarrow> Suc (len (rem k m)) = len m"
  by (simp only: len_dom ok_rem dom_rem) (rule card_Suc_Diff1, auto simp: finite_dom)

lemma len_ins_bound: "ok m \<Longrightarrow> len (ins k v m) \<le> Suc (len m)"
  by (cases "get m k") (auto simp: len_ins_new len_ins_old)

end

section \<open>The association list provides the interface\<close>

lemma btm_get_Nil [simp]: "btm_get [] k = None"
  by (simp add: btm_get_def)

lemma btm_get_insert [simp]:
  "btm_get (btm_insert k v m) k' = (if k' = k then Some v else btm_get m k')"
  by (induction m) (auto simp: btm_get_def)

lemma btm_get_remove [simp]:
  "btm_get (btm_remove k m) k' = (if k' = k then None else btm_get m k')"
  by (induction m) (auto simp: btm_get_def btm_remove_def)

lemma btm_get_adjust [simp]:
  "btm_get (btm_adjust k f m) k' = (if k' = k then map_option f (btm_get m k) else btm_get m k')"
  by (induction m) (auto simp: btm_get_def btm_adjust_def)

lemma keys_btm_insert: "fst ` set (btm_insert k v m) = insert k (fst ` set m)"
  by (induction m) auto

lemma btm_ok_Nil [simp]: "btm_ok []"
  by (simp add: btm_ok_def)

lemma btm_ok_insert [simp]: "btm_ok m \<Longrightarrow> btm_ok (btm_insert k v m)"
proof (induction m)
  case (Cons e m)
  then have ok: "btm_ok m" and above: "\<forall>x \<in> fst ` set m. fst e < x"
    by (auto simp: btm_ok_def)
  consider "k < fst e" | "k = fst e" | "fst e < k"
    by (meson linorder_cases)
  then show ?case
  proof cases
    case 3
    then have "\<forall>x \<in> fst ` set (btm_insert k v m). fst e < x"
      using above by (simp add: keys_btm_insert)
    with 3 Cons.IH [OF ok] show ?thesis
      by (auto simp: btm_ok_def)
  qed (use ok above in \<open>auto simp: btm_ok_def\<close>)
qed (simp add: btm_ok_def)

lemma btm_ok_remove [simp]: "btm_ok m \<Longrightarrow> btm_ok (btm_remove k m)"
  by (induction m) (auto simp: btm_ok_def btm_remove_def)

lemma btm_ok_adjust [simp]: "btm_ok (btm_adjust k f m) = btm_ok m"
proof -
  have "map fst (btm_adjust k f m) = map fst m"
    by (simp add: btm_adjust_def)
  then show ?thesis by (simp add: btm_ok_def)
qed

lemma length_btm_adjust [simp]: "length (btm_adjust k f m) = length m"
  by (simp add: btm_adjust_def)

lemma length_btm_insert: "length (btm_insert k v m) \<le> Suc (length m)"
  by (induction m) auto

lemma length_btm_remove: "length (btm_remove k m) \<le> length m"
  by (simp add: btm_remove_def)

lemma btm_ok_distinct: "btm_ok m \<Longrightarrow> distinct (map fst m)"
  by (auto simp: btm_ok_def intro: strict_sorted_iff [THEN iffD1, THEN conjunct2])

lemma dom_btm_get: "dom (btm_get m) = fst ` set m"
  by (simp add: btm_get_def [abs_def] dom_map_of_conv_image_fst)

lemma length_btm_dom: "btm_ok m \<Longrightarrow> length m = card (dom (btm_get m))"
  by (metis btm_ok_distinct distinct_card dom_btm_get length_map list.set_map)

lemma btm_iter_get: "btm_ok m \<Longrightarrow> (k, v) \<in> set m \<longleftrightarrow> btm_get m k = Some v"
  by (simp add: btm_get_def btm_ok_distinct)

interpretation btm: ordered_map "[]" btm_get btm_insert btm_remove length "\<lambda>m. m" btm_ok
  by unfold_locales
    (simp_all add: length_btm_dom btm_iter_get dom_btm_get, simp add: btm_ok_def)

lemma btm_get_SomeD: "btm_get m k = Some v \<Longrightarrow> (k, v) \<in> set m"
  by (simp add: btm_get_def map_of_SomeD)

lemma btm_get_filter:
  assumes "btm_ok m"
  shows "btm_get (filter (\<lambda>e. P (fst e) (snd e)) m) k =
    (case btm_get m k of None \<Rightarrow> None | Some v \<Rightarrow> if P k v then Some v else None)"
  using btm_ok_distinct [OF assms]
proof (induction m)
  case (Cons e m)
  have "map_of (filter Q m) (fst e) = None" for Q
    using Cons.prems by (auto simp: map_of_eq_None_iff)
  with Cons show ?case
    by (auto simp: btm_get_def split: option.splits)
qed (simp add: btm_get_def)

lemma btm_ok_filter [simp]: "btm_ok m \<Longrightarrow> btm_ok (filter P m)"
  by (induction m) (auto simp: btm_ok_def)

lemma bts_contains_Nil [simp]: "\<not> bts_contains [] k"
  by (simp add: bts_contains_def)

lemma bts_contains_insert [simp]:
  "bts_contains (bts_insert k s) k' \<longleftrightarrow> k' = k \<or> bts_contains s k'"
  by (simp add: bts_contains_def bts_insert_def)

lemma bts_ok_insert [simp]: "btm_ok s \<Longrightarrow> btm_ok (bts_insert k s)"
  by (simp add: bts_insert_def)

lemma bts_contains_set: "bts_contains s k \<longleftrightarrow> k \<in> fst ` set s"
  by (simp add: bts_contains_def flip: dom_btm_get) (auto simp: domIff)

end
