(* ===== verification/Abi_Types.thy ===== *)
theory Abi_Types
  imports Prelude
begin

text \<open>
  The enumerations of ABI v0.2.1 (\<open>abi/v0_2_1/types.rs\<close>, \<open>types/proxy.rs\<close>,
  \<open>types/wasi.rs\<close>), the callbacks a guest exports (\<open>callback.rs\<close>) and the
  detection of the ABI version (\<open>abi/version.rs\<close>). The macro \<open>abi_enum!\<close>
  becomes a locale: an enumeration is its list of variants and their values, and the
  conversions in both directions follow. Every enumeration interprets it.
\<close>

section \<open>The conversions the macro generates\<close>

datatype unknown_value = UnknownValue (type_name: string) (offered: i32)

definition abi_try_from ::
  "string \<Rightarrow> ('a \<Rightarrow> i32) \<Rightarrow> 'a list \<Rightarrow> i32 \<Rightarrow> unknown_value + 'a" where
  "abi_try_from name code variants v =
     (case find (\<lambda>x. code x = v) variants of
        Some x \<Rightarrow> Inr x
      | None \<Rightarrow> Inl (UnknownValue name v))"

locale abi_enum =
  fixes variants :: "'a list"
    and code :: "'a \<Rightarrow> i32"
    and name :: string
  assumes covers: "x \<in> set variants"
    and distinct_codes: "distinct (map code variants)"
begin

lemma code_inj: "code x = code y \<longleftrightarrow> x = y"
  using distinct_codes covers by (auto simp: distinct_map dest: inj_onD)

lemma round_trip: "abi_try_from name code variants (code x) = Inr x"
proof -
  obtain y where "find (\<lambda>y. code y = code x) variants = Some y"
    using covers [of x] by (metis (mono_tags, lifting) find_None_iff2 not_Some_eq)
  moreover from this have "code y = code x"
    by (auto simp: find_Some_iff)
  ultimately show ?thesis
    by (simp add: abi_try_from_def code_inj)
qed

lemma accepted: "abi_try_from name code variants v = Inr x \<longleftrightarrow> v = code x"
  by (auto simp: round_trip) (auto simp: abi_try_from_def find_Some_iff split: option.splits)

lemma refused: "abi_try_from name code variants v = Inl e \<longleftrightarrow>
  e = UnknownValue name v \<and> (\<forall>x. v \<noteq> code x)"
  by (cases "abi_try_from name code variants v")
    (auto simp: accepted, auto simp: abi_try_from_def find_None_iff round_trip covers
      split: option.splits)

end

section \<open>The enumerations\<close>

datatype log_level =
    Trace
  | Debug
  | Info
  | Warn
  | LevelError
  | Critical

fun log_level_code :: "log_level \<Rightarrow> i32" where
  "log_level_code Trace = 0"
| "log_level_code Debug = 1"
| "log_level_code Info = 2"
| "log_level_code Warn = 3"
| "log_level_code LevelError = 4"
| "log_level_code Critical = 5"

definition log_level_all :: "log_level list" where
  "log_level_all = [Trace, Debug, Info, Warn, LevelError, Critical]"

definition log_level_try_from :: "i32 \<Rightarrow> unknown_value + log_level" where
  "log_level_try_from = abi_try_from ''LogLevel'' log_level_code log_level_all"

interpretation LogLevel: abi_enum log_level_all log_level_code "''LogLevel''"
proof
  fix x show "x \<in> set log_level_all" by (cases x) (simp_all add: log_level_all_def)
qed (simp add: log_level_all_def)

datatype status =
    Ok
  | NotFound
  | BadArgument
  | SerializationFailure
  | ParseFailure
  | InvalidMemoryAccess
  | Empty
  | CasMismatch
  | InternalFailure
  | Unimplemented

fun status_code :: "status \<Rightarrow> i32" where
  "status_code Ok = 0"
| "status_code NotFound = 1"
| "status_code BadArgument = 2"
| "status_code SerializationFailure = 3"
| "status_code ParseFailure = 4"
| "status_code InvalidMemoryAccess = 6"
| "status_code Empty = 7"
| "status_code CasMismatch = 8"
| "status_code InternalFailure = 10"
| "status_code Unimplemented = 12"

definition status_all :: "status list" where
  "status_all = [Ok, NotFound, BadArgument, SerializationFailure, ParseFailure, InvalidMemoryAccess, Empty, CasMismatch, InternalFailure, Unimplemented]"

definition status_try_from :: "i32 \<Rightarrow> unknown_value + status" where
  "status_try_from = abi_try_from ''Status'' status_code status_all"

interpretation Status: abi_enum status_all status_code "''Status''"
proof
  fix x show "x \<in> set status_all" by (cases x) (simp_all add: status_all_def)
qed (simp add: status_all_def)

datatype action =
    Continue
  | Pause

fun action_code :: "action \<Rightarrow> i32" where
  "action_code Continue = 0"
| "action_code Pause = 1"

definition action_all :: "action list" where
  "action_all = [Continue, Pause]"

definition action_try_from :: "i32 \<Rightarrow> unknown_value + action" where
  "action_try_from = abi_try_from ''Action'' action_code action_all"

interpretation Action: abi_enum action_all action_code "''Action''"
proof
  fix x show "x \<in> set action_all" by (cases x) (simp_all add: action_all_def)
qed (simp add: action_all_def)

datatype buffer_type =
    HttpRequestBody
  | HttpResponseBody
  | DownstreamData
  | UpstreamData
  | HttpCallResponseBody
  | GrpcCallMessage
  | VmConfiguration
  | PluginConfiguration
  | ForeignFunctionArguments

fun buffer_type_code :: "buffer_type \<Rightarrow> i32" where
  "buffer_type_code HttpRequestBody = 0"
| "buffer_type_code HttpResponseBody = 1"
| "buffer_type_code DownstreamData = 2"
| "buffer_type_code UpstreamData = 3"
| "buffer_type_code HttpCallResponseBody = 4"
| "buffer_type_code GrpcCallMessage = 5"
| "buffer_type_code VmConfiguration = 6"
| "buffer_type_code PluginConfiguration = 7"
| "buffer_type_code ForeignFunctionArguments = 8"

definition buffer_type_all :: "buffer_type list" where
  "buffer_type_all = [HttpRequestBody, HttpResponseBody, DownstreamData, UpstreamData, HttpCallResponseBody, GrpcCallMessage, VmConfiguration, PluginConfiguration, ForeignFunctionArguments]"

definition buffer_type_try_from :: "i32 \<Rightarrow> unknown_value + buffer_type" where
  "buffer_type_try_from = abi_try_from ''BufferType'' buffer_type_code buffer_type_all"

interpretation BufferType: abi_enum buffer_type_all buffer_type_code "''BufferType''"
proof
  fix x show "x \<in> set buffer_type_all" by (cases x) (simp_all add: buffer_type_all_def)
qed (simp add: buffer_type_all_def)

datatype map_type =
    HttpRequestHeaders
  | HttpRequestTrailers
  | HttpResponseHeaders
  | HttpResponseTrailers
  | GrpcCallInitialMetadata
  | GrpcCallTrailingMetadata
  | HttpCallResponseHeaders
  | HttpCallResponseTrailers

fun map_type_code :: "map_type \<Rightarrow> i32" where
  "map_type_code HttpRequestHeaders = 0"
| "map_type_code HttpRequestTrailers = 1"
| "map_type_code HttpResponseHeaders = 2"
| "map_type_code HttpResponseTrailers = 3"
| "map_type_code GrpcCallInitialMetadata = 4"
| "map_type_code GrpcCallTrailingMetadata = 5"
| "map_type_code HttpCallResponseHeaders = 6"
| "map_type_code HttpCallResponseTrailers = 7"

definition map_type_all :: "map_type list" where
  "map_type_all = [HttpRequestHeaders, HttpRequestTrailers, HttpResponseHeaders, HttpResponseTrailers, GrpcCallInitialMetadata, GrpcCallTrailingMetadata, HttpCallResponseHeaders, HttpCallResponseTrailers]"

definition map_type_try_from :: "i32 \<Rightarrow> unknown_value + map_type" where
  "map_type_try_from = abi_try_from ''MapType'' map_type_code map_type_all"

interpretation MapType: abi_enum map_type_all map_type_code "''MapType''"
proof
  fix x show "x \<in> set map_type_all" by (cases x) (simp_all add: map_type_all_def)
qed (simp add: map_type_all_def)

datatype peer_type =
    UnknownPeer
  | Local
  | Remote

fun peer_type_code :: "peer_type \<Rightarrow> i32" where
  "peer_type_code UnknownPeer = 0"
| "peer_type_code Local = 1"
| "peer_type_code Remote = 2"

definition peer_type_all :: "peer_type list" where
  "peer_type_all = [UnknownPeer, Local, Remote]"

definition peer_type_try_from :: "i32 \<Rightarrow> unknown_value + peer_type" where
  "peer_type_try_from = abi_try_from ''PeerType'' peer_type_code peer_type_all"

interpretation PeerType: abi_enum peer_type_all peer_type_code "''PeerType''"
proof
  fix x show "x \<in> set peer_type_all" by (cases x) (simp_all add: peer_type_all_def)
qed (simp add: peer_type_all_def)

datatype stream_type =
    HttpRequest
  | HttpResponse
  | Downstream
  | Upstream

fun stream_type_code :: "stream_type \<Rightarrow> i32" where
  "stream_type_code HttpRequest = 0"
| "stream_type_code HttpResponse = 1"
| "stream_type_code Downstream = 2"
| "stream_type_code Upstream = 3"

definition stream_type_all :: "stream_type list" where
  "stream_type_all = [HttpRequest, HttpResponse, Downstream, Upstream]"

definition stream_type_try_from :: "i32 \<Rightarrow> unknown_value + stream_type" where
  "stream_type_try_from = abi_try_from ''StreamType'' stream_type_code stream_type_all"

interpretation StreamType: abi_enum stream_type_all stream_type_code "''StreamType''"
proof
  fix x show "x \<in> set stream_type_all" by (cases x) (simp_all add: stream_type_all_def)
qed (simp add: stream_type_all_def)

datatype metric_type =
    Counter
  | Gauge
  | Histogram

fun metric_type_code :: "metric_type \<Rightarrow> i32" where
  "metric_type_code Counter = 0"
| "metric_type_code Gauge = 1"
| "metric_type_code Histogram = 2"

definition metric_type_all :: "metric_type list" where
  "metric_type_all = [Counter, Gauge, Histogram]"

definition metric_type_try_from :: "i32 \<Rightarrow> unknown_value + metric_type" where
  "metric_type_try_from = abi_try_from ''MetricType'' metric_type_code metric_type_all"

interpretation MetricType: abi_enum metric_type_all metric_type_code "''MetricType''"
proof
  fix x show "x \<in> set metric_type_all" by (cases x) (simp_all add: metric_type_all_def)
qed (simp add: metric_type_all_def)

datatype wasi_errno =
    Success
  | Badf
  | Fault
  | Inval
  | Notsup

fun wasi_errno_code :: "wasi_errno \<Rightarrow> i32" where
  "wasi_errno_code Success = 0"
| "wasi_errno_code Badf = 8"
| "wasi_errno_code Fault = 21"
| "wasi_errno_code Inval = 28"
| "wasi_errno_code Notsup = 58"

definition wasi_errno_all :: "wasi_errno list" where
  "wasi_errno_all = [Success, Badf, Fault, Inval, Notsup]"

definition wasi_errno_try_from :: "i32 \<Rightarrow> unknown_value + wasi_errno" where
  "wasi_errno_try_from = abi_try_from ''WasiErrno'' wasi_errno_code wasi_errno_all"

interpretation WasiErrno: abi_enum wasi_errno_all wasi_errno_code "''WasiErrno''"
proof
  fix x show "x \<in> set wasi_errno_all" by (cases x) (simp_all add: wasi_errno_all_def)
qed (simp add: wasi_errno_all_def)

datatype wasi_fd_id =
    Stdout
  | Stderr

fun wasi_fd_id_code :: "wasi_fd_id \<Rightarrow> i32" where
  "wasi_fd_id_code Stdout = 1"
| "wasi_fd_id_code Stderr = 2"

definition wasi_fd_id_all :: "wasi_fd_id list" where
  "wasi_fd_id_all = [Stdout, Stderr]"

definition wasi_fd_id_try_from :: "i32 \<Rightarrow> unknown_value + wasi_fd_id" where
  "wasi_fd_id_try_from = abi_try_from ''WasiFdId'' wasi_fd_id_code wasi_fd_id_all"

interpretation WasiFdId: abi_enum wasi_fd_id_all wasi_fd_id_code "''WasiFdId''"
proof
  fix x show "x \<in> set wasi_fd_id_all" by (cases x) (simp_all add: wasi_fd_id_all_def)
qed (simp add: wasi_fd_id_all_def)

datatype wasi_clock_id =
    Realtime
  | Monotonic

fun wasi_clock_id_code :: "wasi_clock_id \<Rightarrow> i32" where
  "wasi_clock_id_code Realtime = 0"
| "wasi_clock_id_code Monotonic = 1"

definition wasi_clock_id_all :: "wasi_clock_id list" where
  "wasi_clock_id_all = [Realtime, Monotonic]"

definition wasi_clock_id_try_from :: "i32 \<Rightarrow> unknown_value + wasi_clock_id" where
  "wasi_clock_id_try_from = abi_try_from ''WasiClockId'' wasi_clock_id_code wasi_clock_id_all"

interpretation WasiClockId: abi_enum wasi_clock_id_all wasi_clock_id_code "''WasiClockId''"
proof
  fix x show "x \<in> set wasi_clock_id_all" by (cases x) (simp_all add: wasi_clock_id_all_def)
qed (simp add: wasi_clock_id_all_def)

text \<open>The levels are ordered from the least to the most severe, and compare by value.\<close>

instantiation log_level :: linorder
begin

definition less_eq_log_level :: "log_level \<Rightarrow> log_level \<Rightarrow> bool" where
  "less_eq_log_level a b \<longleftrightarrow> unat (log_level_code a) \<le> unat (log_level_code b)"

definition less_log_level :: "log_level \<Rightarrow> log_level \<Rightarrow> bool" where
  "less_log_level a b \<longleftrightarrow> unat (log_level_code a) < unat (log_level_code b)"

instance
proof
  fix a b :: log_level
  assume "a \<le> b" "b \<le> a"
  then have "log_level_code a = log_level_code b"
    by (simp add: less_eq_log_level_def word_unat_eq_iff)
  then show "a = b" by (simp add: LogLevel.code_inj)
qed (auto simp: less_eq_log_level_def less_log_level_def)

end

fun status_name :: "status \<Rightarrow> string" where
  "status_name Ok = ''OK''"
| "status_name NotFound = ''NOT_FOUND''"
| "status_name BadArgument = ''BAD_ARGUMENT''"
| "status_name SerializationFailure = ''SERIALIZATION_FAILURE''"
| "status_name ParseFailure = ''PARSE_FAILURE''"
| "status_name InvalidMemoryAccess = ''INVALID_MEMORY_ACCESS''"
| "status_name Empty = ''EMPTY''"
| "status_name CasMismatch = ''CAS_MISMATCH''"
| "status_name InternalFailure = ''INTERNAL_FAILURE''"
| "status_name Unimplemented = ''UNIMPLEMENTED''"

section \<open>Callbacks\<close>

datatype callback =
    OnContextCreate
  | OnVmStart
  | OnConfigure
  | OnNewConnection
  | OnDownstreamData
  | OnDownstreamConnectionClose
  | OnUpstreamData
  | OnUpstreamConnectionClose
  | OnRequestHeaders
  | OnRequestBody
  | OnRequestTrailers
  | OnResponseHeaders
  | OnResponseBody
  | OnResponseTrailers
  | OnHttpCallResponse
  | OnGrpcReceiveInitialMetadata
  | OnGrpcReceive
  | OnGrpcReceiveTrailingMetadata
  | OnGrpcClose
  | OnDone
  | OnLog
  | OnDelete
  | OnTick
  | OnQueueReady
  | OnForeignFunction

fun callback_export_name :: "callback \<Rightarrow> string" where
  "callback_export_name OnContextCreate = ''proxy_on_context_create''"
| "callback_export_name OnVmStart = ''proxy_on_vm_start''"
| "callback_export_name OnConfigure = ''proxy_on_configure''"
| "callback_export_name OnNewConnection = ''proxy_on_new_connection''"
| "callback_export_name OnDownstreamData = ''proxy_on_downstream_data''"
| "callback_export_name OnDownstreamConnectionClose = ''proxy_on_downstream_connection_close''"
| "callback_export_name OnUpstreamData = ''proxy_on_upstream_data''"
| "callback_export_name OnUpstreamConnectionClose = ''proxy_on_upstream_connection_close''"
| "callback_export_name OnRequestHeaders = ''proxy_on_request_headers''"
| "callback_export_name OnRequestBody = ''proxy_on_request_body''"
| "callback_export_name OnRequestTrailers = ''proxy_on_request_trailers''"
| "callback_export_name OnResponseHeaders = ''proxy_on_response_headers''"
| "callback_export_name OnResponseBody = ''proxy_on_response_body''"
| "callback_export_name OnResponseTrailers = ''proxy_on_response_trailers''"
| "callback_export_name OnHttpCallResponse = ''proxy_on_http_call_response''"
| "callback_export_name OnGrpcReceiveInitialMetadata = ''proxy_on_grpc_receive_initial_metadata''"
| "callback_export_name OnGrpcReceive = ''proxy_on_grpc_receive''"
| "callback_export_name OnGrpcReceiveTrailingMetadata = ''proxy_on_grpc_receive_trailing_metadata''"
| "callback_export_name OnGrpcClose = ''proxy_on_grpc_close''"
| "callback_export_name OnDone = ''proxy_on_done''"
| "callback_export_name OnLog = ''proxy_on_log''"
| "callback_export_name OnDelete = ''proxy_on_delete''"
| "callback_export_name OnTick = ''proxy_on_tick''"
| "callback_export_name OnQueueReady = ''proxy_on_queue_ready''"
| "callback_export_name OnForeignFunction = ''proxy_on_foreign_function''"

definition callback_all :: "callback list" where
  "callback_all = [
    OnContextCreate,
    OnVmStart,
    OnConfigure,
    OnNewConnection,
    OnDownstreamData,
    OnDownstreamConnectionClose,
    OnUpstreamData,
    OnUpstreamConnectionClose,
    OnRequestHeaders,
    OnRequestBody,
    OnRequestTrailers,
    OnResponseHeaders,
    OnResponseBody,
    OnResponseTrailers,
    OnHttpCallResponse,
    OnGrpcReceiveInitialMetadata,
    OnGrpcReceive,
    OnGrpcReceiveTrailingMetadata,
    OnGrpcClose,
    OnDone,
    OnLog,
    OnDelete,
    OnTick,
    OnQueueReady,
    OnForeignFunction]"

lemma callback_all_covers: "c \<in> set callback_all"
  by (cases c) (simp_all add: callback_all_def)

section \<open>The ABI version\<close>

datatype abi_version = V0_2_0 | V0_2_1

datatype unsupported_abi = UnsupportedAbi (found: "string list")

fun version_export_name :: "abi_version \<Rightarrow> string" where
  "version_export_name V0_2_0 = ''proxy_abi_version_0_2_0''"
| "version_export_name V0_2_1 = ''proxy_abi_version_0_2_1''"

definition detect_version :: "string list \<Rightarrow> unsupported_abi + abi_version" where
  "detect_version exports =
     ok_or (UnsupportedAbi exports)
       (find (\<lambda>v. \<exists>name \<in> set exports. name = version_export_name v) [V0_2_1, V0_2_0])"

section \<open>Codes and values\<close>

text \<open>
  The wire codes of every enumeration of the ABI are a bijection with its values: a code is
  accepted exactly when it is the code of the value it gives, so encoding and decoding are inverse
  and no two values share a code.
\<close>

lemma abi_codes_round_trip:
  "(log_level_try_from v = Inr l \<longleftrightarrow> v = log_level_code l) \<and>
   (status_try_from v = Inr s \<longleftrightarrow> v = status_code s) \<and>
   (action_try_from v = Inr a \<longleftrightarrow> v = action_code a) \<and>
   (buffer_type_try_from v = Inr b \<longleftrightarrow> v = buffer_type_code b) \<and>
   (map_type_try_from v = Inr m \<longleftrightarrow> v = map_type_code m) \<and>
   (peer_type_try_from v = Inr p \<longleftrightarrow> v = peer_type_code p) \<and>
   (stream_type_try_from v = Inr st \<longleftrightarrow> v = stream_type_code st) \<and>
   (metric_type_try_from v = Inr mt \<longleftrightarrow> v = metric_type_code mt) \<and>
   (wasi_errno_try_from v = Inr e \<longleftrightarrow> v = wasi_errno_code e) \<and>
   (wasi_fd_id_try_from v = Inr fd \<longleftrightarrow> v = wasi_fd_id_code fd) \<and>
   (wasi_clock_id_try_from v = Inr ck \<longleftrightarrow> v = wasi_clock_id_code ck)"
  by (simp add: log_level_try_from_def LogLevel.accepted
      status_try_from_def Status.accepted
      action_try_from_def Action.accepted
      buffer_type_try_from_def BufferType.accepted
      map_type_try_from_def MapType.accepted
      peer_type_try_from_def PeerType.accepted
      stream_type_try_from_def StreamType.accepted
      metric_type_try_from_def MetricType.accepted
      wasi_errno_try_from_def WasiErrno.accepted
      wasi_fd_id_try_from_def WasiFdId.accepted
      wasi_clock_id_try_from_def WasiClockId.accepted)

end
