(* ===== verification/Pair_Codec.thy ===== *)
theory Pair_Codec
  imports Prelude
begin

text \<open>
  The wire format of a header map and of a property path (\<open>codec/pairs.rs\<close>,
  \<open>codec/pairs/errors.rs\<close>, \<open>codec/pairs/limits.rs\<close>, \<open>codec/path.rs\<close>).
  A map is a count, a table of key and value lengths, and the keys and values themselves, each
  ended by a zero byte. The lemmas give both encoders in closed form and relate the decoder to
  them in both directions.
\<close>

section \<open>Errors and limits\<close>

type_synonym pair = "bytes \<times> bytes"
type_synonym pairs = "pair list"

datatype field = Key | Value

datatype decode_error =
    TruncatedCount
  | TruncatedLengths u32
  | TruncatedKey u32
  | TruncatedValue u32
  | MissingTerminator u32 field
  | TrailingBytes nat
  | PairLimit u32 u32
  | ByteLimit nat nat

datatype encode_error =
    TooLong nat field nat
  | TooManyPairs nat
  | TooLarge
  | Changed

definition DEFAULT_MAX_DECODED_PAIRS :: u32 where
  "DEFAULT_MAX_DECODED_PAIRS = 1024"

definition DEFAULT_MAX_DECODED_MAP_BYTES :: nat where
  "DEFAULT_MAX_DECODED_MAP_BYTES = 1024 * 1024"

record pair_limits =
  max_pairs :: "u32 option"
  max_bytes :: "nat option"

definition pair_limits_default :: pair_limits where
  "pair_limits_default =
     \<lparr>max_pairs = Some DEFAULT_MAX_DECODED_PAIRS, max_bytes = Some DEFAULT_MAX_DECODED_MAP_BYTES\<rparr>"

definition with_pairs :: "u32 option \<Rightarrow> pair_limits \<Rightarrow> pair_limits" where
  "with_pairs pairs l = l\<lparr>max_pairs := pairs\<rparr>"

definition with_bytes :: "nat option \<Rightarrow> pair_limits \<Rightarrow> pair_limits" where
  "with_bytes bytes l = l\<lparr>max_bytes := bytes\<rparr>"

definition pair_limits_unlimited :: pair_limits where
  "pair_limits_unlimited = \<lparr>max_pairs = None, max_bytes = None\<rparr>"

definition check_bytes :: "pair_limits \<Rightarrow> nat \<Rightarrow> decode_error + unit" where
  "check_bytes l data_len =
     (case max_bytes l of
        Some limit \<Rightarrow> if data_len > limit then Inl (ByteLimit data_len limit) else Inr ()
      | None \<Rightarrow> Inr ())"

definition check_pairs :: "pair_limits \<Rightarrow> u32 \<Rightarrow> decode_error + unit" where
  "check_pairs l pairs =
     (case max_pairs l of
        Some limit \<Rightarrow> if pairs > limit then Inl (PairLimit pairs limit) else Inr ()
      | None \<Rightarrow> Inr ())"

section \<open>Sizes\<close>

definition COUNT_SIZE :: nat where "COUNT_SIZE = 4"
definition LENGTH_SIZE :: nat where "LENGTH_SIZE = 4"
definition TERMINATOR :: u8 where "TERMINATOR = 0"

definition reserve_for :: "nat \<Rightarrow> nat \<Rightarrow> nat \<Rightarrow> nat" where
  "reserve_for pair_count data_len table_end = min pair_count ((data_len - table_end) div 2)"

definition pair_encoded_size :: "nat \<Rightarrow> nat \<Rightarrow> nat" where
  "pair_encoded_size key_len value_len =
     usize_saturating_add
       (usize_saturating_add
         (usize_saturating_add (usize_saturating_add (2 * LENGTH_SIZE) key_len) 1) value_len) 1"

definition total_size :: "nat \<Rightarrow> nat \<Rightarrow> nat" where
  "total_size count pairs_size =
     (if count = 0 then 0 else usize_saturating_add COUNT_SIZE pairs_size)"

definition encoded_size :: "pairs \<Rightarrow> nat" where
  "encoded_size ps =
     total_size (length ps)
       (foldl (\<lambda>sum (key, value).
          usize_saturating_add sum (pair_encoded_size (length key) (length value))) 0 ps)"

section \<open>Encoding\<close>

definition length_of :: "nat \<Rightarrow> field \<Rightarrow> bytes \<Rightarrow> encode_error + u32" where
  "length_of pair field bs =
     ok_or (TooLong pair field (length bs)) (u32_try_from_usize (length bs))"

text \<open>
  A pair source is walked twice, so its two walks are two arguments: what the first walk
  offers and what the second one does. \<open>measure\<close> is the first walk, which stops at the
  first pair that does not fit.
\<close>

fun measure_from :: "(u32 \<times> u32) list \<Rightarrow> pairs \<Rightarrow> encode_error + (u32 \<times> u32) list" where
  "measure_from lengths [] = Inr lengths"
| "measure_from lengths ((key, value) # rest) =
     (let pair = length lengths in
      case (length_of pair Key key, length_of pair Value value) of
        (Inr key_len, Inr value_len) \<Rightarrow> measure_from (lengths @ [(key_len, value_len)]) rest
      | (Inl error, _) \<Rightarrow> Inl error
      | (_, Inl error) \<Rightarrow> Inl error)"

definition measure_pairs :: "pairs \<Rightarrow> encode_error + (u32 \<times> u32) list" where
  "measure_pairs walk = measure_from [] walk"

fun add_sizes :: "nat \<Rightarrow> (u32 \<times> u32) list \<Rightarrow> nat option" where
  "add_sizes acc [] = Some acc"
| "add_sizes acc ((key_len, value_len) # rest) =
     (case usize_checked_add acc (pair_encoded_size (unat key_len) (unat value_len)) of
        None \<Rightarrow> None
      | Some acc' \<Rightarrow> add_sizes acc' rest)"

fun write_pairs :: "nat \<Rightarrow> nat \<Rightarrow> bytes \<Rightarrow> pairs \<Rightarrow> bytes" where
  "write_pairs count written out [] = out"
| "write_pairs count written out ((key, value) # rest) =
     (if written = count then out
      else write_pairs count (written + 1)
        (out @ key @ [TERMINATOR] @ value @ [TERMINATOR]) rest)"

definition length_table :: "(u32 \<times> u32) list \<Rightarrow> bytes" where
  "length_table lengths =
     concat (map (\<lambda>(key_len, value_len). u32_to_le_bytes key_len @ u32_to_le_bytes value_len) lengths)"

definition encode_visited :: "pairs \<Rightarrow> pairs \<Rightarrow> encode_error + bytes" where
  "encode_visited walk1 walk2 =
     rbind (measure_pairs walk1) (\<lambda>lengths.
       if lengths = [] then Inr []
       else
         rbind (ok_or (TooManyPairs (length lengths)) (u32_try_from_usize (length lengths))) (\<lambda>count.
         rbind (ok_or TooLarge (add_sizes COUNT_SIZE lengths)) (\<lambda>size.
           let out = write_pairs (length lengths) 0
                       (u32_to_le_bytes count @ length_table lengths) walk2
           in if length out = size then Inr out else Inl Changed)))"

definition encode_pairs :: "pairs \<Rightarrow> encode_error + bytes" where
  "encode_pairs ps = encode_visited ps ps"

section \<open>Decoding\<close>

record cursor =
  cdata :: bytes
  cpos :: nat
  cpair :: u32

definition cursor_take :: "u32 \<Rightarrow> field \<Rightarrow> cursor \<Rightarrow> decode_error + (bytes \<times> cursor)" where
  "cursor_take len field c =
     (let truncated = (case field of
            Key \<Rightarrow> TruncatedKey (cpair c) | Value \<Rightarrow> TruncatedValue (cpair c)) in
      rbind (ok_or truncated (usize_checked_add (cpos c) (unat len))) (\<lambda>stop.
      rbind (if stop \<le> length (cdata c) then Inr (take (stop - cpos c) (drop (cpos c) (cdata c)))
             else Inl truncated) (\<lambda>bs.
        if length (cdata c) \<le> stop then Inl truncated
        else if cdata c ! stop = TERMINATOR then Inr (bs, c\<lparr>cpos := stop + 1\<rparr>)
        else Inl (MissingTerminator (cpair c) field))))"

definition cursor_finish :: "cursor \<Rightarrow> decode_error + unit" where
  "cursor_finish c =
     (let remaining = length (cdata c) - cpos c in
      if remaining = 0 then Inr () else Inl (TrailingBytes remaining))"

definition first_chunk :: "nat \<Rightarrow> bytes \<Rightarrow> bytes option" where
  "first_chunk n data = (if n \<le> length data then Some (take n data) else None)"

definition last_chunk :: "nat \<Rightarrow> bytes \<Rightarrow> bytes option" where
  "last_chunk n data = (if n \<le> length data then Some (drop (length data - n) data) else None)"

text \<open>The whole chunks of eight bytes, as \<open>as_chunks\<close> gives them.\<close>

fun chunks8 :: "bytes \<Rightarrow> bytes list" where
  "chunks8 (a # b # c # d # e # f # g # h # rest) = [a, b, c, d, e, f, g, h] # chunks8 rest"
| "chunks8 _ = []"

fun decode_entries ::
  "decode_error \<Rightarrow> bytes list \<Rightarrow> pairs \<Rightarrow> cursor \<Rightarrow> decode_error + (pairs \<times> cursor)" where
  "decode_entries truncated [] ps c = Inr (ps, c)"
| "decode_entries truncated (lengths # table) ps c =
     rbind (ok_or truncated (first_chunk LENGTH_SIZE lengths)) (\<lambda>key_len.
     rbind (ok_or truncated (last_chunk LENGTH_SIZE lengths)) (\<lambda>value_len.
     rbind (cursor_take (u32_from_le_bytes key_len) Key c) (\<lambda>(key, c).
     rbind (cursor_take (u32_from_le_bytes value_len) Value c) (\<lambda>(value, c).
       decode_entries truncated table (ps @ [(key, value)]) (c\<lparr>cpair := cpair c + 1\<rparr>)))))"

definition table_end_of :: "nat \<Rightarrow> nat \<Rightarrow> nat option" where
  "table_end_of pair_count data_len =
     (case usize_checked_mul pair_count (2 * LENGTH_SIZE) of
        None \<Rightarrow> None
      | Some table_len \<Rightarrow>
          (case usize_checked_add COUNT_SIZE table_len of
             None \<Rightarrow> None
           | Some table_end \<Rightarrow> if table_end \<le> data_len then Some table_end else None))"

definition decode_pairs :: "bytes \<Rightarrow> pair_limits \<Rightarrow> decode_error + pairs" where
  "decode_pairs data limits =
     rbind (check_bytes limits (length data)) (\<lambda>_.
     if data = [] \<or> data = [TERMINATOR] then Inr []
     else
       rbind (ok_or TruncatedCount (map_option u32_from_le_bytes (first_chunk COUNT_SIZE data))) (\<lambda>count.
       rbind (check_pairs limits count) (\<lambda>_.
       let truncated_lengths = TruncatedLengths count; pair_count = unat count in
       rbind (ok_or truncated_lengths (table_end_of pair_count (length data))) (\<lambda>table_end.
       rbind (decode_entries truncated_lengths
                (chunks8 (take (table_end - COUNT_SIZE) (drop COUNT_SIZE data))) []
                \<lparr>cdata = data, cpos = table_end, cpair = 0\<rparr>) (\<lambda>(ps, c).
       rbind (cursor_finish c) (\<lambda>_. Inr ps))))))"

section \<open>Property paths\<close>

definition SEPARATOR :: u8 where "SEPARATOR = 0"

fun join_with :: "'a \<Rightarrow> 'a list list \<Rightarrow> 'a list" where
  "join_with sep [] = []"
| "join_with sep [s] = s"
| "join_with sep (s # t # rest) = s @ [sep] @ join_with sep (t # rest)"

definition encode_path :: "bytes list \<Rightarrow> bytes" where
  "encode_path segments = join_with SEPARATOR segments"

text \<open>\<open>slice::split\<close>: always one more piece than there are separators.\<close>

fun split_on :: "'a \<Rightarrow> 'a list \<Rightarrow> 'a list list" where
  "split_on sep [] = [[]]"
| "split_on sep (x # xs) =
     (if x = sep then [] # split_on sep xs
      else (case split_on sep xs of [] \<Rightarrow> [[x]] | s # ss \<Rightarrow> (x # s) # ss))"

definition strip_suffix_byte :: "u8 \<Rightarrow> bytes \<Rightarrow> bytes" where
  "strip_suffix_byte b data = (if data \<noteq> [] \<and> last data = b then butlast data else data)"

definition decode_path :: "bytes \<Rightarrow> bytes list" where
  "decode_path data =
     (let trimmed = strip_suffix_byte SEPARATOR data in
      if trimmed = [] then [] else split_on SEPARATOR trimmed)"

section \<open>The encoders in closed form\<close>

definition pair_body :: "pairs \<Rightarrow> bytes" where
  "pair_body ps = concat (map (\<lambda>(key, value). key @ [TERMINATOR] @ value @ [TERMINATOR]) ps)"

definition pair_lengths :: "pairs \<Rightarrow> (u32 \<times> u32) list" where
  "pair_lengths ps = map (\<lambda>(key, value). (of_nat (length key), of_nat (length value))) ps"

definition fits_u32 :: "pairs \<Rightarrow> bool" where
  "fits_u32 ps \<longleftrightarrow> (\<forall>(key, value) \<in> set ps. length key < 2 ^ 32 \<and> length value < 2 ^ 32)"

definition wire_form :: "pairs \<Rightarrow> bytes" where
  "wire_form ps =
     u32_to_le_bytes (of_nat (length ps)) @ length_table (pair_lengths ps) @ pair_body ps"

lemma pair_body_simps [simp]:
  "pair_body [] = []"
  "pair_body ((k, v) # ps) = k @ TERMINATOR # v @ TERMINATOR # pair_body ps"
  by (simp_all add: pair_body_def)

lemma pair_lengths_simps [simp]:
  "pair_lengths [] = []"
  "pair_lengths ((k, v) # ps) = (of_nat (length k), of_nat (length v)) # pair_lengths ps"
  "length (pair_lengths ps) = length ps"
  "pair_lengths ps = [] \<longleftrightarrow> ps = []"
  by (simp_all add: pair_lengths_def)

lemma fits_u32_simps [simp]:
  "fits_u32 []"
  "fits_u32 ((k, v) # ps) \<longleftrightarrow> length k < 2 ^ 32 \<and> length v < 2 ^ 32 \<and> fits_u32 ps"
  by (auto simp: fits_u32_def)

lemma length_table_simps [simp]:
  "length_table [] = []"
  "length_table ((k, v) # ls) = u32_to_le_bytes k @ u32_to_le_bytes v @ length_table ls"
  by (simp_all add: length_table_def)

lemma length_length_table [simp]: "length (length_table ls) = 8 * length ls"
  by (induction ls) auto

lemma length_pair_body_map:
  "length (pair_body ps) = sum_list (map (\<lambda>(k, v). length k + length v + 2) ps)"
  by (induction ps) auto

lemma length_of_Inr:
  "length_of n f bs = (if length bs < 2 ^ 32 then Inr (of_nat (length bs)) else Inl (TooLong n f (length bs)))"
  by (simp add: length_of_def u32_try_from_usize_def)

lemma measure_from_Inr:
  "measure_from acc ps = Inr ls \<longleftrightarrow> fits_u32 ps \<and> ls = acc @ pair_lengths ps"
  by (induction acc ps rule: measure_from.induct) (auto simp: length_of_Inr Let_def)

lemma measure_pairs_Inr:
  "measure_pairs ps = Inr ls \<longleftrightarrow> fits_u32 ps \<and> ls = pair_lengths ps"
  by (simp add: measure_pairs_def measure_from_Inr)

lemma pair_encoded_size_small:
  "k < 2 ^ 32 \<Longrightarrow> v < 2 ^ 32 \<Longrightarrow> pair_encoded_size k v = k + v + 10"
  by (simp add: pair_encoded_size_def usize_saturating_add_def LENGTH_SIZE_def usize_max_def)

lemma add_sizes_pair_lengths:
  "fits_u32 ps \<Longrightarrow> s \<le> usize_max \<Longrightarrow> add_sizes s (pair_lengths ps) =
     (if s + 8 * length ps + length (pair_body ps) \<le> usize_max
      then Some (s + 8 * length ps + length (pair_body ps)) else None)"
proof (induction ps arbitrary: s)
  case (Cons p ps)
  obtain k v where p: "p = (k, v)" by (cases p)
  have size: "pair_encoded_size (length k) (length v) = length k + length v + 10"
    using Cons.prems by (simp add: p pair_encoded_size_small)
  show ?case
    using Cons by (auto simp: p size usize_checked_add_def)
qed simp

lemma write_pairs_take:
  "i \<le> n \<Longrightarrow> write_pairs n i out ps = out @ pair_body (take (n - i) ps)"
proof (induction n i out ps rule: write_pairs.induct)
  case (2 n i out k v ps)
  then show ?case
    by (cases "n - i") (auto simp: diff_Suc)
qed simp

lemma length_wire_form: "length (wire_form ps) = 4 + 8 * length ps + length (pair_body ps)"
  by (simp add: wire_form_def)

lemma encode_visited_Inr:
  "encode_visited walk1 walk2 = Inr out \<longleftrightarrow>
     fits_u32 walk1 \<and>
     (if walk1 = [] then out = []
      else length walk1 < 2 ^ 32 \<and> length (wire_form walk1) \<le> usize_max
        \<and> length (pair_body (take (length walk1) walk2)) = length (pair_body walk1)
        \<and> out = u32_to_le_bytes (of_nat (length walk1)) @ length_table (pair_lengths walk1)
                  @ pair_body (take (length walk1) walk2))"
proof (cases "fits_u32 walk1")
  case True
  then show ?thesis
    by (auto simp: encode_visited_def rbind_eq_Inr measure_pairs_Inr u32_try_from_usize_Some
        add_sizes_pair_lengths COUNT_SIZE_def write_pairs_take length_wire_form Let_def
        usize_max_def split: if_splits)
next
  case False
  then show ?thesis
    by (simp add: encode_visited_def rbind_eq_Inr measure_pairs_Inr)
qed

lemma encode_pairs_Inr:
  "encode_pairs ps = Inr out \<longleftrightarrow>
     (if ps = [] then out = []
      else fits_u32 ps \<and> length ps < 2 ^ 32 \<and> length (wire_form ps) \<le> usize_max \<and> out = wire_form ps)"
  by (auto simp: encode_pairs_def encode_visited_Inr wire_form_def)

section \<open>The decoder\<close>

lemma first_chunk_Some [simp]: "first_chunk n d = Some w \<longleftrightarrow> n \<le> length d \<and> w = take n d"
  by (auto simp: first_chunk_def)

lemma last_chunk_Some [simp]:
  "last_chunk n d = Some w \<longleftrightarrow> n \<le> length d \<and> w = drop (length d - n) d"
  by (auto simp: last_chunk_def)

lemma usize_max_ge [simp]: "n < 2 ^ 32 \<Longrightarrow> n + 2 ^ 32 \<le> usize_max"
  by (simp add: usize_max_def)

text \<open>
  Taking a field succeeds exactly when the unread input starts with the field and its
  terminator.
\<close>

lemma cursor_take_Inr:
  assumes "length (cdata c) \<le> usize_max" and "cpos c \<le> length (cdata c)"
  shows "cursor_take len f c = Inr (bs, c') \<longleftrightarrow>
    length bs = unat len \<and> c' = c\<lparr>cpos := cpos c + unat len + 1\<rparr> \<and>
    cpos c' \<le> length (cdata c) \<and>
    drop (cpos c) (cdata c) = bs @ TERMINATOR # drop (cpos c') (cdata c)"
    (is "?lhs = ?rhs")
proof
  assume l: ?lhs
  define p d n where "p = cpos c" and "d = cdata c" and "n = unat len"
  have r: "p + n < length d" "d ! (p + n) = TERMINATOR" "bs = take n (drop p d)"
      "c' = c\<lparr>cpos := p + n + 1\<rparr>"
    using l by (auto simp: cursor_take_def rbind_eq_Inr Let_def p_def d_def n_def split: if_splits)
  moreover have "drop p d = take n (drop p d) @ d ! (p + n) # drop (p + n + 1) d"
    using r id_take_nth_drop [of n "drop p d"] by (simp add: add.commute)
  ultimately show ?rhs
    by (simp add: p_def d_def n_def)
next
  assume r: ?rhs
  then have "cdata c ! (cpos c + unat len) = TERMINATOR"
    using nth_drop [of "cpos c" "cdata c" "unat len"] assms by (simp add: nth_append)
  moreover have "take (unat len) (drop (cpos c) (cdata c)) = bs"
    using r by simp
  ultimately show ?lhs
    using r assms by (auto simp: cursor_take_def rbind_eq_Inr Let_def)
qed

lemma chunks8_append:
  "length w = 8 \<Longrightarrow> chunks8 (w @ rest) = w # chunks8 rest"
  by (auto simp: length_Suc_conv numeral_eq_Suc)

lemma chunks8_length: "w \<in> set (chunks8 d) \<Longrightarrow> length w = 8"
  by (induction d rule: chunks8.induct) auto

definition entry_of :: "bytes \<Rightarrow> u32 \<times> u32" where
  "entry_of w = (u32_from_le_bytes (take 4 w), u32_from_le_bytes (drop 4 w))"

lemma entry_bytes:
  "length w = 8 \<Longrightarrow> u32_to_le_bytes (fst (entry_of w)) @ u32_to_le_bytes (snd (entry_of w)) = w"
  by (simp add: entry_of_def u32_to_from_le_bytes)

lemma length_table_chunks8:
  "length d = 8 * n \<Longrightarrow> length_table (map entry_of (chunks8 d)) = d \<and> length (chunks8 d) = n"
proof (induction n arbitrary: d)
  case (Suc n)
  have "length (drop 8 d) = 8 * n" using Suc.prems by simp
  note rest = Suc.IH [OF this]
  have d: "d = take 8 d @ drop 8 d" and w: "length (take 8 d) = 8"
    using Suc.prems by simp_all
  have "chunks8 d = take 8 d # chunks8 (drop 8 d)"
    by (subst d) (rule chunks8_append [OF w])
  then have "length_table (map entry_of (chunks8 d)) = take 8 d @ drop 8 d"
    using rest entry_bytes [OF w] by (cases "entry_of (take 8 d)") (auto simp flip: append_assoc)
  with rest \<open>chunks8 d = _\<close> show ?case by simp
qed simp

lemma map_entry_of_length_table: "map entry_of (chunks8 (length_table ls)) = ls"
proof (induction ls)
  case (Cons l ls)
  obtain k v where l: "l = (k, v)" by (cases l)
  have "length_table (l # ls) = (u32_to_le_bytes k @ u32_to_le_bytes v) @ length_table ls"
    by (simp add: l)
  then have "chunks8 (length_table (l # ls)) = (u32_to_le_bytes k @ u32_to_le_bytes v) # chunks8 (length_table ls)"
    by (simp only: chunks8_append [of "u32_to_le_bytes k @ u32_to_le_bytes v"] length_append
        length_u32_to_le_bytes)
  with Cons.IH show ?case
    by (simp add: entry_of_def l)
qed simp

lemma decode_entries_step:
  assumes "length w = 8"
  shows "decode_entries e (w # table) ps c =
    rbind (cursor_take (fst (entry_of w)) Key c) (\<lambda>(key, c).
    rbind (cursor_take (snd (entry_of w)) Value c) (\<lambda>(value, c).
      decode_entries e table (ps @ [(key, value)]) (c\<lparr>cpair := cpair c + 1\<rparr>)))"
  using assms by (simp add: first_chunk_def last_chunk_def LENGTH_SIZE_def entry_of_def)

lemma decode_entries_sound:
  assumes "\<forall>w \<in> set table. length w = 8"
    and "length (cdata c) \<le> usize_max" and "cpos c \<le> length (cdata c)"
    and "decode_entries e table acc c = Inr (ps, c')"
  shows "\<exists>new. ps = acc @ new \<and> map entry_of table = pair_lengths new \<and> fits_u32 new \<and>
      cdata c' = cdata c \<and> cpos c' = cpos c + length (pair_body new) \<and>
      cpos c' \<le> length (cdata c) \<and>
      drop (cpos c) (cdata c) = pair_body new @ drop (cpos c') (cdata c)"
  using assms
proof (induction table arbitrary: acc c)
  case (Cons w table)
  from Cons.prems obtain k c1 v c2 where
    k: "cursor_take (fst (entry_of w)) Key c = Inr (k, c1)" and
    v: "cursor_take (snd (entry_of w)) Value c1 = Inr (v, c2)" and
    rest: "decode_entries e table (acc @ [(k, v)]) (c2\<lparr>cpair := cpair c2 + 1\<rparr>) = Inr (ps, c')"
    by (auto simp: decode_entries_step rbind_eq_Inr simp del: decode_entries.simps)
  note k = k [unfolded cursor_take_Inr [OF Cons.prems(2,3)]]
  then have c1: "length (cdata c1) \<le> usize_max" "cpos c1 \<le> length (cdata c1)"
    using Cons.prems by auto
  note v = v [unfolded cursor_take_Inr [OF c1]]
  have "\<exists>new. ps = (acc @ [(k, v)]) @ new \<and> map entry_of table = pair_lengths new \<and> fits_u32 new \<and>
      cdata c' = cdata c2 \<and> cpos c' = cpos c2 + length (pair_body new) \<and>
      cpos c' \<le> length (cdata c2) \<and>
      drop (cpos c2) (cdata c2) = pair_body new @ drop (cpos c') (cdata c2)"
    using Cons.IH [OF _ _ _ rest] Cons.prems k v by auto
  then obtain new where new: "ps = (acc @ [(k, v)]) @ new" "map entry_of table = pair_lengths new"
      "fits_u32 new" "cdata c' = cdata c2" "cpos c' = cpos c2 + length (pair_body new)"
      "cpos c' \<le> length (cdata c2)"
      "drop (cpos c2) (cdata c2) = pair_body new @ drop (cpos c') (cdata c2)"
    by blast
  have "entry_of w = (of_nat (length k), of_nat (length v))"
    using k v by (cases "entry_of w") auto
  moreover have "length k < 2 ^ 32" "length v < 2 ^ 32"
    using k v by auto
  ultimately show ?case
    using k v new by (intro exI [of _ "(k, v) # new"]) auto
qed auto

lemma decode_entries_complete:
  assumes "\<forall>w \<in> set table. length w = 8"
    and "length (cdata c) \<le> usize_max" and "cpos c \<le> length (cdata c)"
    and "map entry_of table = pair_lengths new" and "fits_u32 new"
    and "drop (cpos c) (cdata c) = pair_body new @ rest"
  shows "\<exists>n. decode_entries e table acc c =
    Inr (acc @ new, c\<lparr>cpos := cpos c + length (pair_body new), cpair := n\<rparr>)"
  using assms
proof (induction new arbitrary: table acc c)
  case Nil
  then show ?case by (intro exI [of _ "cpair c"]) simp
next
  case (Cons p new)
  obtain k v where p: "p = (k, v)" by (cases p)
  from Cons.prems(4) obtain w table' where table: "table = w # table'"
    and w: "entry_of w = (of_nat (length k), of_nat (length v))"
    and table': "map entry_of table' = pair_lengths new"
    by (auto simp: p)
  have len: "cpos c + length k + length v + 2 + length (pair_body new) \<le> length (cdata c)"
    using arg_cong [OF Cons.prems(6), of length] Cons.prems(3) by (simp add: p)
  have small: "unat (of_nat (length k) :: u32) = length k" "unat (of_nat (length v) :: u32) = length v"
    using Cons.prems(5) by (simp_all add: p)
  define c1 where "c1 = c\<lparr>cpos := cpos c + length k + 1\<rparr>"
  define c2 where "c2 = c1\<lparr>cpos := cpos c1 + length v + 1\<rparr>"
  have d1: "drop (cpos c1) (cdata c1) = v @ TERMINATOR # pair_body new @ rest"
    using arg_cong [OF Cons.prems(6), of "drop (length k + 1)"]
    by (simp add: c1_def p add.commute add.left_commute)
  have d2: "drop (cpos c2) (cdata c2) = pair_body new @ rest"
    using arg_cong [OF d1, of "drop (length v + 1)"]
    by (simp add: c2_def add.commute add.left_commute)
  have t1: "cursor_take (of_nat (length k)) Key c = Inr (k, c1)"
    using Cons.prems len d1 small(1) by (subst cursor_take_Inr) (auto simp: c1_def p)
  have t2: "cursor_take (of_nat (length v)) Value c1 = Inr (v, c2)"
    using Cons.prems len d1 d2 small(2) by (subst cursor_take_Inr) (auto simp: c1_def c2_def p)
  have "\<exists>n. decode_entries e table' (acc @ [(k, v)]) (c2\<lparr>cpair := cpair c2 + 1\<rparr>) =
      Inr ((acc @ [(k, v)]) @ new,
        (c2\<lparr>cpair := cpair c2 + 1\<rparr>)\<lparr>cpos := cpos c2 + length (pair_body new), cpair := n\<rparr>)"
    using Cons.IH [of table' "c2\<lparr>cpair := cpair c2 + 1\<rparr>" "acc @ [(k, v)]"]
      Cons.prems table' d2 len by (simp add: table p c1_def c2_def)
  moreover have "decode_entries e table acc c =
      decode_entries e table' (acc @ [(k, v)]) (c2\<lparr>cpair := cpair c2 + 1\<rparr>)"
    using Cons.prems(1) by (simp add: table decode_entries_step w t1 t2 del: decode_entries.simps)
  ultimately show ?case
    by (auto simp: p c1_def c2_def add.assoc)
qed

lemma table_end_of_Some:
  "table_end_of n len = Some t \<longleftrightarrow> t = 4 + 8 * n \<and> t \<le> usize_max \<and> t \<le> len"
  by (auto simp: table_end_of_def usize_checked_mul_def usize_checked_add_def COUNT_SIZE_def
      LENGTH_SIZE_def split: if_splits)

lemma cursor_finish_Inr [simp]: "cursor_finish c = Inr u \<longleftrightarrow> length (cdata c) \<le> cpos c"
  by (auto simp: cursor_finish_def Let_def)

lemma check_pairs_Inr [simp]:
  "check_pairs l n = Inr u \<longleftrightarrow> (\<forall>limit. max_pairs l = Some limit \<longrightarrow> n \<le> limit)"
  by (auto simp: check_pairs_def split: option.splits)

lemma check_bytes_Inr [simp]:
  "check_bytes l n = Inr u \<longleftrightarrow> (\<forall>limit. max_bytes l = Some limit \<longrightarrow> n \<le> limit)"
  by (auto simp: check_bytes_def split: option.splits)

lemma wire_form_parts:
  assumes "length ps < 2 ^ 32"
  shows "u32_from_le_bytes (take 4 (wire_form ps)) = of_nat (length ps)"
    and "take (8 * length ps) (drop 4 (wire_form ps)) = length_table (pair_lengths ps)"
    and "drop (4 + 8 * length ps) (wire_form ps) = pair_body ps"
  by (simp_all add: wire_form_def)

text \<open>Decoding the closed form gives the pairs back.\<close>

lemma decode_wire_form:
  assumes small: "fits_u32 ps" "length ps < 2 ^ 32" "length (wire_form ps) \<le> usize_max"
    and limits: "check_bytes l (length (wire_form ps)) = Inr ()" "check_pairs l (of_nat (length ps)) = Inr ()"
  shows "decode_pairs (wire_form ps) l = Inr ps"
proof -
  let ?d = "wire_form ps" and ?t = "4 + 8 * length ps"
  let ?c = "\<lparr>cdata = ?d, cpos = ?t, cpair = 0\<rparr>"
  have "\<exists>n. decode_entries e (chunks8 (length_table (pair_lengths ps))) [] ?c =
      Inr ([] @ ps, ?c\<lparr>cpos := cpos ?c + length (pair_body ps), cpair := n\<rparr>)" for e
    using small by (intro decode_entries_complete [where rest = "[]"])
      (auto simp: chunks8_length map_entry_of_length_table length_wire_form wire_form_parts)
  then obtain n where "decode_entries (TruncatedLengths (of_nat (length ps)))
      (chunks8 (length_table (pair_lengths ps))) [] ?c =
      Inr (ps, ?c\<lparr>cpos := cpos ?c + length (pair_body ps), cpair := n\<rparr>)"
    by auto
  moreover have "length ?d \<ge> 4" "?d \<noteq> []" "?d \<noteq> [TERMINATOR]"
    using length_wire_form [of ps] by (auto dest: arg_cong [of _ _ length])
  moreover have "table_end_of (length ps) (length ?d) = Some ?t"
    using small by (simp add: table_end_of_Some length_wire_form)
  ultimately show ?thesis
    using small limits
    by (simp add: decode_pairs_def Let_def COUNT_SIZE_def first_chunk_def wire_form_parts
        cursor_finish_def length_wire_form del: check_bytes_Inr check_pairs_Inr)
qed

text \<open>What the decoder accepts is the closed form of what it gives, or one of the short forms.\<close>

lemma decode_pairs_sound:
  assumes "decode_pairs data l = Inr ps" and "length data \<le> usize_max"
  shows "(ps = [] \<and> (data = [] \<or> data = [TERMINATOR])) \<or>
    (data = wire_form ps \<and> fits_u32 ps \<and> length ps < 2 ^ 32 \<and>
     check_pairs l (of_nat (length ps)) = Inr ())"
    and "check_bytes l (length data) = Inr ()"
proof -
  show "check_bytes l (length data) = Inr ()"
    using assms by (auto simp: decode_pairs_def rbind_eq_Inr)
  show "(ps = [] \<and> (data = [] \<or> data = [TERMINATOR])) \<or>
    (data = wire_form ps \<and> fits_u32 ps \<and> length ps < 2 ^ 32 \<and>
     check_pairs l (of_nat (length ps)) = Inr ())"
  proof (cases "data = [] \<or> data = [TERMINATOR]")
    case True
    then show ?thesis using assms by (auto simp: decode_pairs_def rbind_eq_Inr)
  next
    case False
    define n where "n = unat (u32_from_le_bytes (take 4 data))"
    obtain c where four: "4 \<le> length data" and t: "4 + 8 * n \<le> length data"
      and chk: "check_pairs l (u32_from_le_bytes (take 4 data)) = Inr ()"
      and ent: "decode_entries (TruncatedLengths (u32_from_le_bytes (take 4 data)))
        (chunks8 (take (8 * n) (drop 4 data))) [] \<lparr>cdata = data, cpos = 4 + 8 * n, cpair = 0\<rparr> = Inr (ps, c)"
      and fin: "length (cdata c) \<le> cpos c"
      using assms False
      by (auto simp: decode_pairs_def rbind_eq_Inr Let_def COUNT_SIZE_def table_end_of_Some n_def)
    have body: "fits_u32 ps" "map entry_of (chunks8 (take (8 * n) (drop 4 data))) = pair_lengths ps"
        "drop (4 + 8 * n) data = pair_body ps"
      using decode_entries_sound [OF _ _ _ ent] t fin assms(2) by (auto simp: chunks8_length)
    moreover have tab: "length_table (pair_lengths ps) = take (8 * n) (drop 4 data)"
        and len: "length ps = n"
      using length_table_chunks8 [of "take (8 * n) (drop 4 data)" n] body(2) t
      by (auto dest: arg_cong [of _ _ length])
    moreover have cnt: "u32_to_le_bytes (of_nat n) = take 4 data"
      using four by (simp add: n_def u32_to_from_le_bytes)
    moreover have "data = take 4 data @ take (8 * n) (drop 4 data) @ drop (4 + 8 * n) data"
      by (metis append_take_drop_id drop_drop add.commute)
    ultimately have "data = wire_form ps"
      by (simp add: wire_form_def)
    moreover have "of_nat (length ps) = u32_from_le_bytes (take 4 data)" "length ps < 2 ^ 32"
      by (simp_all add: len n_def)
    ultimately show ?thesis using body(1) chk by simp
  qed
qed

section \<open>Sizes and reservations\<close>

lemma foldl_encoded_size:
  "fits_u32 ps \<Longrightarrow> a + 8 * length ps + length (pair_body ps) \<le> usize_max \<Longrightarrow>
   foldl (\<lambda>s (key, value). usize_saturating_add s (pair_encoded_size (length key) (length value))) a ps
     = a + 8 * length ps + length (pair_body ps)"
proof (induction ps arbitrary: a)
  case (Cons p ps)
  obtain k v where p: "p = (k, v)" by (cases p)
  show ?case
    using Cons.prems Cons.IH [of "a + (length k + length v + 10)"]
    by (simp add: p pair_encoded_size_small usize_saturating_add_def)
qed simp

lemma pair_body_ge: "2 * length ps \<le> length (pair_body ps)"
  by (induction ps) auto

lemma fits_u32_if_pairs: "length (wire_form ps) < 2 ^ 32 \<Longrightarrow> fits_u32 ps \<and> length ps < 2 ^ 32"
proof -
  assume small: "length (wire_form ps) < 2 ^ 32"
  have "length k + length v + 2 \<le> length (pair_body ps)" if "(k, v) \<in> set ps" for k v
    using that by (induction ps) auto
  with small show ?thesis
    by (fastforce simp: fits_u32_def length_wire_form)
qed

lemma decode_encode_limits:
  assumes "encode_pairs ps = Inr out"
    and "check_bytes limits (length out) = Inr ()"
    and "check_pairs limits (of_nat (length ps)) = Inr ()"
  shows "decode_pairs out limits = Inr ps"
proof (cases "ps = []")
  case True
  with assms show ?thesis
    by (simp add: encode_pairs_Inr decode_pairs_def del: check_bytes_Inr)
next
  case False
  with assms show ?thesis
    by (auto simp: encode_pairs_Inr simp del: check_bytes_Inr check_pairs_Inr
        intro!: decode_wire_form)
qed

lemma decode_encode_unlimited:
  "encode_pairs ps = Inr out \<Longrightarrow> decode_pairs out pair_limits_unlimited = Inr ps"
  by (rule decode_encode_limits) (simp_all add: pair_limits_unlimited_def)

lemma encode_pairs_size: "encode_pairs ps = Inr out \<Longrightarrow> encoded_size ps = length out"
  using foldl_encoded_size [of ps 0]
  by (auto simp: encode_pairs_Inr encoded_size_def total_size_def usize_saturating_add_def
      length_wire_form COUNT_SIZE_def split: if_splits)

text \<open>
  C33. Round trip of the map codec: whatever list of pairs the encoder accepts, the decoder
  gives back the same list from the bytes, in order and with duplicates, whenever the limits
  admit the size of the bytes and the number of the pairs.
\<close>

theorem decode_encode_pairs:
  assumes "encode_pairs ps = Inr out"
    and "check_bytes limits (length out) = Inr ()"
    and "check_pairs limits (of_nat (length ps)) = Inr ()"
  shows "decode_pairs out limits = Inr ps"
  using assms by (rule decode_encode_limits)

lemma decode_encode_pairs_witness:
  "decode_pairs (wire_form [([1], [2, 3]), ([], []), ([1], [0])]) pair_limits_default
     = Inr [([1], [2, 3]), ([], []), ([1], [0])]"
proof (rule decode_encode_pairs)
  show "encode_pairs [([1], [2, 3]), ([], []), ([1], [0])]
      = Inr (wire_form [([1], [2, 3]), ([], []), ([1], [0])])"
    by (simp add: encode_pairs_Inr length_wire_form usize_max_def)
qed (simp_all add: length_wire_form pair_limits_default_def DEFAULT_MAX_DECODED_MAP_BYTES_def
    DEFAULT_MAX_DECODED_PAIRS_def)

text \<open>
  C34. The decoder is canonical: bytes it accepts that give at least one pair are exactly what
  the encoder writes for those pairs, and the only bytes that give no pair are no bytes, one
  zero byte and the four zero bytes of a zero count. No other spelling of a map is accepted.
\<close>

theorem decode_pairs_canonical:
  assumes "decode_pairs data limits = Inr ps" and "length data \<le> usize_max"
  shows "if ps = [] then data \<in> {[], [0], [0, 0, 0, 0]} else encode_pairs ps = Inr data"
proof -
  have "wire_form [] = [0, 0, 0, 0]"
    by (simp add: wire_form_def u32_to_le_bytes_parts)
  with decode_pairs_sound(1) [OF assms] assms(2) show ?thesis
    by (auto simp: encode_pairs_Inr TERMINATOR_def)
qed

lemma decode_pairs_canonical_witness:
  "encode_pairs [([5], [])] = Inr [1, 0, 0, 0, 1, 0, 0, 0, 0, 0, 0, 0, 5, 0, 0]"
  using decode_pairs_canonical
    [of "[1, 0, 0, 0, 1, 0, 0, 0, 0, 0, 0, 0, 5, 0, 0]" pair_limits_unlimited "[([5], [])]"]
  by (simp add: decode_pairs_def check_bytes_def check_pairs_def pair_limits_unlimited_def
      first_chunk_def last_chunk_def COUNT_SIZE_def LENGTH_SIZE_def TERMINATOR_def
      table_end_of_def usize_checked_mul_def usize_checked_add_def usize_max_def
      u32_from_le_bytes_def cursor_take_def cursor_finish_def Let_def)

text \<open>
  Limits and memory of a decode: input over the byte limit and a count over the pair limit
  are refused with the two numbers, and an accepted input fills the reserved vector exactly,
  so a declared count never makes the decoder reserve more than the input can hold.
\<close>

theorem decode_pairs_limits:
  "(case max_bytes limits of Some b \<Rightarrow> length data > b \<longrightarrow>
      decode_pairs data limits = Inl (ByteLimit (length data) b) | None \<Rightarrow> True) \<and>
   (case max_pairs limits of Some p \<Rightarrow>
      check_bytes limits (length data) = Inr () \<longrightarrow> 4 \<le> length data \<longrightarrow>
      u32_from_le_bytes (take 4 data) > p \<longrightarrow>
      decode_pairs data limits = Inl (PairLimit (u32_from_le_bytes (take 4 data)) p) | None \<Rightarrow> True) \<and>
   (\<forall>ps. length data \<le> usize_max \<longrightarrow> 4 \<le> length data \<longrightarrow> decode_pairs data limits = Inr ps \<longrightarrow>
      length ps = reserve_for (unat (u32_from_le_bytes (take 4 data))) (length data) (4 + 8 * length ps))"
proof (intro conjI)
  show "case max_bytes limits of Some b \<Rightarrow> length data > b \<longrightarrow>
      decode_pairs data limits = Inl (ByteLimit (length data) b) | None \<Rightarrow> True"
    by (simp add: decode_pairs_def check_bytes_def split: option.split)
  show "case max_pairs limits of Some p \<Rightarrow>
      check_bytes limits (length data) = Inr () \<longrightarrow> 4 \<le> length data \<longrightarrow>
      u32_from_le_bytes (take 4 data) > p \<longrightarrow>
      decode_pairs data limits = Inl (PairLimit (u32_from_le_bytes (take 4 data)) p) | None \<Rightarrow> True"
    by (auto simp: decode_pairs_def check_pairs_def first_chunk_def COUNT_SIZE_def Let_def
        simp del: check_bytes_Inr split: option.split)
  show "\<forall>ps. length data \<le> usize_max \<longrightarrow> 4 \<le> length data \<longrightarrow> decode_pairs data limits = Inr ps \<longrightarrow>
      length ps = reserve_for (unat (u32_from_le_bytes (take 4 data))) (length data) (4 + 8 * length ps)"
  proof (intro allI impI)
    fix ps
    assume "length data \<le> usize_max" "4 \<le> length data" and d: "decode_pairs data limits = Inr ps"
    then have "data = wire_form ps" "length ps < 2 ^ 32"
      using decode_pairs_sound(1) [OF d] by (auto simp: TERMINATOR_def)
    then show "length ps = reserve_for (unat (u32_from_le_bytes (take 4 data))) (length data) (4 + 8 * length ps)"
      using pair_body_ge [of ps] by (simp add: reserve_for_def wire_form_parts length_wire_form)
  qed
qed

lemma decode_pairs_limits_witness:
  "decode_pairs [0, 0, 0, 0, 0] (with_bytes (Some 4) pair_limits_unlimited) = Inl (ByteLimit 5 4)"
  using decode_pairs_limits [of "[0, 0, 0, 0, 0]" "with_bytes (Some 4) pair_limits_unlimited"]
  by (simp add: with_bytes_def pair_limits_unlimited_def)

text \<open>
  What the second walk of a source can change. The encoder walks a source twice and
  compares the total size alone: it fails with the change error exactly when the bodies of
  the two walks differ in length. A second walk that offers other pairs of the same total size
  is accepted, and the bytes then decode to neither walk.
\<close>

theorem encode_visited_changed:
  "(walk1 \<noteq> [] \<longrightarrow> encode_pairs walk1 = Inr out \<longrightarrow>
     (encode_visited walk1 walk2 = Inl Changed \<longleftrightarrow>
      length (pair_body (take (length walk1) walk2)) \<noteq> length (pair_body walk1))) \<and>
   encode_visited [([1, 2], [3])] [([1], [2, 3])] =
     Inr [1, 0, 0, 0, 2, 0, 0, 0, 1, 0, 0, 0, 1, 0, 2, 3, 0] \<and>
   decode_pairs [1, 0, 0, 0, 2, 0, 0, 0, 1, 0, 0, 0, 1, 0, 2, 3, 0] pair_limits_unlimited =
     Inl (MissingTerminator 0 Key)"
proof (intro conjI impI)
  assume "walk1 \<noteq> []" "encode_pairs walk1 = Inr out"
  then have w: "fits_u32 walk1" "length walk1 < 2 ^ 32" "length (wire_form walk1) \<le> usize_max"
    by (simp_all add: encode_pairs_Inr)
  then have "add_sizes COUNT_SIZE (pair_lengths walk1) = Some (length (wire_form walk1))"
    by (simp add: add_sizes_pair_lengths COUNT_SIZE_def length_wire_form usize_max_def)
  moreover have "measure_pairs walk1 = Inr (pair_lengths walk1)"
    using w by (simp add: measure_pairs_Inr)
  ultimately show "(encode_visited walk1 walk2 = Inl Changed) =
      (length (pair_body (take (length walk1) walk2)) \<noteq> length (pair_body walk1))"
    using w \<open>walk1 \<noteq> []\<close>
    by (simp add: encode_visited_def u32_try_from_usize_def write_pairs_take Let_def length_wire_form)
next
  show "encode_visited [([1, 2], [3])] [([1], [2, 3])] =
      Inr [1, 0, 0, 0, 2, 0, 0, 0, 1, 0, 0, 0, 1, 0, 2, 3, 0]"
    by (simp add: encode_visited_Inr length_wire_form usize_max_def TERMINATOR_def
        u32_to_le_bytes_parts)
  show "decode_pairs [1, 0, 0, 0, 2, 0, 0, 0, 1, 0, 0, 0, 1, 0, 2, 3, 0] pair_limits_unlimited =
      Inl (MissingTerminator 0 Key)"
    by (simp add: decode_pairs_def check_bytes_def check_pairs_def pair_limits_unlimited_def
        first_chunk_def last_chunk_def COUNT_SIZE_def LENGTH_SIZE_def TERMINATOR_def
        table_end_of_def usize_checked_mul_def usize_checked_add_def usize_max_def
        u32_from_le_bytes_def cursor_take_def Let_def)
qed

lemma encode_visited_changed_witness:
  "encode_visited [([], [])] [([7], [])] = Inl Changed"
  using encode_visited_changed [of "[([], [])]" "wire_form [([], [])]" "[([7], [])]"]
  by (simp add: encode_pairs_Inr length_wire_form usize_max_def)

section \<open>Paths\<close>

lemma split_on_append: "sep \<notin> set s \<Longrightarrow> split_on sep (s @ sep # rest) = s # split_on sep rest"
  by (induction s) auto

lemma split_on_single: "sep \<notin> set s \<Longrightarrow> split_on sep s = [s]"
  by (induction s) auto

lemma split_on_join_with:
  "ss \<noteq> [] \<Longrightarrow> \<forall>s \<in> set ss. sep \<notin> set s \<Longrightarrow> split_on sep (join_with sep ss) = ss"
  by (induction sep ss rule: join_with.induct) (auto simp: split_on_append split_on_single)

lemma last_join_with:
  "ss \<noteq> [] \<Longrightarrow> last ss \<noteq> [] \<Longrightarrow> join_with sep ss \<noteq> [] \<and> last (join_with sep ss) = last (last ss)"
  by (induction sep ss rule: join_with.induct) (auto split: if_splits)

lemma join_with_split_on: "join_with sep (split_on sep d) = d"
proof (induction d)
  case (Cons x d)
  have ne: "split_on sep d \<noteq> []" by (cases d) (auto split: list.split)
  then obtain s ss where "split_on sep d = s # ss" by (cases "split_on sep d") auto
  with Cons.IH show ?case by (cases ss) auto
qed simp

text \<open>
  Round trip of the path codec: segments that hold no zero byte, the last of them not
  empty, come back from their encoding, with and without the one trailing zero byte that the
  ABI asks a host to tolerate; and joining what a decode gives rebuilds the trimmed input.
\<close>

theorem decode_encode_path:
  "(segments \<noteq> [] \<longrightarrow> last segments \<noteq> [] \<longrightarrow> (\<forall>s \<in> set segments. 0 \<notin> set s) \<longrightarrow>
     decode_path (encode_path segments) = segments \<and>
     decode_path (encode_path segments @ [0]) = segments) \<and>
   encode_path (decode_path data) = strip_suffix_byte 0 data"
proof (intro conjI impI)
  assume s: "segments \<noteq> []" "last segments \<noteq> []" "\<forall>s \<in> set segments. 0 \<notin> set s"
  note last = last_join_with [OF s(1,2), of 0]
  have "last (join_with 0 segments) \<noteq> 0"
    using last s by (metis last_in_set)
  then show "decode_path (encode_path segments) = segments"
    using last s by (simp add: decode_path_def encode_path_def SEPARATOR_def strip_suffix_byte_def
        split_on_join_with)
  show "decode_path (encode_path segments @ [0]) = segments"
    using last s by (simp add: decode_path_def encode_path_def SEPARATOR_def strip_suffix_byte_def
        split_on_join_with)
next
  show "encode_path (decode_path data) = strip_suffix_byte 0 data"
    by (simp add: decode_path_def encode_path_def SEPARATOR_def Let_def join_with_split_on)
qed

lemma decode_encode_path_witness: "decode_path (encode_path [[1], [], [2, 3]] @ [0]) = [[1], [], [2, 3]]"
  using decode_encode_path [of "[[1], [], [2, 3]]" "[]"] by simp

end
