(* ===== verification/Header_Maps.thy ===== *)
theory Header_Maps
  imports Pair_Codec
begin

text \<open>
  Header maps (\<open>header_map.rs\<close>): the trait an embedder implements as a record of
  operations, the reads and the serialization the crate builds on its visitor, and the vector
  map the crate ships. The locale states what the trait documents, the vector map interprets it.
\<close>

section \<open>The trait\<close>

datatype not_allowed = NotAllowed

text \<open>
  The visitor \<open>for_each_pair\<close> borrows the map immutably; \<open>hm_walk m i\<close> is what
  its \<open>i\<close>-th call in one borrow offers, so a map may offer other pairs to a second walk.
\<close>

record 'm header_map_ops =
  hm_get :: "'m \<Rightarrow> bytes \<Rightarrow> bytes option"
  hm_walk :: "'m \<Rightarrow> nat \<Rightarrow> pairs"
  hm_set :: "'m \<Rightarrow> bytes \<Rightarrow> bytes \<Rightarrow> (not_allowed + unit) \<times> 'm"
  hm_add :: "'m \<Rightarrow> bytes \<Rightarrow> bytes \<Rightarrow> (not_allowed + unit) \<times> 'm"
  hm_remove :: "'m \<Rightarrow> bytes \<Rightarrow> (not_allowed + unit) \<times> 'm"
  hm_replace_all :: "'m \<Rightarrow> pairs \<Rightarrow> (not_allowed + unit) \<times> 'm"
  hm_len :: "'m \<Rightarrow> nat"

definition header_map_len :: "('m \<Rightarrow> nat \<Rightarrow> pairs) \<Rightarrow> 'm \<Rightarrow> nat" where
  "header_map_len walk m = foldl (\<lambda>count _. count + 1) 0 (walk m 0)"

definition header_map_is_empty :: "'m header_map_ops \<Rightarrow> 'm \<Rightarrow> bool" where
  "header_map_is_empty ops m \<longleftrightarrow> hm_len ops m = 0"

definition get_all :: "'m header_map_ops \<Rightarrow> 'm \<Rightarrow> bytes \<Rightarrow> bytes list" where
  "get_all ops m key =
     foldl (\<lambda>values (k, v). if k = key then values @ [v] else values) [] (hm_walk ops m 0)"

fun join_bytes :: "bytes \<Rightarrow> bytes list \<Rightarrow> bytes" where
  "join_bytes sep [] = []"
| "join_bytes sep [v] = v"
| "join_bytes sep (v # w # rest) = v @ sep @ join_bytes sep (w # rest)"

definition get_joined :: "'m header_map_ops \<Rightarrow> 'm \<Rightarrow> bytes \<Rightarrow> bytes \<Rightarrow> bytes option" where
  "get_joined ops m key separator =
     (let values = get_all ops m key in
      if values = [] then None else Some (join_bytes separator values))"

definition map_pairs :: "'m header_map_ops \<Rightarrow> 'm \<Rightarrow> pairs" where
  "map_pairs ops m = foldl (\<lambda>ps (k, v). ps @ [(k, v)]) [] (hm_walk ops m 0)"

definition encoded_size_of :: "'m header_map_ops \<Rightarrow> 'm \<Rightarrow> nat" where
  "encoded_size_of ops m =
     (let (count, pairs_size) =
        foldl (\<lambda>(count, size) (k, v).
          (count + 1, usize_saturating_add size (pair_encoded_size (length k) (length v))))
          (0, 0) (hm_walk ops m 0)
      in total_size count pairs_size)"

definition encode_map :: "'m header_map_ops \<Rightarrow> 'm \<Rightarrow> encode_error + bytes" where
  "encode_map ops m = encode_visited (hm_walk ops m 0) (hm_walk ops m 1)"

section \<open>What the trait promises\<close>

definition values_for :: "bytes \<Rightarrow> pairs \<Rightarrow> bytes list" where
  "values_for key ps = map snd (filter (\<lambda>p. fst p = key) ps)"

definition without :: "bytes \<Rightarrow> pairs \<Rightarrow> pairs" where
  "without key ps = filter (\<lambda>p. fst p \<noteq> key) ps"

lemma map_of_values_for: "map_of ps key = (case values_for key ps of [] \<Rightarrow> None | v # _ \<Rightarrow> Some v)"
  by (induction ps) (auto simp: values_for_def)

lemma map_of_without: "k' \<noteq> k \<Longrightarrow> map_of (without k ps) k' = map_of ps k'"
  by (induction ps) (auto simp: without_def)

lemma foldl_get_all:
  "foldl (\<lambda>values (k, v). if k = key then values @ [v] else values) acc ps = acc @ values_for key ps"
  by (induction ps arbitrary: acc) (auto simp: values_for_def)

lemma foldl_map_pairs: "foldl (\<lambda>ps (k, v). ps @ [(k, v)]) acc ps = acc @ ps"
  by (induction ps arbitrary: acc) auto

lemma foldl_count: "foldl (\<lambda>count _. Suc count) n xs = n + length xs"
  by (induction xs arbitrary: n) auto

lemma foldl_count_size:
  "foldl (\<lambda>(count, size) (k, v).
      (Suc count, usize_saturating_add size (pair_encoded_size (length k) (length v)))) (n, a) ps
   = (n + length ps, foldl (\<lambda>s (key, value).
        usize_saturating_add s (pair_encoded_size (length key) (length value))) a ps)"
  by (induction ps arbitrary: n a) auto

locale header_multimap =
  fixes ops :: "'m header_map_ops"
    and pairs_of :: "'m \<Rightarrow> pairs"
  assumes walk: "hm_walk ops m i = pairs_of m"
    and get_first: "hm_get ops m k = map_of (pairs_of m) k"
    and set_ok: "hm_set ops m k v = (Inr (), m') \<Longrightarrow>
      values_for k (pairs_of m') = [v] \<and> without k (pairs_of m') = without k (pairs_of m)"
    and add_ok: "hm_add ops m k v = (Inr (), m') \<Longrightarrow> pairs_of m' = pairs_of m @ [(k, v)]"
    and remove_ok: "hm_remove ops m k = (Inr (), m') \<Longrightarrow> pairs_of m' = without k (pairs_of m)"
    and replace_ok: "hm_replace_all ops m ps = (Inr (), m') \<Longrightarrow> pairs_of m' = ps"
    and len_ok: "hm_len ops m = length (pairs_of m)"
begin

lemma map_pairs_eq: "map_pairs ops m = pairs_of m"
  by (simp add: map_pairs_def walk foldl_map_pairs)

lemma get_all_eq: "get_all ops m k = values_for k (pairs_of m)"
  by (simp add: get_all_def walk foldl_get_all)

lemma get_get_all: "hm_get ops m k = (case get_all ops m k of [] \<Rightarrow> None | v # _ \<Rightarrow> Some v)"
  by (simp add: get_first get_all_eq map_of_values_for)

lemma get_joined_None: "get_joined ops m k sep = None \<longleftrightarrow> hm_get ops m k = None"
  by (simp add: get_joined_def Let_def get_get_all split: list.split)

lemma get_set: "hm_set ops m k v = (Inr (), m') \<Longrightarrow>
    hm_get ops m' k' = (if k' = k then Some v else hm_get ops m k')"
  using set_ok [of m k v m'] map_of_without [of k' k "pairs_of m"] map_of_without [of k' k "pairs_of m'"]
  by (auto simp: get_first map_of_values_for [of _ k])

lemma get_all_set: "hm_set ops m k v = (Inr (), m') \<Longrightarrow> get_all ops m' k = [v]"
  by (simp add: get_all_eq set_ok)

lemma get_joined_set: "hm_set ops m k v = (Inr (), m') \<Longrightarrow> get_joined ops m' k sep = Some v"
  by (simp add: get_joined_def get_all_set)

lemma get_remove: "hm_remove ops m k = (Inr (), m') \<Longrightarrow>
    hm_get ops m' k' = (if k' = k then None else hm_get ops m k')"
  using map_of_without [of k' k "pairs_of m"]
  by (auto simp: get_first remove_ok map_of_eq_None_iff without_def)

lemma get_add: "hm_add ops m k v = (Inr (), m') \<Longrightarrow>
    hm_get ops m' k' = (if k' = k \<and> hm_get ops m k = None then Some v else hm_get ops m k')"
  by (auto simp: get_first add_ok map_add_def split: option.split)

lemma encode_map_eq: "encode_map ops m = encode_pairs (pairs_of m)"
  by (simp add: encode_map_def encode_pairs_def walk)

lemma encode_map_stable: "encode_map ops m \<noteq> Inl Changed"
proof
  assume "encode_map ops m = Inl Changed"
  then have e: "encode_visited (pairs_of m) (pairs_of m) = Inl Changed"
    by (simp add: encode_map_def walk)
  then have "fits_u32 (pairs_of m)" "length (pairs_of m) < 2 ^ 32" "length (wire_form (pairs_of m)) \<le> usize_max"
  proof -
    have "measure_from acc ps \<noteq> Inl Changed" for acc ps
      by (induction acc ps rule: measure_from.induct) (auto simp: length_of_Inr Let_def split: sum.splits if_splits)
    with e obtain ls where ls: "measure_pairs (pairs_of m) = Inr ls"
      by (cases "measure_pairs (pairs_of m)") (auto simp: encode_visited_def measure_pairs_def)
    then show *: "fits_u32 (pairs_of m)" by (simp add: measure_pairs_Inr)
    show n: "length (pairs_of m) < 2 ^ 32"
      using e ls by (auto simp: encode_visited_def measure_pairs_Inr u32_try_from_usize_def split: if_splits)
    show "length (wire_form (pairs_of m)) \<le> usize_max"
      using e ls n * by (auto simp: encode_visited_def measure_pairs_Inr u32_try_from_usize_def
          add_sizes_pair_lengths COUNT_SIZE_def usize_max_def length_wire_form split: if_splits)
  qed
  then have "\<exists>out. encode_pairs (pairs_of m) = Inr out"
    by (cases "pairs_of m = []") (simp_all add: encode_pairs_Inr)
  with e show False by (simp add: encode_pairs_def)
qed

lemma encoded_size_of_eq: "encoded_size_of ops m = encoded_size (pairs_of m)"
  by (simp add: encoded_size_of_def encoded_size_def walk foldl_count_size)

lemma len_pairs: "header_map_len (hm_walk ops) m = hm_len ops m"
  by (simp add: header_map_len_def foldl_count walk len_ok)

end

section \<open>The vector map\<close>

record vec_header_map =
  vpairs :: pairs

definition vec_get :: "vec_header_map \<Rightarrow> bytes \<Rightarrow> bytes option" where
  "vec_get m key = map_option snd (find (\<lambda>(k, _). k = key) (vpairs m))"

definition vec_for_each_pair :: "vec_header_map \<Rightarrow> nat \<Rightarrow> pairs" where
  "vec_for_each_pair m i = vpairs m"

text \<open>The closure that \<open>set\<close> passes to \<open>retain_mut\<close>, run over the pairs in order.\<close>

fun retain_set :: "bytes \<Rightarrow> bytes \<Rightarrow> bool \<Rightarrow> pairs \<Rightarrow> pairs \<times> bool" where
  "retain_set key value kept_one [] = ([], kept_one)"
| "retain_set key value kept_one ((k, v) # rest) =
     (if k \<noteq> key then
        (let (kept, one) = retain_set key value kept_one rest in ((k, v) # kept, one))
      else if kept_one then retain_set key value kept_one rest
      else
        (let (kept, one) = retain_set key value True rest in ((k, value) # kept, one)))"

definition vec_set :: "vec_header_map \<Rightarrow> bytes \<Rightarrow> bytes \<Rightarrow> (not_allowed + unit) \<times> vec_header_map" where
  "vec_set m key value =
     (let (kept, kept_one) = retain_set key value False (vpairs m) in
      (Inr (), m\<lparr>vpairs := if kept_one then kept else kept @ [(key, value)]\<rparr>))"

definition vec_add :: "vec_header_map \<Rightarrow> bytes \<Rightarrow> bytes \<Rightarrow> (not_allowed + unit) \<times> vec_header_map" where
  "vec_add m key value = (Inr (), m\<lparr>vpairs := vpairs m @ [(key, value)]\<rparr>)"

definition vec_remove :: "vec_header_map \<Rightarrow> bytes \<Rightarrow> (not_allowed + unit) \<times> vec_header_map" where
  "vec_remove m key = (Inr (), m\<lparr>vpairs := filter (\<lambda>(k, _). k \<noteq> key) (vpairs m)\<rparr>)"

definition vec_replace_all :: "vec_header_map \<Rightarrow> pairs \<Rightarrow> (not_allowed + unit) \<times> vec_header_map" where
  "vec_replace_all m ps = (Inr (), m\<lparr>vpairs := map (\<lambda>(k, v). (k, v)) ps\<rparr>)"

definition vec_map_len :: "vec_header_map \<Rightarrow> nat" where
  "vec_map_len m = length (vpairs m)"

definition vec_from_iter :: "pairs \<Rightarrow> vec_header_map" where
  "vec_from_iter ps = \<lparr>vpairs = ps\<rparr>"

definition vec_header_map_ops :: "vec_header_map header_map_ops" where
  "vec_header_map_ops =
     \<lparr>hm_get = vec_get, hm_walk = vec_for_each_pair, hm_set = vec_set, hm_add = vec_add,
      hm_remove = vec_remove, hm_replace_all = vec_replace_all, hm_len = vec_map_len\<rparr>"

lemma find_map_of: "map_option snd (find (\<lambda>p. fst p = key) ps) = map_of ps key"
  by (induction ps) auto

lemma retain_set_kept:
  "retain_set key value True ps = (without key ps, True)"
  by (induction ps) (auto simp: without_def)

lemma retain_set_new:
  "retain_set key value False ps =
     (if key \<in> fst ` set ps
      then (takeWhile (\<lambda>p. fst p \<noteq> key) ps @ (key, value)
              # without key (tl (dropWhile (\<lambda>p. fst p \<noteq> key) ps)), True)
      else (ps, False))"
proof (induction ps)
  case (Cons p ps)
  then show ?case
    by (cases p) (auto simp: retain_set_kept)
qed simp

lemma without_key_cases:
  "key \<notin> fst ` set ps \<Longrightarrow> without key ps = ps \<and> values_for key ps = []"
  by (auto simp: without_def values_for_def filter_id_conv filter_empty_conv intro!: imageI)

lemma without_values_append [simp]:
  "without key (ps @ qs) = without key ps @ without key qs"
  "values_for key (ps @ qs) = values_for key ps @ values_for key qs"
  "without key ((k, v) # qs) = (if k = key then without key qs else (k, v) # without key qs)"
  "values_for key ((k, v) # qs) = (if k = key then v # values_for key qs else values_for key qs)"
  "without key (without key qs) = without key qs"
  "values_for key (without key qs) = []"
  "without key [] = []" "values_for key [] = []"
  by (auto simp: without_def values_for_def filter_empty_conv)

lemma takeWhile_key:
  "without key (takeWhile (\<lambda>p. fst p \<noteq> key) ps) = takeWhile (\<lambda>p. fst p \<noteq> key) ps"
  "values_for key (takeWhile (\<lambda>p. fst p \<noteq> key) ps) = []"
  by (induction ps) (auto simp: without_def values_for_def)

lemma without_dropWhile:
  "takeWhile (\<lambda>p. fst p \<noteq> key) ps @ without key (tl (dropWhile (\<lambda>p. fst p \<noteq> key) ps)) = without key ps"
  by (induction ps) (auto simp: without_def)

interpretation vhm: header_multimap vec_header_map_ops vpairs
proof
  show "hm_set vec_header_map_ops m k v = (Inr (), m') \<Longrightarrow>
      values_for k (vpairs m') = [v] \<and> without k (vpairs m') = without k (vpairs m)" for m k v m'
    using without_key_cases [of k "vpairs m"]
    by (auto simp: vec_header_map_ops_def vec_set_def retain_set_new takeWhile_key without_dropWhile
        split: if_splits)
qed (auto simp: vec_header_map_ops_def vec_get_def find_map_of vec_for_each_pair_def vec_add_def
    vec_remove_def vec_replace_all_def vec_map_len_def without_def case_prod_unfold)

text \<open>
  Functional behaviour of \<open>VecHeaderMap::set\<close> on every branch: when the key is
  present its first pair takes the value in place, every later pair of the key goes and the
  others keep their places; when the key is absent the pair is appended.
\<close>

theorem vec_set_spec:
  "vec_set m key value = (Inr (), m\<lparr>vpairs :=
     (if key \<in> fst ` set (vpairs m)
      then takeWhile (\<lambda>p. fst p \<noteq> key) (vpairs m) @ (key, value)
             # filter (\<lambda>p. fst p \<noteq> key) (tl (dropWhile (\<lambda>p. fst p \<noteq> key) (vpairs m)))
      else vpairs m @ [(key, value)])\<rparr>)"
  by (simp add: vec_set_def retain_set_new without_def)

text \<open>The parts of a read after a write.\<close>

lemma vec_reads_parts:
  assumes "vec_set m key value = (r, m')" and "encode_map vec_header_map_ops m' = Inr out"
  shows "get_all vec_header_map_ops m' key = [value]"
    and "vec_get m' k = (if k = key then Some value else vec_get m k)"
    and "decode_pairs out pair_limits_unlimited = Inr (vpairs m')"
    and "encoded_size_of vec_header_map_ops m' = length out"
proof -
  have s: "hm_set vec_header_map_ops m key value = (Inr (), m')"
    using assms(1) by (auto simp: vec_header_map_ops_def vec_set_def split: prod.splits)
  show "get_all vec_header_map_ops m' key = [value]"
    by (rule vhm.get_all_set [OF s])
  show "vec_get m' k = (if k = key then Some value else vec_get m k)"
    using vhm.get_set [OF s, of k] by (simp add: vec_header_map_ops_def)
  have e: "encode_pairs (vpairs m') = Inr out"
    using assms(2) by (simp add: vhm.encode_map_eq)
  then show "decode_pairs out pair_limits_unlimited = Inr (vpairs m')"
    by (rule decode_encode_unlimited)
  show "encoded_size_of vec_header_map_ops m' = length out"
    using e by (simp add: vhm.encoded_size_of_eq encode_pairs_size)
qed

text \<open>
  A guest that sets a header and reads it back, from the map and through the wire: after
  \<open>set\<close> the key has exactly the value and every other key its old first value; and when
  the map encodes, decoding without limits gives the pairs of the map, and the announced size
  is the length of the bytes.
\<close>

theorem vec_header_map_reads:
  assumes "vec_set m key value = (r, m')" and "encode_map vec_header_map_ops m' = Inr out"
  shows "get_all vec_header_map_ops m' key = [value] \<and>
    vec_get m' k = (if k = key then Some value else vec_get m k) \<and>
    decode_pairs out pair_limits_unlimited = Inr (vpairs m') \<and>
    encoded_size_of vec_header_map_ops m' = length out"
  using vec_reads_parts [OF assms] by simp

lemma vec_header_map_reads_witness:
  "decode_pairs (wire_form [([7], [2])]) pair_limits_unlimited = Inr [([7], [2])] \<and>
   vec_get \<lparr>vpairs = [([7], [2])]\<rparr> [8] = None"
  using vec_header_map_reads [of "\<lparr>vpairs = [([7], [1]), ([7], [3])]\<rparr>" "[7]" "[2]"
      "Inr ()" "\<lparr>vpairs = [([7], [2])]\<rparr>" "wire_form [([7], [2])]" "[8]"]
  by (simp add: vec_set_def encode_map_def vec_header_map_ops_def vec_for_each_pair_def vec_get_def
      encode_pairs_Inr length_wire_form usize_max_def flip: encode_pairs_def)

end
