(* ===== verification/Buffers.thy ===== *)
theory Buffers
  imports Header_Maps
begin

text \<open>
  Byte buffers (\<open>buffer.rs\<close>): the trait an embedder implements, the clamping of a range
  and the implementation for a plain vector.
\<close>

section \<open>The trait and the clamp\<close>

record 'b buffer_ops =
  buf_len :: "'b \<Rightarrow> nat"
  buf_copy_range_into :: "'b \<Rightarrow> nat \<Rightarrow> nat \<Rightarrow> bytes \<Rightarrow> bytes"
  buf_replace :: "'b \<Rightarrow> nat \<Rightarrow> nat \<Rightarrow> bytes \<Rightarrow> (not_allowed + unit) \<times> 'b"

definition buf_is_empty :: "'b buffer_ops \<Rightarrow> 'b \<Rightarrow> bool" where
  "buf_is_empty ops b \<longleftrightarrow> buf_len ops b = 0"

definition copy_range :: "'b buffer_ops \<Rightarrow> 'b \<Rightarrow> nat \<Rightarrow> nat \<Rightarrow> bytes" where
  "copy_range ops b start max_size = buf_copy_range_into ops b start max_size []"

definition clamp_range :: "nat \<Rightarrow> nat \<Rightarrow> nat \<Rightarrow> nat \<times> nat" where
  "clamp_range len start sz =
     (let start = min start len;
          stop = min (usize_saturating_add start sz) len
      in (start, stop))"

definition slice_of :: "bytes \<Rightarrow> nat \<times> nat \<Rightarrow> bytes" where
  "slice_of data rg = take (snd rg - fst rg) (drop (fst rg) data)"

definition splice :: "bytes \<Rightarrow> nat \<times> nat \<Rightarrow> bytes \<Rightarrow> bytes" where
  "splice data rg value = take (fst rg) data @ value @ drop (snd rg) data"

definition vec_copy_range_into :: "bytes \<Rightarrow> nat \<Rightarrow> nat \<Rightarrow> bytes \<Rightarrow> bytes" where
  "vec_copy_range_into b start max_size out = out @ slice_of b (clamp_range (length b) start max_size)"

definition vec_replace :: "bytes \<Rightarrow> nat \<Rightarrow> nat \<Rightarrow> bytes \<Rightarrow> (not_allowed + unit) \<times> bytes" where
  "vec_replace b start sz value =
     (let rg = clamp_range (length b) start sz in (Inr (), splice b rg value))"

definition vec_buffer_ops :: "bytes buffer_ops" where
  "vec_buffer_ops =
     \<lparr>buf_len = length, buf_copy_range_into = vec_copy_range_into, buf_replace = vec_replace\<rparr>"

section \<open>What the trait promises\<close>

lemma clamp_range_bounds:
  assumes "len \<le> usize_max"
  shows "fst (clamp_range len start sz) \<le> snd (clamp_range len start sz)"
    and "snd (clamp_range len start sz) \<le> len"
  using assms by (auto simp: clamp_range_def usize_saturating_add_def Let_def)

lemma clamp_range_eq:
  "len \<le> usize_max \<Longrightarrow> clamp_range len start sz = (min start len, min (start + sz) len)"
  by (auto simp: clamp_range_def usize_saturating_add_def Let_def)

text \<open>A range already inside the buffer is not changed by a second clamp.\<close>

lemma clamp_range_idem:
  assumes "len \<le> usize_max" and "clamp_range len start sz = (a, b)"
  shows "clamp_range len a (b - a) = (a, b)"
  using assms by (auto simp: clamp_range_eq)

locale byte_buffer =
  fixes ops :: "'b buffer_ops"
    and contents :: "'b \<Rightarrow> bytes"
  assumes len_ok: "buf_len ops b = length (contents b)"
    and copy_ok: "length (contents b) \<le> usize_max \<Longrightarrow> buf_copy_range_into ops b start sz out =
      out @ slice_of (contents b) (clamp_range (length (contents b)) start sz)"
    and replace_ok: "length (contents b) \<le> usize_max \<Longrightarrow> buf_replace ops b start sz v = (Inr (), b') \<Longrightarrow>
      contents b' = splice (contents b) (clamp_range (length (contents b)) start sz) v"
begin

lemma copy_clamped:
  assumes "length (contents b) \<le> usize_max"
    and "clamp_range (buf_len ops b) start sz = (x, y)"
  shows "copy_range ops b x (y - x) = slice_of (contents b) (x, y)"
  using assms clamp_range_idem [of "length (contents b)" start sz x y]
  by (simp add: copy_range_def copy_ok len_ok)

lemma length_copy_clamped:
  assumes "length (contents b) \<le> usize_max"
    and "clamp_range (buf_len ops b) start sz = (x, y)"
  shows "length (copy_range ops b x (y - x)) = y - x"
  using assms by (auto simp: copy_clamped slice_of_def clamp_range_eq len_ok)

lemma copy_whole: "length (contents b) \<le> usize_max \<Longrightarrow> copy_range ops b 0 (buf_len ops b) = contents b"
  by (simp add: copy_range_def copy_ok len_ok slice_of_def clamp_range_eq)

lemma prepend: "length (contents b) \<le> usize_max \<Longrightarrow> buf_replace ops b 0 0 v = (Inr (), b') \<Longrightarrow>
    contents b' = v @ contents b"
  by (simp add: replace_ok splice_def clamp_range_eq)

lemma append: "length (contents b) \<le> usize_max \<Longrightarrow> buf_len ops b \<le> start \<Longrightarrow>
    buf_replace ops b start sz v = (Inr (), b') \<Longrightarrow> contents b' = contents b @ v"
  by (simp add: replace_ok splice_def clamp_range_eq len_ok min_def)

lemma copy_back: "length (contents b) \<le> usize_max \<Longrightarrow> length (contents b') \<le> usize_max \<Longrightarrow>
    buf_replace ops b start sz v = (Inr (), b') \<Longrightarrow>
    copy_range ops b' (min start (buf_len ops b)) (length v) = v"
  by (simp add: replace_ok splice_def clamp_range_eq len_ok copy_range_def copy_ok slice_of_def)

end

interpretation vbuf: byte_buffer vec_buffer_ops "\<lambda>b. b"
  by unfold_locales (auto simp: vec_buffer_ops_def vec_copy_range_into_def vec_replace_def Let_def)

text \<open>
  The four writes the ABI defines through one \<open>replace\<close>: prepend, append (a start at or
  past the end, any size), inject and replace, each in closed form; the written bytes are read
  back from the clamped start; and the clamp never leaves the buffer, even for the largest
  start and size.
\<close>

theorem vec_replace_spec:
  "length b \<le> usize_max \<longrightarrow>
   (vec_replace b 0 0 v = (Inr (), v @ b) \<and>
    (length b \<le> start \<longrightarrow> vec_replace b start sz v = (Inr (), b @ v)) \<and>
    (start + sz \<le> length b \<longrightarrow>
       vec_replace b start sz v = (Inr (), take start b @ v @ drop (start + sz) b)) \<and>
    (start \<le> length b \<longrightarrow> length b \<le> start + sz \<longrightarrow>
       vec_replace b start sz v = (Inr (), take start b @ v)) \<and>
    (case clamp_range (length b) start sz of (x, y) \<Rightarrow>
       x \<le> y \<and> y \<le> length b \<and> copy_range vec_buffer_ops b x (y - x) = take (y - x) (drop x b)))"
  by (auto simp: vec_replace_def splice_def clamp_range_eq Let_def min_def vbuf.copy_clamped
      slice_of_def copy_range_def vec_buffer_ops_def vec_copy_range_into_def)

lemma vec_replace_spec_witness:
  "vec_replace [1, 2, 3] 1 1 [9, 9] = (Inr (), [1, 9, 9, 3])"
  using vec_replace_spec [of "[1, 2, 3]" "[9, 9]" 1 1]
  by (simp add: usize_max_def)

end
