(* ===== verification/Guest_Memory.thy ===== *)
theory Guest_Memory
  imports Prelude
begin

text \<open>
  The errors of the crate (\<open>error.rs\<close>) and checked access to the linear memory of a
  guest (\<open>runtime/memory.rs\<close>). Every access goes through a slice whose end fits in 32
  bits and inside the memory, so no access can reach past the end.
\<close>

section \<open>Errors\<close>

datatype memory_error =
    RangeOverflow u32 u32
  | OutOfBounds u32 u32 nat
  | LengthMismatch u32 nat

datatype limit = Epoch | Fuel | Stack

datatype error =
    Compile string
  | Instantiate string
  | Config string
  | EngineMismatch
  | MissingMemory
  | MissingAllocator
  | MissingExport string
  | ExportTypeMismatch string
  | Trap string "string option"
  | LimitExceeded limit
  | GuestExit i32
  | Poisoned
  | Memory memory_error
  | AllocationFailed u32
  | ValueTooLarge nat

section \<open>Pointers and slices\<close>

text \<open>A guest pointer is a 32-bit address; \<open>GuestPtr::from(i32)\<close> keeps the bits.\<close>

type_synonym guest_ptr = u32

definition guest_ptr_of :: "i32 \<Rightarrow> guest_ptr" where
  "guest_ptr_of p = p"

record guest_slice =
  sptr :: u32
  slen :: u32

definition guest_slice_new :: "guest_ptr \<Rightarrow> u32 \<Rightarrow> memory_error + guest_slice" where
  "guest_slice_new ptr len =
     ok_or (RangeOverflow ptr len)
       (map_option (\<lambda>_. \<lparr>sptr = ptr, slen = len\<rparr>) (u32_checked_add ptr len))"

definition slice_out_of_bounds :: "guest_slice \<Rightarrow> nat \<Rightarrow> memory_error" where
  "slice_out_of_bounds s memory_size = OutOfBounds (sptr s) (slen s) memory_size"

definition slice_bounds :: "guest_slice \<Rightarrow> nat \<Rightarrow> memory_error + (nat \<times> nat)" where
  "slice_bounds s memory_size =
     (let start = unat (sptr s); len = unat (slen s) in
      rbind (ok_or (slice_out_of_bounds s memory_size) (usize_checked_add start len)) (\<lambda>stop.
      if stop > memory_size then Inl (slice_out_of_bounds s memory_size) else Inr (start, stop)))"

definition guest_slice_try_from :: "i32 \<Rightarrow> i32 \<Rightarrow> memory_error + guest_slice" where
  "guest_slice_try_from ptr len = guest_slice_new (guest_ptr_of ptr) len"

section \<open>Reads and writes\<close>

definition mem_read :: "bytes \<Rightarrow> guest_slice \<Rightarrow> memory_error + bytes" where
  "mem_read mem s =
     rbind (slice_bounds s (length mem)) (\<lambda>(start, stop). Inr (take (stop - start) (drop start mem)))"

text \<open>
  \<open>slice_mut\<close> lends the bytes of the slice for writing: the bounds as for a read, and
  what the borrower leaves there.
\<close>

definition mem_slice_mut :: "bytes \<Rightarrow> guest_slice \<Rightarrow> (bytes \<Rightarrow> bytes) \<Rightarrow> memory_error + bytes" where
  "mem_slice_mut mem s f =
     rbind (slice_bounds s (length mem)) (\<lambda>(start, stop).
       Inr (take start mem @ f (take (stop - start) (drop start mem)) @ drop stop mem))"

definition mem_write :: "bytes \<Rightarrow> guest_slice \<Rightarrow> bytes \<Rightarrow> memory_error + bytes" where
  "mem_write mem s bs =
     (if length bs \<noteq> unat (slen s) then Inl (LengthMismatch (slen s) (length bs))
      else mem_slice_mut mem s (\<lambda>_. bs))"

definition read_word :: "nat \<Rightarrow> bytes \<Rightarrow> bytes" where
  "read_word n bs = take n bs"

definition mem_read_u32 :: "bytes \<Rightarrow> guest_ptr \<Rightarrow> memory_error + u32" where
  "mem_read_u32 mem ptr =
     rbind (guest_slice_new ptr 4) (\<lambda>s.
     rbind (mem_read mem s) (\<lambda>bs. Inr (u32_from_le_bytes (read_word 4 bs))))"

definition mem_write_u32 :: "bytes \<Rightarrow> guest_ptr \<Rightarrow> u32 \<Rightarrow> memory_error + bytes" where
  "mem_write_u32 mem ptr v =
     rbind (guest_slice_new ptr 4) (\<lambda>s. mem_write mem s (u32_to_le_bytes v))"

definition mem_read_u64 :: "bytes \<Rightarrow> guest_ptr \<Rightarrow> memory_error + u64" where
  "mem_read_u64 mem ptr =
     rbind (guest_slice_new ptr 8) (\<lambda>s.
     rbind (mem_read mem s) (\<lambda>bs. Inr (u64_from_le_bytes (read_word 8 bs))))"

definition mem_write_u64 :: "bytes \<Rightarrow> guest_ptr \<Rightarrow> u64 \<Rightarrow> memory_error + bytes" where
  "mem_write_u64 mem ptr v =
     rbind (guest_slice_new ptr 8) (\<lambda>s. mem_write mem s (u64_to_le_bytes v))"

section \<open>Closed forms\<close>

definition in_memory :: "guest_slice \<Rightarrow> bytes \<Rightarrow> bool" where
  "in_memory s mem \<longleftrightarrow> unat (sptr s) + unat (slen s) \<le> length mem"

definition slices_disjoint :: "guest_slice \<Rightarrow> guest_slice \<Rightarrow> bool" where
  "slices_disjoint s t \<longleftrightarrow>
     unat (sptr s) + unat (slen s) \<le> unat (sptr t) \<or> unat (sptr t) + unat (slen t) \<le> unat (sptr s)"

lemma guest_slice_new_Inr:
  "guest_slice_new ptr len = Inr s \<longleftrightarrow> unat ptr + unat len < 2 ^ 32 \<and> s = \<lparr>sptr = ptr, slen = len\<rparr>"
  by (auto simp: guest_slice_new_def u32_checked_add_def)

lemma guest_slice_new_cases:
  "guest_slice_new ptr len =
     (if unat ptr + unat len < 2 ^ 32 then Inr \<lparr>sptr = ptr, slen = len\<rparr> else Inl (RangeOverflow ptr len))"
  by (simp add: guest_slice_new_def u32_checked_add_def)

lemma slice_bounds_eq:
  "slice_bounds s n =
     (if unat (sptr s) + unat (slen s) \<le> n then Inr (unat (sptr s), unat (sptr s) + unat (slen s))
      else Inl (OutOfBounds (sptr s) (slen s) n))"
proof -
  have "unat (sptr s) + unat (slen s) \<le> usize_max"
    using unat_u32_bound [of "sptr s"] unat_u32_bound [of "slen s"] by (simp add: usize_max_def)
  then show ?thesis
    by (simp add: slice_bounds_def Let_def usize_checked_add_def slice_out_of_bounds_def)
qed

lemma mem_read_eq:
  "mem_read mem s =
     (if in_memory s mem then Inr (take (unat (slen s)) (drop (unat (sptr s)) mem))
      else Inl (OutOfBounds (sptr s) (slen s) (length mem)))"
  by (simp add: mem_read_def slice_bounds_eq in_memory_def)

lemma mem_write_eq:
  "mem_write mem s bs =
     (if length bs \<noteq> unat (slen s) then Inl (LengthMismatch (slen s) (length bs))
      else if in_memory s mem
        then Inr (take (unat (sptr s)) mem @ bs @ drop (unat (sptr s) + unat (slen s)) mem)
      else Inl (OutOfBounds (sptr s) (slen s) (length mem)))"
  by (simp add: mem_write_def mem_slice_mut_def slice_bounds_eq in_memory_def)

lemma mem_write_length: "mem_write mem s bs = Inr mem' \<Longrightarrow> length mem' = length mem"
  by (auto simp: mem_write_eq in_memory_def split: if_splits)

lemma mem_read_written: "mem_write mem s bs = Inr mem' \<Longrightarrow> mem_read mem' s = Inr bs"
  by (auto simp: mem_write_eq mem_read_eq in_memory_def split: if_splits)

lemma mem_write_nth:
  assumes "mem_write mem s bs = Inr mem'"
    and "i < unat (sptr s) \<or> unat (sptr s) + unat (slen s) \<le> i" and "i < length mem"
  shows "mem' ! i = mem ! i"
  using assms by (auto simp: mem_write_eq in_memory_def nth_append split: if_splits)

lemma mem_read_frame:
  assumes w: "mem_write mem s bs = Inr mem'" and d: "slices_disjoint s t"
  shows "mem_read mem' t = mem_read mem t"
proof (cases "in_memory t mem")
  case True
  have "take (unat (slen t)) (drop (unat (sptr t)) mem') = take (unat (slen t)) (drop (unat (sptr t)) mem)"
    using True d mem_write_nth [OF w] mem_write_length [OF w]
    by (intro nth_equalityI) (auto simp: in_memory_def slices_disjoint_def)
  with True show ?thesis
    by (simp add: mem_read_eq in_memory_def mem_write_length [OF w])
next
  case False
  then show ?thesis
    by (simp add: mem_read_eq in_memory_def mem_write_length [OF w])
qed

lemma mem_read_length: "mem_read mem s = Inr bs \<Longrightarrow> length bs = unat (slen s)"
  by (auto simp: mem_read_eq in_memory_def split: if_splits)

lemma mem_write_u32_Inr:
  "mem_write_u32 mem ptr v = Inr mem' \<longleftrightarrow>
     unat ptr + 4 < 2 ^ 32 \<and> mem_write mem \<lparr>sptr = ptr, slen = 4\<rparr> (u32_to_le_bytes v) = Inr mem'"
  by (auto simp: mem_write_u32_def rbind_eq_Inr guest_slice_new_Inr)

text \<open>
  C37. Guest memory is a byte array with bounds: a slice exists exactly when its end fits in 32
  bits; a read or a write in bounds succeeds and any other is refused with the slice and the
  size of the memory, changing nothing; what was written is read back; a write changes no byte
  outside its slice and never the size.
\<close>

theorem guest_memory_access:
  "((\<exists>s. guest_slice_try_from ptr len = Inr s) \<longleftrightarrow> unat ptr + unat len < 2 ^ 32) \<and>
   (mem_read mem t = (if in_memory t mem then Inr (take (unat (slen t)) (drop (unat (sptr t)) mem))
      else Inl (OutOfBounds (sptr t) (slen t) (length mem)))) \<and>
   ((\<exists>mem'. mem_write mem t bs = Inr mem') \<longleftrightarrow> length bs = unat (slen t) \<and> in_memory t mem) \<and>
   (\<forall>mem'. mem_write mem t bs = Inr mem' \<longrightarrow>
      mem_read mem' t = Inr bs \<and> length mem' = length mem \<and>
      (\<forall>u. slices_disjoint t u \<longrightarrow> mem_read mem' u = mem_read mem u))"
proof (intro conjI)
  show "(\<exists>s. guest_slice_try_from ptr len = Inr s) \<longleftrightarrow> unat ptr + unat len < 2 ^ 32"
    by (simp add: guest_slice_try_from_def guest_ptr_of_def guest_slice_new_cases)
  show "(\<exists>mem'. mem_write mem t bs = Inr mem') \<longleftrightarrow> length bs = unat (slen t) \<and> in_memory t mem"
    by (auto simp: mem_write_eq)
  show "\<forall>mem'. mem_write mem t bs = Inr mem' \<longrightarrow>
      mem_read mem' t = Inr bs \<and> length mem' = length mem \<and>
      (\<forall>u. slices_disjoint t u \<longrightarrow> mem_read mem' u = mem_read mem u)"
    by (simp add: mem_read_written mem_write_length mem_read_frame)
qed (rule mem_read_eq)

lemma guest_memory_access_witness:
  "mem_read [0, 5, 6, 0] \<lparr>sptr = 1, slen = 2\<rparr> = Inr [5, 6] \<and>
   mem_read [0, 5, 6, 0] \<lparr>sptr = 3, slen = 1\<rparr> = mem_read [0, 0, 0, 0] \<lparr>sptr = 3, slen = 1\<rparr>"
  using guest_memory_access [of 0 0 "[0, 0, 0, 0]" "\<lparr>sptr = 1, slen = 2\<rparr>" "[5, 6]"]
  by (simp add: mem_write_eq in_memory_def slices_disjoint_def)

text \<open>
  Words in guest memory: a \<open>u32\<close> or a \<open>u64\<close> written at an address is read back
  from it, and the write fails, without a change, when the word does not fit.
\<close>

theorem guest_memory_words:
  "(case mem_write_u32 mem ptr v of
      Inr mem' \<Rightarrow> mem_read_u32 mem' ptr = Inr v \<and> unat ptr + 4 \<le> length mem
    | Inl e \<Rightarrow> e = RangeOverflow ptr 4 \<or> e = OutOfBounds ptr 4 (length mem)) \<and>
   (case mem_write_u64 mem ptr w of
      Inr mem' \<Rightarrow> mem_read_u64 mem' ptr = Inr w \<and> unat ptr + 8 \<le> length mem
    | Inl e \<Rightarrow> e = RangeOverflow ptr 8 \<or> e = OutOfBounds ptr 8 (length mem))"
proof -
  have "case mem_write mem s bs of
      Inr mem' \<Rightarrow> mem_read mem' s = Inr bs \<and> in_memory s mem \<and> length bs = unat (slen s)
    | Inl e \<Rightarrow> length bs = unat (slen s) \<longrightarrow> e = OutOfBounds (sptr s) (slen s) (length mem)" for s bs
    by (auto simp: mem_read_written split: sum.split) (auto simp: mem_write_eq split: if_splits)
  from this [where s = "\<lparr>sptr = ptr, slen = 4\<rparr>" and bs = "u32_to_le_bytes v"]
    this [where s = "\<lparr>sptr = ptr, slen = 8\<rparr>" and bs = "u64_to_le_bytes w"]
  show ?thesis
    by (auto simp: mem_write_u32_def mem_read_u32_def mem_write_u64_def mem_read_u64_def
        guest_slice_new_cases read_word_def in_memory_def split: sum.splits)
qed

end
