(* ===== verification/Identifiers.thy ===== *)
theory Identifiers
  imports Abi_Types Guest_Memory Ordered_Maps
begin

text \<open>
  The identifiers the crate and its services give out (\<open>context.rs\<close>,
  \<open>shared_services/ids.rs\<close>, \<open>callout.rs\<close>, \<open>guest/identity.rs\<close>), the
  problems an identifier can have, the errors of a guest (\<open>guest_error.rs\<close>) and what a
  service is told of a call (\<open>stream_state/invocation.rs\<close>). An identifier wraps a
  \<open>NonZeroU32\<close>: the conversion from a word refuses zero, and that every stored
  identifier is not zero is part of the invariants of the tables that give them out.
\<close>

section \<open>Identifiers\<close>

datatype context_id = ContextId (context_get: u32)

datatype invalid_context_id = InvalidContextId u32

definition context_id_try_from :: "u32 \<Rightarrow> invalid_context_id + context_id" where
  "context_id_try_from value = ok_or (InvalidContextId value) (if value = 0 then None else Some (ContextId value))"

instantiation context_id :: linorder
begin

definition less_eq_context_id :: "context_id \<Rightarrow> context_id \<Rightarrow> bool" where
  "less_eq_context_id a b \<longleftrightarrow> context_get a \<le> context_get b"

definition less_context_id :: "context_id \<Rightarrow> context_id \<Rightarrow> bool" where
  "less_context_id a b \<longleftrightarrow> context_get a < context_get b"

instance
  by standard (auto simp: less_eq_context_id_def less_context_id_def intro: context_id.expand)

end

lemma context_id_try_from_Inr [simp]: "context_id_try_from v = Inr i \<longleftrightarrow> v \<noteq> 0 \<and> i = ContextId v"
  by (auto simp: context_id_try_from_def)

datatype queue_id = QueueId (queue_get: u32)

datatype invalid_queue_id = InvalidQueueId u32

definition queue_id_try_from :: "u32 \<Rightarrow> invalid_queue_id + queue_id" where
  "queue_id_try_from value = ok_or (InvalidQueueId value) (if value = 0 then None else Some (QueueId value))"

instantiation queue_id :: linorder
begin

definition less_eq_queue_id :: "queue_id \<Rightarrow> queue_id \<Rightarrow> bool" where
  "less_eq_queue_id a b \<longleftrightarrow> queue_get a \<le> queue_get b"

definition less_queue_id :: "queue_id \<Rightarrow> queue_id \<Rightarrow> bool" where
  "less_queue_id a b \<longleftrightarrow> queue_get a < queue_get b"

instance
  by standard (auto simp: less_eq_queue_id_def less_queue_id_def intro: queue_id.expand)

end

lemma queue_id_try_from_Inr [simp]: "queue_id_try_from v = Inr i \<longleftrightarrow> v \<noteq> 0 \<and> i = QueueId v"
  by (auto simp: queue_id_try_from_def)

datatype metric_id = MetricId (metric_get: u32)

datatype invalid_metric_id = InvalidMetricId u32

definition metric_id_try_from :: "u32 \<Rightarrow> invalid_metric_id + metric_id" where
  "metric_id_try_from value = ok_or (InvalidMetricId value) (if value = 0 then None else Some (MetricId value))"

instantiation metric_id :: linorder
begin

definition less_eq_metric_id :: "metric_id \<Rightarrow> metric_id \<Rightarrow> bool" where
  "less_eq_metric_id a b \<longleftrightarrow> metric_get a \<le> metric_get b"

definition less_metric_id :: "metric_id \<Rightarrow> metric_id \<Rightarrow> bool" where
  "less_metric_id a b \<longleftrightarrow> metric_get a < metric_get b"

instance
  by standard (auto simp: less_eq_metric_id_def less_metric_id_def intro: metric_id.expand)

end

lemma metric_id_try_from_Inr [simp]: "metric_id_try_from v = Inr i \<longleftrightarrow> v \<noteq> 0 \<and> i = MetricId v"
  by (auto simp: metric_id_try_from_def)

datatype callout_id = CalloutId (callout_get: u32)

datatype invalid_callout_id = InvalidCalloutId u32

definition callout_id_try_from :: "u32 \<Rightarrow> invalid_callout_id + callout_id" where
  "callout_id_try_from value = ok_or (InvalidCalloutId value) (if value = 0 then None else Some (CalloutId value))"

instantiation callout_id :: linorder
begin

definition less_eq_callout_id :: "callout_id \<Rightarrow> callout_id \<Rightarrow> bool" where
  "less_eq_callout_id a b \<longleftrightarrow> callout_get a \<le> callout_get b"

definition less_callout_id :: "callout_id \<Rightarrow> callout_id \<Rightarrow> bool" where
  "less_callout_id a b \<longleftrightarrow> callout_get a < callout_get b"

instance
  by standard (auto simp: less_eq_callout_id_def less_callout_id_def intro: callout_id.expand)

end

lemma callout_id_try_from_Inr [simp]: "callout_id_try_from v = Inr i \<longleftrightarrow> v \<noteq> 0 \<and> i = CalloutId v"
  by (auto simp: callout_id_try_from_def)

definition context_wire :: "context_id \<Rightarrow> i32" where
  "context_wire c = context_get c"

text \<open>The identity of a guest is a number no other guest of the process has.\<close>

datatype guest_id = GuestId u64

section \<open>Contexts, callouts and their problems\<close>

datatype context_type = Root | Stream

datatype stream_kind = Tcp | Http

datatype context_state = Active | Pending | DoneState

datatype context_problem =
    Unknown
  | NotRoot
  | NotStream
  | NotDone
  | HasChildren
  | OtherStream context_id
  | WrongStreamKind stream_kind stream_kind

datatype callout_kind = HttpCall | GrpcCall | GrpcStream

datatype callout_problem =
    NotOpen
  | NotMadeBy context_id
  | NoResponseHeader
  | WrongKind callout_kind

datatype queue_problem = NotRegisteredBy context_id

datatype guest_error =
    Unsupported unsupported_abi
  | GuestRejected callback context_id
  | DuplicateRootId bytes context_id
  | ContextError context_id context_problem
  | ContextIdsExhausted
  | UnexpectedReturn callback i32
  | CalloutError callout_id callout_problem
  | QueueError queue_id queue_problem
  | Runtime error

section \<open>What a service is told of a call\<close>

datatype access = Read | Write

record invocation =
  inv_guest :: guest_id
  inv_context :: context_id
  inv_callback :: "callback option"
  inv_callout :: "callout_id option"

definition invocation_new :: "guest_id \<Rightarrow> context_id \<Rightarrow> invocation" where
  "invocation_new guest ctx =
     \<lparr>inv_guest = guest, inv_context = ctx, inv_callback = None, inv_callout = None\<rparr>"

definition with_callback :: "callback \<Rightarrow> invocation \<Rightarrow> invocation" where
  "with_callback cb i = i\<lparr>inv_callback := Some cb\<rparr>"

definition with_callout :: "callout_id \<Rightarrow> invocation \<Rightarrow> invocation" where
  "with_callout c i = i\<lparr>inv_callout := Some c\<rparr>"

end
