(* ===== verification/Contexts.thy ===== *)
theory Contexts
  imports Identifiers
begin

text \<open>
  The table of live contexts (\<open>context/table.rs\<close>) and the plugin a root context holds
  (\<open>plugin_config.rs\<close>): the table with its operations, its invariant, and a step relation
  that runs the operations in any order, for what holds over the life of a guest.
\<close>

section \<open>Plugins\<close>

record plugin_config =
  plugin_name :: bytes
  plugin_root_id :: bytes
  plugin_configuration :: bytes

definition plugin_config_new :: plugin_config where
  "plugin_config_new = \<lparr>plugin_name = [], plugin_root_id = [], plugin_configuration = []\<rparr>"

definition with_name :: "bytes \<Rightarrow> plugin_config \<Rightarrow> plugin_config" where
  "with_name name p = p\<lparr>plugin_name := name\<rparr>"

definition with_root_id :: "bytes \<Rightarrow> plugin_config \<Rightarrow> plugin_config" where
  "with_root_id root_id p = p\<lparr>plugin_root_id := root_id\<rparr>"

definition with_configuration :: "bytes \<Rightarrow> plugin_config \<Rightarrow> plugin_config" where
  "with_configuration configuration p = p\<lparr>plugin_configuration := configuration\<rparr>"

text \<open>A \<open>Duration\<close> is a number of nanoseconds.\<close>

type_synonym duration = nat

definition from_millis :: "nat \<Rightarrow> duration" where
  "from_millis ms = ms * 1000000"

section \<open>The table\<close>

record context_entry =
  context_type_of :: context_type
  entry_stream_kind :: "stream_kind option"
  entry_parent :: "context_id option"
  entry_state :: context_state
  entry_rejected :: bool
  entry_plugin :: "plugin_config option"
  entry_tick_period :: "duration option"

record context_table =
  entries :: "(context_id, context_entry) btree_map"
  next_context :: u32
  effective :: "context_id option"
  vm_rejected :: "context_id option"

definition context_table_new :: context_table where
  "context_table_new = \<lparr>entries = [], next_context = 1, effective = None, vm_rejected = None\<rparr>"

abbreviation ctx_entry :: "context_table \<Rightarrow> context_id \<Rightarrow> context_entry option" where
  "ctx_entry t \<equiv> btm_get (entries t)"

definition ctx_type :: "context_table \<Rightarrow> context_id \<Rightarrow> context_type option" where
  "ctx_type t cid = map_option context_type_of (ctx_entry t cid)"

definition ctx_stream_kind :: "context_table \<Rightarrow> context_id \<Rightarrow> stream_kind option" where
  "ctx_stream_kind t cid = Option.bind (ctx_entry t cid) entry_stream_kind"

definition ctx_parent :: "context_table \<Rightarrow> context_id \<Rightarrow> context_id option" where
  "ctx_parent t cid = Option.bind (ctx_entry t cid) entry_parent"

definition root_of :: "context_table \<Rightarrow> context_id \<Rightarrow> context_id option" where
  "root_of t cid =
     map_option (\<lambda>entry. case entry_parent entry of None \<Rightarrow> cid | Some p \<Rightarrow> p) (ctx_entry t cid)"

definition ctx_state :: "context_table \<Rightarrow> context_id \<Rightarrow> context_state option" where
  "ctx_state t cid = map_option entry_state (ctx_entry t cid)"

definition ctx_create :: "context_id option \<Rightarrow> context_table \<Rightarrow> (guest_error + context_id) \<times> context_table" where
  "ctx_create parent t =
     (let kind =
        (case parent of
           None \<Rightarrow> Inr Root
         | Some p \<Rightarrow>
             (case ctx_type t p of
                Some Root \<Rightarrow> Inr Stream
              | Some Stream \<Rightarrow> Inl (ContextError p NotRoot)
              | None \<Rightarrow> Inl (ContextError p Unknown)))
      in case kind of
           Inl e \<Rightarrow> (Inl e, t)
         | Inr kind \<Rightarrow>
             (case u32_checked_add (next_context t) 1 of
                None \<Rightarrow> (Inl ContextIdsExhausted, t)
              | Some successor \<Rightarrow>
                  (let cid = ContextId (next_context t) in
                   (Inr cid,
                    t\<lparr>next_context := successor,
                      entries := btm_insert cid
                        \<lparr>context_type_of = kind, entry_stream_kind = None, entry_parent = parent,
                         entry_state = Active, entry_rejected = False, entry_plugin = None,
                         entry_tick_period = None\<rparr> (entries t)\<rparr>))))"

text \<open>An update of one entry; nothing happens to an unknown context.\<close>

definition ctx_update :: "context_id \<Rightarrow> (context_entry \<Rightarrow> context_entry) \<Rightarrow> context_table \<Rightarrow> context_table" where
  "ctx_update cid f t = t\<lparr>entries := btm_adjust cid f (entries t)\<rparr>"

definition ctx_set_stream_kind ::
  "context_id \<Rightarrow> stream_kind \<Rightarrow> context_table \<Rightarrow> stream_kind option \<times> context_table" where
  "ctx_set_stream_kind cid kind t =
     (case ctx_entry t cid of
        None \<Rightarrow> (None, t)
      | Some entry \<Rightarrow>
          (entry_stream_kind entry, ctx_update cid (\<lambda>e. e\<lparr>entry_stream_kind := Some kind\<rparr>) t))"

definition ctx_set_state :: "context_id \<Rightarrow> context_state \<Rightarrow> context_table \<Rightarrow> bool \<times> context_table" where
  "ctx_set_state cid state t =
     (case ctx_entry t cid of
        Some _ \<Rightarrow> (True, ctx_update cid (\<lambda>e. e\<lparr>entry_state := state\<rparr>) t)
      | None \<Rightarrow> (False, t))"

definition has_children :: "context_table \<Rightarrow> context_id \<Rightarrow> bool" where
  "has_children t cid \<longleftrightarrow>
     ctx_type t cid = Some Root \<and> list_ex (\<lambda>(_, entry). entry_parent entry = Some cid) (entries t)"

definition ctx_reject :: "context_id \<Rightarrow> context_table \<Rightarrow> bool \<times> context_table" where
  "ctx_reject root t =
     (case ctx_entry t root of
        Some _ \<Rightarrow> (True, ctx_update root (\<lambda>e. e\<lparr>entry_rejected := True\<rparr>) t)
      | None \<Rightarrow> (False, t))"

definition is_rejected :: "context_table \<Rightarrow> context_id \<Rightarrow> bool" where
  "is_rejected t cid =
     (case Option.bind (root_of t cid) (ctx_entry t) of None \<Rightarrow> False | Some e \<Rightarrow> entry_rejected e)"

definition ctx_reject_vm :: "context_id \<Rightarrow> context_table \<Rightarrow> context_table" where
  "ctx_reject_vm root t = t\<lparr>vm_rejected := Some root\<rparr>"

definition rejection_of :: "context_table \<Rightarrow> context_id \<Rightarrow> callback option" where
  "rejection_of t cid =
     (if vm_rejected t \<noteq> None then Some OnVmStart
      else if is_rejected t cid then Some OnConfigure else None)"

definition ctx_remove :: "context_id \<Rightarrow> context_table \<Rightarrow> context_type option \<times> context_table" where
  "ctx_remove cid t =
     (case ctx_entry t cid of
        None \<Rightarrow> (None, t)
      | Some removed \<Rightarrow>
          (let t = t\<lparr>entries := btm_remove cid (entries t)\<rparr>;
               t = (if effective t = Some cid then t\<lparr>effective := None\<rparr> else t)
           in (Some (context_type_of removed), t)))"

definition ctx_set_effective :: "context_id \<Rightarrow> context_table \<Rightarrow> bool \<times> context_table" where
  "ctx_set_effective cid t =
     (if ctx_entry t cid \<noteq> None then (True, t\<lparr>effective := Some cid\<rparr>) else (False, t))"

definition ctx_done :: "context_table \<Rightarrow> bool \<times> context_table" where
  "ctx_done t =
     (case effective t of
        None \<Rightarrow> (False, t)
      | Some cid \<Rightarrow>
          (case ctx_entry t cid of
             Some entry \<Rightarrow>
               if entry_state entry = Pending
               then (True, ctx_update cid (\<lambda>e. e\<lparr>entry_state := DoneState\<rparr>) t) else (False, t)
           | None \<Rightarrow> (False, t)))"

definition ctx_set_plugin :: "context_id \<Rightarrow> plugin_config \<Rightarrow> context_table \<Rightarrow> bool \<times> context_table" where
  "ctx_set_plugin root plugin t =
     (case ctx_entry t root of
        Some entry \<Rightarrow>
          if context_type_of entry = Root
          then (True, ctx_update root (\<lambda>e. e\<lparr>entry_plugin := Some plugin\<rparr>) t) else (False, t)
      | None \<Rightarrow> (False, t))"

definition ctx_plugin :: "context_table \<Rightarrow> context_id \<Rightarrow> plugin_config option" where
  "ctx_plugin t cid = Option.bind (root_of t cid) (\<lambda>root. Option.bind (ctx_entry t root) entry_plugin)"

definition root_with_id :: "context_table \<Rightarrow> bytes \<Rightarrow> context_id option" where
  "root_with_id t root_id =
     map_option fst (find (\<lambda>(_, entry). case entry_plugin entry of
        None \<Rightarrow> False | Some plugin \<Rightarrow> plugin_root_id plugin = root_id) (entries t))"

definition ctx_set_tick_period :: "context_id \<Rightarrow> duration option \<Rightarrow> context_table \<Rightarrow> bool \<times> context_table" where
  "ctx_set_tick_period cid period t =
     (case root_of t cid of
        None \<Rightarrow> (False, t)
      | Some root \<Rightarrow>
          (case ctx_entry t root of
             Some _ \<Rightarrow> (True, ctx_update root (\<lambda>e. e\<lparr>entry_tick_period := period\<rparr>) t)
           | None \<Rightarrow> (False, t)))"

definition ctx_tick_period :: "context_table \<Rightarrow> context_id \<Rightarrow> duration option" where
  "ctx_tick_period t root =
     Option.bind (ctx_entry t root)
       (\<lambda>entry. if context_type_of entry = Root then entry_tick_period entry else None)"

section \<open>The invariant\<close>

definition ctx_entry_ok :: "context_table \<Rightarrow> context_id \<Rightarrow> context_entry \<Rightarrow> bool" where
  "ctx_entry_ok t cid e \<longleftrightarrow>
     context_get cid \<noteq> 0 \<and> context_get cid < next_context t \<and>
     (context_type_of e = Root \<longleftrightarrow> entry_parent e = None) \<and>
     (\<forall>p. entry_parent e = Some p \<longrightarrow> ctx_type t p = Some Root) \<and>
     (entry_plugin e \<noteq> None \<longrightarrow> context_type_of e = Root) \<and>
     (entry_tick_period e \<noteq> None \<longrightarrow> context_type_of e = Root) \<and>
     (entry_stream_kind e \<noteq> None \<longrightarrow> context_type_of e = Stream)"

definition ctx_ok :: "context_table \<Rightarrow> bool" where
  "ctx_ok t \<longleftrightarrow>
     btm_ok (entries t) \<and> next_context t \<noteq> 0 \<and>
     (\<forall>cid e. ctx_entry t cid = Some e \<longrightarrow> ctx_entry_ok t cid e) \<and>
     (\<forall>cid. effective t = Some cid \<longrightarrow> ctx_entry t cid \<noteq> None)"

lemma ctx_okD:
  assumes "ctx_ok t" and "ctx_entry t cid = Some e"
  shows "ctx_entry_ok t cid e"
  using assms by (simp add: ctx_ok_def)

lemma ctx_ok_new: "ctx_ok context_table_new"
  by (simp add: ctx_ok_def context_table_new_def)

lemma ctx_entry_update [simp]:
  "ctx_entry (ctx_update cid f t) c =
     (if c = cid then map_option f (ctx_entry t cid) else ctx_entry t c)"
  by (simp add: ctx_update_def)

lemma ctx_update_same [simp]:
  "next_context (ctx_update cid f t) = next_context t"
  "effective (ctx_update cid f t) = effective t"
  "vm_rejected (ctx_update cid f t) = vm_rejected t"
  by (simp_all add: ctx_update_def)

text \<open>
  An update that keeps the type, the parent and the fields only one type of context has is
  safe; all the setters are such updates.
\<close>

lemma ctx_ok_update:
  assumes ok: "ctx_ok t"
    and shape: "\<And>e. context_type_of (f e) = context_type_of e \<and> entry_parent (f e) = entry_parent e"
    and fields: "\<And>e. ctx_entry t cid = Some e \<Longrightarrow> ctx_entry_ok t cid e \<Longrightarrow>
      (entry_plugin (f e) \<noteq> None \<longrightarrow> context_type_of e = Root) \<and>
      (entry_tick_period (f e) \<noteq> None \<longrightarrow> context_type_of e = Root) \<and>
      (entry_stream_kind (f e) \<noteq> None \<longrightarrow> context_type_of e = Stream)"
  shows "ctx_ok (ctx_update cid f t)"
proof -
  have types: "ctx_type (ctx_update cid f t) c = ctx_type t c" for c
    using shape by (simp add: ctx_type_def option.map_comp comp_def)
  have "ctx_entry_ok (ctx_update cid f t) c e'" if "ctx_entry (ctx_update cid f t) c = Some e'" for c e'
  proof (cases "c = cid")
    case True
    with that obtain e where e: "ctx_entry t cid = Some e" "e' = f e" by auto
    note okd = ctx_okD [OF ok e(1)]
    with fields [OF e(1) okd] shape True e show ?thesis
      by (auto simp: ctx_entry_ok_def types)
  next
    case False
    with that ctx_okD [OF ok, of c e'] show ?thesis by (simp add: ctx_entry_ok_def types)
  qed
  moreover have "btm_ok (entries (ctx_update cid f t))"
    using ok by (simp add: ctx_ok_def ctx_update_def)
  ultimately show ?thesis
    using ok by (auto simp: ctx_ok_def)
qed

lemma ctx_type_Some: "ctx_type t c = Some k \<longleftrightarrow> (\<exists>e. ctx_entry t c = Some e \<and> context_type_of e = k)"
  by (auto simp: ctx_type_def)

lemma root_of_root:
  assumes "ctx_ok t" and "root_of t c = Some r"
  shows "ctx_type t r = Some Root" and "root_of t r = Some r"
proof -
  obtain e where e: "ctx_entry t c = Some e" and r: "r = (case entry_parent e of None \<Rightarrow> c | Some p \<Rightarrow> p)"
    using assms(2) by (auto simp: root_of_def)
  show root: "ctx_type t r = Some Root"
    using ctx_okD [OF assms(1) e] e r by (cases "entry_parent e") (auto simp: ctx_entry_ok_def ctx_type_def)
  then obtain e' where e': "ctx_entry t r = Some e'" "context_type_of e' = Root"
    by (auto simp: ctx_type_Some)
  with ctx_okD [OF assms(1) e'(1)] show "root_of t r = Some r"
    by (simp add: ctx_entry_ok_def root_of_def)
qed

lemma checked_add_one:
  "u32_checked_add n 1 = Some m \<Longrightarrow> n < m \<and> m = n + 1 \<and> m \<noteq> 0"
proof -
  assume a: "u32_checked_add n 1 = Some m"
  then have "unat m = unat n + 1" by (simp add: u32_checked_add_Some)
  with a show ?thesis
    by (auto simp: u32_checked_add_def word_less_nat_alt split: if_splits)
qed

lemma ctx_create_Inr:
  assumes "ctx_create parent t = (Inr cid, t')"
  shows "cid = ContextId (next_context t)" and "next_context t' = next_context t + 1"
    and "next_context t < next_context t'"
    and "effective t' = effective t" and "vm_rejected t' = vm_rejected t"
    and "\<exists>e. entries t' = btm_insert cid e (entries t) \<and> entry_parent e = parent \<and>
      context_type_of e = (if parent = None then Root else Stream) \<and> entry_plugin e = None \<and>
      entry_tick_period e = None \<and> entry_stream_kind e = None \<and> entry_state e = Active \<and>
      \<not> entry_rejected e"
    and "\<And>p. parent = Some p \<Longrightarrow> ctx_type t p = Some Root"
  using assms
  by (auto simp: ctx_create_def Let_def dest: checked_add_one
      split: option.splits sum.splits context_type.splits)

lemma ctx_create_Inl: "ctx_create parent t = (Inl e, t') \<Longrightarrow> t' = t"
  by (auto simp: ctx_create_def Let_def split: option.splits sum.splits context_type.splits)

lemma ctx_ok_create:
  assumes ok: "ctx_ok t" and c: "ctx_create parent t = (Inr cid, t')"
  shows "ctx_ok t'"
proof -
  note f = ctx_create_Inr [OF c]
  obtain e where e: "entries t' = btm_insert cid e (entries t)" "entry_parent e = parent"
      "context_type_of e = (if parent = None then Root else Stream)" "entry_plugin e = None"
      "entry_tick_period e = None" "entry_stream_kind e = None"
    using f(6) by blast
  have fresh: "ctx_entry t cid = None"
    using f(1) by (cases "ctx_entry t cid") (auto dest!: ctx_okD [OF ok] simp: ctx_entry_ok_def)
  have types: "ctx_type t' p = Some Root" if "ctx_type t p = Some Root" for p
    using that fresh by (auto simp: ctx_type_def e)
  have "ctx_entry_ok t' c' e'" if "ctx_entry t' c' = Some e'" for c' e'
  proof (cases "c' = cid")
    case True
    then show ?thesis
      using that ok f e types by (auto simp: ctx_entry_ok_def ctx_ok_def)
  next
    case False
    with that have "ctx_entry t c' = Some e'" by (simp add: e)
    with ctx_okD [OF ok this] f(3) types show ?thesis
      by (auto simp: ctx_entry_ok_def dest: less_trans)
  qed
  moreover have "next_context t' \<noteq> 0"
    using f(3) by auto
  ultimately show ?thesis
    using ok f(4) by (auto simp: ctx_ok_def e(1))
qed

lemma ctx_ok_remove:
  assumes ok: "ctx_ok t" and r: "ctx_remove cid t = (r, t')" and nc: "\<not> has_children t cid"
  shows "ctx_ok t'"
proof (cases "ctx_entry t cid")
  case None
  with r ok show ?thesis by (simp add: ctx_remove_def)
next
  case (Some e)
  have entry: "ctx_entry t' c = (if c = cid then None else ctx_entry t c)" for c
    using r Some by (auto simp: ctx_remove_def Let_def)
  have "ctx_type t' p = Some Root" if "ctx_entry t c = Some e'" "entry_parent e' = Some p" for c e' p
  proof -
    have root: "ctx_type t p = Some Root"
      using ctx_okD [OF ok that(1)] that(2) by (simp add: ctx_entry_ok_def)
    have "p \<noteq> cid"
      using nc that root btm_get_SomeD [OF that(1)] by (auto simp: has_children_def list_ex_iff)
    with root show ?thesis by (simp add: ctx_type_def entry)
  qed
  with ok r Some entry show ?thesis
    by (auto simp: ctx_ok_def ctx_entry_ok_def ctx_remove_def Let_def split: if_splits)
qed

lemma ctx_ok_setters:
  assumes "ctx_ok t"
  shows "ctx_ok (snd (ctx_set_state cid s t))" "ctx_ok (snd (ctx_reject cid t))"
    "ctx_ok (ctx_reject_vm cid t)" "ctx_ok (snd (ctx_set_effective cid t))" "ctx_ok (snd (ctx_done t))"
    "ctx_ok (snd (ctx_set_plugin cid p t))" "ctx_ok (snd (ctx_set_tick_period cid d t))"
    and "ctx_type t cid = Some Stream \<Longrightarrow> ctx_ok (snd (ctx_set_stream_kind cid k t))"
  using assms root_of_root [OF assms, of cid]
  by (auto simp: ctx_set_state_def ctx_reject_def ctx_set_effective_def ctx_done_def
      ctx_set_plugin_def ctx_set_tick_period_def ctx_set_stream_kind_def ctx_entry_ok_def
      ctx_type_Some split: option.split intro!: ctx_ok_update)
    (auto simp: ctx_reject_vm_def ctx_ok_def ctx_entry_ok_def ctx_type_def)

section \<open>The life of a table\<close>

text \<open>
  Every operation of the table, in the order the crate happens to call them. The two
  conditions are what the callers check first: a stream kind is recorded on a stream context,
  and a context is removed when it has no children.
\<close>

inductive ctx_step :: "context_table \<Rightarrow> context_table \<Rightarrow> bool" where
  create: "ctx_create parent t = (r, t') \<Longrightarrow> ctx_step t t'"
| stream_kind: "ctx_type t cid = Some Stream \<Longrightarrow> ctx_set_stream_kind cid k t = (had, t') \<Longrightarrow> ctx_step t t'"
| set_state: "ctx_set_state cid s t = (b, t') \<Longrightarrow> ctx_step t t'"
| reject: "ctx_reject cid t = (b, t') \<Longrightarrow> ctx_step t t'"
| reject_vm: "ctx_step t (ctx_reject_vm cid t)"
| remove: "\<not> has_children t cid \<Longrightarrow> ctx_remove cid t = (r, t') \<Longrightarrow> ctx_step t t'"
| set_effective: "ctx_set_effective cid t = (b, t') \<Longrightarrow> ctx_step t t'"
| become_done: "ctx_done t = (b, t') \<Longrightarrow> ctx_step t t'"
| set_plugin: "ctx_set_plugin cid p t = (b, t') \<Longrightarrow> ctx_step t t'"
| set_tick_period: "ctx_set_tick_period cid d t = (b, t') \<Longrightarrow> ctx_step t t'"

inductive_cases ctx_stepE: "ctx_step t t'"

lemma ctx_step_ok: "ctx_step t t' \<Longrightarrow> ctx_ok t \<Longrightarrow> ctx_ok t'"
proof (induction rule: ctx_step.induct)
  case (create parent t r t')
  then show ?case
    by (cases r) (auto dest: ctx_create_Inl ctx_ok_create)
next
  case (remove t cid r t')
  then show ?case by (blast intro: ctx_ok_remove)
qed (metis ctx_ok_setters snd_conv)+

lemma ctx_steps_ok: "ctx_step\<^sup>*\<^sup>* t t' \<Longrightarrow> ctx_ok t \<Longrightarrow> ctx_ok t'"
  by (induction rule: rtranclp_induct) (auto intro: ctx_step_ok)

text \<open>
  What one step can do to the counter and to the entry of a context that already had its
  number: it is removed or keeps its type and parent, and it never comes back.
\<close>

definition ctx_grows :: "context_table \<Rightarrow> context_table \<Rightarrow> bool" where
  "ctx_grows t t' \<longleftrightarrow>
     next_context t \<le> next_context t' \<and>
     (\<forall>cid e'. context_get cid < next_context t \<longrightarrow> ctx_entry t' cid = Some e' \<longrightarrow>
        (\<exists>e. ctx_entry t cid = Some e \<and>
           context_type_of e' = context_type_of e \<and> entry_parent e' = entry_parent e \<and>
           (entry_rejected e \<longrightarrow> entry_rejected e'))) \<and>
     (vm_rejected t \<noteq> None \<longrightarrow> vm_rejected t' \<noteq> None)"

lemma ctx_grows_refl: "ctx_grows t t"
  by (auto simp: ctx_grows_def)

lemma ctx_grows_update:
  assumes "\<And>e. context_type_of (f e) = context_type_of e \<and> entry_parent (f e) = entry_parent e \<and>
      (entry_rejected e \<longrightarrow> entry_rejected (f e))"
  shows "ctx_grows t (ctx_update cid f t)"
  using assms by (auto simp: ctx_grows_def)

lemma ctx_step_grows: "ctx_step t t' \<Longrightarrow> ctx_grows t t'"
proof (induction rule: ctx_step.induct)
  case (create parent t r t')
  then show ?case
  proof (cases r)
    case (Inr cid)
    with create have c: "ctx_create parent t = (Inr cid, t')" by simp
    note f = ctx_create_Inr [OF c]
    from f(6) obtain e where e: "entries t' = btm_insert cid e (entries t)" by blast
    have "c \<noteq> cid" if "context_get c < next_context t" for c
      using that f(1) by auto
    then show ?thesis
      using f(3,5) by (auto simp: ctx_grows_def e)
  qed (auto dest: ctx_create_Inl simp: ctx_grows_refl)
qed (auto simp: ctx_set_stream_kind_def ctx_set_state_def ctx_reject_def ctx_reject_vm_def
    ctx_remove_def ctx_set_effective_def ctx_done_def ctx_set_plugin_def ctx_set_tick_period_def Let_def
    ctx_grows_refl split: option.splits if_splits intro!: ctx_grows_update,
    auto simp: ctx_grows_def)

lemma ctx_grows_trans: "ctx_grows t u \<Longrightarrow> ctx_grows u v \<Longrightarrow> ctx_grows t v"
  unfolding ctx_grows_def
  by (intro conjI allI impI) (fastforce dest: less_le_trans)+

lemma ctx_steps_grows: "ctx_step\<^sup>*\<^sup>* t t' \<Longrightarrow> ctx_grows t t'"
  by (induction rule: rtranclp_induct) (auto intro: ctx_step_grows ctx_grows_trans ctx_grows_refl)

text \<open>
  C39. The context table over the whole life of a guest. From an empty table and by any
  sequence of the operations: every live identifier is nonzero and below the counter; a root
  has no parent and a stream context has a live root as its parent; only roots hold a plugin
  or a tick period and only stream contexts a stream kind; and the effective context is live.
\<close>

theorem context_table_invariant:
  assumes "ctx_step\<^sup>*\<^sup>* context_table_new t"
  shows "(\<forall>cid e. ctx_entry t cid = Some e \<longrightarrow>
      0 < context_get cid \<and> context_get cid < next_context t \<and>
      (context_type_of e = Root \<longleftrightarrow> entry_parent e = None) \<and>
      (\<forall>p. entry_parent e = Some p \<longrightarrow> ctx_type t p = Some Root) \<and>
      (entry_plugin e \<noteq> None \<or> entry_tick_period e \<noteq> None \<longrightarrow> context_type_of e = Root) \<and>
      (entry_stream_kind e \<noteq> None \<longrightarrow> context_type_of e = Stream)) \<and>
    (\<forall>cid. effective t = Some cid \<longrightarrow> ctx_entry t cid \<noteq> None) \<and>
    (\<forall>cid r. root_of t cid = Some r \<longrightarrow> ctx_type t r = Some Root \<and> root_of t r = Some r)"
proof -
  have ok: "ctx_ok t"
    by (rule ctx_steps_ok [OF assms ctx_ok_new])
  then show ?thesis
    using root_of_root [OF ok]
    by (auto dest!: ctx_okD [OF ok] simp: ctx_entry_ok_def word_neq_0_conv)
      (use ok in \<open>auto simp: ctx_ok_def\<close>)
qed

lemma context_table_invariant_witness:
  "root_of (snd (ctx_create (Some (ContextId 1)) (snd (ctx_create None context_table_new)))) (ContextId 2)
     = Some (ContextId 1) \<and>
   ctx_type (snd (ctx_create (Some (ContextId 1)) (snd (ctx_create None context_table_new)))) (ContextId 1)
     = Some Root"
proof -
  let ?t = "snd (ctx_create (Some (ContextId 1)) (snd (ctx_create None context_table_new)))"
  have "ctx_step\<^sup>*\<^sup>* context_table_new ?t"
    by (rule rtranclp_trans [where y = "snd (ctx_create None context_table_new)"])
      (auto intro!: r_into_rtranclp ctx_step.create prod.collapse [symmetric])
  moreover have "root_of ?t (ContextId 2) = Some (ContextId 1)"
    by (simp add: ctx_create_def context_table_new_def u32_checked_add_def ctx_type_def root_of_def
        Let_def less_context_id_def btm_get_def)
  ultimately show ?thesis
    using context_table_invariant [of ?t] by blast
qed

text \<open>
  Identifiers are never reused: over any later sequence of operations a context that is
  gone stays gone, a live one keeps its type and its parent, a rejected one stays rejected,
  and a new context gets a number above every number given out before.
\<close>

theorem context_ids_never_reused:
  assumes "ctx_step\<^sup>*\<^sup>* t t'" and "context_get cid < next_context t"
  shows "(ctx_entry t cid = None \<longrightarrow> ctx_entry t' cid = None) \<and>
    (\<forall>e e'. ctx_entry t cid = Some e \<longrightarrow> ctx_entry t' cid = Some e' \<longrightarrow>
       context_type_of e' = context_type_of e \<and> entry_parent e' = entry_parent e \<and>
       (entry_rejected e \<longrightarrow> entry_rejected e')) \<and>
    (\<forall>parent new t''. ctx_create parent t' = (Inr new, t'') \<longrightarrow> cid < new)"
proof (intro conjI allI impI)
  note g = ctx_steps_grows [OF assms(1), unfolded ctx_grows_def]
  have keep: "\<exists>e. ctx_entry t cid = Some e \<and> context_type_of e' = context_type_of e \<and>
      entry_parent e' = entry_parent e \<and> (entry_rejected e \<longrightarrow> entry_rejected e')"
    if "ctx_entry t' cid = Some e'" for e'
    using g assms(2) that by blast
  show "ctx_entry t cid = None \<Longrightarrow> ctx_entry t' cid = None"
    using keep by (cases "ctx_entry t' cid") auto
  show "context_type_of e' = context_type_of e" "entry_parent e' = entry_parent e"
    if "ctx_entry t cid = Some e" "ctx_entry t' cid = Some e'" for e e'
    using keep [OF that(2)] that(1) by auto
  show "entry_rejected e'"
    if "ctx_entry t cid = Some e" "ctx_entry t' cid = Some e'" "entry_rejected e" for e e'
    using keep [OF that(2)] that(1,3) by auto
  show "cid < new" if "ctx_create parent t' = (Inr new, t'')" for parent new t''
    using ctx_create_Inr(1) [OF that] g assms(2) by (auto simp: less_context_id_def)
qed

lemma context_ids_never_reused_witness:
  "ctx_entry (snd (ctx_create None (snd (ctx_remove (ContextId 1) (snd (ctx_create None context_table_new))))))
     (ContextId 1) = None"
proof -
  let ?t = "snd (ctx_remove (ContextId 1) (snd (ctx_create None context_table_new)))"
  have "ctx_step\<^sup>*\<^sup>* ?t (snd (ctx_create None ?t))"
    by (auto intro!: r_into_rtranclp ctx_step.create prod.collapse [symmetric])
  moreover have "ctx_entry ?t (ContextId 1) = None" "next_context ?t = 2"
    by (simp_all add: ctx_create_def context_table_new_def u32_checked_add_def ctx_remove_def
        Let_def btm_remove_def btm_get_def)
  ultimately show ?thesis
    using context_ids_never_reused [of ?t _ "ContextId 1"] by simp
qed

text \<open>
  Creating a context, every branch: no parent makes a root and a live root as the parent a
  stream context, active and not rejected; an unknown parent and a stream context as the parent
  are refused; the last number is refused; and a refusal leaves the table as it was.
\<close>

theorem ctx_create_spec:
  "ctx_create parent t =
     (case (case parent of None \<Rightarrow> Some Root | Some p \<Rightarrow> ctx_type t p) of
        None \<Rightarrow> (Inl (ContextError (the parent) Unknown), t)
      | Some kind \<Rightarrow>
          if parent \<noteq> None \<and> kind = Stream then (Inl (ContextError (the parent) NotRoot), t)
          else if next_context t = 2 ^ 32 - 1 then (Inl ContextIdsExhausted, t)
          else (Inr (ContextId (next_context t)),
            t\<lparr>next_context := next_context t + 1,
              entries := btm_insert (ContextId (next_context t))
                \<lparr>context_type_of = if parent = None then Root else Stream, entry_stream_kind = None,
                 entry_parent = parent, entry_state = Active, entry_rejected = False,
                 entry_plugin = None, entry_tick_period = None\<rparr> (entries t)\<rparr>))"
proof -
  have "u32_checked_add n 1 = (if n = 2 ^ 32 - 1 then None else Some (n + 1))" for n :: u32
  proof -
    have "n = 2 ^ 32 - 1 \<longleftrightarrow> unat n = 4294967295"
      by (simp add: word_unat_eq_iff)
    then show ?thesis
      using unat_u32_bound [of n] by (auto simp: u32_checked_add_def)
  qed
  then show ?thesis
    by (auto simp: ctx_create_def Let_def split: option.split context_type.split)
qed

end
