(* ===== verification/Callouts.thy ===== *)
theory Callouts
  imports Contexts
begin

text \<open>
  The open callouts of one guest (\<open>callout.rs\<close>). The loop that reserves an identifier does
  not end when every identifier is open, so it is a partial function; the lemmas show that it
  returns whenever the table is not full, after at most one step more than the table holds.
\<close>

section \<open>The table\<close>

record open_callout_report =
  oc_callout :: callout_id
  oc_caller :: context_id
  oc_root :: context_id
  oc_kind :: callout_kind

record callout =
  co_kind :: callout_kind
  co_caller :: context_id
  co_root :: context_id
  closed_by_guest :: bool

definition callout_new :: "callout_kind \<Rightarrow> context_id \<Rightarrow> context_id \<Rightarrow> callout" where
  "callout_new kind caller root =
     \<lparr>co_kind = kind, co_caller = caller, co_root = root, closed_by_guest = False\<rparr>"

definition callout_report :: "callout \<Rightarrow> callout_id \<Rightarrow> open_callout_report" where
  "callout_report c cid =
     \<lparr>oc_callout = cid, oc_caller = co_caller c, oc_root = co_root c, oc_kind = co_kind c\<rparr>"

record callout_table =
  opened :: "(callout_id, callout) btree_map"
  next_callout :: u32

definition callout_table_new :: callout_table where
  "callout_table_new = \<lparr>opened = [], next_callout = 1\<rparr>"

definition callout_table_len :: "callout_table \<Rightarrow> nat" where
  "callout_table_len t = length (opened t)"

definition next_non_zero :: "u32 \<Rightarrow> u32" where
  "next_non_zero n = (case u32_checked_add n 1 of None \<Rightarrow> 1 | Some m \<Rightarrow> m)"

partial_function (option) callout_reserve :: "callout_table \<Rightarrow> (callout_id \<times> callout_table) option" where
  "callout_reserve t =
     (let candidate = CalloutId (next_callout t);
          t' = t\<lparr>next_callout := next_non_zero (next_callout t)\<rparr>
      in if btm_get (opened t') candidate = None then Some (candidate, t') else callout_reserve t')"

definition callout_enter :: "callout_id \<Rightarrow> callout \<Rightarrow> callout_table \<Rightarrow> callout_table" where
  "callout_enter cid c t = t\<lparr>opened := btm_insert cid c (opened t)\<rparr>"

definition callout_lookup :: "callout_table \<Rightarrow> callout_id \<Rightarrow> callout option" where
  "callout_lookup t cid = btm_get (opened t) cid"

definition callout_remove :: "callout_id \<Rightarrow> callout_table \<Rightarrow> callout option \<times> callout_table" where
  "callout_remove cid t = (btm_get (opened t) cid, t\<lparr>opened := btm_remove cid (opened t)\<rparr>)"

definition callout_issued :: "callout_table \<Rightarrow> callout_id \<Rightarrow> bool" where
  "callout_issued t cid \<longleftrightarrow> callout_get cid < next_callout t"

definition close_by_guest :: "callout_id \<Rightarrow> callout_table \<Rightarrow> callout_table" where
  "close_by_guest cid t = t\<lparr>opened := btm_adjust cid (\<lambda>c. c\<lparr>closed_by_guest := True\<rparr>) (opened t)\<rparr>"

definition made_by :: "callout_table \<Rightarrow> context_id \<Rightarrow> (callout_id \<times> callout_kind) list" where
  "made_by t caller =
     map (\<lambda>(cid, c). (cid, co_kind c)) (filter (\<lambda>(_, c). co_caller c = caller) (opened t))"

definition callout_iter :: "callout_table \<Rightarrow> (callout_id \<times> callout) list" where
  "callout_iter t = opened t"

section \<open>Invariant\<close>

definition callouts_ok :: "callout_table \<Rightarrow> bool" where
  "callouts_ok t \<longleftrightarrow>
     btm_ok (opened t) \<and> next_callout t \<noteq> 0 \<and>
     (\<forall>cid c. callout_lookup t cid = Some c \<longrightarrow> callout_get cid \<noteq> 0)"

lemma callouts_ok_new: "callouts_ok callout_table_new"
  by (simp add: callouts_ok_def callout_table_new_def callout_lookup_def)

lemma callout_lookup_enter [simp]:
  "callout_lookup (callout_enter cid c t) k = (if k = cid then Some c else callout_lookup t k)"
  by (simp add: callout_lookup_def callout_enter_def)

lemma callout_lookup_remove [simp]:
  "callout_lookup (snd (callout_remove cid t)) k = (if k = cid then None else callout_lookup t k)"
  by (simp add: callout_lookup_def callout_remove_def)

lemma callout_lookup_close [simp]:
  "callout_lookup (close_by_guest cid t) k =
     (if k = cid then map_option (\<lambda>c. c\<lparr>closed_by_guest := True\<rparr>) (callout_lookup t cid)
      else callout_lookup t k)"
  by (simp add: callout_lookup_def close_by_guest_def)

lemma callouts_ok_enter: "callouts_ok t \<Longrightarrow> callout_get cid \<noteq> 0 \<Longrightarrow> callouts_ok (callout_enter cid c t)"
  by (auto simp: callouts_ok_def) (auto simp: callout_enter_def)

lemma callouts_ok_remove: "callouts_ok t \<Longrightarrow> callouts_ok (snd (callout_remove cid t))"
  by (auto simp: callouts_ok_def split: if_splits) (auto simp: callout_remove_def)

lemma callouts_ok_close: "callouts_ok t \<Longrightarrow> callouts_ok (close_by_guest cid t)"
  by (auto simp: callouts_ok_def split: if_splits) (auto simp: close_by_guest_def)

lemma callout_table_len_steps [simp]:
  "callout_table_len (close_by_guest cid t) = callout_table_len t"
  "callout_table_len (snd (callout_remove cid t)) \<le> callout_table_len t"
  "callout_table_len (callout_enter cid c t) \<le> Suc (callout_table_len t)"
  by (simp_all add: callout_table_len_def close_by_guest_def callout_remove_def callout_enter_def
      length_btm_insert length_btm_remove)

lemma made_by_iff:
  "callouts_ok t \<Longrightarrow> (cid, k) \<in> set (made_by t caller) \<longleftrightarrow>
     (\<exists>c. callout_lookup t cid = Some c \<and> co_caller c = caller \<and> co_kind c = k)"
  by (auto simp: made_by_def callout_lookup_def callouts_ok_def btm_iter_get)

section \<open>Reserving an identifier\<close>

lemma next_non_zero_nz [simp]: "next_non_zero n \<noteq> 0"
  by (auto simp: next_non_zero_def split: option.split dest: checked_add_one)

lemma next_non_zero_unat:
  "n \<noteq> 0 \<Longrightarrow> unat (next_non_zero n) = 1 + unat n mod 4294967295"
proof -
  assume "n \<noteq> 0"
  then have "0 < unat n" by (simp add: unat_gt_0)
  moreover have "unat n \<le> 4294967295" by (rule unat_u32_bound)
  moreover have "u32_checked_add n 1 = (if unat n < 4294967295 then Some (n + 1) else None)"
    by (simp add: u32_checked_add_def)
  moreover have "unat n < 4294967295 \<Longrightarrow> unat (n + 1) = unat n + 1"
    by (simp add: unat_word_ariths)
  ultimately show ?thesis
    by (cases "unat n < 4294967295") (simp_all add: next_non_zero_def)
qed

lemma next_non_zero_pow_nz: "n \<noteq> 0 \<Longrightarrow> (next_non_zero ^^ k) n \<noteq> 0"
  by (induction k) auto

lemma next_non_zero_pow:
  "n \<noteq> 0 \<Longrightarrow> unat ((next_non_zero ^^ k) n) = 1 + (unat n - 1 + k) mod 4294967295"
proof (induction k)
  case 0
  then show ?case
    using unat_u32_bound [of n] by (simp add: unat_gt_0)
next
  case (Suc k)
  have "unat ((next_non_zero ^^ Suc k) n) = 1 + unat ((next_non_zero ^^ k) n) mod 4294967295"
    using next_non_zero_unat [OF next_non_zero_pow_nz [OF Suc.prems, of k]] by simp
  then show ?case
    using Suc by (simp add: mod_simps)
qed

lemma mod_shift_inj:
  fixes a i j N :: nat
  assumes "(a + i) mod N = (a + j) mod N" and "i < N" "j < N"
  shows "i = j"
proof -
  have "i = j" if "i \<le> j" "j < N" "(a + i) mod N = (a + j) mod N" for i j
  proof -
    have "N dvd (a + j) - (a + i)"
      using that by (subst mod_eq_dvd_iff_nat [symmetric]) auto
    then show ?thesis
      using that by (auto dest: dvd_imp_le)
  qed
  with assms show ?thesis
    by (metis nat_le_linear)
qed

lemma next_non_zero_pow_inj:
  assumes "n \<noteq> 0" and "i < 4294967295" "j < 4294967295"
    and "(next_non_zero ^^ i) n = (next_non_zero ^^ j) n"
  shows "i = j"
proof (rule mod_shift_inj [OF _ assms(2,3)])
  show "(unat n - 1 + i) mod 4294967295 = (unat n - 1 + j) mod 4294967295"
    using arg_cong [OF assms(4), of unat] by (simp add: next_non_zero_pow [OF assms(1)])
qed

lemma free_within:
  assumes "callouts_ok t" and "callout_table_len t < 2 ^ 32 - 1"
  shows "\<exists>k \<le> callout_table_len t. callout_lookup t (CalloutId ((next_non_zero ^^ k) (next_callout t))) = None"
proof (rule ccontr)
  let ?f = "\<lambda>k. CalloutId ((next_non_zero ^^ k) (next_callout t))" and ?n = "callout_table_len t"
  assume "\<not> ?thesis"
  then have "?f ` {..?n} \<subseteq> dom (btm_get (opened t))"
    by (auto simp: callout_lookup_def)
  moreover have "finite (dom (btm_get (opened t)))"
    by (rule btm.finite_dom)
  moreover have "inj_on ?f {..?n}"
    using assms next_non_zero_pow_inj [of "next_callout t"]
    by (auto intro!: inj_onI simp: callouts_ok_def)
  ultimately have "card {..?n} \<le> card (dom (btm_get (opened t)))"
    by (metis card_image card_mono)
  moreover have "card (dom (btm_get (opened t))) = ?n"
    using assms(1) by (simp add: callouts_ok_def callout_table_len_def length_btm_dom)
  ultimately show False by simp
qed

lemma reserve_at:
  assumes "\<forall>j < k. callout_lookup t (CalloutId ((next_non_zero ^^ j) (next_callout t))) \<noteq> None"
    and "callout_lookup t (CalloutId ((next_non_zero ^^ k) (next_callout t))) = None"
  shows "callout_reserve t =
    Some (CalloutId ((next_non_zero ^^ k) (next_callout t)),
          t\<lparr>next_callout := (next_non_zero ^^ Suc k) (next_callout t)\<rparr>)"
  using assms
proof (induction k arbitrary: t)
  case 0
  then show ?case
    by (subst callout_reserve.simps) (simp add: callout_lookup_def Let_def)
next
  case (Suc k)
  let ?t = "t\<lparr>next_callout := next_non_zero (next_callout t)\<rparr>"
  have shift: "(next_non_zero ^^ j) (next_callout ?t) = (next_non_zero ^^ Suc j) (next_callout t)" for j
    by (simp add: funpow_swap1)
  have same: "callout_lookup ?t c = callout_lookup t c" for c
    by (simp add: callout_lookup_def)
  have "callout_reserve t = callout_reserve ?t"
    using Suc.prems(1) [rule_format, of 0]
    by (subst callout_reserve.simps) (auto simp: callout_lookup_def Let_def)
  also have "\<dots> = Some (CalloutId ((next_non_zero ^^ k) (next_callout ?t)),
      ?t\<lparr>next_callout := (next_non_zero ^^ Suc k) (next_callout ?t)\<rparr>)"
    using Suc.prems by (intro Suc.IH) (auto simp only: shift same Suc_less_eq)
  moreover have "?t\<lparr>next_callout := n\<rparr> = t\<lparr>next_callout := n\<rparr>" for n
    by simp
  ultimately show ?case
    by (simp only: shift)
qed

lemma reserve_returns:
  assumes "callouts_ok t" and "callout_table_len t < 2 ^ 32 - 1"
  shows "\<exists>k \<le> callout_table_len t.
    callout_reserve t = Some (CalloutId ((next_non_zero ^^ k) (next_callout t)),
      t\<lparr>next_callout := (next_non_zero ^^ Suc k) (next_callout t)\<rparr>) \<and>
    callout_lookup t (CalloutId ((next_non_zero ^^ k) (next_callout t))) = None"
proof -
  define P where "P k \<longleftrightarrow> callout_lookup t (CalloutId ((next_non_zero ^^ k) (next_callout t))) = None" for k
  obtain n where n: "n \<le> callout_table_len t" "P n"
    using free_within [OF assms] by (auto simp: P_def)
  define k where "k = (LEAST k. P k)"
  have "P k" "\<forall>j < k. \<not> P j" "k \<le> n"
    using n(2) by (auto simp: k_def intro: LeastI Least_le dest: not_less_Least)
  with n(1) show ?thesis
    using reserve_at [of k t] by (intro exI [of _ k]) (auto simp: P_def)
qed

lemma reserve_ok:
  assumes "callouts_ok t" and "callout_reserve t = Some (cid, t')"
    and "callout_table_len t < 2 ^ 32 - 1"
  shows "callouts_ok t'" "opened t' = opened t" "callout_get cid \<noteq> 0" "callout_lookup t cid = None"
proof -
  obtain k where k: "cid = CalloutId ((next_non_zero ^^ k) (next_callout t))"
      "t' = t\<lparr>next_callout := (next_non_zero ^^ Suc k) (next_callout t)\<rparr>"
      "callout_lookup t cid = None"
    using reserve_returns [OF assms(1,3)] assms(2) by auto
  have nz: "(next_non_zero ^^ k) (next_callout t) \<noteq> 0" "(next_non_zero ^^ Suc k) (next_callout t) \<noteq> 0"
    using assms(1) next_non_zero_pow_nz [of "next_callout t"] by (simp_all only: callouts_ok_def) simp_all
  from k nz assms(1) show "callouts_ok t'" "opened t' = opened t" "callout_get cid \<noteq> 0"
      "callout_lookup t cid = None"
    by (simp_all add: callouts_ok_def callout_lookup_def del: funpow.simps)
qed

text \<open>Whatever the loop returns is free, also on a table near the number of identifiers.\<close>

lemma reserve_partial:
  assumes "callout_reserve t = Some r"
  shows "callout_lookup t (fst r) = None \<and> opened (snd r) = opened t \<and>
    (next_callout t \<noteq> 0 \<longrightarrow> callout_get (fst r) \<noteq> 0 \<and> next_callout (snd r) \<noteq> 0)"
proof (rule callout_reserve.raw_induct [OF _ assms], goal_cases)
  case (1 f t r)
  let ?t = "t\<lparr>next_callout := next_non_zero (next_callout t)\<rparr>"
  show ?case
  proof (cases "btm_get (opened t) (CalloutId (next_callout t)) = None")
    case True
    with 1(2) show ?thesis by (auto simp: Let_def callout_lookup_def)
  next
    case False
    with 1(2) have "f ?t = Some r" by (auto simp: Let_def)
    from 1(1) [OF this] show ?thesis by (simp add: callout_lookup_def)
  qed
qed

text \<open>
  C38. The reserve loop ends: on a table that is not full it returns, after skipping at most as
  many identifiers as the table holds, an identifier that is not zero and not open, and it
  changes nothing but the counter.
\<close>

theorem callout_reserve_terminates:
  assumes "callouts_ok t" and "callout_table_len t < 2 ^ 32 - 1"
  shows "\<exists>cid t' k. callout_reserve t = Some (cid, t') \<and>
    k \<le> callout_table_len t \<and> callout_get cid = (next_non_zero ^^ k) (next_callout t) \<and>
    callout_get cid \<noteq> 0 \<and> callout_lookup t cid = None \<and> opened t' = opened t \<and> callouts_ok t'"
proof -
  obtain k where k: "k \<le> callout_table_len t"
    and r: "callout_reserve t = Some (CalloutId ((next_non_zero ^^ k) (next_callout t)),
      t\<lparr>next_callout := (next_non_zero ^^ Suc k) (next_callout t)\<rparr>)"
    using reserve_returns [OF assms] by blast
  note ok = reserve_ok [OF assms(1) r assms(2)]
  show ?thesis
    by (intro exI [of _ "CalloutId ((next_non_zero ^^ k) (next_callout t))"]
        exI [of _ "t\<lparr>next_callout := (next_non_zero ^^ Suc k) (next_callout t)\<rparr>"] exI [of _ k] conjI)
      (use k r ok in \<open>simp_all del: funpow.simps\<close>)
qed

lemma callout_reserve_terminates_witness:
  "\<exists>cid t'. callout_reserve
      \<lparr>opened = [(CalloutId 4294967295, callout_new HttpCall (ContextId 1) (ContextId 1))],
       next_callout = 4294967295\<rparr> = Some (cid, t') \<and> callout_get cid \<noteq> 0"
proof -
  let ?t = "\<lparr>opened = [(CalloutId 4294967295, callout_new HttpCall (ContextId 1) (ContextId 1))],
       next_callout = 4294967295\<rparr> :: callout_table"
  have "callouts_ok ?t"
    by (simp add: callouts_ok_def callout_lookup_def btm_get_def btm_ok_def)
  moreover have "callout_table_len ?t < 2 ^ 32 - 1"
    by (simp add: callout_table_len_def)
  ultimately show ?thesis
    using callout_reserve_terminates [of ?t] by blast
qed

end
