(* ===== verification/Shared_Store.thy ===== *)
theory Shared_Store
  imports Identifiers
begin

text \<open>
  The services several guests share (\<open>shared_services.rs\<close>) as a record of operations on
  the state of the embedder, and the store the crate ships (\<open>shared_services/store.rs\<close>,
  \<open>store/limits.rs\<close>, \<open>store/observer.rs\<close>): shared data with compare-and-swap,
  queues and metrics. The locks make every operation atomic, so one operation is one function
  from state to state.
\<close>

section \<open>The trait\<close>

record shared_value =
  sv_bytes :: bytes
  sv_cas :: u32

record 's shared_services =
  get_shared_data :: "invocation \<Rightarrow> bytes \<Rightarrow> bytes \<Rightarrow> 's \<Rightarrow> (status + shared_value) \<times> 's"
  set_shared_data :: "invocation \<Rightarrow> bytes \<Rightarrow> bytes \<Rightarrow> bytes \<Rightarrow> u32 option \<Rightarrow> 's \<Rightarrow> (status + unit) \<times> 's"
  register_shared_queue :: "invocation \<Rightarrow> bytes \<Rightarrow> bytes \<Rightarrow> 's \<Rightarrow> (status + queue_id) \<times> 's"
  resolve_shared_queue :: "invocation \<Rightarrow> bytes \<Rightarrow> bytes \<Rightarrow> 's \<Rightarrow> (status + queue_id) \<times> 's"
  enqueue_shared_queue :: "invocation \<Rightarrow> queue_id \<Rightarrow> bytes \<Rightarrow> 's \<Rightarrow> (status + unit) \<times> 's"
  dequeue_shared_queue :: "invocation \<Rightarrow> queue_id \<Rightarrow> 's \<Rightarrow> (status + bytes) \<times> 's"
  define_metric :: "invocation \<Rightarrow> bytes \<Rightarrow> metric_type \<Rightarrow> bytes \<Rightarrow> 's \<Rightarrow> (status + metric_id) \<times> 's"
  record_metric :: "invocation \<Rightarrow> metric_id \<Rightarrow> u64 \<Rightarrow> 's \<Rightarrow> (status + unit) \<times> 's"
  increment_metric :: "invocation \<Rightarrow> metric_id \<Rightarrow> i64 \<Rightarrow> 's \<Rightarrow> (status + unit) \<times> 's"
  get_metric :: "invocation \<Rightarrow> metric_id \<Rightarrow> 's \<Rightarrow> (status + u64) \<times> 's"

text \<open>Every default body of the trait answers that there is nothing.\<close>

definition shared_services_default :: "'s shared_services" where
  "shared_services_default =
     \<lparr>get_shared_data = \<lambda>_ _ _ s. (Inl NotFound, s),
      set_shared_data = \<lambda>_ _ _ _ _ s. (Inl NotFound, s),
      register_shared_queue = \<lambda>_ _ _ s. (Inl NotFound, s),
      resolve_shared_queue = \<lambda>_ _ _ s. (Inl NotFound, s),
      enqueue_shared_queue = \<lambda>_ _ _ s. (Inl NotFound, s),
      dequeue_shared_queue = \<lambda>_ _ s. (Inl NotFound, s),
      define_metric = \<lambda>_ _ _ _ s. (Inl NotFound, s),
      record_metric = \<lambda>_ _ _ s. (Inl NotFound, s),
      increment_metric = \<lambda>_ _ _ s. (Inl NotFound, s),
      get_metric = \<lambda>_ _ s. (Inl NotFound, s)\<rparr>"

section \<open>The store\<close>

record store_limits =
  value_bytes :: nat
  limit_keys :: nat
  queue_items :: nat
  limit_queues :: nat
  limit_metrics :: nat

definition store_limits_default :: store_limits where
  "store_limits_default =
     \<lparr>value_bytes = 64 * 1024, limit_keys = 4096, queue_items = 1024, limit_queues = 4096,
      limit_metrics = 4096\<rparr>"

definition with_value_bytes :: "nat \<Rightarrow> store_limits \<Rightarrow> store_limits" where
  "with_value_bytes n l = l\<lparr>value_bytes := n\<rparr>"

definition with_keys :: "nat \<Rightarrow> store_limits \<Rightarrow> store_limits" where
  "with_keys n l = l\<lparr>limit_keys := n\<rparr>"

definition with_queue_items :: "nat \<Rightarrow> store_limits \<Rightarrow> store_limits" where
  "with_queue_items n l = l\<lparr>queue_items := n\<rparr>"

definition with_queues :: "nat \<Rightarrow> store_limits \<Rightarrow> store_limits" where
  "with_queues n l = l\<lparr>limit_queues := n\<rparr>"

definition with_metrics :: "nat \<Rightarrow> store_limits \<Rightarrow> store_limits" where
  "with_metrics n l = l\<lparr>limit_metrics := n\<rparr>"

type_synonym store_key = "bytes \<times> bytes"

record queues =
  queue_by_name :: "(store_key, queue_id) btree_map"
  queue_owners :: "(queue_id, store_key) btree_map"
  items :: "(queue_id, bytes list) btree_map"
  next_queue :: u32

record metric_entry =
  metric_kind :: metric_type
  metric_value :: u64

record metrics =
  metric_by_name :: "(store_key, metric_id) btree_map"
  metric_entries :: "(metric_id, metric_entry) btree_map"
  next_metric :: u32

record queue_enqueued =
  qe_vm_id :: bytes
  qe_name :: bytes
  qe_queue :: queue_id

text \<open>
  The observer is a function of the embedder; the calls it gets are collected in
  \<open>observed\<close>, in order, and are none when no observer was given.
\<close>

record in_memory_store =
  shared_data :: "(store_key, bytes \<times> u32) btree_map"
  shared_queues :: queues
  shared_metrics :: metrics
  store_limits_of :: store_limits
  has_observer :: bool
  observed :: "queue_enqueued list"
  warned_no_observer :: bool

definition store_new :: in_memory_store where
  "store_new =
     \<lparr>shared_data = [],
      shared_queues = \<lparr>queue_by_name = [], queue_owners = [], items = [], next_queue = 0\<rparr>,
      shared_metrics = \<lparr>metric_by_name = [], metric_entries = [], next_metric = 0\<rparr>,
      store_limits_of = store_limits_default, has_observer = False, observed = [],
      warned_no_observer = False\<rparr>"

definition with_store_limits :: "store_limits \<Rightarrow> in_memory_store \<Rightarrow> in_memory_store" where
  "with_store_limits l s = s\<lparr>store_limits_of := l\<rparr>"

definition with_enqueue_observer :: "in_memory_store \<Rightarrow> in_memory_store" where
  "with_enqueue_observer s = s\<lparr>has_observer := True\<rparr>"

definition next_cas :: "u32 \<Rightarrow> u32" where
  "next_cas current = (if current + 1 = 0 then 1 else current + 1)"

definition next_id :: "u32 \<Rightarrow> (u32 \<times> u32) option" where
  "next_id n =
     (case u32_checked_add n 1 of
        None \<Rightarrow> None
      | Some v \<Rightarrow> if v = 0 then None else Some (v, v))"

definition store_get_shared_data ::
  "invocation \<Rightarrow> bytes \<Rightarrow> bytes \<Rightarrow> in_memory_store \<Rightarrow> (status + shared_value) \<times> in_memory_store" where
  "store_get_shared_data _ vm_id key s =
     (ok_or NotFound
        (map_option (\<lambda>(bs, cas). \<lparr>sv_bytes = bs, sv_cas = cas\<rparr>) (btm_get (shared_data s) (vm_id, key))), s)"

definition store_set_shared_data ::
  "invocation \<Rightarrow> bytes \<Rightarrow> bytes \<Rightarrow> bytes \<Rightarrow> u32 option \<Rightarrow> in_memory_store \<Rightarrow> (status + unit) \<times> in_memory_store" where
  "store_set_shared_data _ vm_id key value cas s =
     (if length value > value_bytes (store_limits_of s) then (Inl InternalFailure, s)
      else
        (let data = shared_data s; held = (vm_id, key) in
         if btm_get data held = None \<and> length data \<ge> limit_keys (store_limits_of s)
         then (Inl InternalFailure, s)
         else
           (case btm_get data held of
              Some (_, current) \<Rightarrow>
                if (case cas of None \<Rightarrow> False | Some given \<Rightarrow> given \<noteq> current)
                then (Inl CasMismatch, s)
                else (Inr (), s\<lparr>shared_data := btm_insert held (value, next_cas current) data\<rparr>)
            | None \<Rightarrow> (Inr (), s\<lparr>shared_data := btm_insert held (value, 1) data\<rparr>))))"

definition store_register_queue ::
  "invocation \<Rightarrow> bytes \<Rightarrow> bytes \<Rightarrow> in_memory_store \<Rightarrow> (status + queue_id) \<times> in_memory_store" where
  "store_register_queue _ vm_id name s0 =
     (let s = (if \<not> has_observer s0 then s0\<lparr>warned_no_observer := True\<rparr> else s0);
          qs = shared_queues s; key = (vm_id, name)
      in case btm_get (queue_by_name qs) key of
           Some qid \<Rightarrow> (Inr qid, s)
         | None \<Rightarrow>
             if length (queue_by_name qs) \<ge> limit_queues (store_limits_of s) then (Inl InternalFailure, s)
             else
               (case next_id (next_queue qs) of
                  None \<Rightarrow> (Inl InternalFailure, s)
                | Some (v, n) \<Rightarrow>
                    (let qid = QueueId v in
                     (Inr qid, s\<lparr>shared_queues := qs\<lparr>next_queue := n,
                        queue_by_name := btm_insert key qid (queue_by_name qs),
                        queue_owners := btm_insert qid key (queue_owners qs),
                        items := btm_insert qid [] (items qs)\<rparr>\<rparr>))))"

definition store_resolve_queue ::
  "invocation \<Rightarrow> bytes \<Rightarrow> bytes \<Rightarrow> in_memory_store \<Rightarrow> (status + queue_id) \<times> in_memory_store" where
  "store_resolve_queue _ vm_id name s =
     (ok_or NotFound (btm_get (queue_by_name (shared_queues s)) (vm_id, name)), s)"

definition store_enqueue ::
  "invocation \<Rightarrow> queue_id \<Rightarrow> bytes \<Rightarrow> in_memory_store \<Rightarrow> (status + unit) \<times> in_memory_store" where
  "store_enqueue _ queue value s =
     (if length value > value_bytes (store_limits_of s) then (Inl InternalFailure, s)
      else
        (let depth = queue_items (store_limits_of s); qs = shared_queues s in
         case btm_get (items qs) queue of
           None \<Rightarrow> (Inl NotFound, s)
         | Some its \<Rightarrow>
             if length its \<ge> depth then (Inl InternalFailure, s)
             else
               (let s' = s\<lparr>shared_queues := qs\<lparr>items := btm_insert queue (its @ [value]) (items qs)\<rparr>\<rparr> in
                case btm_get (queue_owners qs) queue of
                  Some (vm_id, name) \<Rightarrow>
                    (Inr (), if has_observer s
                       then s'\<lparr>observed := observed s @ [\<lparr>qe_vm_id = vm_id, qe_name = name, qe_queue = queue\<rparr>]\<rparr>
                       else s')
                | None \<Rightarrow> (Inr (), s'))))"

definition store_dequeue ::
  "invocation \<Rightarrow> queue_id \<Rightarrow> in_memory_store \<Rightarrow> (status + bytes) \<times> in_memory_store" where
  "store_dequeue _ queue s =
     (let qs = shared_queues s in
      case btm_get (items qs) queue of
        None \<Rightarrow> (Inl NotFound, s)
      | Some [] \<Rightarrow> (Inl Empty, s)
      | Some (v # rest) \<Rightarrow> (Inr v, s\<lparr>shared_queues := qs\<lparr>items := btm_insert queue rest (items qs)\<rparr>\<rparr>))"

definition store_define_metric ::
  "invocation \<Rightarrow> bytes \<Rightarrow> metric_type \<Rightarrow> bytes \<Rightarrow> in_memory_store \<Rightarrow> (status + metric_id) \<times> in_memory_store" where
  "store_define_metric _ vm_id kind name s =
     (let ms = shared_metrics s; key = (vm_id, name) in
      case btm_get (metric_by_name ms) key of
        Some mid \<Rightarrow>
          (case btm_get (metric_entries ms) mid of
             None \<Rightarrow> (Inl InternalFailure, s)
           | Some held \<Rightarrow> if metric_kind held = kind then (Inr mid, s) else (Inl BadArgument, s))
      | None \<Rightarrow>
          if length (metric_by_name ms) \<ge> limit_metrics (store_limits_of s) then (Inl InternalFailure, s)
          else
            (case next_id (next_metric ms) of
               None \<Rightarrow> (Inl InternalFailure, s)
             | Some (v, n) \<Rightarrow>
                 (let mid = MetricId v in
                  (Inr mid, s\<lparr>shared_metrics := ms\<lparr>next_metric := n,
                     metric_by_name := btm_insert key mid (metric_by_name ms),
                     metric_entries := btm_insert mid \<lparr>metric_kind = kind, metric_value = 0\<rparr>
                       (metric_entries ms)\<rparr>\<rparr>))))"

definition set_metric_value :: "metric_id \<Rightarrow> u64 \<Rightarrow> in_memory_store \<Rightarrow> in_memory_store" where
  "set_metric_value m v s =
     s\<lparr>shared_metrics := (shared_metrics s)\<lparr>metric_entries :=
        btm_adjust m (\<lambda>e. e\<lparr>metric_value := v\<rparr>) (metric_entries (shared_metrics s))\<rparr>\<rparr>"

definition store_record_metric ::
  "invocation \<Rightarrow> metric_id \<Rightarrow> u64 \<Rightarrow> in_memory_store \<Rightarrow> (status + unit) \<times> in_memory_store" where
  "store_record_metric _ metric value s =
     (case btm_get (metric_entries (shared_metrics s)) metric of
        None \<Rightarrow> (Inl NotFound, s)
      | Some entry \<Rightarrow>
          (case metric_kind entry of
             Counter \<Rightarrow> (Inr (), set_metric_value metric value s)
           | Gauge \<Rightarrow> (Inr (), set_metric_value metric value s)
           | Histogram \<Rightarrow> (Inr (), s)))"

definition checked_add_signed :: "u64 \<Rightarrow> i64 \<Rightarrow> u64 option" where
  "checked_add_signed v delta =
     (let r = int (unat v) + sint delta in if 0 \<le> r \<and> r < 2 ^ 64 then Some (of_int r) else None)"

definition store_increment_metric ::
  "invocation \<Rightarrow> metric_id \<Rightarrow> i64 \<Rightarrow> in_memory_store \<Rightarrow> (status + unit) \<times> in_memory_store" where
  "store_increment_metric _ metric delta s =
     (case btm_get (metric_entries (shared_metrics s)) metric of
        None \<Rightarrow> (Inl NotFound, s)
      | Some entry \<Rightarrow>
          if metric_kind entry = Counter \<and> sint delta < 0 then (Inl BadArgument, s)
          else if metric_kind entry = Histogram then (Inl BadArgument, s)
          else
            (case checked_add_signed (metric_value entry) delta of
               None \<Rightarrow> (Inl BadArgument, s)
             | Some v \<Rightarrow> (Inr (), set_metric_value metric v s)))"

definition store_get_metric ::
  "invocation \<Rightarrow> metric_id \<Rightarrow> in_memory_store \<Rightarrow> (status + u64) \<times> in_memory_store" where
  "store_get_metric _ metric s =
     (case btm_get (metric_entries (shared_metrics s)) metric of
        None \<Rightarrow> (Inl NotFound, s)
      | Some entry \<Rightarrow>
          ((case metric_kind entry of Histogram \<Rightarrow> Inl BadArgument | _ \<Rightarrow> Inr (metric_value entry)), s))"

definition in_memory_services :: "in_memory_store shared_services" where
  "in_memory_services =
     \<lparr>get_shared_data = store_get_shared_data, set_shared_data = store_set_shared_data,
      register_shared_queue = store_register_queue, resolve_shared_queue = store_resolve_queue,
      enqueue_shared_queue = store_enqueue, dequeue_shared_queue = store_dequeue,
      define_metric = store_define_metric, record_metric = store_record_metric,
      increment_metric = store_increment_metric, get_metric = store_get_metric\<rparr>"

section \<open>Invariant\<close>

definition data_ok :: "store_limits \<Rightarrow> (store_key, bytes \<times> u32) btree_map \<Rightarrow> bool" where
  "data_ok l d \<longleftrightarrow>
     btm_ok d \<and> length d \<le> limit_keys l \<and>
     (\<forall>k v cas. btm_get d k = Some (v, cas) \<longrightarrow> cas \<noteq> 0 \<and> length v \<le> value_bytes l)"

definition queues_ok :: "store_limits \<Rightarrow> queues \<Rightarrow> bool" where
  "queues_ok l qs \<longleftrightarrow>
     btm_ok (queue_by_name qs) \<and> btm_ok (queue_owners qs) \<and> btm_ok (items qs) \<and>
     length (queue_by_name qs) \<le> limit_queues l \<and>
     (\<forall>k q. btm_get (queue_by_name qs) k = Some q \<longleftrightarrow> btm_get (queue_owners qs) q = Some k) \<and>
     (\<forall>q. btm_get (items qs) q = None \<longleftrightarrow> btm_get (queue_owners qs) q = None) \<and>
     (\<forall>q k. btm_get (queue_owners qs) q = Some k \<longrightarrow> queue_get q \<noteq> 0 \<and> queue_get q \<le> next_queue qs) \<and>
     (\<forall>q its. btm_get (items qs) q = Some its \<longrightarrow>
        length its \<le> queue_items l \<and> (\<forall>v \<in> set its. length v \<le> value_bytes l))"

definition metrics_ok :: "store_limits \<Rightarrow> metrics \<Rightarrow> bool" where
  "metrics_ok l ms \<longleftrightarrow>
     btm_ok (metric_by_name ms) \<and> btm_ok (metric_entries ms) \<and>
     length (metric_by_name ms) \<le> limit_metrics l \<and>
     (\<forall>k k' m. btm_get (metric_by_name ms) k = Some m \<longrightarrow> btm_get (metric_by_name ms) k' = Some m \<longrightarrow> k = k') \<and>
     (\<forall>m. btm_get (metric_entries ms) m \<noteq> None \<longleftrightarrow> (\<exists>k. btm_get (metric_by_name ms) k = Some m)) \<and>
     (\<forall>m e. btm_get (metric_entries ms) m = Some e \<longrightarrow> metric_get m \<noteq> 0 \<and> metric_get m \<le> next_metric ms)"

definition store_ok :: "in_memory_store \<Rightarrow> bool" where
  "store_ok s \<longleftrightarrow> data_ok (store_limits_of s) (shared_data s) \<and> queues_ok (store_limits_of s) (shared_queues s) \<and>
     metrics_ok (store_limits_of s) (shared_metrics s) \<and> (has_observer s \<or> observed s = [])"

lemma store_ok_new: "store_ok (with_store_limits l store_new)"
  by (auto simp: store_ok_def data_ok_def queues_ok_def metrics_ok_def store_new_def with_store_limits_def)

lemma next_cas_nz [simp]: "next_cas c \<noteq> 0" "next_cas c \<noteq> c"
  by (auto simp: next_cas_def)

lemma next_id_Some:
  "next_id n = Some (v, m) \<Longrightarrow> v = m \<and> n < m \<and> m \<noteq> 0"
proof -
  assume a: "next_id n = Some (v, m)"
  then obtain w where w: "u32_checked_add n 1 = Some w" "v = w" "m = w" "w \<noteq> 0"
    by (auto simp: next_id_def split: option.splits if_splits)
  moreover have "unat w = unat n + 1"
    using u32_checked_add_Some [OF w(1)] by simp
  ultimately show ?thesis by (simp add: word_less_nat_alt)
qed

section \<open>Shared data\<close>

lemma data_ok_insert:
  assumes ok: "data_ok l d" and "cas \<noteq> 0" and "length v \<le> value_bytes l"
    and room: "btm_get d k = None \<Longrightarrow> length d < limit_keys l"
  shows "data_ok l (btm_insert k (v, cas) d)"
proof -
  have "length (btm_insert k (v, cas) d) \<le> limit_keys l"
    using ok room btm.len_ins_new [of d k "(v, cas)"] btm.len_ins_old [of d k "(v, cas)"]
    by (cases "btm_get d k") (simp_all add: data_ok_def)
  with assms show ?thesis
    by (simp add: data_ok_def del: split_paired_All)
qed

lemma store_ok_set_data:
  assumes "store_ok s" and "store_set_shared_data i vm k v cas s = (r, s')"
  shows "store_ok s'"
  using assms
  by (auto simp: store_set_shared_data_def store_ok_def Let_def not_le
      split: option.splits if_splits prod.splits intro!: data_ok_insert)

section \<open>Queues\<close>

lemma queues_fresh_id:
  assumes ok: "queues_ok l qs" and id: "next_id (next_queue qs) = Some (v, n)"
  shows "btm_get (queue_owners qs) (QueueId v) = None" "btm_get (items qs) (QueueId v) = None"
    and "btm_get (queue_by_name qs) k \<noteq> Some (QueueId v)"
proof -
  show o: "btm_get (queue_owners qs) (QueueId v) = None"
  proof (rule ccontr)
    assume "btm_get (queue_owners qs) (QueueId v) \<noteq> None"
    then obtain k where "btm_get (queue_owners qs) (QueueId v) = Some k" by blast
    with ok have "v \<le> next_queue qs" unfolding queues_ok_def by (metis queue_id.sel)
    with next_id_Some [OF id] show False by auto
  qed
  show "btm_get (items qs) (QueueId v) = None" "btm_get (queue_by_name qs) k \<noteq> Some (QueueId v)"
    using ok o unfolding queues_ok_def by (metis option.distinct(1))+
qed

lemma queues_ok_register:
  assumes ok: "queues_ok l qs" and fresh: "btm_get (queue_by_name qs) key = None"
    and id: "next_id (next_queue qs) = Some (v, n)"
    and room: "length (queue_by_name qs) < limit_queues l"
  shows "queues_ok l (qs\<lparr>next_queue := n,
      queue_by_name := btm_insert key (QueueId v) (queue_by_name qs),
      queue_owners := btm_insert (QueueId v) key (queue_owners qs),
      items := btm_insert (QueueId v) [] (items qs)\<rparr>)"
proof -
  note i = next_id_Some [OF id]
  note new = queues_fresh_id [OF ok id]
  have key: "btm_get (queue_owners qs) q \<noteq> Some key" for q
    using ok fresh unfolding queues_ok_def by (metis option.discI)
  have "queue_get q \<le> n" if "btm_get (queue_owners qs) q = Some k" for q k
    using ok that i unfolding queues_ok_def by (meson less_imp_le order_trans)
  with new key i ok fresh room show ?thesis
    unfolding queues_ok_def
    by (auto simp: btm.len_ins_new simp del: split_paired_All split_paired_Ex)
qed

lemma queues_ok_items:
  assumes ok: "queues_ok l qs" and "btm_get (items qs) q \<noteq> None"
    and "length its \<le> queue_items l" and "\<forall>v \<in> set its. length v \<le> value_bytes l"
  shows "queues_ok l (qs\<lparr>items := btm_insert q its (items qs)\<rparr>)"
  using assms by (auto simp: queues_ok_def)

lemma store_ok_register:
  assumes "store_ok s" and "store_register_queue i vm name s = (r, s')"
  shows "store_ok s'"
  using assms
  by (auto simp: store_register_queue_def store_ok_def Let_def not_le
      split: option.splits if_splits prod.splits intro!: queues_ok_register)

lemma store_ok_enqueue:
  assumes "store_ok s" and "store_enqueue i q v s = (r, s')"
  shows "store_ok s'"
proof -
  have its: "length its \<le> queue_items (store_limits_of s) \<and> (\<forall>v \<in> set its. length v \<le> value_bytes (store_limits_of s))"
    if "btm_get (items (shared_queues s)) q = Some its" for its
    using assms(1) that by (simp add: store_ok_def queues_ok_def)
  show ?thesis
    using assms its
    by (auto simp: store_enqueue_def store_ok_def Let_def not_le
        split: option.splits if_splits prod.splits intro!: queues_ok_items)
qed

lemma store_ok_dequeue:
  assumes "store_ok s" and "store_dequeue i q s = (r, s')"
  shows "store_ok s'"
proof -
  have its: "length its \<le> queue_items (store_limits_of s) \<and> (\<forall>v \<in> set its. length v \<le> value_bytes (store_limits_of s))"
    if "btm_get (items (shared_queues s)) q = Some its" for its
    using assms(1) that by (simp add: store_ok_def queues_ok_def)
  show ?thesis
    using assms its
    by (auto simp: store_dequeue_def store_ok_def Let_def
        split: option.splits list.splits intro!: queues_ok_items)
qed

section \<open>Metrics\<close>

lemma metrics_ok_define:
  assumes ok: "metrics_ok l ms" and fresh: "btm_get (metric_by_name ms) key = None"
    and id: "next_id (next_metric ms) = Some (v, n)"
    and room: "length (metric_by_name ms) < limit_metrics l"
  shows "metrics_ok l (ms\<lparr>next_metric := n,
      metric_by_name := btm_insert key (MetricId v) (metric_by_name ms),
      metric_entries := btm_insert (MetricId v) e (metric_entries ms)\<rparr>)"
proof -
  note i = next_id_Some [OF id]
  have e: "btm_get (metric_entries ms) (MetricId v) = None"
    using ok i by (cases "btm_get (metric_entries ms) (MetricId v)") (auto simp: metrics_ok_def)
  then have new: "btm_get (metric_by_name ms) k \<noteq> Some (MetricId v)" for k
    using ok by (metis metrics_ok_def)
  have "metric_get m \<le> n" if "btm_get (metric_entries ms) m = Some x" for m x
    using ok that i unfolding metrics_ok_def by (meson less_imp_le order_trans)
  with new i ok fresh room e show ?thesis
    unfolding metrics_ok_def
    by (intro conjI)
      (auto simp: btm.len_ins_new simp del: split_paired_All split_paired_Ex, (metis option.discI)+)
qed

lemma metrics_ok_value:
  "metrics_ok l ms \<Longrightarrow> metrics_ok l (ms\<lparr>metric_entries := btm_adjust m f (metric_entries ms)\<rparr>)"
  by (auto simp: metrics_ok_def split: if_splits)

lemma store_ok_define:
  assumes "store_ok s" and "store_define_metric i vm kind name s = (r, s')"
  shows "store_ok s'"
  using assms
  by (auto simp: store_define_metric_def store_ok_def Let_def not_le
      split: option.splits if_splits prod.splits intro!: metrics_ok_define)

lemma store_ok_set_value: "store_ok s \<Longrightarrow> store_ok (set_metric_value m v s)"
  by (auto simp: store_ok_def set_metric_value_def intro: metrics_ok_value)

lemma store_ok_record: "store_ok s \<Longrightarrow> store_record_metric i m v s = (r, s') \<Longrightarrow> store_ok s'"
  by (auto simp: store_record_metric_def store_ok_set_value split: option.splits metric_type.splits)

lemma store_ok_increment: "store_ok s \<Longrightarrow> store_increment_metric i m d s = (r, s') \<Longrightarrow> store_ok s'"
  by (auto simp: store_increment_metric_def store_ok_set_value split: option.splits if_splits)

section \<open>Runs of operations\<close>

datatype store_op =
    GetData bytes bytes
  | SetData bytes bytes bytes "u32 option"
  | RegisterQueue bytes bytes
  | ResolveQueue bytes bytes
  | Enqueue queue_id bytes
  | Dequeue queue_id
  | DefineMetric bytes metric_type bytes
  | RecordMetric metric_id u64
  | IncrementMetric metric_id i64
  | GetMetric metric_id

datatype store_result =
    ValueResult shared_value
  | UnitResult
  | QueueResult queue_id
  | BytesResult bytes
  | MetricResult metric_id
  | NumberResult u64

definition tag :: "('a \<Rightarrow> store_result) \<Rightarrow> (status + 'a) \<times> 's \<Rightarrow> (status + store_result) \<times> 's" where
  "tag f p = (map_sum (\<lambda>e. e) f (fst p), snd p)"

fun store_exec :: "invocation \<Rightarrow> store_op \<Rightarrow> in_memory_store \<Rightarrow> (status + store_result) \<times> in_memory_store" where
  "store_exec i (GetData vm k) s = tag ValueResult (store_get_shared_data i vm k s)"
| "store_exec i (SetData vm k v cas) s = tag (\<lambda>_. UnitResult) (store_set_shared_data i vm k v cas s)"
| "store_exec i (RegisterQueue vm n) s = tag QueueResult (store_register_queue i vm n s)"
| "store_exec i (ResolveQueue vm n) s = tag QueueResult (store_resolve_queue i vm n s)"
| "store_exec i (Enqueue q v) s = tag (\<lambda>_. UnitResult) (store_enqueue i q v s)"
| "store_exec i (Dequeue q) s = tag BytesResult (store_dequeue i q s)"
| "store_exec i (DefineMetric vm k n) s = tag MetricResult (store_define_metric i vm k n s)"
| "store_exec i (RecordMetric m v) s = tag (\<lambda>_. UnitResult) (store_record_metric i m v s)"
| "store_exec i (IncrementMetric m d) s = tag (\<lambda>_. UnitResult) (store_increment_metric i m d s)"
| "store_exec i (GetMetric m) s = tag NumberResult (store_get_metric i m s)"

fun run_ops :: "('op \<Rightarrow> 's \<Rightarrow> 'r \<times> 's) \<Rightarrow> 'op list \<Rightarrow> 's \<Rightarrow> ('op \<times> 'r) list \<times> 's" where
  "run_ops step [] s = ([], s)"
| "run_ops step (op # ops) s =
     (let (r, s') = step op s; (trace, s'') = run_ops step ops s' in ((op, r) # trace, s''))"

text \<open>
  What a queue owes its users, whatever else the service does: the items it holds, then the
  items it accepts, are the items it delivers, then the items it still holds. Nothing is lost,
  repeated or reordered.
\<close>

locale fifo_service =
  fixes step :: "'op \<Rightarrow> 's \<Rightarrow> 'r \<times> 's"
    and contents :: "'s \<Rightarrow> 'q \<Rightarrow> 'v list option"
    and accepted :: "'op \<times> 'r \<Rightarrow> 'q \<Rightarrow> 'v list"
    and delivered :: "'op \<times> 'r \<Rightarrow> 'q \<Rightarrow> 'v list"
  assumes fifo_step: "contents s q = Some its \<Longrightarrow> step op s = (r, s') \<Longrightarrow>
    \<exists>its'. contents s' q = Some its' \<and> its @ accepted (op, r) q = delivered (op, r) q @ its'"
begin

lemma fifo_run:
  "contents s q = Some its \<Longrightarrow> run_ops step ops s = (trace, s') \<Longrightarrow>
   \<exists>its'. contents s' q = Some its' \<and>
     its @ concat (map (\<lambda>e. accepted e q) trace) = concat (map (\<lambda>e. delivered e q) trace) @ its'"
proof (induction ops arbitrary: s its trace)
  case (Cons op ops)
  obtain r v where step: "step op s = (r, v)" by (cases "step op s")
  obtain rest where rest: "run_ops step ops v = (rest, s')" and trace: "trace = (op, r) # rest"
    using Cons.prems(2) step by (auto split: prod.splits)
  obtain mid where mid: "contents v q = Some mid" "its @ accepted (op, r) q = delivered (op, r) q @ mid"
    using fifo_step [OF Cons.prems(1) step] by blast
  with Cons.IH [OF mid(1) rest] show ?case
    by (auto simp: trace) (metis append_assoc)
qed auto

end

definition queue_contents :: "in_memory_store \<Rightarrow> queue_id \<Rightarrow> bytes list option" where
  "queue_contents s q = btm_get (items (shared_queues s)) q"

fun accepted_by :: "store_op \<times> (status + store_result) \<Rightarrow> queue_id \<Rightarrow> bytes list" where
  "accepted_by (Enqueue q' v, Inr _) q = (if q' = q then [v] else [])"
| "accepted_by _ q = []"

fun delivered_by :: "store_op \<times> (status + store_result) \<Rightarrow> queue_id \<Rightarrow> bytes list" where
  "delivered_by (Dequeue q', Inr (BytesResult v)) q = (if q' = q then [v] else [])"
| "delivered_by _ q = []"

text \<open>A registration that gives out a new identifier does not touch a queue that is there.\<close>

lemma register_contents:
  assumes ok: "store_ok s" and r: "store_register_queue i vm n s = (r, s')"
    and q: "queue_contents s q = Some its"
  shows "queue_contents s' q = Some its"
proof -
  have "btm_get (items (shared_queues s)) (QueueId v) = None"
    if "next_id (next_queue (shared_queues s)) = Some (v, m)" for v m
    using ok queues_fresh_id(2) [OF _ that] by (auto simp: store_ok_def)
  with r q show ?thesis
    by (fastforce simp: store_register_queue_def queue_contents_def Let_def
        split: option.splits if_splits prod.splits)
qed

lemma same_queues:
  "store_get_shared_data i vm k s = (r1, s1) \<Longrightarrow> shared_queues s1 = shared_queues s"
  "store_set_shared_data i vm k v cas s = (r2, s2) \<Longrightarrow> shared_queues s2 = shared_queues s"
  "store_resolve_queue i vm n s = (r3, s3) \<Longrightarrow> shared_queues s3 = shared_queues s"
  "store_define_metric i vm kind n s = (r4, s4) \<Longrightarrow> shared_queues s4 = shared_queues s"
  "store_record_metric i m w s = (r5, s5) \<Longrightarrow> shared_queues s5 = shared_queues s"
  "store_increment_metric i m d s = (r6, s6) \<Longrightarrow> shared_queues s6 = shared_queues s"
  "store_get_metric i m s = (r7, s7) \<Longrightarrow> shared_queues s7 = shared_queues s"
  by (auto simp: store_get_shared_data_def store_set_shared_data_def store_resolve_queue_def
      store_define_metric_def store_record_metric_def store_increment_metric_def store_get_metric_def
      set_metric_value_def Let_def split: option.splits if_splits prod.splits metric_type.splits)

lemma store_ok_exec: "store_ok s \<Longrightarrow> store_exec i op s = (r, s') \<Longrightarrow> store_ok s'"
  by (cases op) (auto simp: tag_def store_get_shared_data_def store_resolve_queue_def
      store_get_metric_def split: option.splits metric_type.splits
      intro: store_ok_set_data [OF _ prod.collapse [symmetric]] store_ok_register [OF _ prod.collapse [symmetric]]
        store_ok_enqueue [OF _ prod.collapse [symmetric]] store_ok_dequeue [OF _ prod.collapse [symmetric]]
        store_ok_define [OF _ prod.collapse [symmetric]] store_ok_record [OF _ prod.collapse [symmetric]]
        store_ok_increment [OF _ prod.collapse [symmetric]])

text \<open>The queues of the store, on states that satisfy the invariant.\<close>

lemma store_fifo_step:
  assumes ok: "store_ok s" and q: "queue_contents s q = Some its" and e: "store_exec i op s = (r, s')"
  shows "\<exists>its'. queue_contents s' q = Some its' \<and>
    its @ accepted_by (op, r) q = delivered_by (op, r) q @ its'"
proof (cases op)
  case (RegisterQueue vm n)
  with e register_contents [OF ok prod.collapse [symmetric] q, of i vm n] show ?thesis
    by (auto simp: tag_def)
next
  case (Enqueue q' v)
  with e q show ?thesis
    by (auto simp: tag_def store_enqueue_def queue_contents_def Let_def
        split: option.splits if_splits prod.splits)
next
  case (Dequeue q')
  with e q show ?thesis
    by (auto simp: tag_def store_dequeue_def queue_contents_def Let_def
        split: option.splits list.splits)
qed (use e q same_queues [OF prod.collapse [symmetric], where s = s] in \<open>auto simp: tag_def queue_contents_def\<close>)

definition owed :: "in_memory_store \<Rightarrow> queue_id \<Rightarrow> bytes list option" where
  "owed s q = (if store_ok s then queue_contents s q else None)"

interpretation store_fifo: fifo_service "store_exec i" owed accepted_by delivered_by for i
  by unfold_locales
    (auto simp: owed_def store_ok_exec dest: store_fifo_step split: if_splits)

lemma store_ok_run: "store_ok s \<Longrightarrow> run_ops (store_exec i) ops s = (trace, s') \<Longrightarrow> store_ok s'"
proof (induction ops arbitrary: s trace)
  case (Cons op ops)
  then show ?case
    by (auto split: prod.splits) (metis store_ok_exec)
qed simp

text \<open>
  The store over any run of operations of any guests: no stored compare-and-swap value is
  zero; names and queue identifiers are in one to one correspondence and every identifier is
  nonzero; no two metric names share an identifier; and every limit holds: the numbers of
  keys, queues and metrics, the depth of each queue and the size of each value.
\<close>

theorem store_invariant:
  assumes "run_ops (store_exec i) ops (with_store_limits l store_new) = (trace, s)"
  shows "(\<forall>k v cas. btm_get (shared_data s) k = Some (v, cas) \<longrightarrow>
      cas \<noteq> 0 \<and> length v \<le> value_bytes (store_limits_of s)) \<and>
    (\<forall>k q. btm_get (queue_by_name (shared_queues s)) k = Some q \<longrightarrow>
      queue_get q \<noteq> 0 \<and> (\<forall>k'. btm_get (queue_by_name (shared_queues s)) k' = Some q \<longrightarrow> k' = k)) \<and>
    (\<forall>q its. queue_contents s q = Some its \<longrightarrow>
      length its \<le> queue_items (store_limits_of s) \<and>
      (\<forall>v \<in> set its. length v \<le> value_bytes (store_limits_of s))) \<and>
    (\<forall>k k' m. btm_get (metric_by_name (shared_metrics s)) k = Some m \<longrightarrow>
      btm_get (metric_by_name (shared_metrics s)) k' = Some m \<longrightarrow> k = k') \<and>
    length (shared_data s) \<le> limit_keys (store_limits_of s) \<and>
    length (queue_by_name (shared_queues s)) \<le> limit_queues (store_limits_of s) \<and>
    length (metric_by_name (shared_metrics s)) \<le> limit_metrics (store_limits_of s)"
proof -
  have ok: "store_ok s"
    by (rule store_ok_run [OF store_ok_new assms])
  then have d: "data_ok (store_limits_of s) (shared_data s)"
    and q: "queues_ok (store_limits_of s) (shared_queues s)"
    and m: "metrics_ok (store_limits_of s) (shared_metrics s)"
    by (simp_all add: store_ok_def)
  have "queue_get x \<noteq> 0" "btm_get (queue_owners (shared_queues s)) x = Some k"
    if "btm_get (queue_by_name (shared_queues s)) k = Some x" for k x
    using q that unfolding queues_ok_def by blast+
  note owner = this
  show ?thesis
  proof (intro conjI allI impI)
    fix k x k'
    assume "btm_get (queue_by_name (shared_queues s)) k = Some x"
      "btm_get (queue_by_name (shared_queues s)) k' = Some x"
    then show "k' = k" using owner(2) by (metis option.inject)
  next
    fix k k' x
    assume "btm_get (metric_by_name (shared_metrics s)) k = Some x"
      "btm_get (metric_by_name (shared_metrics s)) k' = Some x"
    then show "k = k'" using m unfolding metrics_ok_def by blast
  qed (use d q m owner(1) in \<open>simp_all add: data_ok_def queues_ok_def metrics_ok_def queue_contents_def
      del: split_paired_All\<close>)
qed

lemma store_invariant_witness:
  "case run_ops (store_exec (invocation_new (GuestId 1) (ContextId 1)))
      [SetData [1] [2] [3] None, RegisterQueue [1] [9], Enqueue (QueueId 1) [5]]
      (with_store_limits store_limits_default store_new) of
    (trace, s) \<Rightarrow> length (shared_data s) \<le> limit_keys (store_limits_of s)"
  using store_invariant [of "invocation_new (GuestId 1) (ContextId 1)"
      "[SetData [1] [2] [3] None, RegisterQueue [1] [9], Enqueue (QueueId 1) [5]]" store_limits_default]
  by (simp split: prod.split)

text \<open>
  Queues are first in, first out: over any run of store operations, the items a queue held,
  followed by those it accepted, are those it delivered followed by those it still holds, in
  the same order. Nothing is lost, repeated or reordered, whatever happens to other queues,
  data and metrics in between.
\<close>

theorem store_queue_fifo:
  assumes "store_ok s" and "queue_contents s q = Some its"
    and "run_ops (store_exec i) ops s = (trace, s')"
  shows "\<exists>its'. queue_contents s' q = Some its' \<and>
    its @ concat (map (\<lambda>e. accepted_by e q) trace) =
      concat (map (\<lambda>e. delivered_by e q) trace) @ its'"
  using store_fifo.fifo_run [of s q its i ops trace s'] assms store_ok_run [OF assms(1,3)]
  by (auto simp: owed_def)

lemma store_queue_fifo_witness:
  "\<exists>s. queue_contents s (QueueId 1) = Some [] \<and>
     (\<forall>trace s'. run_ops (store_exec (invocation_new (GuestId 1) (ContextId 1)))
        [Enqueue (QueueId 1) [5], Enqueue (QueueId 1) [6], Dequeue (QueueId 1)] s = (trace, s') \<longrightarrow>
      queue_contents s' (QueueId 1) = Some [[6]])"
proof -
  let ?i = "invocation_new (GuestId 1) (ContextId 1)"
  let ?s = "snd (store_register_queue ?i [1] [9] (with_store_limits store_limits_default store_new))"
  let ?ops = "[Enqueue (QueueId 1) [5], Enqueue (QueueId 1) [6], Dequeue (QueueId 1)]"
  have ok: "store_ok ?s"
    by (rule store_ok_register [OF store_ok_new [of store_limits_default] prod.collapse [symmetric]])
  have s: "?s = with_store_limits store_limits_default store_new\<lparr>warned_no_observer := True,
      shared_queues := \<lparr>queue_by_name = [(([1], [9]), QueueId 1)], queue_owners = [(QueueId 1, ([1], [9]))],
        items = [(QueueId 1, [])], next_queue = 1\<rparr>\<rparr>"
    by (simp add: store_register_queue_def with_store_limits_def store_new_def store_limits_default_def
        next_id_def u32_checked_add_def Let_def)
  have q: "queue_contents ?s (QueueId 1) = Some []"
    by (simp only: s) (simp add: queue_contents_def btm_get_def)
  have "queue_contents s' (QueueId 1) = Some [[6]]" if "run_ops (store_exec ?i) ?ops ?s = (trace, s')" for trace s'
    using store_queue_fifo [OF ok q that] that
    by (simp only: s)
      (auto simp: tag_def store_enqueue_def store_dequeue_def btm_get_def Let_def store_new_def
        with_store_limits_def store_limits_default_def)
  with q show ?thesis by blast
qed

text \<open>
  Compare and swap, every branch: a value over the size limit and a new key over the key
  limit are refused; a given value that is not the current one is refused as a mismatch; every
  refusal changes nothing; a write stores the value under a new nonzero counter value, one for
  a new key and different from the old one for a key that is there; and a read gives the value
  written last with its counter.
\<close>

theorem store_cas_spec:
  "store_set_shared_data i vm k v cas s =
     (let old = btm_get (shared_data s) (vm, k);
          write = (\<lambda>c. (Inr (), s\<lparr>shared_data := btm_insert (vm, k) (v, c) (shared_data s)\<rparr>)) in
      if value_bytes (store_limits_of s) < length v then (Inl InternalFailure, s)
      else case old of
        None \<Rightarrow> if limit_keys (store_limits_of s) \<le> length (shared_data s) then (Inl InternalFailure, s)
                else write 1
      | Some (_, current) \<Rightarrow>
          if cas = None \<or> cas = Some current then write (next_cas current) else (Inl CasMismatch, s)) \<and>
   next_cas c \<noteq> 0 \<and> next_cas c \<noteq> c \<and>
   (\<forall>s'. store_set_shared_data i vm k v cas s = (Inr (), s') \<longrightarrow>
      (\<exists>c'. c' \<noteq> 0 \<and> btm_get (shared_data s') (vm, k) = Some (v, c') \<and>
        (\<forall>u old. btm_get (shared_data s) (vm, k) = Some (u, old) \<longrightarrow> c' \<noteq> old) \<and>
        store_get_shared_data j vm k s' = (Inr \<lparr>sv_bytes = v, sv_cas = c'\<rparr>, s')) \<and>
      (\<forall>k'. k' \<noteq> (vm, k) \<longrightarrow> btm_get (shared_data s') k' = btm_get (shared_data s) k'))"
  by (auto simp: store_set_shared_data_def store_get_shared_data_def Let_def
      split: option.splits if_splits prod.splits)

lemma store_cas_spec_witness:
  "store_set_shared_data (invocation_new (GuestId 1) (ContextId 1)) [1] [2] [3] (Some 7)
     (store_new\<lparr>shared_data := [(([1], [2]), ([0], 6))]\<rparr>) =
   (Inl CasMismatch, store_new\<lparr>shared_data := [(([1], [2]), ([0], 6))]\<rparr>)"
  using store_cas_spec [of "invocation_new (GuestId 1) (ContextId 1)" "[1]" "[2]" "[3]" "Some 7"
      "store_new\<lparr>shared_data := [(([1], [2]), ([0], 6))]\<rparr>"]
  by (simp add: store_new_def store_limits_default_def btm_get_def)

text \<open>The parts of the metrics.\<close>

lemma metric_parts:
  assumes "btm_get (metric_entries (shared_metrics s)) m = Some e"
  shows "store_record_metric i m v s =
      (Inr (), if metric_kind e = Histogram then s else set_metric_value m v s)"
    and "store_increment_metric i m d s =
      (let r = int (unat (metric_value e)) + sint d in
       if metric_kind e = Histogram \<or> metric_kind e = Counter \<and> sint d < 0 \<or> r < 0 \<or> 2 ^ 64 \<le> r
       then (Inl BadArgument, s) else (Inr (), set_metric_value m (of_int r) s))"
    and "metric_kind e = Counter \<Longrightarrow> store_increment_metric i m d s = (Inr (), s') \<Longrightarrow>
      \<exists>w. store_get_metric j m s' = (Inr w, s') \<and> metric_value e \<le> w \<and>
        int (unat w) = int (unat (metric_value e)) + sint d"
    and "metric_kind e \<noteq> Histogram \<Longrightarrow> store_get_metric j m (set_metric_value m v s) = (Inr v, set_metric_value m v s)"
proof -
  show "store_record_metric i m v s =
      (Inr (), if metric_kind e = Histogram then s else set_metric_value m v s)"
    using assms by (auto simp: store_record_metric_def split: metric_type.split)
  show inc: "store_increment_metric i m d s =
      (let r = int (unat (metric_value e)) + sint d in
       if metric_kind e = Histogram \<or> metric_kind e = Counter \<and> sint d < 0 \<or> r < 0 \<or> 2 ^ 64 \<le> r
       then (Inl BadArgument, s) else (Inr (), set_metric_value m (of_int r) s))" for d
    using assms by (auto simp: store_increment_metric_def checked_add_signed_def Let_def)
  show get: "metric_kind e \<noteq> Histogram \<Longrightarrow>
      store_get_metric j m (set_metric_value m v s) = (Inr v, set_metric_value m v s)" for j v
    using assms by (auto simp: store_get_metric_def set_metric_value_def split: metric_type.split)
  assume c: "metric_kind e = Counter" and r: "store_increment_metric i m d s = (Inr (), s')"
  let ?r = "int (unat (metric_value e)) + sint d"
  have b: "0 \<le> sint d" "0 \<le> ?r" "?r < 2 ^ 64" "s' = set_metric_value m (of_int ?r) s"
    using r c inc [of d] by (auto simp: Let_def split: if_splits)
  have "int (unat (of_int n :: u64)) = n" if "0 \<le> n" "n < 2 ^ 64" for n
    using that by (simp add: unsigned_of_int take_bit_int_eq_self)
  note u = this [OF b(2,3)]
  then have "unat (metric_value e) \<le> unat (of_int ?r :: u64)"
    using b(1) by linarith
  show "\<exists>w. store_get_metric j m s' = (Inr w, s') \<and> metric_value e \<le> w \<and> int (unat w) = ?r"
    using get [of j "of_int ?r"] c b(4) u \<open>unat _ \<le> _\<close>
    by (intro exI [of _ "of_int ?r"]) (simp add: word_le_nat_alt del: of_int_add)
qed

text \<open>
  Metrics: a record sets a counter or a gauge and is a quiet no-op on a histogram; an
  increment adds the signed step exactly, and refuses a histogram, a negative step on a counter
  and any step that leaves the 64 bits, without a change; so an increment never lowers a
  counter; and a read gives the value last set.
\<close>

theorem store_metric_spec:
  assumes "btm_get (metric_entries (shared_metrics s)) m = Some e"
  shows "store_record_metric i m v s =
      (Inr (), if metric_kind e = Histogram then s else set_metric_value m v s) \<and>
    store_increment_metric i m d s =
      (let r = int (unat (metric_value e)) + sint d in
       if metric_kind e = Histogram \<or> metric_kind e = Counter \<and> sint d < 0 \<or> r < 0 \<or> 2 ^ 64 \<le> r
       then (Inl BadArgument, s) else (Inr (), set_metric_value m (of_int r) s)) \<and>
    (metric_kind e = Counter \<longrightarrow> (\<forall>s'. store_increment_metric i m d s = (Inr (), s') \<longrightarrow>
      (\<exists>w. store_get_metric j m s' = (Inr w, s') \<and> metric_value e \<le> w \<and>
        int (unat w) = int (unat (metric_value e)) + sint d))) \<and>
    (metric_kind e \<noteq> Histogram \<longrightarrow>
      store_get_metric j m (set_metric_value m v s) = (Inr v, set_metric_value m v s))"
  using metric_parts [OF assms] by blast

lemma store_metric_spec_witness:
  "store_increment_metric (invocation_new (GuestId 1) (ContextId 1)) (MetricId 1) (- 1)
     (store_new\<lparr>shared_metrics := \<lparr>metric_by_name = [(([1], [2]), MetricId 1)],
        metric_entries = [(MetricId 1, \<lparr>metric_kind = Counter, metric_value = 4\<rparr>)], next_metric = 1\<rparr>\<rparr>) =
   (Inl BadArgument, store_new\<lparr>shared_metrics := \<lparr>metric_by_name = [(([1], [2]), MetricId 1)],
        metric_entries = [(MetricId 1, \<lparr>metric_kind = Counter, metric_value = 4\<rparr>)], next_metric = 1\<rparr>\<rparr>)"
  by (subst store_metric_spec [where e = "\<lparr>metric_kind = Counter, metric_value = 4\<rparr>",
        THEN conjunct2, THEN conjunct1])
    (simp_all add: btm_get_def Let_def)

end
