(* ===== verification/Services.thy ===== *)
theory Services
  imports Buffers Callouts Shared_Store
begin

text \<open>
  What an embedder gives to a guest: the value a service method receives
  (\<open>stream_state/values.rs\<close>, \<open>callout_service/http.rs\<close>, \<open>grpc.rs\<close>,
  \<open>response.rs\<close>), the traits an embedder implements as records of operations
  (\<open>stream_state.rs\<close>, \<open>callout_service.rs\<close>, \<open>services/clock.rs\<close>,
  \<open>services.rs\<close>), what a log sink is told (\<open>services/log_context.rs\<close>), and what a
  callback lends to a guest while it runs (\<open>payload.rs\<close>). A \<open>Cow\<close> is its bytes, so
  \<open>into_owned\<close> is the identity and has no definition.
\<close>

section \<open>Values\<close>

type_synonym header_pairs = pairs

record foreign_call =
  fc_name :: bytes
  fc_arguments :: bytes

definition foreign_call_new :: "bytes \<Rightarrow> bytes \<Rightarrow> foreign_call" where
  "foreign_call_new name arguments = \<lparr>fc_name = name, fc_arguments = arguments\<rparr>"

record local_response =
  lr_status_code :: u32
  status_code_details :: bytes
  lr_body :: bytes
  lr_headers :: header_pairs
  grpc_status_of :: "u32 option"

definition local_response_new :: "u32 \<Rightarrow> local_response" where
  "local_response_new code =
     \<lparr>lr_status_code = code, status_code_details = [], lr_body = [], lr_headers = [], grpc_status_of = None\<rparr>"

definition with_status_code_details :: "bytes \<Rightarrow> local_response \<Rightarrow> local_response" where
  "with_status_code_details details r = r\<lparr>status_code_details := details\<rparr>"

definition response_with_body :: "bytes \<Rightarrow> local_response \<Rightarrow> local_response" where
  "response_with_body b r = r\<lparr>lr_body := b\<rparr>"

definition response_with_headers :: "header_pairs \<Rightarrow> local_response \<Rightarrow> local_response" where
  "response_with_headers hs r = r\<lparr>lr_headers := hs\<rparr>"

definition with_grpc_status :: "u32 \<Rightarrow> local_response \<Rightarrow> local_response" where
  "with_grpc_status g r = r\<lparr>grpc_status_of := Some g\<rparr>"

definition response_header :: "local_response \<Rightarrow> bytes \<Rightarrow> bytes option" where
  "response_header r key = map_option snd (find (\<lambda>(name, _). name = key) (lr_headers r))"

datatype http_call_refusal = HttpUnknownUpstream | HttpFailed

fun http_refusal_status :: "http_call_refusal \<Rightarrow> status" where
  "http_refusal_status HttpUnknownUpstream = BadArgument"
| "http_refusal_status HttpFailed = InternalFailure"

datatype grpc_open_refusal = GrpcUnknownUpstream | GrpcFailed

fun grpc_refusal_status :: "grpc_open_refusal \<Rightarrow> status" where
  "grpc_refusal_status GrpcUnknownUpstream = ParseFailure"
| "grpc_refusal_status GrpcFailed = InternalFailure"

record http_call =
  hc_upstream :: bytes
  hc_headers :: header_pairs
  hc_body :: bytes
  hc_trailers :: header_pairs
  hc_timeout :: duration

definition http_call_new :: "bytes \<Rightarrow> http_call" where
  "http_call_new upstream =
     \<lparr>hc_upstream = upstream, hc_headers = [], hc_body = [], hc_trailers = [], hc_timeout = 0\<rparr>"

definition hc_with_headers :: "header_pairs \<Rightarrow> http_call \<Rightarrow> http_call" where
  "hc_with_headers hs c = c\<lparr>hc_headers := hs\<rparr>"

definition hc_with_body :: "bytes \<Rightarrow> http_call \<Rightarrow> http_call" where
  "hc_with_body b c = c\<lparr>hc_body := b\<rparr>"

definition hc_with_trailers :: "header_pairs \<Rightarrow> http_call \<Rightarrow> http_call" where
  "hc_with_trailers ts c = c\<lparr>hc_trailers := ts\<rparr>"

definition hc_with_timeout :: "duration \<Rightarrow> http_call \<Rightarrow> http_call" where
  "hc_with_timeout d c = c\<lparr>hc_timeout := d\<rparr>"

record grpc_call_request =
  gc_upstream :: bytes
  gc_service :: bytes
  gc_method :: bytes
  gc_initial_metadata :: header_pairs
  gc_message :: bytes
  gc_timeout :: duration

definition grpc_call_new :: "bytes \<Rightarrow> bytes \<Rightarrow> bytes \<Rightarrow> grpc_call_request" where
  "grpc_call_new upstream service meth =
     \<lparr>gc_upstream = upstream, gc_service = service, gc_method = meth, gc_initial_metadata = [],
      gc_message = [], gc_timeout = 0\<rparr>"

definition gc_with_initial_metadata :: "header_pairs \<Rightarrow> grpc_call_request \<Rightarrow> grpc_call_request" where
  "gc_with_initial_metadata m c = c\<lparr>gc_initial_metadata := m\<rparr>"

definition gc_with_message :: "bytes \<Rightarrow> grpc_call_request \<Rightarrow> grpc_call_request" where
  "gc_with_message m c = c\<lparr>gc_message := m\<rparr>"

definition gc_with_timeout :: "duration \<Rightarrow> grpc_call_request \<Rightarrow> grpc_call_request" where
  "gc_with_timeout d c = c\<lparr>gc_timeout := d\<rparr>"

record grpc_stream_request =
  gs_upstream :: bytes
  gs_service :: bytes
  gs_method :: bytes
  gs_initial_metadata :: header_pairs

definition grpc_stream_new :: "bytes \<Rightarrow> bytes \<Rightarrow> bytes \<Rightarrow> grpc_stream_request" where
  "grpc_stream_new upstream service meth =
     \<lparr>gs_upstream = upstream, gs_service = service, gs_method = meth, gs_initial_metadata = []\<rparr>"

definition gs_with_initial_metadata :: "header_pairs \<Rightarrow> grpc_stream_request \<Rightarrow> grpc_stream_request" where
  "gs_with_initial_metadata m c = c\<lparr>gs_initial_metadata := m\<rparr>"

text \<open>The message of a status is a Rust \<open>String\<close>: its UTF-8 bytes.\<close>

record grpc_status =
  gst_code :: u32
  gst_message :: bytes

definition grpc_status_new :: "u32 \<Rightarrow> bytes \<Rightarrow> grpc_status" where
  "grpc_status_new code message = \<lparr>gst_code = code, gst_message = message\<rparr>"

record http_call_response =
  is_received :: bool
  hr_headers :: header_pairs
  hr_body :: bytes
  hr_trailers :: header_pairs

definition response_received :: "header_pairs \<Rightarrow> http_call_response" where
  "response_received hs = \<lparr>is_received = True, hr_headers = hs, hr_body = [], hr_trailers = []\<rparr>"

definition response_failed :: http_call_response where
  "response_failed = \<lparr>is_received = False, hr_headers = [], hr_body = [], hr_trailers = []\<rparr>"

definition hr_with_body :: "bytes \<Rightarrow> http_call_response \<Rightarrow> http_call_response" where
  "hr_with_body b r = (if is_received r then r\<lparr>hr_body := b\<rparr> else r)"

definition hr_with_trailers :: "header_pairs \<Rightarrow> http_call_response \<Rightarrow> http_call_response" where
  "hr_with_trailers ts r = (if is_received r then r\<lparr>hr_trailers := ts\<rparr> else r)"

definition is_failed :: "http_call_response \<Rightarrow> bool" where
  "is_failed r \<longleftrightarrow> \<not> is_received r"

definition into_parts :: "http_call_response \<Rightarrow> header_pairs \<times> bytes \<times> header_pairs" where
  "into_parts r = (hr_headers r, hr_body r, hr_trailers r)"

section \<open>The stream state of an embedder\<close>

text \<open>
  A method that lends a map or a buffer gives operations on the state it lends from, so a
  write through the borrow is a write to the stream state. A \<open>dyn StreamState\<close> is one of
  these records with a value; \<open>ss_type_id\<close> is the type the value was lent with, which a
  call through the record cannot change. The type of \<open>NoStream\<close> is zero.
\<close>

record 'h stream_ops =
  ss_type_id :: nat
  ss_header_map :: "invocation \<Rightarrow> access \<Rightarrow> map_type \<Rightarrow> 'h \<Rightarrow> (status + 'h header_map_ops) \<times> 'h"
  ss_buffer :: "invocation \<Rightarrow> access \<Rightarrow> buffer_type \<Rightarrow> 'h \<Rightarrow> (status + 'h buffer_ops) \<times> 'h"
  ss_continue_stream :: "invocation \<Rightarrow> stream_type \<Rightarrow> 'h \<Rightarrow> (status + unit) \<times> 'h"
  ss_close_stream :: "invocation \<Rightarrow> stream_type \<Rightarrow> 'h \<Rightarrow> (status + unit) \<times> 'h"
  ss_send_local_response :: "invocation \<Rightarrow> local_response \<Rightarrow> 'h \<Rightarrow> (status + unit) \<times> 'h"
  ss_property :: "invocation \<Rightarrow> bytes list \<Rightarrow> bytes \<Rightarrow> 'h \<Rightarrow> (status + unit) \<times> bytes \<times> 'h"
  ss_set_property :: "invocation \<Rightarrow> bytes list \<Rightarrow> bytes \<Rightarrow> 'h \<Rightarrow> (status + unit) \<times> 'h"
  ss_call_foreign_function :: "invocation \<Rightarrow> foreign_call \<Rightarrow> bytes \<Rightarrow> 'h \<Rightarrow> (status + unit) \<times> bytes \<times> 'h"

definition stream_ops_default :: "'h stream_ops" where
  "stream_ops_default =
     \<lparr>ss_type_id = 0,
      ss_header_map = \<lambda>_ _ _ h. (Inl BadArgument, h),
      ss_buffer = \<lambda>_ _ _ h. (Inl NotFound, h),
      ss_continue_stream = \<lambda>_ _ h. (Inl Unimplemented, h),
      ss_close_stream = \<lambda>_ _ h. (Inl Unimplemented, h),
      ss_send_local_response = \<lambda>_ _ h. (Inl Unimplemented, h),
      ss_property = \<lambda>_ _ out h. (Inl NotFound, out, h),
      ss_set_property = \<lambda>_ _ _ h. (Inl NotFound, h),
      ss_call_foreign_function = \<lambda>_ _ out h. (Inl NotFound, out, h)\<rparr>"

section \<open>The services of a VM\<close>

record 'e callouts_ops =
  cs_http_call :: "invocation \<Rightarrow> callout_id \<Rightarrow> http_call \<Rightarrow> 'e \<Rightarrow> (http_call_refusal + unit) \<times> 'e"
  cs_grpc_call :: "invocation \<Rightarrow> callout_id \<Rightarrow> grpc_call_request \<Rightarrow> 'e \<Rightarrow> (grpc_open_refusal + unit) \<times> 'e"
  cs_grpc_stream :: "invocation \<Rightarrow> callout_id \<Rightarrow> grpc_stream_request \<Rightarrow> 'e \<Rightarrow> (grpc_open_refusal + unit) \<times> 'e"
  cs_grpc_send :: "invocation \<Rightarrow> callout_id \<Rightarrow> bytes \<Rightarrow> bool \<Rightarrow> 'e \<Rightarrow> (status + unit) \<times> 'e"
  cs_grpc_cancel :: "invocation \<Rightarrow> callout_id \<Rightarrow> 'e \<Rightarrow> 'e"
  cs_grpc_close :: "invocation \<Rightarrow> callout_id \<Rightarrow> 'e \<Rightarrow> 'e"

definition no_callouts :: "'e callouts_ops" where
  "no_callouts =
     \<lparr>cs_http_call = \<lambda>_ _ _ e. (Inl HttpFailed, e),
      cs_grpc_call = \<lambda>_ _ _ e. (Inl GrpcFailed, e),
      cs_grpc_stream = \<lambda>_ _ _ e. (Inl GrpcFailed, e),
      cs_grpc_send = \<lambda>_ _ _ _ e. (Inr (), e),
      cs_grpc_cancel = \<lambda>_ _ e. e,
      cs_grpc_close = \<lambda>_ _ e. e\<rparr>"

record 'e clock_ops =
  realtime_nanos :: "'e \<Rightarrow> u64 \<times> 'e"
  monotonic_nanos :: "'e \<Rightarrow> u64 \<times> 'e"

text \<open>
  The system clock: the time since the epoch is absent when the clock is before it, and a
  duration of more nanoseconds than 64 bits saturates.
\<close>

definition nanos :: "duration \<Rightarrow> u64" where
  "nanos d = (if d < 2 ^ 64 then of_nat d else - 1)"

definition system_clock :: "('e \<Rightarrow> duration option \<times> 'e) \<Rightarrow> ('e \<Rightarrow> duration \<times> 'e) \<Rightarrow> 'e clock_ops" where
  "system_clock since_epoch elapsed =
     \<lparr>realtime_nanos = (\<lambda>e. let (d, e') = since_epoch e in (case d of None \<Rightarrow> 0 | Some d \<Rightarrow> nanos d, e')),
      monotonic_nanos = (\<lambda>e. let (d, e') = elapsed e in (nanos d, e'))\<rparr>"

record log_context =
  lc_vm_id :: bytes
  lc_guest :: guest_id
  lc_plugin_name :: "bytes option"
  lc_root_id :: "bytes option"
  lc_call :: "invocation option"

definition log_context_new :: "bytes \<Rightarrow> guest_id \<Rightarrow> log_context" where
  "log_context_new vm_id guest =
     \<lparr>lc_vm_id = vm_id, lc_guest = guest, lc_plugin_name = None, lc_root_id = None, lc_call = None\<rparr>"

definition with_plugin :: "bytes \<Rightarrow> bytes \<Rightarrow> log_context \<Rightarrow> log_context" where
  "with_plugin name root_id c = c\<lparr>lc_plugin_name := Some name, lc_root_id := Some root_id\<rparr>"

definition with_call :: "invocation \<Rightarrow> log_context \<Rightarrow> log_context" where
  "with_call call c = c\<lparr>lc_call := Some call\<rparr>"

text \<open>
  An \<open>Arc\<close> is an address with the operations it points to; two are the same service when
  the addresses are the same, which is what \<open>Arc::ptr_eq\<close> compares.
\<close>

type_synonym 't arc = "nat \<times> 't"

definition arc_ptr_eq :: "'t arc \<Rightarrow> 't arc \<Rightarrow> bool" where
  "arc_ptr_eq a b \<longleftrightarrow> fst a = fst b"

record 'e vm_services =
  vs_log :: "log_context \<Rightarrow> log_level \<Rightarrow> bytes \<Rightarrow> 'e \<Rightarrow> 'e"
  vs_clock :: "'e clock_ops"
  environment :: pairs
  vs_log_level :: log_level
  vm_id_of :: bytes
  vm_configuration :: bytes
  vs_shared :: "'e shared_services arc"
  vs_callouts :: "'e callouts_ops"

definition vm_services_new ::
  "(log_context \<Rightarrow> log_level \<Rightarrow> bytes \<Rightarrow> 'e \<Rightarrow> 'e) \<Rightarrow> 'e clock_ops \<Rightarrow> 'e shared_services arc \<Rightarrow> 'e vm_services" where
  "vm_services_new sink clock store =
     \<lparr>vs_log = sink, vs_clock = clock, environment = [], vs_log_level = Info, vm_id_of = [],
      vm_configuration = [], vs_shared = store, vs_callouts = no_callouts\<rparr>"

definition with_clock :: "'e clock_ops \<Rightarrow> 'e vm_services \<Rightarrow> 'e vm_services" where
  "with_clock clock s = s\<lparr>vs_clock := clock\<rparr>"

definition with_environment :: "pairs \<Rightarrow> 'e vm_services \<Rightarrow> 'e vm_services" where
  "with_environment variables s = s\<lparr>environment := variables\<rparr>"

definition with_log_level :: "log_level \<Rightarrow> 'e vm_services \<Rightarrow> 'e vm_services" where
  "with_log_level level s = s\<lparr>vs_log_level := level\<rparr>"

definition with_vm_id :: "bytes \<Rightarrow> 'e vm_services \<Rightarrow> 'e vm_services" where
  "with_vm_id vm_id s = s\<lparr>vm_id_of := vm_id\<rparr>"

definition with_vm_configuration :: "bytes \<Rightarrow> 'e vm_services \<Rightarrow> 'e vm_services" where
  "with_vm_configuration configuration s = s\<lparr>vm_configuration := configuration\<rparr>"

definition with_shared_services :: "'e shared_services arc \<Rightarrow> 'e vm_services \<Rightarrow> 'e vm_services" where
  "with_shared_services shared s = s\<lparr>vs_shared := shared\<rparr>"

definition with_callouts :: "'e callouts_ops \<Rightarrow> 'e vm_services \<Rightarrow> 'e vm_services" where
  "with_callouts c s = s\<lparr>vs_callouts := c\<rparr>"

definition set_log_level :: "log_level \<Rightarrow> 'e vm_services \<Rightarrow> 'e vm_services" where
  "set_log_level level s = s\<lparr>vs_log_level := level\<rparr>"

section \<open>What a callback lends\<close>

datatype delivered_map =
    DmHttpCallResponseHeaders
  | DmHttpCallResponseTrailers
  | DmGrpcCallInitialMetadata
  | DmGrpcCallTrailingMetadata

datatype delivered_buffer = DbHttpCallResponseBody | DbGrpcCallMessage | DbForeignFunctionArguments

fun serves_map :: "map_type \<Rightarrow> delivered_map option" where
  "serves_map HttpCallResponseHeaders = Some DmHttpCallResponseHeaders"
| "serves_map HttpCallResponseTrailers = Some DmHttpCallResponseTrailers"
| "serves_map GrpcCallInitialMetadata = Some DmGrpcCallInitialMetadata"
| "serves_map GrpcCallTrailingMetadata = Some DmGrpcCallTrailingMetadata"
| "serves_map _ = None"

fun serves_buffer :: "buffer_type \<Rightarrow> delivered_buffer option" where
  "serves_buffer HttpCallResponseBody = Some DbHttpCallResponseBody"
| "serves_buffer GrpcCallMessage = Some DbGrpcCallMessage"
| "serves_buffer ForeignFunctionArguments = Some DbForeignFunctionArguments"
| "serves_buffer _ = None"

definition owned_map :: "header_pairs \<Rightarrow> vec_header_map" where
  "owned_map ps = vec_from_iter (map (\<lambda>(key, value). (key, value)) ps)"

datatype payload =
    PHttpCallResponse vec_header_map vec_header_map bytes
  | PGrpcInitialMetadata vec_header_map
  | PGrpcMessage bytes
  | PGrpcTrailingMetadata vec_header_map
  | PGrpcClose grpc_status
  | PForeignArguments bytes

record delivery =
  del_callout :: "callout_id option"
  del_payload :: payload

definition delivery_http_call_response :: "callout_id \<Rightarrow> http_call_response \<Rightarrow> delivery" where
  "delivery_http_call_response callout response =
     (let (headers, body, trailers) = into_parts response in
      \<lparr>del_callout = Some callout,
       del_payload = PHttpCallResponse (owned_map headers) (owned_map trailers) body\<rparr>)"

definition delivery_grpc_initial_metadata :: "callout_id \<Rightarrow> header_pairs \<Rightarrow> delivery" where
  "delivery_grpc_initial_metadata callout metadata =
     \<lparr>del_callout = Some callout, del_payload = PGrpcInitialMetadata (owned_map metadata)\<rparr>"

definition delivery_grpc_message :: "callout_id \<Rightarrow> bytes \<Rightarrow> delivery" where
  "delivery_grpc_message callout message =
     \<lparr>del_callout = Some callout, del_payload = PGrpcMessage message\<rparr>"

definition delivery_grpc_trailing_metadata :: "callout_id \<Rightarrow> header_pairs \<Rightarrow> delivery" where
  "delivery_grpc_trailing_metadata callout metadata =
     \<lparr>del_callout = Some callout, del_payload = PGrpcTrailingMetadata (owned_map metadata)\<rparr>"

definition delivery_grpc_close :: "callout_id \<Rightarrow> grpc_status \<Rightarrow> delivery" where
  "delivery_grpc_close callout st = \<lparr>del_callout = Some callout, del_payload = PGrpcClose st\<rparr>"

definition delivery_foreign_arguments :: "bytes \<Rightarrow> delivery" where
  "delivery_foreign_arguments arguments =
     \<lparr>del_callout = None, del_payload = PForeignArguments arguments\<rparr>"

fun payload_map :: "payload \<Rightarrow> delivered_map \<Rightarrow> vec_header_map option" where
  "payload_map (PHttpCallResponse headers _ _) DmHttpCallResponseHeaders = Some headers"
| "payload_map (PHttpCallResponse _ trailers _) DmHttpCallResponseTrailers = Some trailers"
| "payload_map (PGrpcInitialMetadata m) DmGrpcCallInitialMetadata = Some m"
| "payload_map (PGrpcTrailingMetadata m) DmGrpcCallTrailingMetadata = Some m"
| "payload_map _ _ = None"

definition delivery_map :: "delivery \<Rightarrow> delivered_map \<Rightarrow> vec_header_map option" where
  "delivery_map d which = payload_map (del_payload d) which"

fun payload_buffer :: "payload \<Rightarrow> delivered_buffer \<Rightarrow> bytes option" where
  "payload_buffer (PHttpCallResponse _ _ body) DbHttpCallResponseBody = Some body"
| "payload_buffer (PGrpcMessage message) DbGrpcCallMessage = Some message"
| "payload_buffer (PForeignArguments arguments) DbForeignFunctionArguments = Some arguments"
| "payload_buffer _ _ = None"

definition delivery_buffer :: "delivery \<Rightarrow> delivered_buffer \<Rightarrow> bytes option" where
  "delivery_buffer d which = payload_buffer (del_payload d) which"

definition delivery_status :: "delivery \<Rightarrow> (u32 \<times> bytes) option" where
  "delivery_status d =
     (case del_payload d of
        PGrpcClose st \<Rightarrow> Some (gst_code st, gst_message st)
      | PForeignArguments _ \<Rightarrow> None
      | _ \<Rightarrow> Some (0, []))"

end
