(* ===== verification/Host_State.thy ===== *)
theory Host_State
  imports Services
begin

text \<open>
  The state a host function works on: the limits of a guest (\<open>runtime/limits.rs\<close>), the
  state of the ABI layer with its grants (\<open>state.rs\<close>, \<open>state/names.rs\<close>,
  \<open>state/serving.rs\<close>, \<open>changes.rs\<close>), the store data of an instance
  (\<open>runtime/host_state.rs\<close>), the failure of a guest call (\<open>runtime/guest_call.rs\<close>),
  memory the guest allocates (\<open>runtime/alloc.rs\<close>), and what every host function shares
  (\<open>host_functions/call.rs\<close>, \<open>failure.rs\<close>, \<open>bounds.rs\<close>,
  \<open>log_context.rs\<close>).
\<close>

section \<open>Limits\<close>

record limits =
  cpu_time :: duration
  fuel :: "u64 option"
  memory_bytes :: "nat option"
  max_decoded_pairs :: "u32 option"
  max_decoded_map_bytes :: "nat option"
  max_shared_names :: "nat option"
  max_name_bytes :: "nat option"
  max_log_bytes :: "nat option"
  max_open_callouts :: nat
  table_elements :: "nat option"

definition limits_default :: limits where
  "limits_default =
     \<lparr>cpu_time = from_millis 1000, fuel = None, memory_bytes = Some (128 * 1024 * 1024),
      max_decoded_pairs = Some DEFAULT_MAX_DECODED_PAIRS,
      max_decoded_map_bytes = Some DEFAULT_MAX_DECODED_MAP_BYTES,
      max_shared_names = Some 1024, max_name_bytes = Some 4096, max_log_bytes = Some (1024 * 1024),
      max_open_callouts = 1024, table_elements = Some 10000\<rparr>"

definition with_cpu_time :: "duration \<Rightarrow> limits \<Rightarrow> limits" where
  "with_cpu_time d l = l\<lparr>cpu_time := d\<rparr>"

definition with_fuel :: "u64 option \<Rightarrow> limits \<Rightarrow> limits" where
  "with_fuel f l = l\<lparr>fuel := f\<rparr>"

definition with_memory_bytes :: "nat option \<Rightarrow> limits \<Rightarrow> limits" where
  "with_memory_bytes n l = l\<lparr>memory_bytes := n\<rparr>"

definition with_max_decoded_pairs :: "u32 option \<Rightarrow> limits \<Rightarrow> limits" where
  "with_max_decoded_pairs n l = l\<lparr>max_decoded_pairs := n\<rparr>"

definition with_max_decoded_map_bytes :: "nat option \<Rightarrow> limits \<Rightarrow> limits" where
  "with_max_decoded_map_bytes n l = l\<lparr>max_decoded_map_bytes := n\<rparr>"

definition with_max_shared_names :: "nat option \<Rightarrow> limits \<Rightarrow> limits" where
  "with_max_shared_names n l = l\<lparr>max_shared_names := n\<rparr>"

definition with_max_name_bytes :: "nat option \<Rightarrow> limits \<Rightarrow> limits" where
  "with_max_name_bytes n l = l\<lparr>max_name_bytes := n\<rparr>"

definition with_max_log_bytes :: "nat option \<Rightarrow> limits \<Rightarrow> limits" where
  "with_max_log_bytes n l = l\<lparr>max_log_bytes := n\<rparr>"

definition with_max_open_callouts :: "nat \<Rightarrow> limits \<Rightarrow> limits" where
  "with_max_open_callouts n l = l\<lparr>max_open_callouts := n\<rparr>"

definition with_table_elements :: "nat option \<Rightarrow> limits \<Rightarrow> limits" where
  "with_table_elements n l = l\<lparr>table_elements := n\<rparr>"

definition limits_pair_limits :: "limits \<Rightarrow> pair_limits" where
  "limits_pair_limits l =
     with_bytes (max_decoded_map_bytes l) (with_pairs (max_decoded_pairs l) pair_limits_unlimited)"

text \<open>The budget of one guest call: the epoch ticks that cover the CPU time, and the fuel.\<close>

record budget =
  epoch_ticks :: u64
  budget_fuel :: "u64 option"

definition budget_new :: "limits \<Rightarrow> duration \<Rightarrow> budget" where
  "budget_new l epoch_period =
     (let period = max epoch_period 1;
          ticks = max ((cpu_time l + period - 1) div period) 1;
          capped = min (if ticks < 2 ^ 64 then ticks else 2 ^ 64 - 1) ((2 ^ 64 - 1) div 4)
      in \<lparr>epoch_ticks = of_nat capped, budget_fuel = fuel l\<rparr>)"

section \<open>The state of the ABI layer\<close>

datatype queue_registration =
  QueueRegistration (qr_queue: queue_id) (qr_root: context_id) (qr_name: bytes)

definition registration_key :: "queue_registration \<Rightarrow> queue_id \<times> context_id \<times> bytes" where
  "registration_key r = (qr_queue r, qr_root r, qr_name r)"

instantiation queue_registration :: linorder
begin

definition less_eq_queue_registration :: "queue_registration \<Rightarrow> queue_registration \<Rightarrow> bool" where
  "less_eq_queue_registration a b \<longleftrightarrow> registration_key a \<le> registration_key b"

definition less_queue_registration :: "queue_registration \<Rightarrow> queue_registration \<Rightarrow> bool" where
  "less_queue_registration a b \<longleftrightarrow> registration_key a < registration_key b"

instance
proof
  fix a b :: queue_registration
  assume "a \<le> b" "b \<le> a"
  then have "registration_key a = registration_key b"
    by (simp add: less_eq_queue_registration_def)
  then show "a = b"
    by (simp add: registration_key_def queue_registration.expand)
qed (auto simp: less_eq_queue_registration_def less_queue_registration_def)

end

record changes =
  tick_periods :: "(context_id, duration option) btree_map"
  changed_queues :: "queue_registration btree_set"

definition changes_empty :: changes where
  "changes_empty = \<lparr>tick_periods = [], changed_queues = []\<rparr>"

definition changes_is_empty :: "changes \<Rightarrow> bool" where
  "changes_is_empty c \<longleftrightarrow> tick_periods c = [] \<and> changed_queues c = []"

datatype shared_name =
    Registered bytes
  | Resolved bytes bytes
  | MetricName i32 bytes

fun shared_name_key :: "shared_name \<Rightarrow> nat \<times> int \<times> bytes \<times> bytes" where
  "shared_name_key (Registered n) = (0, 0, n, [])"
| "shared_name_key (Resolved v n) = (1, 0, v, n)"
| "shared_name_key (MetricName k n) = (2, sint k, n, [])"

instantiation shared_name :: linorder
begin

definition less_eq_shared_name :: "shared_name \<Rightarrow> shared_name \<Rightarrow> bool" where
  "less_eq_shared_name a b \<longleftrightarrow> shared_name_key a \<le> shared_name_key b"

definition less_shared_name :: "shared_name \<Rightarrow> shared_name \<Rightarrow> bool" where
  "less_shared_name a b \<longleftrightarrow> shared_name_key a < shared_name_key b"

instance
proof
  fix a b :: shared_name
  assume "a \<le> b" "b \<le> a"
  then have "shared_name_key a = shared_name_key b"
    by (simp add: less_eq_shared_name_def)
  then show "a = b"
    by (cases a; cases b) (auto intro: signed_word_eqI)
qed (auto simp: less_eq_shared_name_def less_shared_name_def)

end

record ('e, 'h) abi_state =
  guest_of :: guest_id
  services_of :: "'e vm_services"
  stream_state_of :: "('h stream_ops \<times> 'h) option"
  contexts_of :: context_table
  current_callback :: "callback option"
  granted_queues :: "queue_id btree_set"
  granted_metrics :: "metric_id btree_set"
  held_names :: "shared_name btree_set"
  vm_started :: bool
  granted_against :: "'e shared_services arc option"
  registrants_of :: "(queue_id, context_id btree_set) btree_map"
  callouts_of :: callout_table
  announced :: "(buffer_type \<times> u32) option"
  deleting :: "context_id option"
  delivery_of :: "delivery option"
  changes_of :: changes

text \<open>The identity of the guest comes from a counter of the process, so it is an argument.\<close>

definition abi_state_new :: "guest_id \<Rightarrow> 'e vm_services \<Rightarrow> ('e, 'h) abi_state" where
  "abi_state_new guest services =
     \<lparr>guest_of = guest, services_of = services, stream_state_of = None,
      contexts_of = context_table_new, current_callback = None, granted_queues = [],
      granted_metrics = [], held_names = [], vm_started = False, granted_against = None,
      registrants_of = [], callouts_of = callout_table_new, announced = None, deleting = None,
      delivery_of = None, changes_of = changes_empty\<rparr>"

definition grants_seen :: "('e, 'h) abi_state \<Rightarrow> 'e shared_services arc \<Rightarrow> bool" where
  "grants_seen a shared \<longleftrightarrow>
     (case granted_against a of Some seen \<Rightarrow> arc_ptr_eq seen shared | None \<Rightarrow> False)"

definition settle_grants :: "'e shared_services arc \<Rightarrow> ('e, 'h) abi_state \<Rightarrow> ('e, 'h) abi_state" where
  "settle_grants shared a =
     (if grants_seen a shared then a
      else a\<lparr>granted_queues := [], granted_metrics := [], held_names := [], registrants_of := [],
             changes_of := (changes_of a)\<lparr>changed_queues := []\<rparr>, granted_against := Some shared\<rparr>)"

definition abi_settle :: "('e, 'h) abi_state \<Rightarrow> ('e, 'h) abi_state" where
  "abi_settle a = settle_grants (vs_shared (services_of a)) a"

definition grant_queue :: "queue_id \<Rightarrow> ('e, 'h) abi_state \<Rightarrow> ('e, 'h) abi_state" where
  "grant_queue queue a = a\<lparr>granted_queues := bts_insert queue (granted_queues a)\<rparr>"

definition holds_queue :: "('e, 'h) abi_state \<Rightarrow> queue_id \<Rightarrow> bool" where
  "holds_queue a queue \<longleftrightarrow> bts_contains (granted_queues a) queue"

definition grant_metric :: "metric_id \<Rightarrow> ('e, 'h) abi_state \<Rightarrow> ('e, 'h) abi_state" where
  "grant_metric metric a = a\<lparr>granted_metrics := bts_insert metric (granted_metrics a)\<rparr>"

definition holds_metric :: "('e, 'h) abi_state \<Rightarrow> metric_id \<Rightarrow> bool" where
  "holds_metric a metric \<longleftrightarrow> bts_contains (granted_metrics a) metric"

definition shared_names :: "('e, 'h) abi_state \<Rightarrow> nat" where
  "shared_names a = usize_saturating_add (length (granted_queues a)) (length (granted_metrics a))"

definition abi_register_queue ::
  "queue_id \<Rightarrow> context_id \<Rightarrow> bytes \<Rightarrow> ('e, 'h) abi_state \<Rightarrow> ('e, 'h) abi_state" where
  "abi_register_queue queue root name a =
     (let roots = (case btm_get (registrants_of a) queue of None \<Rightarrow> [] | Some roots \<Rightarrow> roots);
          a' = a\<lparr>registrants_of := btm_insert queue (bts_insert root roots) (registrants_of a)\<rparr>
      in if bts_contains roots root then a'
         else a'\<lparr>changes_of := (changes_of a')\<lparr>changed_queues :=
                bts_insert (QueueRegistration queue root name) (changed_queues (changes_of a'))\<rparr>\<rparr>)"

definition grants_are_current :: "('e, 'h) abi_state \<Rightarrow> bool" where
  "grants_are_current a \<longleftrightarrow> grants_seen a (vs_shared (services_of a))"

definition registrants :: "('e, 'h) abi_state \<Rightarrow> queue_id \<Rightarrow> context_id list" where
  "registrants a queue =
     (if \<not> grants_are_current a then []
      else case btm_get (registrants_of a) queue of None \<Rightarrow> [] | Some roots \<Rightarrow> map fst roots)"

definition forget_registrant :: "context_id \<Rightarrow> ('e, 'h) abi_state \<Rightarrow> ('e, 'h) abi_state" where
  "forget_registrant root a =
     a\<lparr>registrants_of := filter (\<lambda>(_, roots). roots \<noteq> [])
        (map (\<lambda>(queue, roots). (queue, btm_remove root roots)) (registrants_of a))\<rparr>"

definition note_tick_period :: "context_id \<Rightarrow> duration option \<Rightarrow> ('e, 'h) abi_state \<Rightarrow> ('e, 'h) abi_state" where
  "note_tick_period root period a =
     a\<lparr>changes_of := (changes_of a)\<lparr>tick_periods := btm_insert root period (tick_periods (changes_of a))\<rparr>\<rparr>"

definition take_changes :: "('e, 'h) abi_state \<Rightarrow> changes \<times> ('e, 'h) abi_state" where
  "take_changes a =
     (let c = (if grants_are_current a then changes_of a else (changes_of a)\<lparr>changed_queues := []\<rparr>)
      in (c, a\<lparr>changes_of := changes_empty\<rparr>))"

definition set_deleting :: "context_id option \<Rightarrow> ('e, 'h) abi_state \<Rightarrow> ('e, 'h) abi_state" where
  "set_deleting c a = a\<lparr>deleting := c\<rparr>"

definition is_deleting :: "('e, 'h) abi_state \<Rightarrow> context_id \<Rightarrow> bool" where
  "is_deleting a c \<longleftrightarrow> deleting a = Some c"

definition take_stream_state :: "('e, 'h) abi_state \<Rightarrow> ('h stream_ops \<times> 'h) option \<times> ('e, 'h) abi_state" where
  "take_stream_state a = (stream_state_of a, a\<lparr>stream_state_of := None\<rparr>)"

definition holds_shared_name :: "('e, 'h) abi_state \<Rightarrow> shared_name \<Rightarrow> bool" where
  "holds_shared_name a name \<longleftrightarrow> bts_contains (held_names a) name"

definition hold_shared_name :: "shared_name \<Rightarrow> ('e, 'h) abi_state \<Rightarrow> ('e, 'h) abi_state" where
  "hold_shared_name name a = a\<lparr>held_names := bts_insert name (held_names a)\<rparr>"

definition set_announced :: "(buffer_type \<times> u32) option \<Rightarrow> ('e, 'h) abi_state \<Rightarrow> ('e, 'h) abi_state" where
  "set_announced n a = a\<lparr>announced := n\<rparr>"

definition take_announced :: "buffer_type \<Rightarrow> ('e, 'h) abi_state \<Rightarrow> u32 option \<times> ('e, 'h) abi_state" where
  "take_announced buffer a =
     (case announced a of
        None \<Rightarrow> (None, a)
      | Some (kind, n) \<Rightarrow> if kind \<noteq> buffer then (None, a) else (Some n, a\<lparr>announced := None\<rparr>))"

section \<open>The store data of an instance\<close>

text \<open>
  \<open>st_memory\<close> and \<open>st_allocator\<close> are what the instance found among the exports of
  the module; \<open>st_env\<close> is the world of the embedder the services act on, and
  \<open>st_guest\<close> the private state of the guest (its globals and tables).
\<close>

record ('e, 'h, 'g) store =
  st_pair_limits :: pair_limits
  st_max_shared_names :: "nat option"
  st_max_name_bytes :: "nat option"
  st_max_log_bytes :: "nat option"
  st_max_open_callouts :: nat
  st_memory :: "bytes option"
  st_allocator :: bool
  st_poisoned :: bool
  st_abi :: "('e, 'h) abi_state"
  st_env :: 'e
  st_guest :: 'g

definition host_state_new :: "('e, 'h) abi_state \<Rightarrow> 'e \<Rightarrow> 'g \<Rightarrow> ('e, 'h, 'g) store" where
  "host_state_new a env guest =
     \<lparr>st_pair_limits = pair_limits_default, st_max_shared_names = None, st_max_name_bytes = None,
      st_max_log_bytes = None, st_max_open_callouts = 0, st_memory = None, st_allocator = False,
      st_poisoned = False, st_abi = a, st_env = env, st_guest = guest\<rparr>"

definition set_guest_limits :: "limits \<Rightarrow> ('e, 'h, 'g) store \<Rightarrow> ('e, 'h, 'g) store" where
  "set_guest_limits l w =
     w\<lparr>st_pair_limits := limits_pair_limits l, st_max_shared_names := max_shared_names l,
       st_max_name_bytes := max_name_bytes l, st_max_log_bytes := max_log_bytes l,
       st_max_open_callouts := max_open_callouts l\<rparr>"

definition poison :: "('e, 'h, 'g) store \<Rightarrow> ('e, 'h, 'g) store" where
  "poison w = w\<lparr>st_poisoned := True\<rparr>"

definition set_abi :: "(('e, 'h) abi_state \<Rightarrow> ('e, 'h) abi_state) \<Rightarrow> ('e, 'h, 'g) store \<Rightarrow> ('e, 'h, 'g) store" where
  "set_abi f w = w\<lparr>st_abi := f (st_abi w)\<rparr>"

abbreviation contexts :: "('e, 'h, 'g) store \<Rightarrow> context_table" where
  "contexts w \<equiv> contexts_of (st_abi w)"

abbreviation callouts :: "('e, 'h, 'g) store \<Rightarrow> callout_table" where
  "callouts w \<equiv> callouts_of (st_abi w)"

abbreviation services :: "('e, 'h, 'g) store \<Rightarrow> 'e vm_services" where
  "services w \<equiv> services_of (st_abi w)"

section \<open>Failures of a guest call\<close>

datatype trap = Interrupt | OutOfFuel | StackOverflow | OtherTrap string

text \<open>
  What a call into wasm fails with: an error of this crate that a host function returned, a
  trap, or another error of the runtime, each with the backtrace the runtime attached.
\<close>

datatype wasm_error =
    Ours error
  | Trapped trap "string option"
  | OtherError string "string option"

fun map_guest_error :: "wasm_error \<Rightarrow> error" where
  "map_guest_error (Ours e) = e"
| "map_guest_error (Trapped Interrupt _) = LimitExceeded Epoch"
| "map_guest_error (Trapped OutOfFuel _) = LimitExceeded Fuel"
| "map_guest_error (Trapped StackOverflow _) = LimitExceeded Stack"
| "map_guest_error (Trapped (OtherTrap message) backtrace) = Trap message backtrace"
| "map_guest_error (OtherError message backtrace) = Trap message backtrace"

definition fail :: "wasm_error \<Rightarrow> ('e, 'h, 'g) store \<Rightarrow> error \<times> ('e, 'h, 'g) store" where
  "fail e w = (map_guest_error e, poison w)"

text \<open>
  A call on a store: nothing runs on a poisoned one, and any failure of the call poisons it.
  The function is an argument; refilling the budget sets the counters of the runtime, which
  the model of a guest call does not have.
\<close>

definition call_on ::
  "(('e, 'h, 'g) store \<Rightarrow> (wasm_error + 'r) \<times> ('e, 'h, 'g) store) \<Rightarrow> (('e, 'h, 'g) store, error, 'r) act" where
  "call_on func w =
     (if st_poisoned w then (Inl Poisoned, w)
      else case func w of
          (Inr r, w') \<Rightarrow> (Inr r, w')
        | (Inl e, w') \<Rightarrow> (let (err, w'') = fail e w' in (Inl err, w'')))"

section \<open>Failures of a host function\<close>

datatype failure = FStatus status | Unwind error

definition failure_of_memory :: "memory_error \<Rightarrow> failure" where
  "failure_of_memory e = FStatus InvalidMemoryAccess"

definition failure_of_unknown :: "unknown_value \<Rightarrow> failure" where
  "failure_of_unknown e = FStatus BadArgument"

definition failure_of_context_id :: "invalid_context_id \<Rightarrow> failure" where
  "failure_of_context_id e = FStatus BadArgument"

definition failure_of_decode :: "decode_error \<Rightarrow> failure" where
  "failure_of_decode e = FStatus BadArgument"

definition failure_of_encode :: "encode_error \<Rightarrow> failure" where
  "failure_of_encode e = FStatus SerializationFailure"

definition failure_of_not_allowed :: "not_allowed \<Rightarrow> failure" where
  "failure_of_not_allowed e = FStatus BadArgument"

fun failure_of_error :: "error \<Rightarrow> failure" where
  "failure_of_error (Memory _) = FStatus InvalidMemoryAccess"
| "failure_of_error (ValueTooLarge _) = FStatus InternalFailure"
| "failure_of_error (AllocationFailed _) = FStatus InternalFailure"
| "failure_of_error e = Unwind e"

definition complete :: "(failure + unit) \<Rightarrow> wasm_error + i32" where
  "complete r =
     (case r of
        Inr _ \<Rightarrow> Inr (status_code Ok)
      | Inl (FStatus s) \<Rightarrow> Inr (status_code s)
      | Inl (Unwind e) \<Rightarrow> Inl (Ours e))"

section \<open>Memory of the guest\<close>

type_synonym ('e, 'h, 'g, 'a) host = "(('e, 'h, 'g) store, failure, 'a) act"
type_synonym ('e, 'h, 'g, 'a) fallible = "(('e, 'h, 'g) store, error, 'a) act"

text \<open>
  \<open>split\<close> lends the memory and the state, or fails when the guest has no memory. The
  accesses below run after it, on the memory it lent.
\<close>

definition split_store :: "('e, 'h, 'g, unit) fallible" where
  "split_store = aguard (\<lambda>w. st_memory w \<noteq> None) MissingMemory"

definition memory_of :: "('e, 'h, 'g) store \<Rightarrow> bytes" where
  "memory_of w = (case st_memory w of None \<Rightarrow> [] | Some m \<Rightarrow> m)"

definition mem_get :: "(bytes \<Rightarrow> memory_error + 'a) \<Rightarrow> ('e, 'h, 'g, 'a) fallible" where
  "mem_get f w = (map_sum Memory id (f (memory_of w)), w)"

definition mem_put :: "(bytes \<Rightarrow> memory_error + bytes) \<Rightarrow> ('e, 'h, 'g, unit) fallible" where
  "mem_put f w =
     (case f (memory_of w) of
        Inl e \<Rightarrow> (Inl (Memory e), w)
      | Inr m \<Rightarrow> (Inr (), w\<lparr>st_memory := Some m\<rparr>))"

definition slice_get :: "guest_ptr \<Rightarrow> u32 \<Rightarrow> ('e, 'h, 'g, guest_slice) fallible" where
  "slice_get ptr len = alift (map_sum Memory id (guest_slice_new ptr len))"

type_synonym ('e, 'h, 'g) allocator =
  "i32 \<Rightarrow> ('e, 'h, 'g) store \<Rightarrow> (wasm_error + i32) \<times> ('e, 'h, 'g) store"

definition allocate :: "('e, 'h, 'g) allocator \<Rightarrow> u32 \<Rightarrow> ('e, 'h, 'g, guest_ptr) fallible" where
  "allocate alloc sz w =
     (if st_poisoned w then (Inl Poisoned, w)
      else if \<not> st_allocator w then (Inl MissingAllocator, w)
      else case i32_try_from_u32 sz of
          None \<Rightarrow> (Inl (ValueTooLarge (unat sz)), w)
        | Some requested \<Rightarrow>
            (case alloc requested w of
               (Inr address, w') \<Rightarrow>
                 if address = 0 then (Inl (AllocationFailed sz), w') else (Inr (guest_ptr_of address), w')
             | (Inl e, w') \<Rightarrow> (let (err, w'') = fail e w' in (Inl err, w''))))"

definition write_to_guest :: "('e, 'h, 'g) allocator \<Rightarrow> bytes \<Rightarrow> ('e, 'h, 'g, guest_slice) fallible" where
  "write_to_guest alloc bs =
     abind (alift (ok_or (ValueTooLarge (length bs)) (u32_try_from_usize (length bs)))) (\<lambda>len.
     if len = 0 then slice_get 0 0
     else
       abind (allocate alloc len) (\<lambda>address.
       abind (slice_get address len) (\<lambda>slice.
       abind split_store (\<lambda>_.
       abind (mem_put (\<lambda>m. mem_write m slice bs)) (\<lambda>_.
       aret slice)))))"

definition check_return :: "guest_ptr option \<Rightarrow> ('e, 'h, 'g, unit) fallible" where
  "check_return pointer =
     (case pointer of
        None \<Rightarrow> aret ()
      | Some p \<Rightarrow> abind (mem_get (\<lambda>m. mem_read_u32 m p)) (\<lambda>_. aret ()))"

definition write_optional_return ::
  "('e, 'h, 'g) allocator \<Rightarrow> bytes \<Rightarrow> guest_ptr option \<Rightarrow> guest_ptr option \<Rightarrow> ('e, 'h, 'g, unit) fallible" where
  "write_optional_return alloc bs return_data return_size =
     abind split_store (\<lambda>_.
     abind (check_return return_data) (\<lambda>_.
     abind (check_return return_size) (\<lambda>_.
     abind (case return_data of
              Some pointer \<Rightarrow>
                abind (write_to_guest alloc bs) (\<lambda>slice.
                abind split_store (\<lambda>_.
                abind (mem_put (\<lambda>m. mem_write_u32 m pointer (sptr slice))) (\<lambda>_.
                aret (Some (slen slice)))))
            | None \<Rightarrow> aret None) (\<lambda>address.
     case return_size of
       None \<Rightarrow> aret ()
     | Some pointer \<Rightarrow>
         abind (case address of
                  Some len \<Rightarrow> aret len
                | None \<Rightarrow> alift (ok_or (ValueTooLarge (length bs)) (u32_try_from_usize (length bs)))) (\<lambda>len.
         abind split_store (\<lambda>_.
         mem_put (\<lambda>m. mem_write_u32 m pointer len)))))))"

definition write_return ::
  "('e, 'h, 'g) allocator \<Rightarrow> bytes \<Rightarrow> guest_ptr \<Rightarrow> guest_ptr \<Rightarrow> ('e, 'h, 'g, unit) fallible" where
  "write_return alloc bs return_data return_size =
     write_optional_return alloc bs (Some return_data) (Some return_size)"

section \<open>What host functions share\<close>

abbreviation from_error :: "('e, 'h, 'g, 'a) fallible \<Rightarrow> ('e, 'h, 'g, 'a) host" where
  "from_error m \<equiv> amap_err failure_of_error m"

definition arg_slice :: "i32 \<Rightarrow> i32 \<Rightarrow> ('e, 'h, 'g, guest_slice) host" where
  "arg_slice ptr len = alift (map_sum failure_of_memory id (guest_slice_try_from ptr len))"

definition arg_enum :: "(i32 \<Rightarrow> unknown_value + 'a) \<Rightarrow> i32 \<Rightarrow> ('e, 'h, 'g, 'a) host" where
  "arg_enum try_from v = alift (map_sum failure_of_unknown id (try_from v))"

definition read_slice :: "guest_slice \<Rightarrow> ('e, 'h, 'g, bytes) host" where
  "read_slice s = from_error (mem_get (\<lambda>m. mem_read m s))"

definition check_u32 :: "guest_ptr \<Rightarrow> ('e, 'h, 'g, unit) host" where
  "check_u32 p = from_error (abind (mem_get (\<lambda>m. mem_read_u32 m p)) (\<lambda>_. aret ()))"

definition put_u32 :: "guest_ptr \<Rightarrow> u32 \<Rightarrow> ('e, 'h, 'g, unit) host" where
  "put_u32 p v = from_error (mem_put (\<lambda>m. mem_write_u32 m p v))"

definition put_u64 :: "guest_ptr \<Rightarrow> u64 \<Rightarrow> ('e, 'h, 'g, unit) host" where
  "put_u64 p v = from_error (mem_put (\<lambda>m. mem_write_u64 m p v))"

definition on_abi :: "(('e, 'h) abi_state \<Rightarrow> ('e, 'h) abi_state) \<Rightarrow> ('e, 'h, 'g, unit) host" where
  "on_abi f = amod (set_abi f)"

definition within_name_bytes :: "bytes \<Rightarrow> status \<Rightarrow> ('e, 'h, 'g, unit) host" where
  "within_name_bytes name refusal =
     aguard (\<lambda>w. case st_max_name_bytes w of Some m \<Rightarrow> length name \<le> m | None \<Rightarrow> True) (FStatus refusal)"

definition within_shared_names :: "('e, 'h, 'g, unit) host" where
  "within_shared_names =
     aguard (\<lambda>w. case st_max_shared_names w of Some m \<Rightarrow> shared_names (st_abi w) < m | None \<Rightarrow> True)
       (FStatus InternalFailure)"

definition invocation_of :: "('e, 'h, 'g) store \<Rightarrow> context_id \<Rightarrow> invocation" where
  "invocation_of w ctx =
     (let a = st_abi w;
          call = invocation_new (guest_of a) ctx;
          call = (case current_callback a of Some cb \<Rightarrow> with_callback cb call | None \<Rightarrow> call)
      in case Option.bind (delivery_of a) del_callout of
           Some c \<Rightarrow> with_callout c call | None \<Rightarrow> call)"

definition guest_pairs :: "bytes \<Rightarrow> ('e, 'h, 'g, pairs) host" where
  "guest_pairs bs = atry (\<lambda>w. map_sum failure_of_decode id (decode_pairs bs (st_pair_limits w)))"

definition context_of :: "status \<Rightarrow> ('e, 'h, 'g, context_id) host" where
  "context_of absent =
     atry (\<lambda>w. case effective (contexts w) of
         Some ctx \<Rightarrow> if rejection_of (contexts w) ctx = None then Inr ctx else Inl (FStatus absent)
       | None \<Rightarrow> Inl (FStatus absent))"

definition with_stream :: "status \<Rightarrow> ('e, 'h, 'g, invocation \<times> 'h stream_ops) host" where
  "with_stream absent =
     abind (context_of absent) (\<lambda>ctx.
     abind (aget (\<lambda>w. invocation_of w ctx)) (\<lambda>call.
     abind (atry (\<lambda>w. ok_or (FStatus absent) (stream_state_of (st_abi w)))) (\<lambda>(ops, _).
     aret (call, ops))))"

definition settle :: "('e, 'h, 'g, unit) host" where
  "settle = on_abi abi_settle"

definition with_shared :: "status \<Rightarrow> ('e, 'h, 'g, invocation \<times> 'e shared_services) host" where
  "with_shared absent =
     abind (aget (\<lambda>w. vs_shared (services w))) (\<lambda>shared.
     abind (on_abi (settle_grants shared)) (\<lambda>_.
     abind (context_of absent) (\<lambda>ctx.
     abind (aget (\<lambda>w. invocation_of w ctx)) (\<lambda>call.
     aret (call, snd shared)))))"

definition from_embedder :: "(status + 'a) \<Rightarrow> failure + 'a" where
  "from_embedder r =
     (case r of
        Inr x \<Rightarrow> Inr x
      | Inl s \<Rightarrow> if s = Ok then Inl (FStatus InternalFailure) else Inl (FStatus s))"

text \<open>A call to a service of the embedder changes the world of the embedder.\<close>

definition on_env :: "('e \<Rightarrow> 'r \<times> 'e) \<Rightarrow> ('e, 'h, 'g, 'r) host" where
  "on_env f w = (let (r, env) = f (st_env w) in (Inr r, w\<lparr>st_env := env\<rparr>))"

definition embedder :: "('e \<Rightarrow> (status + 'a) \<times> 'e) \<Rightarrow> ('e, 'h, 'g, 'a) host" where
  "embedder f = abind (on_env f) (\<lambda>r. alift (from_embedder r))"

text \<open>A call to the stream state changes the stream state that was lent.\<close>

definition on_stream :: "('h \<Rightarrow> 'r \<times> 'h) \<Rightarrow> ('e, 'h, 'g, 'r option) host" where
  "on_stream f w =
     (case stream_state_of (st_abi w) of
        None \<Rightarrow> (Inr None, w)
      | Some (ops, h) \<Rightarrow>
          (let (r, h') = f h in
           (Inr (Some r), set_abi (\<lambda>a. a\<lparr>stream_state_of := Some (ops, h')\<rparr>) w)))"

definition log_context_of :: "('e, 'h, 'g) store \<Rightarrow> log_context" where
  "log_context_of w =
     (let a = st_abi w; ctx = log_context_new (vm_id_of (services_of a)) (guest_of a) in
      case current_callback a of
        None \<Rightarrow> ctx
      | Some cb \<Rightarrow>
          (case effective (contexts_of a) of
             None \<Rightarrow> ctx
           | Some eff \<Rightarrow>
               (let call = with_callback cb (invocation_new (guest_of a) eff);
                    call = (case Option.bind (delivery_of a) del_callout of
                              Some c \<Rightarrow> with_callout c call | None \<Rightarrow> call);
                    ctx = with_call call ctx
                in case Option.bind (root_of (contexts_of a) eff) (ctx_plugin (contexts_of a)) of
                     Some plugin \<Rightarrow> with_plugin (plugin_name plugin) (plugin_root_id plugin) ctx
                   | None \<Rightarrow> ctx)))"

end
