(* ===== verification/Host_Shared.thy ===== *)
theory Host_Shared
  imports Host_State
begin

text \<open>
  The host functions of shared data, shared queues and metrics
  (\<open>host_functions/shared_data.rs\<close>, \<open>shared_queue.rs\<close>, \<open>metric.rs\<close>), and
  those of the context, the timer, the clock and the log (\<open>context.rs\<close>, \<open>timer.rs\<close>,
  \<open>clock.rs\<close>, \<open>log.rs\<close>). Every body is written in the order of the code, one bind
  per question mark.
\<close>

section \<open>Shared data\<close>

definition cas_arg :: "i32 \<Rightarrow> u32 option" where
  "cas_arg cas = (if cas = 0 then None else Some cas)"

definition proxy_set_shared_data ::
  "i32 \<Rightarrow> i32 \<Rightarrow> i32 \<Rightarrow> i32 \<Rightarrow> i32 \<Rightarrow> ('e, 'h, 'g, unit) host" where
  "proxy_set_shared_data key_data key_size value_data value_size cas =
     abind (arg_slice key_data key_size) (\<lambda>key.
     abind (arg_slice value_data value_size) (\<lambda>value.
     abind (from_error split_store) (\<lambda>_.
     abind (read_slice key) (\<lambda>key.
     abind (read_slice value) (\<lambda>value.
     abind (with_shared NotFound) (\<lambda>(call, shared).
     abind (within_name_bytes key InternalFailure) (\<lambda>_.
     abind (aget (\<lambda>w. vm_id_of (services w))) (\<lambda>vm_id.
     embedder (set_shared_data shared call vm_id key value (cas_arg cas))))))))))"

definition proxy_get_shared_data ::
  "('e, 'h, 'g) allocator \<Rightarrow> i32 \<Rightarrow> i32 \<Rightarrow> i32 \<Rightarrow> i32 \<Rightarrow> i32 \<Rightarrow> ('e, 'h, 'g, unit) host" where
  "proxy_get_shared_data alloc key_data key_size return_value_data return_value_size return_cas =
     abind (arg_slice key_data key_size) (\<lambda>key.
     let data_ptr = guest_ptr_of return_value_data;
         size_ptr = guest_ptr_of return_value_size;
         cas_ptr = guest_ptr_of return_cas in
     abind (from_error split_store) (\<lambda>_.
     abind (check_u32 data_ptr) (\<lambda>_.
     abind (check_u32 size_ptr) (\<lambda>_.
     abind (check_u32 cas_ptr) (\<lambda>_.
     abind (read_slice key) (\<lambda>key.
     abind (with_shared NotFound) (\<lambda>(call, shared).
     abind (within_name_bytes key NotFound) (\<lambda>_.
     abind (aget (\<lambda>w. vm_id_of (services w))) (\<lambda>vm_id.
     abind (embedder (get_shared_data shared call vm_id key)) (\<lambda>value.
     abind (from_error (write_return alloc (sv_bytes value) data_ptr size_ptr)) (\<lambda>_.
     abind (from_error split_store) (\<lambda>_.
     put_u32 cas_ptr (sv_cas value)))))))))))))"

section \<open>Shared queues\<close>

text \<open>A name the guest does not hold yet must fit in the number of names it may hold.\<close>

definition room_for_name :: "shared_name \<Rightarrow> ('e, 'h, 'g, unit) host" where
  "room_for_name held =
     abind (aget (\<lambda>w. holds_shared_name (st_abi w) held)) (\<lambda>holds.
     if \<not> holds then within_shared_names else aret ())"

definition proxy_register_shared_queue ::
  "i32 \<Rightarrow> i32 \<Rightarrow> i32 \<Rightarrow> ('e, 'h, 'g, unit) host" where
  "proxy_register_shared_queue name_data name_size return_queue_id =
     abind (arg_slice name_data name_size) (\<lambda>name.
     let return_queue_id = guest_ptr_of return_queue_id in
     abind (from_error split_store) (\<lambda>_.
     abind (check_u32 return_queue_id) (\<lambda>_.
     abind (read_slice name) (\<lambda>name.
     abind (with_shared NotFound) (\<lambda>(call, shared).
     abind (within_name_bytes name InternalFailure) (\<lambda>_.
     let held = Registered name in
     abind (room_for_name held) (\<lambda>_.
     abind (aget (\<lambda>w. vm_id_of (services w))) (\<lambda>vm_id.
     abind (embedder (register_shared_queue shared call vm_id name)) (\<lambda>queue.
     abind (on_abi (grant_queue queue)) (\<lambda>_.
     abind (on_abi (hold_shared_name held)) (\<lambda>_.
     abind (aget (\<lambda>w. root_of (contexts w) (inv_context call))) (\<lambda>root.
     abind (case root of Some root \<Rightarrow> on_abi (abi_register_queue queue root name) | None \<Rightarrow> aret ()) (\<lambda>_.
     abind (from_error split_store) (\<lambda>_.
     put_u32 return_queue_id (queue_get queue)))))))))))))))"

definition proxy_resolve_shared_queue ::
  "i32 \<Rightarrow> i32 \<Rightarrow> i32 \<Rightarrow> i32 \<Rightarrow> i32 \<Rightarrow> ('e, 'h, 'g, unit) host" where
  "proxy_resolve_shared_queue vm_id_data vm_id_size name_data name_size return_queue_id =
     abind (arg_slice vm_id_data vm_id_size) (\<lambda>vm_id.
     abind (arg_slice name_data name_size) (\<lambda>name.
     let return_queue_id = guest_ptr_of return_queue_id in
     abind (from_error split_store) (\<lambda>_.
     abind (check_u32 return_queue_id) (\<lambda>_.
     abind (read_slice vm_id) (\<lambda>vm_id.
     abind (read_slice name) (\<lambda>name.
     abind (with_shared NotFound) (\<lambda>(call, shared).
     abind (within_name_bytes name InternalFailure) (\<lambda>_.
     abind (aget (\<lambda>w. if vm_id = [] then vm_id_of (services w) else vm_id)) (\<lambda>vm_id.
     let held = Resolved vm_id name in
     abind (room_for_name held) (\<lambda>_.
     abind (embedder (resolve_shared_queue shared call vm_id name)) (\<lambda>queue.
     abind (on_abi (hold_shared_name held)) (\<lambda>_.
     abind (on_abi (grant_queue queue)) (\<lambda>_.
     abind (from_error split_store) (\<lambda>_.
     put_u32 return_queue_id (queue_get queue)))))))))))))))"

definition queue_arg :: "i32 \<Rightarrow> ('e, 'h, 'g, queue_id) host" where
  "queue_arg queue_id = alift (map_sum (\<lambda>_. FStatus NotFound) id (queue_id_try_from queue_id))"

text \<open>The grants settle first, so an identifier of an earlier service is not held.\<close>

definition require_queue :: "queue_id \<Rightarrow> ('e, 'h, 'g, unit) host" where
  "require_queue queue =
     abind settle (\<lambda>_. aguard (\<lambda>w. holds_queue (st_abi w) queue) (FStatus NotFound))"

definition proxy_enqueue_shared_queue :: "i32 \<Rightarrow> i32 \<Rightarrow> i32 \<Rightarrow> ('e, 'h, 'g, unit) host" where
  "proxy_enqueue_shared_queue queue_id value_data value_size =
     abind (queue_arg queue_id) (\<lambda>queue.
     abind (arg_slice value_data value_size) (\<lambda>value.
     abind (from_error split_store) (\<lambda>_.
     abind (read_slice value) (\<lambda>value.
     abind (require_queue queue) (\<lambda>_.
     abind (with_shared NotFound) (\<lambda>(call, shared).
     embedder (enqueue_shared_queue shared call queue value)))))))"

definition proxy_dequeue_shared_queue ::
  "('e, 'h, 'g) allocator \<Rightarrow> i32 \<Rightarrow> i32 \<Rightarrow> i32 \<Rightarrow> ('e, 'h, 'g, unit) host" where
  "proxy_dequeue_shared_queue alloc queue_id return_value_data return_value_size =
     abind (queue_arg queue_id) (\<lambda>queue.
     let data_ptr = guest_ptr_of return_value_data; size_ptr = guest_ptr_of return_value_size in
     abind (from_error split_store) (\<lambda>_.
     abind (check_u32 data_ptr) (\<lambda>_.
     abind (check_u32 size_ptr) (\<lambda>_.
     abind (require_queue queue) (\<lambda>_.
     abind (with_shared NotFound) (\<lambda>(call, shared).
     abind (embedder (dequeue_shared_queue shared call queue)) (\<lambda>value.
     from_error (write_return alloc value data_ptr size_ptr))))))))"

section \<open>Metrics\<close>

definition proxy_define_metric :: "i32 \<Rightarrow> i32 \<Rightarrow> i32 \<Rightarrow> i32 \<Rightarrow> ('e, 'h, 'g, unit) host" where
  "proxy_define_metric metric_type name_data name_size return_metric_id =
     abind (arg_enum metric_type_try_from metric_type) (\<lambda>kind.
     abind (arg_slice name_data name_size) (\<lambda>name.
     let return_metric_id = guest_ptr_of return_metric_id in
     abind (from_error split_store) (\<lambda>_.
     abind (check_u32 return_metric_id) (\<lambda>_.
     abind (read_slice name) (\<lambda>name.
     abind (with_shared NotFound) (\<lambda>(call, shared).
     abind (within_name_bytes name InternalFailure) (\<lambda>_.
     let held = MetricName (metric_type_code kind) name in
     abind (room_for_name held) (\<lambda>_.
     abind (aget (\<lambda>w. vm_id_of (services w))) (\<lambda>vm_id.
     abind (embedder (define_metric shared call vm_id kind name)) (\<lambda>metric.
     abind (on_abi (grant_metric metric)) (\<lambda>_.
     abind (on_abi (hold_shared_name held)) (\<lambda>_.
     abind (from_error split_store) (\<lambda>_.
     put_u32 return_metric_id (metric_get metric))))))))))))))"

definition metric_arg :: "i32 \<Rightarrow> ('e, 'h, 'g, metric_id) host" where
  "metric_arg metric_id = alift (map_sum (\<lambda>_. FStatus NotFound) id (metric_id_try_from metric_id))"

definition require_metric :: "metric_id \<Rightarrow> ('e, 'h, 'g, unit) host" where
  "require_metric metric =
     abind settle (\<lambda>_. aguard (\<lambda>w. holds_metric (st_abi w) metric) (FStatus NotFound))"

definition proxy_record_metric :: "i32 \<Rightarrow> i64 \<Rightarrow> ('e, 'h, 'g, unit) host" where
  "proxy_record_metric metric_id value =
     abind (metric_arg metric_id) (\<lambda>metric.
     abind (from_error split_store) (\<lambda>_.
     abind (require_metric metric) (\<lambda>_.
     abind (with_shared NotFound) (\<lambda>(call, shared).
     embedder (record_metric shared call metric value)))))"

definition proxy_increment_metric :: "i32 \<Rightarrow> i64 \<Rightarrow> ('e, 'h, 'g, unit) host" where
  "proxy_increment_metric metric_id delta =
     abind (metric_arg metric_id) (\<lambda>metric.
     abind (from_error split_store) (\<lambda>_.
     abind (require_metric metric) (\<lambda>_.
     abind (with_shared NotFound) (\<lambda>(call, shared).
     embedder (increment_metric shared call metric delta)))))"

definition proxy_get_metric :: "i32 \<Rightarrow> i32 \<Rightarrow> ('e, 'h, 'g, unit) host" where
  "proxy_get_metric metric_id return_value =
     abind (metric_arg metric_id) (\<lambda>metric.
     let return_value = guest_ptr_of return_value in
     abind (from_error split_store) (\<lambda>_.
     abind (from_error (mem_get (\<lambda>m. mem_read_u64 m return_value))) (\<lambda>_.
     abind (require_metric metric) (\<lambda>_.
     abind (with_shared NotFound) (\<lambda>(call, shared).
     abind (embedder (get_metric shared call metric)) (\<lambda>value.
     abind (from_error split_store) (\<lambda>_.
     put_u64 return_value value)))))))"

section \<open>The context, the timer, the clock and the log\<close>

definition on_contexts :: "(context_table \<Rightarrow> 'r \<times> context_table) \<Rightarrow> ('e, 'h, 'g, 'r) host" where
  "on_contexts f w =
     (let (r, t) = f (contexts w) in (Inr r, set_abi (\<lambda>a. a\<lparr>contexts_of := t\<rparr>) w))"

definition proxy_done :: "('e, 'h, 'g, unit) host" where
  "proxy_done = abind (on_contexts ctx_done) (\<lambda>b. if b then aret () else afail (FStatus NotFound))"

definition proxy_set_effective_context :: "i32 \<Rightarrow> ('e, 'h, 'g, unit) host" where
  "proxy_set_effective_context context_id =
     abind (alift (map_sum failure_of_context_id id (context_id_try_from context_id))) (\<lambda>cid.
     abind (atry (\<lambda>w. ok_or (FStatus BadArgument) (effective (contexts w)))) (\<lambda>current.
     abind (aguard (\<lambda>w. root_of (contexts w) cid = root_of (contexts w) current) (FStatus BadArgument)) (\<lambda>_.
     abind (aguard (\<lambda>w. \<not> is_rejected (contexts w) cid) (FStatus BadArgument)) (\<lambda>_.
     abind (on_contexts (ctx_set_effective cid)) (\<lambda>b.
     if b then aret () else afail (FStatus BadArgument))))))"

definition proxy_set_tick_period_milliseconds :: "i32 \<Rightarrow> ('e, 'h, 'g, unit) host" where
  "proxy_set_tick_period_milliseconds tick_period =
     abind (context_of BadArgument) (\<lambda>eff.
     let period = (if tick_period > 0 then Some (from_millis (unat tick_period)) else None) in
     abind (on_contexts (ctx_set_tick_period eff period)) (\<lambda>b.
     if b then
       abind (aget (\<lambda>w. root_of (contexts w) eff)) (\<lambda>root.
       case root of Some root \<Rightarrow> on_abi (note_tick_period root period) | None \<Rightarrow> aret ())
     else afail (FStatus BadArgument)))"

definition proxy_get_current_time_nanoseconds :: "i32 \<Rightarrow> ('e, 'h, 'g, unit) host" where
  "proxy_get_current_time_nanoseconds return_time =
     abind (from_error split_store) (\<lambda>_.
     abind (aget (\<lambda>w. vs_clock (services w))) (\<lambda>clock.
     abind (on_env (realtime_nanos clock)) (\<lambda>now.
     put_u64 (guest_ptr_of return_time) now)))"

definition log_message :: "log_level \<Rightarrow> bytes \<Rightarrow> ('e, 'h, 'g, unit) host" where
  "log_message level message w =
     (Inr (), w\<lparr>st_env := vs_log (services w) (log_context_of w) level message (st_env w)\<rparr>)"

definition proxy_log :: "i32 \<Rightarrow> i32 \<Rightarrow> i32 \<Rightarrow> ('e, 'h, 'g, unit) host" where
  "proxy_log level message_data message_size =
     abind (arg_enum log_level_try_from level) (\<lambda>level.
     abind (arg_slice message_data message_size) (\<lambda>slice.
     abind (from_error split_store) (\<lambda>_.
     abind (read_slice slice) (\<lambda>message.
     abind (aget (\<lambda>w. case st_max_log_bytes w of
                Some m \<Rightarrow> if length message > m then take m message else message
              | None \<Rightarrow> message)) (\<lambda>message.
     log_message level message)))))"

definition proxy_get_log_level :: "i32 \<Rightarrow> ('e, 'h, 'g, unit) host" where
  "proxy_get_log_level return_log_level =
     abind (from_error split_store) (\<lambda>_.
     abind (aget (\<lambda>w. log_level_code (vs_log_level (services w)))) (\<lambda>level.
     put_u32 (guest_ptr_of return_log_level) level))"

end
