(* ===== verification/Host_Streams.thy ===== *)
theory Host_Streams
  imports Host_State
begin

text \<open>
  The host functions of the stream a guest serves: header maps
  (\<open>host_functions/header_map.rs\<close>), buffers (\<open>buffer.rs\<close>), properties
  (\<open>property.rs\<close>), the stream itself (\<open>stream.rs\<close>), local responses
  (\<open>local_response.rs\<close>) and foreign functions (\<open>foreign.rs\<close>).
\<close>

section \<open>Who serves a value\<close>

datatype 'a served = CrateServes 'a | EmbedderServes

definition stream_call :: "status \<Rightarrow> ('h \<Rightarrow> 'r \<times> 'h) \<Rightarrow> ('e, 'h, 'g, 'r) host" where
  "stream_call absent f =
     abind (on_stream f) (\<lambda>r. case r of Some x \<Rightarrow> aret x | None \<Rightarrow> afail (FStatus absent))"

section \<open>Header maps\<close>

text \<open>
  What the code holds as a mutable borrow of a map: the map of the running delivery, or the
  operations of a map the stream state lent.
\<close>

datatype 'h map_ref = DeliveredRef delivered_map | StreamRef "'h header_map_ops"

definition map_served :: "map_type \<Rightarrow> delivered_map served" where
  "map_served t = (case serves_map t of Some which \<Rightarrow> CrateServes which | None \<Rightarrow> EmbedderServes)"

definition delivered_map_of :: "('e, 'h, 'g) store \<Rightarrow> delivered_map \<Rightarrow> vec_header_map option" where
  "delivered_map_of w which = Option.bind (delivery_of (st_abi w)) (\<lambda>d. delivery_map d which)"

definition delivered :: "delivered_map \<Rightarrow> access \<Rightarrow> ('e, 'h, 'g, 'h map_ref) host" where
  "delivered which access =
     abind (aguard (\<lambda>w. case access of Read \<Rightarrow> delivered_map_of w which \<noteq> None | Write \<Rightarrow> False)
              (FStatus BadArgument)) (\<lambda>_.
     aret (DeliveredRef which))"

definition host_map :: "map_type \<Rightarrow> access \<Rightarrow> ('e, 'h, 'g, 'h map_ref) host" where
  "host_map map_type access =
     (case map_served map_type of
        CrateServes which \<Rightarrow> delivered which access
      | EmbedderServes \<Rightarrow>
          abind (with_stream BadArgument) (\<lambda>(call, stream).
          abind (stream_call BadArgument (ss_header_map stream call access map_type)) (\<lambda>r.
          abind (alift (from_embedder r)) (\<lambda>ops.
          aret (StreamRef ops)))))"

text \<open>A read through the borrow.\<close>

definition map_read ::
  "(vec_header_map \<Rightarrow> 'r) \<Rightarrow> ('h header_map_ops \<Rightarrow> 'h \<Rightarrow> 'r) \<Rightarrow> 'h map_ref \<Rightarrow> ('e, 'h, 'g, 'r) host" where
  "map_read f g m =
     (case m of
        DeliveredRef which \<Rightarrow>
          atry (\<lambda>w. case delivered_map_of w which of
            Some v \<Rightarrow> Inr (f v) | None \<Rightarrow> Inl (FStatus BadArgument))
      | StreamRef ops \<Rightarrow> stream_call BadArgument (\<lambda>h. (g ops h, h)))"

text \<open>
  A write through the borrow. A delivered map is never lent for a write, so only the stream
  state sees one; the other branch is there because the borrow has one type.
\<close>

datatype map_change =
    SetValue bytes bytes
  | AddValue bytes bytes
  | RemoveValue bytes
  | ReplaceAll pairs

fun apply_write :: "'m header_map_ops \<Rightarrow> map_change \<Rightarrow> 'm \<Rightarrow> (not_allowed + unit) \<times> 'm" where
  "apply_write ops (SetValue k v) m = hm_set ops m k v"
| "apply_write ops (AddValue k v) m = hm_add ops m k v"
| "apply_write ops (RemoveValue k) m = hm_remove ops m k"
| "apply_write ops (ReplaceAll ps) m = hm_replace_all ops m ps"

fun set_payload_map :: "delivered_map \<Rightarrow> vec_header_map \<Rightarrow> payload \<Rightarrow> payload" where
  "set_payload_map DmHttpCallResponseHeaders m (PHttpCallResponse _ t b) = PHttpCallResponse m t b"
| "set_payload_map DmHttpCallResponseTrailers m (PHttpCallResponse h _ b) = PHttpCallResponse h m b"
| "set_payload_map DmGrpcCallInitialMetadata m (PGrpcInitialMetadata _) = PGrpcInitialMetadata m"
| "set_payload_map DmGrpcCallTrailingMetadata m (PGrpcTrailingMetadata _) = PGrpcTrailingMetadata m"
| "set_payload_map _ _ p = p"

definition map_write :: "map_change \<Rightarrow> 'h map_ref \<Rightarrow> ('e, 'h, 'g, unit) host" where
  "map_write wr m =
     abind (case m of
              StreamRef ops \<Rightarrow> stream_call BadArgument (apply_write ops wr)
            | DeliveredRef which \<Rightarrow> (\<lambda>w.
                case delivered_map_of w which of
                  None \<Rightarrow> (Inl (FStatus BadArgument), w)
                | Some v \<Rightarrow>
                    (let (r, v') = apply_write vec_header_map_ops wr v in
                     (Inr r, set_abi (\<lambda>a. a\<lparr>delivery_of := map_option
                        (\<lambda>d. d\<lparr>del_payload := set_payload_map which v' (del_payload d)\<rparr>) (delivery_of a)\<rparr>) w)))) (\<lambda>r.
     alift (map_sum failure_of_not_allowed id r))"

definition proxy_get_header_map_size :: "i32 \<Rightarrow> i32 \<Rightarrow> ('e, 'h, 'g, unit) host" where
  "proxy_get_header_map_size map_id return_size =
     abind (arg_enum map_type_try_from map_id) (\<lambda>map_type.
     let return_size = guest_ptr_of return_size in
     abind (from_error split_store) (\<lambda>_.
     abind (check_u32 return_size) (\<lambda>_.
     abind (host_map map_type Read) (\<lambda>m.
     abind (map_read (encoded_size_of vec_header_map_ops) encoded_size_of m) (\<lambda>n.
     abind (alift (ok_or (FStatus InternalFailure) (u32_try_from_usize n))) (\<lambda>n.
     abind (from_error split_store) (\<lambda>_.
     put_u32 return_size n)))))))"

definition proxy_get_header_map_pairs ::
  "('e, 'h, 'g) allocator \<Rightarrow> i32 \<Rightarrow> i32 \<Rightarrow> i32 \<Rightarrow> ('e, 'h, 'g, unit) host" where
  "proxy_get_header_map_pairs alloc map_id return_data return_size =
     abind (arg_enum map_type_try_from map_id) (\<lambda>map_type.
     let return_data = guest_ptr_of return_data; return_size = guest_ptr_of return_size in
     abind (from_error split_store) (\<lambda>_.
     abind (check_u32 return_data) (\<lambda>_.
     abind (check_u32 return_size) (\<lambda>_.
     abind (host_map map_type Read) (\<lambda>m.
     abind (map_read (encode_map vec_header_map_ops) encode_map m) (\<lambda>r.
     abind (alift (map_sum failure_of_encode id r)) (\<lambda>bs.
     from_error (write_return alloc bs return_data return_size))))))))"

definition proxy_set_header_map_pairs :: "i32 \<Rightarrow> i32 \<Rightarrow> i32 \<Rightarrow> ('e, 'h, 'g, unit) host" where
  "proxy_set_header_map_pairs map_id serialized_pairs_data serialized_pairs_size =
     abind (arg_enum map_type_try_from map_id) (\<lambda>map_type.
     abind (arg_slice serialized_pairs_data serialized_pairs_size) (\<lambda>slice.
     abind (from_error split_store) (\<lambda>_.
     abind (read_slice slice) (\<lambda>bs.
     abind (guest_pairs bs) (\<lambda>ps.
     abind (host_map map_type Write) (\<lambda>m.
     map_write (ReplaceAll ps) m))))))"

definition proxy_get_header_map_value ::
  "('e, 'h, 'g) allocator \<Rightarrow> i32 \<Rightarrow> i32 \<Rightarrow> i32 \<Rightarrow> i32 \<Rightarrow> i32 \<Rightarrow> ('e, 'h, 'g, unit) host" where
  "proxy_get_header_map_value alloc map_id key_data key_size return_data return_size =
     abind (arg_enum map_type_try_from map_id) (\<lambda>map_type.
     abind (arg_slice key_data key_size) (\<lambda>key.
     let return_data = guest_ptr_of return_data; return_size = guest_ptr_of return_size in
     abind (from_error split_store) (\<lambda>_.
     abind (check_u32 return_data) (\<lambda>_.
     abind (check_u32 return_size) (\<lambda>_.
     abind (read_slice key) (\<lambda>key.
     abind (host_map map_type Read) (\<lambda>m.
     abind (map_read (\<lambda>v. hm_get vec_header_map_ops v key) (\<lambda>ops h. hm_get ops h key) m) (\<lambda>r.
     abind (alift (ok_or (FStatus NotFound) r)) (\<lambda>value.
     from_error (write_return alloc value return_data return_size))))))))))"

definition write_header_value ::
  "(bytes \<Rightarrow> bytes \<Rightarrow> map_change) \<Rightarrow> i32 \<Rightarrow> i32 \<Rightarrow> i32 \<Rightarrow> i32 \<Rightarrow> i32 \<Rightarrow> ('e, 'h, 'g, unit) host" where
  "write_header_value wr map_id key_data key_size value_data value_size =
     abind (arg_enum map_type_try_from map_id) (\<lambda>map_type.
     abind (arg_slice key_data key_size) (\<lambda>key.
     abind (arg_slice value_data value_size) (\<lambda>value.
     abind (from_error split_store) (\<lambda>_.
     abind (read_slice key) (\<lambda>key.
     abind (read_slice value) (\<lambda>value.
     abind (host_map map_type Write) (\<lambda>m.
     map_write (wr key value) m)))))))"

definition proxy_add_header_map_value ::
  "i32 \<Rightarrow> i32 \<Rightarrow> i32 \<Rightarrow> i32 \<Rightarrow> i32 \<Rightarrow> ('e, 'h, 'g, unit) host" where
  "proxy_add_header_map_value = write_header_value AddValue"

definition proxy_replace_header_map_value ::
  "i32 \<Rightarrow> i32 \<Rightarrow> i32 \<Rightarrow> i32 \<Rightarrow> i32 \<Rightarrow> ('e, 'h, 'g, unit) host" where
  "proxy_replace_header_map_value = write_header_value SetValue"

definition proxy_remove_header_map_value :: "i32 \<Rightarrow> i32 \<Rightarrow> i32 \<Rightarrow> ('e, 'h, 'g, unit) host" where
  "proxy_remove_header_map_value map_id key_data key_size =
     abind (arg_enum map_type_try_from map_id) (\<lambda>map_type.
     abind (arg_slice key_data key_size) (\<lambda>key.
     abind (from_error split_store) (\<lambda>_.
     abind (read_slice key) (\<lambda>key.
     abind (host_map map_type Write) (\<lambda>m.
     map_write (RemoveValue key) m)))))"

section \<open>Buffers\<close>

text \<open>What a read of a buffer reads: bytes of the crate, or the buffer the stream state lent.\<close>

datatype 'h source = CrateBytes bytes | StreamBuffer "'h buffer_ops"

definition source_len :: "'h source \<Rightarrow> ('e, 'h, 'g, nat) host" where
  "source_len s =
     (case s of
        CrateBytes bs \<Rightarrow> aret (length bs)
      | StreamBuffer ops \<Rightarrow> stream_call NotFound (\<lambda>h. (buf_len ops h, h)))"

definition source_copy_range :: "'h source \<Rightarrow> nat \<Rightarrow> nat \<Rightarrow> ('e, 'h, 'g, bytes) host" where
  "source_copy_range s start sz =
     abind (source_len s) (\<lambda>len.
     let rg = clamp_range len start sz in
     case s of
       CrateBytes bs \<Rightarrow> aret (slice_of bs rg)
     | StreamBuffer ops \<Rightarrow>
         stream_call NotFound (\<lambda>h. (buf_copy_range_into ops h (fst rg) (snd rg - fst rg) [], h)))"

definition refused :: "not_allowed \<Rightarrow> status" where
  "refused e = NotFound"

definition as_usize :: "i32 \<Rightarrow> nat" where
  "as_usize value = unat value"

datatype crate_buffer = VmConfigurationBuffer | PluginConfigurationBuffer | DeliveredBuffer delivered_buffer

definition buffer_served :: "buffer_type \<Rightarrow> crate_buffer served" where
  "buffer_served t =
     (case t of
        VmConfiguration \<Rightarrow> CrateServes VmConfigurationBuffer
      | PluginConfiguration \<Rightarrow> CrateServes PluginConfigurationBuffer
      | _ \<Rightarrow> (case serves_buffer t of
               Some which \<Rightarrow> CrateServes (DeliveredBuffer which) | None \<Rightarrow> EmbedderServes))"

definition on_abi_get :: "(('e, 'h) abi_state \<Rightarrow> 'r \<times> ('e, 'h) abi_state) \<Rightarrow> ('e, 'h, 'g, 'r) host" where
  "on_abi_get f w = (let (r, a) = f (st_abi w) in (Inr r, w\<lparr>st_abi := a\<rparr>))"

text \<open>
  The first read of a buffer takes the size the callback announced, which the code compares
  with the length of the buffer for a line in its own log; the length is read in any case.
\<close>

definition read_buffer :: "buffer_type \<Rightarrow> ('e, 'h, 'g, 'h source) host" where
  "read_buffer buffer_type =
     (case buffer_served buffer_type of
        CrateServes VmConfigurationBuffer \<Rightarrow>
          aget (\<lambda>w. CrateBytes (vm_configuration (services w)))
      | CrateServes PluginConfigurationBuffer \<Rightarrow>
          abind (context_of NotFound) (\<lambda>root.
          abind (atry (\<lambda>w. ok_or (FStatus NotFound) (ctx_plugin (contexts w) root))) (\<lambda>plugin.
          aret (CrateBytes (plugin_configuration plugin))))
      | CrateServes (DeliveredBuffer which) \<Rightarrow>
          atry (\<lambda>w. case Option.bind (delivery_of (st_abi w)) (\<lambda>d. delivery_buffer d which) of
            Some bs \<Rightarrow> Inr (CrateBytes bs) | None \<Rightarrow> Inl (FStatus NotFound))
      | EmbedderServes \<Rightarrow>
          abind (on_abi_get (take_announced buffer_type)) (\<lambda>_.
          abind (with_stream NotFound) (\<lambda>(call, stream).
          abind (stream_call NotFound (ss_buffer stream call Read buffer_type)) (\<lambda>r.
          abind (alift (from_embedder r)) (\<lambda>ops.
          aret (StreamBuffer ops))))))"

definition write_buffer :: "buffer_type \<Rightarrow> ('e, 'h, 'g, 'h buffer_ops) host" where
  "write_buffer buffer_type =
     (case buffer_served buffer_type of
        CrateServes _ \<Rightarrow> afail (FStatus NotFound)
      | EmbedderServes \<Rightarrow>
          abind (with_stream NotFound) (\<lambda>(call, stream).
          abind (stream_call NotFound (ss_buffer stream call Write buffer_type)) (\<lambda>r.
          alift (from_embedder r))))"

definition proxy_get_buffer_bytes ::
  "('e, 'h, 'g) allocator \<Rightarrow> i32 \<Rightarrow> i32 \<Rightarrow> i32 \<Rightarrow> i32 \<Rightarrow> i32 \<Rightarrow> ('e, 'h, 'g, unit) host" where
  "proxy_get_buffer_bytes alloc buffer_id start max_size return_value_data return_value_size =
     abind (arg_enum buffer_type_try_from buffer_id) (\<lambda>buffer_type.
     let start = as_usize start; max_size = as_usize max_size;
         data_ptr = guest_ptr_of return_value_data; size_ptr = guest_ptr_of return_value_size in
     abind (from_error split_store) (\<lambda>_.
     abind (check_u32 data_ptr) (\<lambda>_.
     abind (check_u32 size_ptr) (\<lambda>_.
     abind (read_buffer buffer_type) (\<lambda>source.
     abind (source_len source) (\<lambda>len.
     if start > len then afail (FStatus BadArgument)
     else
       abind (source_copy_range source start max_size) (\<lambda>bs.
       from_error (write_return alloc bs data_ptr size_ptr))))))))"

definition proxy_set_buffer_bytes ::
  "i32 \<Rightarrow> i32 \<Rightarrow> i32 \<Rightarrow> i32 \<Rightarrow> i32 \<Rightarrow> ('e, 'h, 'g, unit) host" where
  "proxy_set_buffer_bytes buffer_id start sz value_data value_size =
     abind (arg_enum buffer_type_try_from buffer_id) (\<lambda>buffer_type.
     let start = as_usize start; sz = as_usize sz in
     abind (arg_slice value_data value_size) (\<lambda>value.
     abind (from_error split_store) (\<lambda>_.
     abind (read_slice value) (\<lambda>value.
     abind (write_buffer buffer_type) (\<lambda>ops.
     abind (stream_call NotFound (\<lambda>h. (clamp_range (buf_len ops h) start sz, h))) (\<lambda>rg.
     abind (stream_call NotFound (\<lambda>h. buf_replace ops h (fst rg) (snd rg - fst rg) value)) (\<lambda>r.
     alift (map_sum (\<lambda>e. FStatus (refused e)) id r))))))))"

definition proxy_get_buffer_status :: "i32 \<Rightarrow> i32 \<Rightarrow> i32 \<Rightarrow> ('e, 'h, 'g, unit) host" where
  "proxy_get_buffer_status buffer_id return_buffer_size return_unused =
     abind (arg_enum buffer_type_try_from buffer_id) (\<lambda>buffer_type.
     let size_ptr = guest_ptr_of return_buffer_size; unused_ptr = guest_ptr_of return_unused in
     abind (from_error split_store) (\<lambda>_.
     abind (check_u32 size_ptr) (\<lambda>_.
     abind (check_u32 unused_ptr) (\<lambda>_.
     abind (read_buffer buffer_type) (\<lambda>source.
     abind (source_len source) (\<lambda>len.
     abind (alift (ok_or (FStatus InternalFailure) (u32_try_from_usize len))) (\<lambda>len.
     abind (from_error split_store) (\<lambda>_.
     abind (put_u32 size_ptr len) (\<lambda>_.
     put_u32 unused_ptr 0)))))))))"

section \<open>Properties\<close>

text \<open>The bytes of an ASCII literal.\<close>

definition ascii :: "string \<Rightarrow> bytes" where
  "ascii s = map of_char s"

definition PLUGIN_NAME :: bytes where "PLUGIN_NAME = ascii ''plugin_name''"
definition PLUGIN_ROOT_ID :: bytes where "PLUGIN_ROOT_ID = ascii ''plugin_root_id''"
definition PLUGIN_VM_ID :: bytes where "PLUGIN_VM_ID = ascii ''plugin_vm_id''"

datatype well_known_property = WellKnownName | WellKnownRootId | WellKnownVmId

definition path_served :: "bytes list \<Rightarrow> well_known_property served" where
  "path_served path =
     (if path = [PLUGIN_NAME] then CrateServes WellKnownName
      else if path = [PLUGIN_ROOT_ID] then CrateServes WellKnownRootId
      else if path = [PLUGIN_VM_ID] then CrateServes WellKnownVmId
      else EmbedderServes)"

definition plugin_of :: "('e, 'h, 'g, plugin_config) host" where
  "plugin_of =
     abind (context_of NotFound) (\<lambda>eff.
     atry (\<lambda>w. ok_or (FStatus NotFound) (ctx_plugin (contexts w) eff)))"

definition well_known :: "well_known_property \<Rightarrow> ('e, 'h, 'g, bytes) host" where
  "well_known name =
     (case name of
        WellKnownVmId \<Rightarrow> aget (\<lambda>w. vm_id_of (services w))
      | WellKnownName \<Rightarrow> abind plugin_of (\<lambda>p. aret (plugin_name p))
      | WellKnownRootId \<Rightarrow> abind plugin_of (\<lambda>p. aret (plugin_root_id p)))"

definition proxy_get_property ::
  "('e, 'h, 'g) allocator \<Rightarrow> i32 \<Rightarrow> i32 \<Rightarrow> i32 \<Rightarrow> i32 \<Rightarrow> ('e, 'h, 'g, unit) host" where
  "proxy_get_property alloc path_data path_size return_value_data return_value_size =
     abind (arg_slice path_data path_size) (\<lambda>path.
     let data_ptr = guest_ptr_of return_value_data; size_ptr = guest_ptr_of return_value_size in
     abind (from_error split_store) (\<lambda>_.
     abind (check_u32 data_ptr) (\<lambda>_.
     abind (check_u32 size_ptr) (\<lambda>_.
     abind (read_slice path) (\<lambda>raw.
     abind (within_name_bytes raw NotFound) (\<lambda>_.
     let path = decode_path raw in
     abind (case path_served path of
              CrateServes name \<Rightarrow> well_known name
            | EmbedderServes \<Rightarrow>
                abind (with_stream NotFound) (\<lambda>(call, stream).
                abind (stream_call NotFound (\<lambda>h. case ss_property stream call path [] h of
                         (r, out, h') \<Rightarrow> ((r, out), h'))) (\<lambda>(r, value).
                abind (alift (from_embedder r)) (\<lambda>_. aret value)))) (\<lambda>value.
     from_error (write_return alloc value data_ptr size_ptr))))))))"

definition proxy_set_property :: "i32 \<Rightarrow> i32 \<Rightarrow> i32 \<Rightarrow> i32 \<Rightarrow> ('e, 'h, 'g, unit) host" where
  "proxy_set_property path_data path_size value_data value_size =
     abind (arg_slice path_data path_size) (\<lambda>path.
     abind (arg_slice value_data value_size) (\<lambda>value.
     abind (from_error split_store) (\<lambda>_.
     abind (read_slice path) (\<lambda>raw.
     abind (within_name_bytes raw NotFound) (\<lambda>_.
     let path = decode_path raw in
     abind (read_slice value) (\<lambda>value.
     case path_served path of
       CrateServes _ \<Rightarrow> afail (FStatus NotFound)
     | EmbedderServes \<Rightarrow>
         abind (with_stream NotFound) (\<lambda>(call, stream).
         abind (stream_call NotFound (ss_set_property stream call path value)) (\<lambda>r.
         alift (from_embedder r)))))))))"

section \<open>The stream, local responses and foreign functions\<close>

definition proxy_continue_stream :: "i32 \<Rightarrow> ('e, 'h, 'g, unit) host" where
  "proxy_continue_stream stream_type =
     abind (arg_enum stream_type_try_from stream_type) (\<lambda>stream_type.
     abind (with_stream Unimplemented) (\<lambda>(call, stream).
     abind (stream_call Unimplemented (ss_continue_stream stream call stream_type)) (\<lambda>r.
     alift (from_embedder r))))"

definition proxy_close_stream :: "i32 \<Rightarrow> ('e, 'h, 'g, unit) host" where
  "proxy_close_stream stream_type =
     abind (arg_enum stream_type_try_from stream_type) (\<lambda>stream_type.
     abind (with_stream Unimplemented) (\<lambda>(call, stream).
     abind (stream_call Unimplemented (ss_close_stream stream call stream_type)) (\<lambda>r.
     alift (from_embedder r))))"

definition NO_GRPC_STATUS :: i32 where "NO_GRPC_STATUS = - 1"

definition proxy_send_local_response ::
  "i32 \<Rightarrow> i32 \<Rightarrow> i32 \<Rightarrow> i32 \<Rightarrow> i32 \<Rightarrow> i32 \<Rightarrow> i32 \<Rightarrow> i32 \<Rightarrow> ('e, 'h, 'g, unit) host" where
  "proxy_send_local_response code details_data details_size body_data body_size
     headers_data headers_size grpc_status =
     abind (arg_slice details_data details_size) (\<lambda>details.
     abind (arg_slice body_data body_size) (\<lambda>body.
     abind (arg_slice headers_data headers_size) (\<lambda>headers.
     let grpc_status = (if grpc_status \<noteq> NO_GRPC_STATUS then Some grpc_status else None) in
     abind (from_error split_store) (\<lambda>_.
     abind (read_slice details) (\<lambda>details.
     abind (read_slice body) (\<lambda>body.
     abind (read_slice headers) (\<lambda>bs.
     abind (guest_pairs bs) (\<lambda>headers.
     let response = response_with_headers headers (response_with_body body
           (with_status_code_details details (local_response_new code)));
         response = (case grpc_status of Some g \<Rightarrow> with_grpc_status g response | None \<Rightarrow> response) in
     abind (with_stream Unimplemented) (\<lambda>(call, stream).
     abind (stream_call Unimplemented (ss_send_local_response stream call response)) (\<lambda>r.
     alift (from_embedder r)))))))))))"

definition wanted :: "i32 \<Rightarrow> guest_ptr option" where
  "wanted pointer = (if pointer \<noteq> 0 then Some (guest_ptr_of pointer) else None)"

definition check_wanted :: "guest_ptr option \<Rightarrow> ('e, 'h, 'g, unit) host" where
  "check_wanted p = (case p of Some p \<Rightarrow> check_u32 p | None \<Rightarrow> aret ())"

definition proxy_call_foreign_function ::
  "('e, 'h, 'g) allocator \<Rightarrow> i32 \<Rightarrow> i32 \<Rightarrow> i32 \<Rightarrow> i32 \<Rightarrow> i32 \<Rightarrow> i32 \<Rightarrow> ('e, 'h, 'g, unit) host" where
  "proxy_call_foreign_function alloc name_data name_size arguments_data arguments_size
     return_results_data return_results_size =
     abind (arg_slice name_data name_size) (\<lambda>name.
     abind (arg_slice arguments_data arguments_size) (\<lambda>arguments.
     let data_ptr = wanted return_results_data; size_ptr = wanted return_results_size in
     abind (from_error split_store) (\<lambda>_.
     abind (check_wanted data_ptr) (\<lambda>_.
     abind (check_wanted size_ptr) (\<lambda>_.
     abind (read_slice name) (\<lambda>name.
     abind (read_slice arguments) (\<lambda>arguments.
     let request = foreign_call_new name arguments in
     abind (with_stream NotFound) (\<lambda>(call, stream).
     abind (stream_call NotFound (\<lambda>h. case ss_call_foreign_function stream call request [] h of
              (r, out, h') \<Rightarrow> ((r, out), h'))) (\<lambda>(r, results).
     case from_embedder r of
       Inl refusal \<Rightarrow>
         abind (from_error (write_optional_return alloc [] data_ptr size_ptr)) (\<lambda>_.
         afail refusal)
     | Inr _ \<Rightarrow> from_error (write_optional_return alloc results data_ptr size_ptr))))))))))"

end
