(* ===== verification/Host_Callouts.thy ===== *)
theory Host_Callouts
  imports Host_State
begin

text \<open>
  The host functions of callouts (\<open>host_functions/callout.rs\<close>, \<open>grpc.rs\<close>): opening
  an HTTP call, a gRPC call or a gRPC stream, sending, cancelling and closing, and the status of
  the running delivery.
\<close>

section \<open>Opening a callout\<close>

definition ascii_bytes :: "string \<Rightarrow> bytes" where
  "ascii_bytes s = map of_char s"

definition REQUIRED_HEADERS :: "bytes list" where
  "REQUIRED_HEADERS = [ascii_bytes '':authority'', ascii_bytes '':method'', ascii_bytes '':path'']"

text \<open>
  The loop that reserves an identifier ends whenever the table is not full
  (\<open>callout_reserve_terminates\<close>), and a guest never has more open callouts than its limit.
  A table that holds every identifier would make the code loop for ever; there is no result for
  that, and the branch stands for it with a failure no other branch gives.
\<close>

definition DIVERGES :: failure where
  "DIVERGES = Unwind (Trap ''the reserve loop does not end'' None)"

definition reserve_callout :: "('e, 'h, 'g, callout_id) host" where
  "reserve_callout w =
     (case callout_reserve (callouts w) of
        Some (cid, t) \<Rightarrow> (Inr cid, set_abi (\<lambda>a. a\<lparr>callouts_of := t\<rparr>) w)
      | None \<Rightarrow> (Inl DIVERGES, w))"

definition on_callouts :: "(callout_table \<Rightarrow> callout_table) \<Rightarrow> ('e, 'h, 'g, unit) host" where
  "on_callouts f = on_abi (\<lambda>a. a\<lparr>callouts_of := f (callouts_of a)\<rparr>)"

definition open_callout ::
  "callout_kind \<Rightarrow>
   ('e callouts_ops \<Rightarrow> invocation \<Rightarrow> callout_id \<Rightarrow> 'e \<Rightarrow> (status + unit) \<times> 'e) \<Rightarrow>
   ('e, 'h, 'g, callout_id) host" where
  "open_callout kind ask =
     abind (context_of InternalFailure) (\<lambda>caller.
     abind (atry (\<lambda>w. ok_or (FStatus InternalFailure) (root_of (contexts w) caller))) (\<lambda>root.
     abind (aguard (\<lambda>w. \<not> is_deleting (st_abi w) caller) (FStatus InternalFailure)) (\<lambda>_.
     abind (aguard (\<lambda>w. callout_table_len (callouts w) < st_max_open_callouts w) (FStatus InternalFailure)) (\<lambda>_.
     abind (aget (\<lambda>w. invocation_of w caller)) (\<lambda>call.
     abind (aget (\<lambda>w. vs_callouts (services w))) (\<lambda>service.
     abind reserve_callout (\<lambda>callout.
     abind (on_env (ask service call callout)) (\<lambda>r.
     abind (alift (map_sum FStatus id r)) (\<lambda>_.
     abind (on_callouts (callout_enter callout (callout_new kind caller root))) (\<lambda>_.
     aret callout))))))))))"

definition proxy_http_call ::
  "i32 \<Rightarrow> i32 \<Rightarrow> i32 \<Rightarrow> i32 \<Rightarrow> i32 \<Rightarrow> i32 \<Rightarrow> i32 \<Rightarrow> i32 \<Rightarrow> i32 \<Rightarrow> i32 \<Rightarrow> ('e, 'h, 'g, unit) host" where
  "proxy_http_call upstream_name_data upstream_name_size serialized_headers_data serialized_headers_size
     body_data body_size serialized_trailers_data serialized_trailers_size timeout return_call_id =
     abind (arg_slice upstream_name_data upstream_name_size) (\<lambda>upstream.
     abind (arg_slice serialized_headers_data serialized_headers_size) (\<lambda>headers.
     abind (arg_slice body_data body_size) (\<lambda>body.
     abind (arg_slice serialized_trailers_data serialized_trailers_size) (\<lambda>trailers.
     let id_ptr = guest_ptr_of return_call_id; timeout = from_millis (unat timeout) in
     abind (from_error split_store) (\<lambda>_.
     abind (check_u32 id_ptr) (\<lambda>_.
     abind (read_slice upstream) (\<lambda>upstream.
     abind (abind (read_slice headers) guest_pairs) (\<lambda>headers.
     abind (read_slice body) (\<lambda>body.
     abind (abind (read_slice trailers) guest_pairs) (\<lambda>trailers.
     let request = hc_with_timeout timeout (hc_with_trailers trailers (hc_with_body body
           (hc_with_headers headers (http_call_new upstream))));
         named = (\<lambda>name. list_ex (\<lambda>(key, _). key = name) (hc_headers request)) in
     if \<not> list_all named REQUIRED_HEADERS then afail (FStatus BadArgument)
     else
       abind (open_callout HttpCall (\<lambda>service call cid env.
                (case cs_http_call service call cid request env of
                   (r, env') \<Rightarrow> (map_sum http_refusal_status id r, env')))) (\<lambda>callout.
       put_u32 id_ptr (callout_get callout))))))))))))"

definition proxy_get_status ::
  "('e, 'h, 'g) allocator \<Rightarrow> i32 \<Rightarrow> i32 \<Rightarrow> i32 \<Rightarrow> ('e, 'h, 'g, unit) host" where
  "proxy_get_status alloc return_status_code return_status_message_data return_status_message_size =
     (let code_ptr = guest_ptr_of return_status_code;
          data_ptr = guest_ptr_of return_status_message_data;
          size_ptr = guest_ptr_of return_status_message_size in
     abind (from_error split_store) (\<lambda>_.
     abind (check_u32 code_ptr) (\<lambda>_.
     abind (check_u32 data_ptr) (\<lambda>_.
     abind (check_u32 size_ptr) (\<lambda>_.
     abind (atry (\<lambda>w. ok_or (FStatus NotFound) (Option.bind (delivery_of (st_abi w)) delivery_status))) (\<lambda>(code, message).
     abind (from_error (write_return alloc message data_ptr size_ptr)) (\<lambda>_.
     abind (from_error split_store) (\<lambda>_.
     put_u32 code_ptr code))))))))"

section \<open>gRPC\<close>

definition grpc_metadata :: "bytes \<Rightarrow> ('e, 'h, 'g, header_pairs) host" where
  "grpc_metadata bs = amap_err (\<lambda>_. FStatus ParseFailure) (guest_pairs bs)"

definition proxy_grpc_call ::
  "i32 \<Rightarrow> i32 \<Rightarrow> i32 \<Rightarrow> i32 \<Rightarrow> i32 \<Rightarrow> i32 \<Rightarrow> i32 \<Rightarrow> i32 \<Rightarrow> i32 \<Rightarrow> i32 \<Rightarrow> i32 \<Rightarrow> i32 \<Rightarrow>
   ('e, 'h, 'g, unit) host" where
  "proxy_grpc_call upstream_name_data upstream_name_size service_name_data service_name_size
     method_name_data method_name_size serialized_initial_metadata_data serialized_initial_metadata_size
     message_data message_size timeout return_call_id =
     abind (arg_slice upstream_name_data upstream_name_size) (\<lambda>upstream.
     abind (arg_slice service_name_data service_name_size) (\<lambda>service.
     abind (arg_slice method_name_data method_name_size) (\<lambda>meth.
     abind (arg_slice serialized_initial_metadata_data serialized_initial_metadata_size) (\<lambda>initial.
     abind (arg_slice message_data message_size) (\<lambda>message.
     let id_ptr = guest_ptr_of return_call_id; timeout = from_millis (unat timeout) in
     abind (from_error split_store) (\<lambda>_.
     abind (check_u32 id_ptr) (\<lambda>_.
     abind (read_slice upstream) (\<lambda>upstream.
     abind (read_slice service) (\<lambda>service.
     abind (read_slice meth) (\<lambda>meth.
     abind (abind (read_slice initial) grpc_metadata) (\<lambda>initial.
     abind (read_slice message) (\<lambda>message.
     let request = gc_with_timeout timeout (gc_with_message message
           (gc_with_initial_metadata initial (grpc_call_new upstream service meth))) in
     abind (open_callout GrpcCall (\<lambda>service call cid env.
              (case cs_grpc_call service call cid request env of
                 (r, env') \<Rightarrow> (map_sum grpc_refusal_status id r, env')))) (\<lambda>callout.
     put_u32 id_ptr (callout_get callout))))))))))))))"

definition proxy_grpc_stream ::
  "i32 \<Rightarrow> i32 \<Rightarrow> i32 \<Rightarrow> i32 \<Rightarrow> i32 \<Rightarrow> i32 \<Rightarrow> i32 \<Rightarrow> i32 \<Rightarrow> i32 \<Rightarrow> ('e, 'h, 'g, unit) host" where
  "proxy_grpc_stream upstream_name_data upstream_name_size service_name_data service_name_size
     method_name_data method_name_size serialized_initial_metadata_data serialized_initial_metadata_size
     return_stream_id =
     abind (arg_slice upstream_name_data upstream_name_size) (\<lambda>upstream.
     abind (arg_slice service_name_data service_name_size) (\<lambda>service.
     abind (arg_slice method_name_data method_name_size) (\<lambda>meth.
     abind (arg_slice serialized_initial_metadata_data serialized_initial_metadata_size) (\<lambda>initial.
     let id_ptr = guest_ptr_of return_stream_id in
     abind (from_error split_store) (\<lambda>_.
     abind (check_u32 id_ptr) (\<lambda>_.
     abind (read_slice upstream) (\<lambda>upstream.
     abind (read_slice service) (\<lambda>service.
     abind (read_slice meth) (\<lambda>meth.
     abind (abind (read_slice initial) grpc_metadata) (\<lambda>initial.
     let request = gs_with_initial_metadata initial (grpc_stream_new upstream service meth) in
     abind (open_callout GrpcStream (\<lambda>service call cid env.
              (case cs_grpc_stream service call cid request env of
                 (r, env') \<Rightarrow> (map_sum grpc_refusal_status id r, env')))) (\<lambda>callout.
     put_u32 id_ptr (callout_get callout))))))))))))"

datatype found = FoundOpen callout_id callout | FoundEnded

text \<open>
  The callout a guest names: an unknown identifier that was given out has ended, one that never
  was and one of another caller are not found.
\<close>

definition find_callout :: "i32 \<Rightarrow> ('e, 'h, 'g, found) host" where
  "find_callout i =
     abind (alift (map_sum (\<lambda>_. FStatus NotFound) id (callout_id_try_from i))) (\<lambda>callout.
     abind (aget (\<lambda>w. callout_lookup (callouts w) callout)) (\<lambda>entry.
     case entry of
       None \<Rightarrow>
         abind (aguard (\<lambda>w. callout_issued (callouts w) callout) (FStatus NotFound)) (\<lambda>_.
         aret FoundEnded)
     | Some entry \<Rightarrow>
         abind (context_of NotFound) (\<lambda>caller.
         if caller \<noteq> co_caller entry then afail (FStatus NotFound)
         else aret (FoundOpen callout entry))))"

definition proxy_grpc_send :: "i32 \<Rightarrow> i32 \<Rightarrow> i32 \<Rightarrow> i32 \<Rightarrow> ('e, 'h, 'g, unit) host" where
  "proxy_grpc_send stream_id message_data message_size end_stream =
     abind (arg_slice message_data message_size) (\<lambda>message.
     abind (from_error split_store) (\<lambda>_.
     abind (read_slice message) (\<lambda>bs.
     let end_of_stream = (end_stream \<noteq> 0) in
     abind (find_callout stream_id) (\<lambda>f.
     case f of
       FoundEnded \<Rightarrow> aret ()
     | FoundOpen callout entry \<Rightarrow>
         if co_kind entry \<noteq> GrpcStream then afail (FStatus NotFound)
         else if closed_by_guest entry then aret ()
         else
           abind (context_of NotFound) (\<lambda>caller.
           abind (aget (\<lambda>w. invocation_of w caller)) (\<lambda>call.
           abind (aget (\<lambda>w. vs_callouts (services w))) (\<lambda>service.
           abind (embedder (cs_grpc_send service call callout bs end_of_stream)) (\<lambda>_.
           if end_of_stream then on_callouts (close_by_guest callout) else aret ()))))))))"

text \<open>
  Ending a callout: nothing when no context is served, otherwise the callout goes first and the
  service is told after.
\<close>

definition end_callout :: "callout_id \<Rightarrow> ('e, 'h, 'g, unit) host" where
  "end_callout callout w =
     (case context_of NotFound w of
        (Inl _, w) \<Rightarrow> (Inr (), w)
      | (Inr caller, w) \<Rightarrow>
          abind (aget (\<lambda>w. invocation_of w caller)) (\<lambda>call.
          abind (aget (\<lambda>w. vs_callouts (services w))) (\<lambda>service.
          abind (on_callouts (\<lambda>t. snd (callout_remove callout t))) (\<lambda>_.
          on_env (\<lambda>env. ((), cs_grpc_cancel service call callout env))))) w)"

definition proxy_grpc_cancel :: "i32 \<Rightarrow> ('e, 'h, 'g, unit) host" where
  "proxy_grpc_cancel call_or_stream_id =
     abind (from_error split_store) (\<lambda>_.
     abind (find_callout call_or_stream_id) (\<lambda>f.
     case f of
       FoundEnded \<Rightarrow> aret ()
     | FoundOpen callout entry \<Rightarrow>
         if co_kind entry = HttpCall then afail (FStatus NotFound) else end_callout callout))"

definition proxy_grpc_close :: "i32 \<Rightarrow> ('e, 'h, 'g, unit) host" where
  "proxy_grpc_close call_or_stream_id =
     abind (from_error split_store) (\<lambda>_.
     abind (find_callout call_or_stream_id) (\<lambda>f.
     case f of
       FoundEnded \<Rightarrow> aret ()
     | FoundOpen callout entry \<Rightarrow>
         (case co_kind entry of
            HttpCall \<Rightarrow> afail (FStatus NotFound)
          | GrpcCall \<Rightarrow> end_callout callout
          | GrpcStream \<Rightarrow>
              if \<not> closed_by_guest entry then
                abind (context_of NotFound) (\<lambda>caller.
                abind (aget (\<lambda>w. invocation_of w caller)) (\<lambda>call.
                abind (aget (\<lambda>w. vs_callouts (services w))) (\<lambda>service.
                abind (on_callouts (close_by_guest callout)) (\<lambda>_.
                on_env (\<lambda>env. ((), cs_grpc_close service call callout env))))))
              else aret ())))"

section \<open>Opening, in one step\<close>

text \<open>
  Opening is one change: nothing between the reservation and the entry touches the table of
  callouts or of contexts, only the world of the embedder.
\<close>

lemma open_callout_eq:
  "open_callout kind ask w =
     (case fst (context_of InternalFailure w) of
        Inl e \<Rightarrow> (Inl e, w)
      | Inr caller \<Rightarrow>
          (case root_of (contexts w) caller of
             None \<Rightarrow> (Inl (FStatus InternalFailure), w)
           | Some root \<Rightarrow>
               if is_deleting (st_abi w) caller \<or> \<not> callout_table_len (callouts w) < st_max_open_callouts w
               then (Inl (FStatus InternalFailure), w)
               else case callout_reserve (callouts w) of
                   None \<Rightarrow> (Inl DIVERGES, w)
                 | Some (callout, t) \<Rightarrow>
                     (case ask (vs_callouts (services w)) (invocation_of w caller) callout (st_env w) of
                        (r, env) \<Rightarrow>
                          (case r of
                             Inl s \<Rightarrow> (Inl (FStatus s), set_abi (\<lambda>a. a\<lparr>callouts_of := t\<rparr>) (w\<lparr>st_env := env\<rparr>))
                           | Inr _ \<Rightarrow> (Inr callout, set_abi (\<lambda>a. a\<lparr>callouts_of :=
                               callout_enter callout (callout_new kind caller root) t\<rparr>) (w\<lparr>st_env := env\<rparr>))))))"
proof -
  have "context_of InternalFailure w = (fst (context_of InternalFailure w), w)"
    by (simp add: context_of_def act_simps)
  then obtain r where r: "context_of InternalFailure w = (r, w)" by blast
  show ?thesis
  proof (cases r)
    case (Inl e)
    with r show ?thesis by (simp add: open_callout_def abind_def)
  next
    case (Inr caller)
    with r show ?thesis
      by (cases "root_of (contexts w) caller"; cases "callout_reserve (callouts w)")
        (auto simp: open_callout_def abind_def act_simps reserve_callout_def on_env_def on_callouts_def
          on_abi_def set_abi_def split: sum.splits prod.splits)
  qed
qed

lemma open_callout_cases:
  obtains e where "open_callout kind ask w = (Inl e, w)"
  | caller root callout t r env where
      "effective (contexts w) = Some caller" "rejection_of (contexts w) caller = None"
      "root_of (contexts w) caller = Some root" "\<not> is_deleting (st_abi w) caller"
      "callout_table_len (callouts w) < st_max_open_callouts w"
      "callout_reserve (callouts w) = Some (callout, t)"
      "ask (vs_callouts (services w)) (invocation_of w caller) callout (st_env w) = (r, env)"
      "open_callout kind ask w =
        (case r of
           Inl s \<Rightarrow> (Inl (FStatus s), set_abi (\<lambda>a. a\<lparr>callouts_of := t\<rparr>) (w\<lparr>st_env := env\<rparr>))
         | Inr _ \<Rightarrow> (Inr callout, set_abi (\<lambda>a. a\<lparr>callouts_of :=
               callout_enter callout (callout_new kind caller root) t\<rparr>) (w\<lparr>st_env := env\<rparr>)))"
proof (cases "\<exists>e. open_callout kind ask w = (Inl e, w)")
  case True
  then show ?thesis using that(1) by blast
next
  case False
  obtain caller where c: "fst (context_of InternalFailure w) = Inr caller"
    using False by (cases "fst (context_of InternalFailure w)") (auto simp: open_callout_eq)
  then have e: "effective (contexts w) = Some caller" "rejection_of (contexts w) caller = None"
    by (auto simp: context_of_def act_simps split: option.splits if_splits)
  obtain root where r: "root_of (contexts w) caller = Some root"
    using False c by (cases "root_of (contexts w) caller") (auto simp: open_callout_eq)
  have g: "\<not> is_deleting (st_abi w) caller" "callout_table_len (callouts w) < st_max_open_callouts w"
    using False c r by (auto simp: open_callout_eq split: if_splits)
  obtain callout t where v: "callout_reserve (callouts w) = Some (callout, t)"
    using False c r g by (cases "callout_reserve (callouts w)") (auto simp: open_callout_eq)
  obtain ans env where a: "ask (vs_callouts (services w)) (invocation_of w caller) callout (st_env w) = (ans, env)"
    by fastforce
  show ?thesis
    by (rule that(2) [OF e r g v a]) (use c r g v a in \<open>simp add: open_callout_eq\<close>)
qed

end
