(* ===== verification/Wasi.thy ===== *)
theory Wasi
  imports Host_Shared
begin

text \<open>
  The WASI functions a guest may import (\<open>wasi.rs\<close>): writing to the two standard streams,
  which goes to the log, the clocks, random bytes, the environment, no arguments, and the exit
  that unwinds the guest. Random bytes come from the package \<open>getrandom\<close>, so its fill
  function is an argument.
\<close>

type_synonym ('e, 'h, 'g, 'a) wasi = "(('e, 'h, 'g) store, wasi_errno, 'a) act"

definition MAX_IOVECS :: u32 where "MAX_IOVECS = 1024"
definition IOVEC_SIZE :: u32 where "IOVEC_SIZE = 8"
definition MAX_RANDOM_BYTES :: u32 where "MAX_RANDOM_BYTES = 64 * 1024"

definition wasi_result :: "(wasi_errno + unit) \<Rightarrow> i32" where
  "wasi_result r = wasi_errno_code (case r of Inl e \<Rightarrow> e | Inr _ \<Rightarrow> Success)"

abbreviation fault :: "(('e, 'h, 'g) store, 'f, 'a) act \<Rightarrow> ('e, 'h, 'g, 'a) wasi" where
  "fault m \<equiv> amap_err (\<lambda>_. Fault) m"

definition iovec_read_u32 :: "bytes \<Rightarrow> u32" where
  "iovec_read_u32 entry = u32_from_le_bytes (take 4 entry)"

definition iovec_slices :: "bytes \<Rightarrow> wasi_errno + guest_slice list" where
  "iovec_slices table =
     foldr (\<lambda>entry acc.
       rbind (map_sum (\<lambda>_. Fault) id
                (guest_slice_new (iovec_read_u32 entry) (iovec_read_u32 (drop 4 entry)))) (\<lambda>s.
       rbind acc (\<lambda>ss. Inr (s # ss)))) (chunks8 table) (Inr [])"

fun check_entries :: "guest_slice list \<Rightarrow> ('e, 'h, 'g, unit) wasi" where
  "check_entries [] = aret ()"
| "check_entries (entry # rest) =
     abind (fault (mem_get (\<lambda>m. mem_read m entry))) (\<lambda>_. check_entries rest)"

text \<open>The copy stops when the message has the size of the budget.\<close>

fun gather :: "nat \<Rightarrow> guest_slice list \<Rightarrow> bytes \<Rightarrow> ('e, 'h, 'g, bytes) wasi" where
  "gather budget [] message = aret message"
| "gather budget (entry # rest) message =
     (let room = budget - length message in
      if room = 0 then aret message
      else
        abind (fault (mem_get (\<lambda>m. mem_read m entry))) (\<lambda>bs.
        gather budget rest (message @ take (min (length bs) room) bs)))"

definition strip_newline :: "bytes \<Rightarrow> bytes" where
  "strip_newline message = (if message \<noteq> [] \<and> last message = 10 then butlast message else message)"

definition fd_write_impl :: "i32 \<Rightarrow> i32 \<Rightarrow> i32 \<Rightarrow> i32 \<Rightarrow> ('e, 'h, 'g, unit) wasi" where
  "fd_write_impl fd iovs iovs_len nwritten =
     abind (alift (case wasi_fd_id_try_from fd of
              Inr Stdout \<Rightarrow> Inr Info | Inr Stderr \<Rightarrow> Inr LevelError | Inl _ \<Rightarrow> Inl Badf)) (\<lambda>level.
     abind (fault split_store) (\<lambda>_.
     let written_ptr = guest_ptr_of nwritten in
     abind (fault (mem_get (\<lambda>m. mem_read_u32 m written_ptr))) (\<lambda>_.
     abind (alift (if 0 \<le> sint iovs_len then Inr iovs_len else Inl Fault)) (\<lambda>count.
     if count > MAX_IOVECS then afail Inval
     else
       abind (alift (if unat count * unat IOVEC_SIZE < 2 ^ 32 then Inr (count * IOVEC_SIZE) else Inl Fault)) (\<lambda>table_len.
       abind (alift (map_sum (\<lambda>_. Fault) id (guest_slice_new (guest_ptr_of iovs) table_len))) (\<lambda>table.
       abind (fault (mem_get (\<lambda>m. mem_read m table))) (\<lambda>bs.
       abind (alift (iovec_slices bs)) (\<lambda>entries.
       abind (check_entries entries) (\<lambda>_.
       let sum_len = sum_list (map (\<lambda>s. unat (slen s)) entries) in
       abind (aget (\<lambda>w. case st_max_log_bytes w of Some n \<Rightarrow> n | None \<Rightarrow> length (memory_of w))) (\<lambda>budget.
       abind (gather budget entries []) (\<lambda>message.
       abind (if count > 0 then fault (log_message level (strip_newline message)) else aret ()) (\<lambda>_.
       let written = (case u32_try_from_usize sum_len of Some n \<Rightarrow> n | None \<Rightarrow> - 1) in
       fault (mem_put (\<lambda>m. mem_write_u32 m written_ptr written))))))))))))))"

definition clock_time_get_impl :: "i32 \<Rightarrow> i32 \<Rightarrow> ('e, 'h, 'g, unit) wasi" where
  "clock_time_get_impl cid time =
     abind (alift (map_sum (\<lambda>_. Notsup) (\<lambda>x. x) (wasi_clock_id_try_from cid))) (\<lambda>cid.
     abind (fault split_store) (\<lambda>_.
     abind (aget (\<lambda>w. vs_clock (services w))) (\<lambda>clock.
     abind (fault (on_env (case cid of Realtime \<Rightarrow> realtime_nanos clock | Monotonic \<Rightarrow> monotonic_nanos clock))) (\<lambda>now.
     fault (mem_put (\<lambda>m. mem_write_u64 m (guest_ptr_of time) now))))))"

text \<open>
  \<open>fill\<close> is what the package writes into a slice of the given length, or that it failed; a
  failed fill may have written part of it.
\<close>

definition random_get_impl ::
  "(nat \<Rightarrow> 'e \<Rightarrow> (bool \<times> bytes) \<times> 'e) \<Rightarrow> i32 \<Rightarrow> i32 \<Rightarrow> ('e, 'h, 'g, unit) wasi" where
  "random_get_impl fill buf len =
     abind (alift (map_sum (\<lambda>_. Fault) id (guest_slice_try_from buf len))) (\<lambda>slice.
     if slen slice > MAX_RANDOM_BYTES then afail Inval
     else
       abind (fault split_store) (\<lambda>_.
       abind (fault (mem_get (\<lambda>m. mem_slice_mut m slice (\<lambda>bs. bs)))) (\<lambda>_.
       abind (fault (on_env (fill (unat (slen slice))))) (\<lambda>(filled, bs).
       abind (fault (mem_put (\<lambda>m. mem_slice_mut m slice (\<lambda>old. take (length old) bs @ drop (length bs) old)))) (\<lambda>_.
       if filled then aret () else afail Inval)))))"

definition environment_block :: "pairs \<Rightarrow> bytes" where
  "environment_block variables = concat (map (\<lambda>(key, value). key @ [61] @ value @ [0]) variables)"

definition environ_sizes_get_impl :: "i32 \<Rightarrow> i32 \<Rightarrow> ('e, 'h, 'g, unit) wasi" where
  "environ_sizes_get_impl count_ptr size_ptr =
     abind (fault split_store) (\<lambda>_.
     abind (aget (\<lambda>w. environment (services w))) (\<lambda>variables.
     abind (alift (ok_or Fault (u32_try_from_usize (length variables)))) (\<lambda>count.
     abind (alift (ok_or Fault (u32_try_from_usize (length (environment_block variables))))) (\<lambda>sz.
     abind (fault (mem_put (\<lambda>m. mem_write_u32 m (guest_ptr_of count_ptr) count))) (\<lambda>_.
     fault (mem_put (\<lambda>m. mem_write_u32 m (guest_ptr_of size_ptr) sz)))))))"

fun environ_pointers :: "u32 \<Rightarrow> pairs \<Rightarrow> wasi_errno + bytes" where
  "environ_pointers offset [] = Inr []"
| "environ_pointers offset ((key, value) # rest) =
     rbind (ok_or Fault (u32_try_from_usize (length key + length value + 2))) (\<lambda>entry_len.
     rbind (ok_or Fault (u32_checked_add offset entry_len)) (\<lambda>next_offset.
     rbind (environ_pointers next_offset rest) (\<lambda>pointers.
     Inr (u32_to_le_bytes offset @ pointers))))"

definition write_block :: "guest_ptr \<Rightarrow> bytes \<Rightarrow> ('e, 'h, 'g, unit) wasi" where
  "write_block start block =
     abind (alift (ok_or Fault (u32_try_from_usize (length block)))) (\<lambda>len.
     abind (alift (map_sum (\<lambda>_. Fault) id (guest_slice_new start len))) (\<lambda>slice.
     fault (mem_put (\<lambda>m. mem_write m slice block))))"

definition environ_get_impl :: "i32 \<Rightarrow> i32 \<Rightarrow> ('e, 'h, 'g, unit) wasi" where
  "environ_get_impl array buffer_ptr =
     abind (fault split_store) (\<lambda>_.
     let buffer_start = guest_ptr_of buffer_ptr in
     abind (aget (\<lambda>w. environment (services w))) (\<lambda>variables.
     let block = environment_block variables in
     abind (alift (environ_pointers buffer_start variables)) (\<lambda>pointers.
     abind (write_block (guest_ptr_of array) pointers) (\<lambda>_.
     write_block buffer_start block))))"

definition args_sizes_get_impl :: "i32 \<Rightarrow> i32 \<Rightarrow> ('e, 'h, 'g, unit) wasi" where
  "args_sizes_get_impl argc sz =
     abind (fault split_store) (\<lambda>_.
     abind (fault (mem_put (\<lambda>m. mem_write_u32 m (guest_ptr_of argc) 0))) (\<lambda>_.
     fault (mem_put (\<lambda>m. mem_write_u32 m (guest_ptr_of sz) 0))))"

definition args_get :: "i32 \<Rightarrow> i32 \<Rightarrow> i32" where
  "args_get argv buf = wasi_result (Inr ())"

definition proc_exit :: "i32 \<Rightarrow> wasm_error + unit" where
  "proc_exit code = Inl (Ours (GuestExit code))"

end
