(* ===== verification/Epoch_Clock.thy ===== *)
theory Epoch_Clock
  imports Contexts
begin

text \<open>
  The epoch clock of an engine (\<open>runtime/engine.rs\<close>): the epoch of the runtime and the
  counter beside it, the ticker thread that advances both on a fixed period, the embedder that
  may advance them too, and the drop of the last handle, which stops the thread and joins it. The
  threads share a mutex over the stop flag and a condition variable. Any interleaving of their
  steps is a run; a thread moves one step at a time between the points where another one can see
  what it did. The wait is the one of the standard library (\<open>wait_timeout_while\<close>): it
  tests the flag with the mutex held, gives up when more than the period has passed since it was
  entered, and otherwise releases the mutex until it is woken: by the timeout, which cannot come
  before the period has passed, by a notification, which wakes a thread that sleeps and is lost on any
  other, or by nothing at all, which nobody can count on.
\<close>

section \<open>State\<close>

text \<open>
  Where the ticker thread is: before its first lock, in the wait with the mutex held (and the
  time the wait was entered), asleep with the mutex released, awake and asking for the mutex, out
  of the wait because the period passed, between the two increments, or ended.
\<close>

datatype ticker_pc =
    Starting
  | Testing nat
  | Asleep nat
  | Awake nat
  | Expired
  | Advanced
  | Ended

text \<open>
  Where the handles of the engine are: some live, the last one asks for the mutex, the flag is
  set, the condition variable is notified, and the drop has returned.
\<close>

datatype drop_pc = Handles | Dropping | Stopped | Joining | Gone

text \<open>
  The counters wrap at 64 bits, as the atomics do. An embedder that is between the two increments
  of \<open>increment_epoch\<close> is counted by \<open>ck_pending\<close>. An engine with external
  ticks has no thread.
\<close>

record clock =
  ck_now :: nat
  ck_epoch :: u64
  ck_ticks :: u64
  ck_stop :: bool
  ck_locked :: bool
  ck_thread :: "ticker_pc option"
  ck_drop :: drop_pc
  ck_pending :: nat

definition clock_new :: "bool \<Rightarrow> clock" where
  "clock_new external =
     \<lparr>ck_now = 0, ck_epoch = 0, ck_ticks = 0, ck_stop = False, ck_locked = False,
      ck_thread = (if external then None else Some Starting), ck_drop = Handles, ck_pending = 0\<rparr>"

section \<open>Steps\<close>

datatype clock_event =
    Pass nat
  | Bump
  | BumpCount
  | TakeLock
  | SeeStop
  | Sleep
  | TimeOut
  | Spurious
  | Relock
  | Expire
  | Advance
  | Count
  | Release
  | SetStop
  | NotifyAll
  | Join

text \<open>The steps of the ticker thread, \<open>Ticker::start\<close>, with the mutex it may hold.\<close>

inductive ticker_moves :: "duration \<Rightarrow> clock_event \<Rightarrow> clock \<Rightarrow> clock \<Rightarrow> bool" for period :: nat where
  take_lock: "ck_thread c = Some Starting \<Longrightarrow> \<not> ck_locked c \<Longrightarrow>
     ticker_moves period TakeLock c (c\<lparr>ck_thread := Some (Testing (ck_now c)), ck_locked := True\<rparr>)"
| see_stop: "ck_thread c = Some (Testing entered) \<Longrightarrow> ck_stop c \<Longrightarrow>
     ticker_moves period SeeStop c (c\<lparr>ck_thread := Some Ended, ck_locked := False\<rparr>)"
| sleep: "ck_thread c = Some (Testing entered) \<Longrightarrow> \<not> ck_stop c \<Longrightarrow> ck_now c - entered \<le> period \<Longrightarrow>
     ticker_moves period Sleep c (c\<lparr>ck_thread := Some (Asleep entered), ck_locked := False\<rparr>)"
| time_out: "ck_thread c = Some (Asleep entered) \<Longrightarrow> period \<le> ck_now c - entered \<Longrightarrow>
     ticker_moves period TimeOut c (c\<lparr>ck_thread := Some (Awake entered)\<rparr>)"
| spurious: "ck_thread c = Some (Asleep entered) \<Longrightarrow>
     ticker_moves period Spurious c (c\<lparr>ck_thread := Some (Awake entered)\<rparr>)"
| relock: "ck_thread c = Some (Awake entered) \<Longrightarrow> \<not> ck_locked c \<Longrightarrow>
     ticker_moves period Relock c (c\<lparr>ck_thread := Some (Testing entered), ck_locked := True\<rparr>)"
| expire: "ck_thread c = Some (Testing entered) \<Longrightarrow> \<not> ck_stop c \<Longrightarrow> period < ck_now c - entered \<Longrightarrow>
     ticker_moves period Expire c (c\<lparr>ck_thread := Some Expired\<rparr>)"
| advance: "ck_thread c = Some Expired \<Longrightarrow>
     ticker_moves period Advance c (c\<lparr>ck_thread := Some Advanced, ck_epoch := ck_epoch c + 1\<rparr>)"
| count: "ck_thread c = Some Advanced \<Longrightarrow>
     ticker_moves period Count c
       (c\<lparr>ck_thread := Some (Testing (ck_now c)), ck_ticks := ck_ticks c + 1\<rparr>)"

text \<open>
  The drop of the last handle, \<open>Ticker::drop\<close>. No handle is left for an increment then,
  so none is under way. An engine without a thread has nothing to stop.
\<close>

fun woken :: "ticker_pc \<Rightarrow> ticker_pc" where
  "woken (Asleep entered) = Awake entered"
| "woken pc = pc"

inductive drop_moves :: "clock_event \<Rightarrow> clock \<Rightarrow> clock \<Rightarrow> bool" where
  release: "ck_drop c = Handles \<Longrightarrow> ck_pending c = 0 \<Longrightarrow>
     drop_moves Release c (c\<lparr>ck_drop := (if ck_thread c = None then Gone else Dropping)\<rparr>)"
| set_stop: "ck_drop c = Dropping \<Longrightarrow> \<not> ck_locked c \<Longrightarrow>
     drop_moves SetStop c (c\<lparr>ck_drop := Stopped, ck_stop := True\<rparr>)"
| notify_all: "ck_drop c = Stopped \<Longrightarrow>
     drop_moves NotifyAll c
       (c\<lparr>ck_drop := Joining,
          ck_thread := map_option woken (ck_thread c)\<rparr>)"
| join: "ck_drop c = Joining \<Longrightarrow> ck_thread c = Some Ended \<Longrightarrow>
     drop_moves Join c (c\<lparr>ck_drop := Gone\<rparr>)"

text \<open>A handle of the engine, \<open>Engine::increment_epoch\<close>, in its two increments.\<close>

inductive handle_moves :: "clock_event \<Rightarrow> clock \<Rightarrow> clock \<Rightarrow> bool" where
  bump: "ck_drop c = Handles \<Longrightarrow>
     handle_moves Bump c (c\<lparr>ck_epoch := ck_epoch c + 1, ck_pending := Suc (ck_pending c)\<rparr>)"
| bump_count: "ck_pending c = Suc n \<Longrightarrow>
     handle_moves BumpCount c (c\<lparr>ck_ticks := ck_ticks c + 1, ck_pending := n\<rparr>)"

inductive clock_moves :: "duration \<Rightarrow> clock_event \<Rightarrow> clock \<Rightarrow> clock \<Rightarrow> bool" for period :: nat where
  pass: "clock_moves period (Pass d) c (c\<lparr>ck_now := ck_now c + d\<rparr>)"
| ticker: "ticker_moves period e c c' \<Longrightarrow> clock_moves period e c c'"
| dropping: "drop_moves e c c' \<Longrightarrow> clock_moves period e c c'"
| handle: "handle_moves e c c' \<Longrightarrow> clock_moves period e c c'"

inductive_cases ticker_movesE: "ticker_moves period e c c'"
inductive_cases drop_movesE: "drop_moves e c c'"
inductive_cases handle_movesE: "handle_moves e c c'"
inductive_cases clock_movesE: "clock_moves period e c c'"

lemmas clock_cases = ticker_movesE drop_movesE handle_movesE

text \<open>A finite run with its events, and an infinite one.\<close>

inductive clock_run :: "duration \<Rightarrow> clock \<Rightarrow> clock_event list \<Rightarrow> clock \<Rightarrow> bool" for period :: nat where
  run_refl: "clock_run period c [] c"
| run_step: "clock_run period c es c' \<Longrightarrow> clock_moves period e c' c'' \<Longrightarrow> clock_run period c (es @ [e]) c''"

definition clock_path :: "duration \<Rightarrow> (nat \<Rightarrow> clock_event) \<Rightarrow> (nat \<Rightarrow> clock) \<Rightarrow> bool" where
  "clock_path period ev p \<longleftrightarrow> (\<forall>i. clock_moves period (ev i) (p i) (p (Suc i)))"

definition reachable_clock :: "duration \<Rightarrow> bool \<Rightarrow> clock \<Rightarrow> bool" where
  "reachable_clock period external c \<longleftrightarrow> (\<exists>es. clock_run period (clock_new external) es c)"

section \<open>The invariant\<close>

text \<open>
  The mutex is held exactly where the thread works; the flag is set exactly once the drop has set
  it, and no increment is under way then; a drop that has returned left a thread that ended; the two
  counters differ by the increments under way.
\<close>

fun holds_lock :: "ticker_pc option \<Rightarrow> bool" where
  "holds_lock (Some (Testing entered)) = True"
| "holds_lock (Some Expired) = True"
| "holds_lock (Some Advanced) = True"
| "holds_lock t = False"

fun since :: "ticker_pc option \<Rightarrow> nat" where
  "since (Some (Testing entered)) = entered"
| "since (Some (Asleep entered)) = entered"
| "since (Some (Awake entered)) = entered"
| "since t = 0"

definition between_increments :: "clock \<Rightarrow> nat" where
  "between_increments c = ck_pending c + (if ck_thread c = Some Advanced then 1 else 0)"

definition clock_ok :: "clock \<Rightarrow> bool" where
  "clock_ok c \<longleftrightarrow>
     ck_locked c = holds_lock (ck_thread c) \<and>
     ck_stop c = (ck_drop c \<in> {Stopped, Joining} \<or> ck_drop c = Gone \<and> ck_thread c \<noteq> None) \<and>
     (ck_stop c \<longrightarrow> ck_thread c \<noteq> Some Expired \<and> ck_thread c \<noteq> Some Advanced) \<and>
     (ck_drop c \<noteq> Handles \<longrightarrow> ck_pending c = 0) \<and>
     (ck_drop c \<in> {Dropping, Stopped, Joining} \<longrightarrow> ck_thread c \<noteq> None) \<and>
     (ck_thread c = Some Ended \<longrightarrow> ck_stop c) \<and>
     (ck_drop c = Gone \<longrightarrow> ck_thread c \<in> {None, Some Ended}) \<and>
     since (ck_thread c) \<le> ck_now c \<and>
     ck_epoch c = ck_ticks c + of_nat (between_increments c)"

lemmas clock_ok_simps = clock_ok_def between_increments_def

lemma clock_new_ok: "clock_ok (clock_new external)"
  by (simp add: clock_ok_simps clock_new_def)

lemma ticker_moves_ok: "ticker_moves period e c c' \<Longrightarrow> clock_ok c \<Longrightarrow> clock_ok c'"
  by (erule ticker_movesE; auto simp: clock_ok_simps)

lemma woken_eq [simp]:
  "woken pc = Advanced \<longleftrightarrow> pc = Advanced" "woken pc = Expired \<longleftrightarrow> pc = Expired"
  "woken pc = Ended \<longleftrightarrow> pc = Ended" "woken pc = Starting \<longleftrightarrow> pc = Starting"
  "holds_lock (Some (woken pc)) = holds_lock (Some pc)" "since (Some (woken pc)) = since (Some pc)"
  by (cases pc; simp)+

lemma woken_thread [simp]:
  "holds_lock (map_option woken t) = holds_lock t" "since (map_option woken t) = since t"
  by (cases t; cases "the t"; simp)+

lemma drop_moves_ok: "drop_moves e c c' \<Longrightarrow> clock_ok c \<Longrightarrow> clock_ok c'"
  by (erule drop_movesE; auto simp: clock_ok_simps)

lemma handle_moves_ok: "handle_moves e c c' \<Longrightarrow> clock_ok c \<Longrightarrow> clock_ok c'"
  by (erule handle_movesE; auto simp: clock_ok_simps)

lemma clock_moves_ok: "clock_moves period e c c' \<Longrightarrow> clock_ok c \<Longrightarrow> clock_ok c'"
  by (erule clock_movesE)
    (auto intro: ticker_moves_ok drop_moves_ok handle_moves_ok, auto simp: clock_ok_simps)

lemma clock_run_ok: "clock_run period c es c' \<Longrightarrow> clock_ok c \<Longrightarrow> clock_ok c'"
  by (induction rule: clock_run.induct) (auto intro: clock_moves_ok)

lemma reachable_clock_ok: "reachable_clock period external c \<Longrightarrow> clock_ok c"
  unfolding reachable_clock_def using clock_run_ok clock_new_ok by blast

section \<open>After the drop\<close>

lemma gone_frozen_step:
  assumes "clock_moves period e c c'" "clock_ok c" "ck_drop c = Gone"
  shows "ck_drop c' = Gone \<and> ck_epoch c' = ck_epoch c \<and> ck_ticks c' = ck_ticks c"
  using assms by (auto elim!: clock_movesE clock_cases simp: clock_ok_def)

lemma gone_frozen_run:
  "clock_run period c es c' \<Longrightarrow> clock_ok c \<Longrightarrow> ck_drop c = Gone \<Longrightarrow>
   ck_drop c' = Gone \<and> ck_epoch c' = ck_epoch c \<and> ck_ticks c' = ck_ticks c"
proof (induction rule: clock_run.induct)
  case (run_step c es c' e c'')
  then show ?case using gone_frozen_step [OF run_step.hyps(2)] clock_run_ok by auto
qed simp

section \<open>Progress\<close>

text \<open>
  Progress of a machine with threads: while \<open>P\<close> holds and \<open>Q\<close> is not reached, a
  helpful event can happen, each one brings \<open>Q\<close> nearer and no other event takes it away.
  On a path that does not put the helpful events off for ever, \<open>Q\<close> is reached.
\<close>

definition fair_path ::
  "('e \<Rightarrow> bool) \<Rightarrow> ('e \<Rightarrow> 'c \<Rightarrow> 'c \<Rightarrow> bool) \<Rightarrow> (nat \<Rightarrow> 'e) \<Rightarrow> (nat \<Rightarrow> 'c) \<Rightarrow> bool" where
  "fair_path helps moves ev p \<longleftrightarrow>
     (\<forall>i. \<exists>j\<ge>i. helps (ev j) \<or> \<not> (\<exists>e c. helps e \<and> moves e (p j) c))"

locale leads_to =
  fixes moves :: "'e \<Rightarrow> 'c \<Rightarrow> 'c \<Rightarrow> bool"
    and helps :: "'e \<Rightarrow> bool"
    and P Q :: "'c \<Rightarrow> bool"
    and rank :: "'c \<Rightarrow> nat"
  assumes keep: "P c \<Longrightarrow> \<not> Q c \<Longrightarrow> moves e c c' \<Longrightarrow> Q c' \<or> P c' \<and> rank c' \<le> rank c"
    and nearer: "P c \<Longrightarrow> \<not> Q c \<Longrightarrow> helps e \<Longrightarrow> moves e c c' \<Longrightarrow> Q c' \<or> rank c' < rank c"
    and enabled: "P c \<Longrightarrow> \<not> Q c \<Longrightarrow> \<exists>e c'. helps e \<and> moves e c c'"
begin

lemma stays:
  assumes path: "\<And>i. moves (ev i) (p i) (p (Suc i))" and start: "P (p i)"
    and never: "\<And>j. i \<le> j \<Longrightarrow> \<not> Q (p j)"
  shows "P (p (i + n)) \<and> rank (p (i + n)) \<le> rank (p i)"
proof (induction n)
  case (Suc n)
  then show ?case using keep [OF _ _ path, of "i + n"] never [of "i + n"] never [of "i + Suc n"] by fastforce
qed (simp add: start)

lemma reached:
  assumes path: "\<And>i. moves (ev i) (p i) (p (Suc i))" and fair: "fair_path helps moves ev p"
    and start: "P (p i)"
  shows "\<exists>j\<ge>i. Q (p j)"
  using start
proof (induction "rank (p i)" arbitrary: i rule: less_induct)
  case less
  show ?case
  proof (rule ccontr)
    assume "\<not> (\<exists>j\<ge>i. Q (p j))"
    then have never: "\<not> Q (p j)" if "i \<le> j" for j using that by blast
    from fair obtain j where j: "i \<le> j" "helps (ev j) \<or> \<not> (\<exists>e c. helps e \<and> moves e (p j) c)"
      unfolding fair_path_def by blast
    from stays [OF path less.prems never, of "j - i"] j(1) have "P (p j)" "rank (p j) \<le> rank (p i)" by simp_all
    with j never enabled have "helps (ev j)" by blast
    with \<open>P (p j)\<close> never [OF j(1)] nearer [OF _ _ _ path] never [of "Suc j"] j(1)
    have "rank (p (Suc j)) < rank (p i)" using \<open>rank (p j) \<le> rank (p i)\<close> by fastforce
    moreover have "P (p (Suc j))"
      using stays [OF path less.prems never, of "Suc j - i"] j(1) by simp
    ultimately obtain k where "Suc j \<le> k" "Q (p k)" using less.hyps by blast
    with never [of k] j(1) show False by simp
  qed
qed

end

text \<open>
  The events the ticker thread can count on: all but a spurious wake-up. The events a drop can count
  on: those of the two threads that need neither a spurious wake-up nor a timeout, so none for which
  time has to pass.
\<close>

definition ticker_event :: "clock_event \<Rightarrow> bool" where
  "ticker_event e \<longleftrightarrow> e \<in> {TakeLock, SeeStop, Sleep, TimeOut, Relock, Expire, Advance, Count}"

definition stopping_event :: "clock_event \<Rightarrow> bool" where
  "stopping_event e \<longleftrightarrow> ticker_event e \<and> e \<noteq> TimeOut \<or> e \<in> {NotifyAll, Join}"

fun passes_time :: "clock_event \<Rightarrow> bool" where
  "passes_time (Pass d) = True"
| "passes_time e = False"

text \<open>
  No wake-up is lost: a drop that waits for the thread has notified it, and the thread sleeps no more,
  because it was asleep then and is awake, or it tests the flag before it sleeps again.
\<close>

definition notified :: "clock \<Rightarrow> bool" where
  "notified c \<longleftrightarrow> (ck_drop c = Joining \<longrightarrow> (\<forall>entered. ck_thread c \<noteq> Some (Asleep entered)))"

lemma woken_awake [simp]: "woken pc \<noteq> Asleep entered"
  by (cases pc) simp_all

lemma clock_moves_notified: "clock_moves period e c c' \<Longrightarrow> clock_ok c \<Longrightarrow> notified c \<Longrightarrow> notified c'"
  by (erule clock_movesE; (erule clock_cases)?; auto simp: notified_def clock_ok_def)

lemma clock_run_notified: "clock_run period c es c' \<Longrightarrow> clock_ok c \<Longrightarrow> notified c \<Longrightarrow> notified c'"
  by (induction rule: clock_run.induct) (auto intro: clock_moves_notified clock_run_ok)

lemma reachable_clock_notified: "reachable_clock period external c \<Longrightarrow> notified c"
  unfolding reachable_clock_def
  using clock_run_notified clock_new_ok by (fastforce simp: notified_def clock_new_def)

fun thread_rank :: "ticker_pc option \<Rightarrow> nat" where
  "thread_rank (Some Starting) = 2"
| "thread_rank (Some (Asleep entered)) = 3"
| "thread_rank (Some (Awake entered)) = 2"
| "thread_rank (Some (Testing entered)) = 1"
| "thread_rank t = 0"

fun drop_rank :: "drop_pc \<Rightarrow> nat" where
  "drop_rank Gone = 0"
| "drop_rank Joining = 1"
| "drop_rank d = 2"

definition stop_rank :: "clock \<Rightarrow> nat" where
  "stop_rank c = thread_rank (ck_thread c) + drop_rank (ck_drop c)"

lemma thread_rank_woken: "thread_rank (map_option woken t) \<le> thread_rank t"
  by (cases t; cases "the t"; simp)

text \<open>
  Unless it ended or sleeps, the thread can move, because the mutex is not another one's, and no step
  needs the time to pass.
\<close>

lemma ticker_enabled:
  assumes "clock_ok c" "ck_thread c = Some pc" "pc \<noteq> Ended" "\<And>entered. pc \<noteq> Asleep entered"
  shows "\<exists>e c'. ticker_event e \<and> e \<noteq> TimeOut \<and> ticker_moves period e c c'"
proof (cases pc)
  case Starting
  with assms have "ticker_moves period TakeLock c (c\<lparr>ck_thread := Some (Testing (ck_now c)), ck_locked := True\<rparr>)"
    by (intro take_lock) (auto simp: clock_ok_def)
  then show ?thesis by (force simp: ticker_event_def)
next
  case (Testing n)
  with assms(2) see_stop [of c n period] sleep [of c n period] expire [of c n period] show ?thesis
    by (cases "ck_stop c"; cases "ck_now c - n \<le> period") (force simp: ticker_event_def)+
next
  case (Awake n)
  with assms have "ticker_moves period Relock c (c\<lparr>ck_thread := Some (Testing n), ck_locked := True\<rparr>)"
    by (intro relock) (auto simp: clock_ok_def)
  then show ?thesis by (force simp: ticker_event_def)
next
  case Expired
  with assms(2) advance [of c period] show ?thesis by (force simp: ticker_event_def)
next
  case Advanced
  with assms(2) count [of c period] show ?thesis by (force simp: ticker_event_def)
qed (use assms in auto)

lemma stop_enabled:
  assumes "clock_ok c" "notified c" "ck_stop c" "ck_drop c \<noteq> Gone"
  shows "\<exists>e c'. stopping_event e \<and> clock_moves period e c c'"
proof -
  from assms obtain pc where t: "ck_thread c = Some pc" by (auto simp: clock_ok_def)
  from assms have d: "ck_drop c = Stopped \<or> ck_drop c = Joining" by (auto simp: clock_ok_def)
  show ?thesis
  proof (cases "pc = Ended \<or> (\<exists>entered. pc = Asleep entered)")
    case False
    with ticker_enabled [OF assms(1) t] show ?thesis
      unfolding stopping_event_def by (blast intro: ticker)
  next
    case True
    with t assms(2) have "ck_drop c = Joining \<Longrightarrow> pc = Ended" by (auto simp: notified_def)
    with t d show ?thesis
      using notify_all [of c] join [of c] unfolding stopping_event_def by (blast intro: dropping)
  qed
qed

lemma ticker_moves_stop:
  "ticker_moves period e c c' \<Longrightarrow> clock_ok c \<Longrightarrow> ck_stop c \<Longrightarrow>
   ck_stop c' \<and> ck_drop c' = ck_drop c \<and> thread_rank (ck_thread c') < thread_rank (ck_thread c)"
  by (erule ticker_movesE; simp add: clock_ok_def)

lemma drop_moves_stop:
  "drop_moves e c c' \<Longrightarrow> clock_ok c \<Longrightarrow> ck_stop c \<Longrightarrow> ck_stop c' \<and> stop_rank c' < stop_rank c"
  by (insert thread_rank_woken [of "ck_thread c"], erule drop_movesE; auto simp: clock_ok_def stop_rank_def)

lemma handle_moves_stop: "handle_moves e c c' \<Longrightarrow> clock_ok c \<Longrightarrow> \<not> ck_stop c"
  by (erule handle_movesE; auto simp: clock_ok_def)

lemma event_kind:
  "ticker_moves period e c c' \<Longrightarrow> ticker_event e \<or> e = Spurious" "drop_moves e c c' \<Longrightarrow> \<not> ticker_event e"
  "handle_moves e c c' \<Longrightarrow> \<not> ticker_event e" "\<not> ticker_event (Pass d)" "\<not> stopping_event (Pass d)"
  "stopping_event e \<Longrightarrow> \<not> passes_time e"
  by (auto elim!: clock_cases simp: ticker_event_def stopping_event_def)

lemma stop_nearer:
  assumes "clock_ok c" "ck_stop c" "clock_moves period e c c'"
  shows "ck_stop c' \<and> stop_rank c' \<le> stop_rank c \<and> (\<not> passes_time e \<longrightarrow> stop_rank c' < stop_rank c)"
  using assms(3)
proof (cases rule: clock_moves.cases)
  case ticker
  from ticker_moves_stop [OF this assms(1,2)] show ?thesis by (simp add: stop_rank_def)
next
  case dropping
  from drop_moves_stop [OF this assms(1,2)] show ?thesis by simp
qed (use assms handle_moves_stop event_kind in \<open>auto simp: stop_rank_def\<close>)

interpretation stop: leads_to "clock_moves period" stopping_event
  "\<lambda>c. clock_ok c \<and> notified c \<and> ck_stop c" "\<lambda>c. ck_drop c = Gone" stop_rank for period
proof unfold_locales
  fix c c' :: clock and e
  assume at: "clock_ok c \<and> notified c \<and> ck_stop c" "ck_drop c \<noteq> Gone"
  with stop_enabled show "\<exists>e c'. stopping_event e \<and> clock_moves period e c c'" by blast
  assume moves: "clock_moves period e c c'"
  from stop_nearer [OF _ _ moves] at
  have *: "ck_stop c' \<and> stop_rank c' \<le> stop_rank c \<and> (stopping_event e \<longrightarrow> stop_rank c' < stop_rank c)"
    using event_kind(6) by simp
  with clock_moves_ok [OF moves] clock_moves_notified [OF moves] at
  show "ck_drop c' = Gone \<or> (clock_ok c' \<and> notified c' \<and> ck_stop c') \<and> stop_rank c' \<le> stop_rank c" by simp
  from * show "ck_drop c' = Gone \<or> stop_rank c' < stop_rank c" if "stopping_event e" using that by simp
qed

text \<open>Once the flag is set, at most five steps are left, wake-ups of any kind included, whatever the clock does.\<close>

lemma stop_steps:
  "clock_run period c es c' \<Longrightarrow> clock_ok c \<Longrightarrow> ck_stop c \<Longrightarrow>
   ck_stop c' \<and> length (filter (\<lambda>e. \<not> passes_time e) es) + stop_rank c' \<le> stop_rank c"
proof (induction rule: clock_run.induct)
  case (run_step c es c' e c'')
  then have "clock_ok c'" "ck_stop c'" using clock_run_ok by auto
  from stop_nearer [OF this run_step.hyps(2)] run_step show ?case by auto
qed simp

lemma stop_rank_bound: "stop_rank c \<le> 5"
  unfolding stop_rank_def
  by (cases "ck_thread c"; cases "the (ck_thread c)"; cases "ck_drop c"; simp)

section \<open>The pace of the ticker\<close>

text \<open>
  \<open>ticks_of es\<close> counts the advances of the ticker thread among the events of a run. Two of
  them are more than a period apart, because the wait between them is entered after the first and
  given up only when more than the period has passed.
\<close>

definition ticks_of :: "clock_event list \<Rightarrow> nat" where
  "ticks_of es = length (filter (\<lambda>e. e = Advance) es)"

definition bumps_of :: "clock_event list \<Rightarrow> nat" where
  "bumps_of es = length (filter (\<lambda>e. e = Bump) es)"

fun waiting :: "ticker_pc option \<Rightarrow> bool" where
  "waiting (Some (Testing entered)) = True"
| "waiting (Some (Asleep entered)) = True"
| "waiting (Some (Awake entered)) = True"
| "waiting t = False"

definition paced :: "nat \<Rightarrow> nat \<Rightarrow> nat \<Rightarrow> clock \<Rightarrow> bool" where
  "paced period from k c \<longleftrightarrow>
     from + (k - 1) * Suc period \<le> ck_now c \<and>
     (k \<noteq> 0 \<longrightarrow> ck_thread c \<noteq> None \<and> ck_thread c \<noteq> Some Starting) \<and>
     (k \<noteq> 0 \<and> waiting (ck_thread c) \<longrightarrow> from + (k - 1) * Suc period \<le> since (ck_thread c)) \<and>
     (k \<noteq> 0 \<and> ck_thread c = Some Expired \<longrightarrow> from + k * Suc period \<le> ck_now c)"

lemma waiting_woken [simp]: "waiting (Some (woken pc)) = waiting (Some pc)"
  by (cases pc) simp_all

lemma paced_ticker:
  assumes "ticker_moves period e c c'" "clock_ok c" "paced period from k c"
  shows "paced period from (k + (if e = Advance then 1 else 0)) c'"
  using assms by (cases k) (erule ticker_movesE; force simp: paced_def clock_ok_def)+

lemma paced_step:
  assumes "clock_moves period e c c'" "clock_ok c" "paced period from k c"
  shows "paced period from (k + (if e = Advance then 1 else 0)) c'"
  using assms(1)
proof (cases rule: clock_moves.cases)
  case ticker
  from paced_ticker [OF this assms(2,3)] show ?thesis .
next
  case dropping
  then show ?thesis using assms(3) by (auto elim!: drop_movesE simp: paced_def)
next
  case handle
  then show ?thesis using assms(3) by (auto elim!: handle_movesE simp: paced_def)
qed (use assms(3) in \<open>auto simp: paced_def\<close>)

lemma clock_run_paced:
  "clock_run period c es c' \<Longrightarrow> clock_ok c \<Longrightarrow> paced period (ck_now c) (ticks_of es) c'"
proof (induction rule: clock_run.induct)
  case (run_step c es c' e c'')
  then have "clock_ok c'" "paced period (ck_now c) (ticks_of es) c'" using clock_run_ok by auto
  from paced_step [OF run_step.hyps(2) this] show ?case by (cases "e = Advance") (simp_all add: ticks_of_def)
qed (simp add: paced_def ticks_of_def)

lemma clock_step_epoch:
  "clock_moves period e c c' \<Longrightarrow>
   ck_epoch c' = ck_epoch c + of_nat ((if e = Advance then 1 else 0) + (if e = Bump then 1 else 0))"
  by (erule clock_movesE; (erule clock_cases)?; simp)

lemma clock_run_epoch:
  "clock_run period c es c' \<Longrightarrow> ck_epoch c' = ck_epoch c + of_nat (ticks_of es + bumps_of es)"
proof (induction rule: clock_run.induct)
  case (run_step c es c' e c'')
  from clock_step_epoch [OF run_step.hyps(2)] run_step.IH show ?case by (simp add: ticks_of_def bumps_of_def)
qed (simp add: ticks_of_def bumps_of_def)

section \<open>The ticker keeps ticking\<close>

text \<open>An engine that runs its ticker and that nobody drops, with a wait that is due.\<close>

definition ticking :: "clock \<Rightarrow> bool" where
  "ticking c \<longleftrightarrow> clock_ok c \<and> ck_drop c = Handles \<and> ck_thread c \<noteq> None"

definition wait_due :: "duration \<Rightarrow> clock \<Rightarrow> bool" where
  "wait_due period c \<longleftrightarrow> ck_thread c = Some Expired \<or>
     waiting (ck_thread c) \<and> period < ck_now c - since (ck_thread c)"

fun due_rank :: "ticker_pc option \<Rightarrow> nat" where
  "due_rank (Some (Asleep entered)) = 3"
| "due_rank (Some (Awake entered)) = 2"
| "due_rank (Some (Testing entered)) = 1"
| "due_rank t = 0"

lemma ticking_live:
  assumes "ticking c" "ck_thread c = Some Starting \<or> wait_due period c \<or> ck_thread c = Some Advanced"
  shows "\<exists>e c'. ticker_event e \<and> clock_moves period e c c'"
proof -
  from assms have ok: "clock_ok c" by (simp add: ticking_def)
  from assms obtain pc where pc: "ck_thread c = Some pc" by (auto simp: ticking_def)
  have "pc \<noteq> Ended" using ok pc assms by (auto simp: ticking_def clock_ok_def)
  then obtain e c' where "ticker_event e" "ticker_moves period e c c'"
  proof (cases "\<exists>entered. pc = Asleep entered")
    case True
    with assms(2) pc obtain n where "ck_thread c = Some (Asleep n)" "period \<le> ck_now c - n"
      by (auto simp: wait_due_def)
    with time_out [of c n period] that [of TimeOut] show ?thesis by (simp add: ticker_event_def)
  next
    case False
    with ticker_enabled [OF ok pc \<open>pc \<noteq> Ended\<close>] that show ?thesis by blast
  qed
  with clock_moves.ticker [of period e c c'] show ?thesis by blast
qed

text \<open>Until the drop starts the thread stays, and its wait keeps the time it was entered.\<close>

lemma thread_stays: "clock_moves period e c c' \<Longrightarrow> (ck_thread c' = None) = (ck_thread c = None)"
  by (erule clock_movesE; (erule clock_cases)?; simp)

lemma now_grows: "clock_moves period e c c' \<Longrightarrow> ck_now c \<le> ck_now c'"
  by (erule clock_movesE; (erule clock_cases)?; simp)

lemma ticking_step: "ticking c \<Longrightarrow> clock_moves period e c c' \<Longrightarrow> ck_drop c' = Handles \<Longrightarrow> ticking c'"
  unfolding ticking_def by (metis clock_moves_ok thread_stays)

lemma wait_kept:
  assumes "ticking c" "clock_moves period e c c'" "ck_drop c' = Handles"
    "waiting (ck_thread c)"
  shows "ck_thread c' = Some Expired \<or> waiting (ck_thread c') \<and> since (ck_thread c') = since (ck_thread c)"
proof -
  have "\<not> ck_stop c" using assms(1) by (auto simp: ticking_def clock_ok_def)
  with assms(2-) show ?thesis by (elim clock_movesE; (elim clock_cases)?; simp)
qed

text \<open>A thread that has not locked yet does so.\<close>

interpretation starts: leads_to "clock_moves period" ticker_event
  "\<lambda>c. ticking c \<and> ck_thread c = Some Starting"
  "\<lambda>c. ck_drop c \<noteq> Handles \<or> ck_thread c \<noteq> Some Starting" "\<lambda>c. 0" for period
proof unfold_locales
  fix c c' :: clock and e
  assume at: "ticking c \<and> ck_thread c = Some Starting" "\<not> (ck_drop c \<noteq> Handles \<or> ck_thread c \<noteq> Some Starting)"
  with ticking_live show "\<exists>e c'. ticker_event e \<and> clock_moves period e c c'" by blast
  assume moves: "clock_moves period e c c'"
  with at ticking_step [OF _ moves]
  show "(ck_drop c' \<noteq> Handles \<or> ck_thread c' \<noteq> Some Starting) \<or>
      (ticking c' \<and> ck_thread c' = Some Starting) \<and> (0::nat) \<le> 0" by auto
  from moves at
  show "(ck_drop c' \<noteq> Handles \<or> ck_thread c' \<noteq> Some Starting) \<or> (0::nat) < 0" if "ticker_event e"
    using that by (auto elim!: clock_movesE ticker_movesE dest: event_kind(2,3) simp: event_kind(4))
qed

text \<open>A wait that is due ends in a tick.\<close>

interpretation due: leads_to "clock_moves period" ticker_event
  "\<lambda>c. ticking c \<and> wait_due period c"
  "\<lambda>c. ck_drop c \<noteq> Handles \<or> ck_thread c = Some Advanced" "\<lambda>c. due_rank (ck_thread c)" for period
proof unfold_locales
  fix c c' :: clock and e
  assume at: "ticking c \<and> wait_due period c" "\<not> (ck_drop c \<noteq> Handles \<or> ck_thread c = Some Advanced)"
  with ticking_live show "\<exists>e c'. ticker_event e \<and> clock_moves period e c c'" by blast
  from at have s: "\<not> ck_stop c" by (auto simp: ticking_def clock_ok_def)
  assume moves: "clock_moves period e c c'"
  with at s ticking_step [OF _ moves]
  show "(ck_drop c' \<noteq> Handles \<or> ck_thread c' = Some Advanced) \<or>
      (ticking c' \<and> wait_due period c') \<and> due_rank (ck_thread c') \<le> due_rank (ck_thread c)"
    by (auto elim!: clock_movesE clock_cases simp: wait_due_def)
  from moves at s
  show "(ck_drop c' \<noteq> Handles \<or> ck_thread c' = Some Advanced) \<or> due_rank (ck_thread c') < due_rank (ck_thread c)"
    if "ticker_event e"
    using that by (auto elim!: clock_movesE ticker_movesE dest: event_kind(2,3) simp: event_kind(4) wait_due_def)
qed

text \<open>
  C20. An engine that nobody drops keeps ticking: on any fair path on which time goes on, the ticker
  advances the epoch again and again, or the drop of the engine begins.
\<close>

theorem ticker_ticks:
  assumes path: "clock_path period ev p" and fair: "fair_path ticker_event (clock_moves period) ev p"
    and time: "\<forall>t. \<exists>i. t \<le> ck_now (p i)"
    and start: "clock_ok (p 0)" "ck_thread (p 0) \<noteq> None"
  shows "\<exists>j\<ge>i. ck_thread (p j) = Some Advanced \<or> ck_drop (p j) \<noteq> Handles"
proof (rule ccontr)
  assume "\<not> ?thesis"
  then have never: "ck_drop (p j) = Handles" "ck_thread (p j) \<noteq> Some Advanced" if "i \<le> j" for j
    using that by auto
  have moves: "clock_moves period (ev k) (p k) (p (Suc k))" for k using path by (simp add: clock_path_def)
  have "clock_ok (p k) \<and> ck_thread (p k) \<noteq> None" for k
  proof (induction k)
    case (Suc k)
    with clock_moves_ok [OF moves] thread_stays [OF moves] show ?case by simp
  qed (simp add: start)
  then have ticking: "ticking (p k)" if "i \<le> k" for k using never(1) [OF that] by (simp add: ticking_def)
  have mono: "ck_now (p j) \<le> ck_now (p k)" if "j \<le> k" for j k
    using that by (induction rule: dec_induct) (use now_grows [OF moves] le_trans in \<open>blast+\<close>)
  have due: "\<not> wait_due period (p k)" if "i \<le> k" for k
    using due.reached [OF moves fair, of k] ticking [OF that] never le_trans [OF that] by blast
  obtain s where s: "i \<le> s" "ck_thread (p s) \<noteq> Some Starting"
    using starts.reached [OF moves fair, of i] ticking never by blast
  then have w: "waiting (ck_thread (p s))"
    using ticking [OF s(1)] never [OF s(1)] due [OF s(1)]
    by (cases "ck_thread (p s)"; cases "the (ck_thread (p s))") (auto simp: ticking_def clock_ok_def wait_due_def)
  have kept: "waiting (ck_thread (p k)) \<and> since (ck_thread (p k)) = since (ck_thread (p s))" if "s \<le> k" for k
    using that
  proof (induction rule: dec_induct)
    case (step k)
    then have k: "i \<le> k" "i \<le> Suc k" using s(1) by simp_all
    from wait_kept [OF ticking [OF k(1)] moves never(1) [OF k(2)]] step.IH due [OF k(2)]
    show ?case by (auto simp: wait_due_def)
  qed (use w in simp)
  obtain l where l: "Suc (since (ck_thread (p s)) + period) \<le> ck_now (p l)" using time by blast
  let ?k = "max s l"
  from l mono [of l ?k] have "period < ck_now (p ?k) - since (ck_thread (p ?k))" using kept [of ?k] by simp
  with kept [of ?k] due [of ?k] s(1) show False by (auto simp: wait_due_def)
qed

text \<open>A thread that ticks whenever it may, for the witness.\<close>

definition steady_clock :: "nat \<Rightarrow> clock" where
  "steady_clock i =
     (case i of 0 \<Rightarrow> clock_new False
      | Suc n \<Rightarrow>
          (let k = n div 4; r = n mod 4; now = 11 * (if r = 0 then k else Suc k) in
           \<lparr>ck_now = now, ck_epoch = of_nat (if r = 3 then Suc k else k), ck_ticks = of_nat k, ck_stop = False,
            ck_locked = True,
            ck_thread = Some (if r = 2 then Expired else if r = 3 then Advanced else Testing (11 * k)),
            ck_drop = Handles, ck_pending = 0\<rparr>))"

definition steady_event :: "nat \<Rightarrow> clock_event" where
  "steady_event i =
     (case i of 0 \<Rightarrow> TakeLock
      | Suc n \<Rightarrow> (let r = n mod 4 in
          if r = 0 then Pass 11 else if r = 1 then Expire else if r = 2 then Advance else Count))"

lemma steady_moves: "clock_moves 10 (steady_event i) (steady_clock i) (steady_clock (Suc i))"
proof (cases i)
  case 0
  then show ?thesis
    using ticker [OF take_lock [of "clock_new False" 10]]
    by (simp add: steady_event_def steady_clock_def clock_new_def)
next
  case (Suc n)
  have cases: "n mod 4 = 0 \<or> n mod 4 = 1 \<or> n mod 4 = 2 \<or> n mod 4 = 3" by presburger
  have div: "Suc n div 4 = (if n mod 4 = 3 then Suc (n div 4) else n div 4)"
    "Suc n mod 4 = (if n mod 4 = 3 then 0 else Suc (n mod 4))" by presburger+
  from cases Suc show ?thesis
    using pass [of 10 11 "steady_clock i"] ticker [OF expire [of "steady_clock i" _ 10]]
      ticker [OF advance [of "steady_clock i" 10]] ticker [OF count [of "steady_clock i" 10]]
    by (elim disjE) (simp_all add: steady_event_def steady_clock_def Let_def div add.commute)
qed

theorem ticker_ticks_witness:
  "\<exists>j\<ge>9. ck_thread (steady_clock j) = Some Advanced \<or> ck_drop (steady_clock j) \<noteq> Handles"
proof (rule ticker_ticks [of 10 steady_event])
  show "clock_path 10 steady_event steady_clock" by (simp add: clock_path_def steady_moves)
  show "fair_path ticker_event (clock_moves 10) steady_event steady_clock"
    unfolding fair_path_def
  proof (intro allI)
    fix i
    have "ticker_event (steady_event (4 * i + 2))" by (simp add: steady_event_def ticker_event_def)
    then show "\<exists>j\<ge>i. ticker_event (steady_event j) \<or>
        \<not> (\<exists>e c. ticker_event e \<and> clock_moves 10 e (steady_clock j) c)"
      by (intro exI [of _ "4 * i + 2"]) simp
  qed
  show "\<forall>t. \<exists>i. t \<le> ck_now (steady_clock i)"
  proof
    fix t
    have "t \<le> ck_now (steady_clock (Suc (4 * t)))" by (simp add: steady_clock_def)
    then show "\<exists>i. t \<le> ck_now (steady_clock i)" ..
  qed
  show "clock_ok (steady_clock 0)" "ck_thread (steady_clock 0) \<noteq> None"
    by (simp_all add: steady_clock_def clock_new_ok) (simp add: clock_new_def)
qed

text \<open>
  C19. The drop of the last handle of an engine stops the ticker at once and returns. Take any path
  on which the two threads are not put off for ever, where neither a timeout nor a spurious wake-up
  has to come and the time need not pass at all: once the flag is set the drop returns, so the
  notification reaches a thread that sleeps. Until then at most five steps happen, wake-ups included;
  and after the drop neither the epoch nor the counter moves, and they agree.
\<close>

theorem drop_stops_ticker:
  assumes path: "clock_path period ev p" and fair: "fair_path stopping_event (clock_moves period) ev p"
    and start: "reachable_clock period external (p 0)" "ck_stop (p 0)"
  shows "(\<exists>i. ck_drop (p i) = Gone) \<and>
    (\<forall>i j. ck_drop (p i) = Gone \<and> i \<le> j \<longrightarrow>
       ck_ticks (p j) = ck_ticks (p i) \<and> ck_epoch (p j) = ck_ticks (p i)) \<and>
    (\<forall>n. length (filter (\<lambda>e. \<not> passes_time e) (map ev [0..<n])) \<le> 5)"
proof -
  have moves: "clock_moves period (ev k) (p k) (p (Suc k))" for k using path by (simp add: clock_path_def)
  have ok0: "clock_ok (p 0)" "notified (p 0)" using start(1) by (rule reachable_clock_ok reachable_clock_notified)+
  have runs: "clock_run period (p i) (map ev [i..<i + n]) (p (i + n))" for i n
    by (induction n) (auto intro: run_refl run_step moves)
  have ok: "clock_ok (p i)" for i using clock_run_ok [OF runs [of 0 i]] ok0(1) by simp
  have frozen: "ck_ticks (p j) = ck_ticks (p i) \<and> ck_epoch (p j) = ck_ticks (p i)"
    if "ck_drop (p i) = Gone" "i \<le> j" for i j
  proof -
    from gone_frozen_run [OF runs [of i "j - i"] ok that(1)] that(2)
    have "ck_epoch (p j) = ck_epoch (p i)" "ck_ticks (p j) = ck_ticks (p i)" by simp_all
    moreover have "ck_epoch (p i) = ck_ticks (p i)"
      using ok [of i] that(1) by (auto simp: clock_ok_def between_increments_def)
    ultimately show ?thesis by simp
  qed
  have "\<exists>i. ck_drop (p i) = Gone" using stop.reached [OF moves fair] ok0 start(2) by blast
  moreover have "length (filter (\<lambda>e. \<not> passes_time e) (map ev [0..<n])) \<le> 5" for n
    using stop_steps [OF runs [of 0 n] ok0(1) start(2)] stop_rank_bound [of "p 0"] by simp
  ultimately show ?thesis using frozen by blast
qed

text \<open>A drop that finds the thread asleep, at a time that stands still, for the witness.\<close>

definition drop_clock :: "nat \<Rightarrow> clock" where
  "drop_clock i =
     (clock_new False)\<lparr>ck_stop := True, ck_locked := (i = 2),
        ck_thread := Some (if i = 0 then Asleep 0 else if i = 1 then Awake 0 else if i = 2 then Testing 0 else Ended),
        ck_drop := (if i = 0 then Stopped else if i < 4 then Joining else Gone)\<rparr>"

definition drop_event :: "nat \<Rightarrow> clock_event" where
  "drop_event i =
     (if i = 0 then NotifyAll else if i = 1 then Relock else if i = 2 then SeeStop
      else if i = 3 then Join else Pass 0)"

lemma drop_clock_moves: "clock_moves 10 (drop_event i) (drop_clock i) (drop_clock (Suc i))"
proof -
  consider "i = 0" | "i = 1" | "i = 2" | "i = 3" | "4 \<le> i" by linarith
  then show ?thesis
    by cases
      (use dropping [OF notify_all [of "drop_clock i"]] dropping [OF join [of "drop_clock i"]]
        ticker [OF relock [of "drop_clock i" 0 10]] ticker [OF see_stop [of "drop_clock i" 0 10]]
        pass [of 10 0 "drop_clock i"] in
       \<open>simp_all add: drop_event_def drop_clock_def clock_new_def\<close>)
qed

lemma drop_clock_reachable: "reachable_clock 10 False (drop_clock 0)"
proof -
  let ?a = "(clock_new False)\<lparr>ck_thread := Some (Testing 0), ck_locked := True\<rparr>"
  let ?b = "(clock_new False)\<lparr>ck_thread := Some (Asleep 0)\<rparr>"
  let ?c = "?b\<lparr>ck_drop := Dropping\<rparr>"
  have "clock_moves 10 TakeLock (clock_new False) ?a"
    using ticker [OF take_lock [of "clock_new False" 10]] by (simp add: clock_new_def)
  moreover have "clock_moves 10 Sleep ?a ?b"
    using ticker [OF sleep [of ?a 0 10]] by (simp add: clock_new_def)
  moreover have "clock_moves 10 Release ?b ?c"
    using dropping [OF release [of ?b]] by (simp add: clock_new_def)
  moreover have "clock_moves 10 SetStop ?c (drop_clock 0)"
    using dropping [OF set_stop [of ?c]] by (simp add: clock_new_def drop_clock_def)
  ultimately have "clock_run 10 (clock_new False) (((([] @ [TakeLock]) @ [Sleep]) @ [Release]) @ [SetStop]) (drop_clock 0)"
    by (intro run_step [OF run_step [OF run_step [OF run_step [OF run_refl]]]])
  then show ?thesis by (auto simp: reachable_clock_def)
qed

theorem drop_stops_ticker_witness: "ck_drop (drop_clock 4) = Gone \<and> (\<exists>i. ck_drop (drop_clock i) = Gone)"
proof -
  have "fair_path stopping_event (clock_moves 10) drop_event drop_clock"
    unfolding fair_path_def
  proof
    fix i
    have "\<not> clock_moves 10 e (drop_clock (i + 4)) c" if "stopping_event e" for e c
      using that
      by (auto elim!: clock_movesE clock_cases
          simp: drop_clock_def clock_new_def stopping_event_def ticker_event_def)
    then show "\<exists>j\<ge>i. stopping_event (drop_event j) \<or>
        \<not> (\<exists>e c. stopping_event e \<and> clock_moves 10 e (drop_clock j) c)"
      by (intro exI [of _ "i + 4"]) auto
  qed
  with drop_clock_reachable show ?thesis
    using drop_stops_ticker [of 10 drop_event drop_clock False] drop_clock_moves
    by (simp add: clock_path_def drop_clock_def)
qed

end
