(* ===== verification/Engines.thy ===== *)
theory Engines
  imports Epoch_Clock Host_State
begin

text \<open>
  The engine (\<open>runtime/engine.rs\<close>): its settings, how it is built, what it reports, and
  what its clock means for the CPU time of a guest call (\<open>runtime/guest_call.rs\<close>). The
  runtime that compiles modules is not part of the repository: what it makes of the settings is
  an argument.
\<close>

section \<open>The settings\<close>

definition DEFAULT_EPOCH_PERIOD :: duration where
  "DEFAULT_EPOCH_PERIOD = from_millis 10"

record engine_config =
  cfg_epoch_period :: duration
  cfg_external_ticks :: bool
  cfg_fuel_enabled :: bool
  cfg_max_wasm_stack :: "nat option"

definition engine_config_new :: engine_config where
  "engine_config_new =
     \<lparr>cfg_epoch_period = DEFAULT_EPOCH_PERIOD, cfg_external_ticks = False, cfg_fuel_enabled = False,
      cfg_max_wasm_stack = None\<rparr>"

definition with_epoch_period :: "duration \<Rightarrow> engine_config \<Rightarrow> engine_config" where
  "with_epoch_period period c = c\<lparr>cfg_epoch_period := period\<rparr>"

definition with_external_ticks :: "bool \<Rightarrow> engine_config \<Rightarrow> engine_config" where
  "with_external_ticks external c = c\<lparr>cfg_external_ticks := external\<rparr>"

definition with_fuel_enabled :: "bool \<Rightarrow> engine_config \<Rightarrow> engine_config" where
  "with_fuel_enabled enabled c = c\<lparr>cfg_fuel_enabled := enabled\<rparr>"

definition with_max_wasm_stack :: "nat option \<Rightarrow> engine_config \<Rightarrow> engine_config" where
  "with_max_wasm_stack bytes c = c\<lparr>cfg_max_wasm_stack := bytes\<rparr>"

section \<open>Building an engine\<close>

text \<open>
  The settings handed to the runtime. It refuses them with a reason, or makes an engine with an
  identity and a bound on the stack of a guest.
\<close>

record runtime_config =
  epoch_interruption :: bool
  wasm_multi_memory :: bool
  consume_fuel :: bool
  max_wasm_stack :: "nat option"

type_synonym runtime_maker = "runtime_config \<Rightarrow> string + nat \<times> nat"

record engine =
  engine_id :: nat
  engine_config :: engine_config
  stack_depth :: nat

definition engine_build :: "runtime_maker \<Rightarrow> engine_config \<Rightarrow> error + engine \<times> clock" where
  "engine_build runtime c =
     (if cfg_epoch_period c = 0 then Inl (Config ''the epoch period must not be zero'')
      else
        (case runtime \<lparr>epoch_interruption = True, wasm_multi_memory = False,
               consume_fuel = cfg_fuel_enabled c, max_wasm_stack = cfg_max_wasm_stack c\<rparr> of
           Inl source \<Rightarrow> Inl (Config source)
         | Inr (i, depth) \<Rightarrow>
             Inr (\<lparr>engine_id = i, engine_config = c, stack_depth = depth\<rparr>,
                  clock_new (cfg_external_ticks c))))"

definition engine_new :: "runtime_maker \<Rightarrow> error + engine \<times> clock" where
  "engine_new runtime = engine_build runtime engine_config_new"

definition epoch_period :: "engine \<Rightarrow> duration" where
  "epoch_period eng = cfg_epoch_period (engine_config eng)"

definition fuel_enabled :: "engine \<Rightarrow> bool" where
  "fuel_enabled eng = cfg_fuel_enabled (engine_config eng)"

definition has_ticker :: "clock \<Rightarrow> bool" where
  "has_ticker c \<longleftrightarrow> ck_thread c \<noteq> None"

definition engine_ticks :: "clock \<Rightarrow> u64" where
  "engine_ticks c = ck_ticks c"

section \<open>The deadline of a guest call\<close>

text \<open>
  A call starts with a deadline a number of epochs ahead of the current one (\<open>refill\<close>),
  and the runtime is documented to interrupt it once the epoch has come that far: that is all that is
  said here of the runtime. The epoch wraps, and so does the difference.
\<close>

definition deadline_passed :: "budget \<Rightarrow> clock \<Rightarrow> clock \<Rightarrow> bool" where
  "deadline_passed b c c' \<longleftrightarrow> epoch_ticks b \<le> ck_epoch c' - ck_epoch c"

lemma budget_ticks:
  assumes "cpu_time l \<le> period * ((2 ^ 64 - 1) div 4)" "0 < period"
  shows "cpu_time l \<le> unat (epoch_ticks (budget_new l period)) * period"
    "1 \<le> unat (epoch_ticks (budget_new l period))"
proof -
  let ?t = "max ((cpu_time l + period - 1) div period) 1"
  have "(cpu_time l + period - 1) div period \<le> (2 ^ 64 - 1) div 4"
  proof -
    have "cpu_time l + period - 1 < (Suc ((2 ^ 64 - 1) div 4)) * period" using assms by simp
    then show ?thesis using assms(2) by (simp only: less_Suc_eq_le [symmetric] less_mult_imp_div_less)
  qed
  then have t: "?t \<le> (2 ^ 64 - 1) div 4" by simp
  have p: "max period 1 = period" using assms(2) by simp
  have "min (if t < 2 ^ 64 then t else 2 ^ 64 - 1) ((2 ^ 64 - 1) div 4) = t" if "t \<le> (2 ^ 64 - 1) div 4" for t :: nat
    using that by simp
  from this [OF t] have "epoch_ticks (budget_new l period) = of_nat ?t"
    unfolding budget_new_def Let_def p by simp
  moreover have "?t < 2 ^ 64" using t by (rule le_less_trans) simp
  moreover have "unat (of_nat t :: u64) = t" if "t < 2 ^ 64" for t
    using that by (simp add: unat_of_nat)
  ultimately have u: "unat (epoch_ticks (budget_new l period)) = ?t"
    by (simp only:)
  have "cpu_time l \<le> ((cpu_time l + period - 1) div period) * period"
    using div_mult_mod_eq [of "cpu_time l + period - 1" period]
      mod_less_divisor [OF assms(2), of "cpu_time l + period - 1"] by linarith
  then show "cpu_time l \<le> unat (epoch_ticks (budget_new l period)) * period"
    unfolding u by (meson le_trans max.cobounded1 mult_le_mono1)
  show "1 \<le> unat (epoch_ticks (budget_new l period))" unfolding u by simp
qed

lemma deadline_ticks:
  assumes "clock_run period c es c'" "deadline_passed b c c'" "bumps_of es = 0"
  shows "unat (epoch_ticks b) \<le> ticks_of es"
proof -
  have "ck_epoch c' - ck_epoch c = of_nat (ticks_of es)"
    using clock_run_epoch [OF assms(1)] assms(3) by simp
  with assms(2) have "unat (epoch_ticks b) \<le> unat (of_nat (ticks_of es) :: u64)"
    by (simp add: deadline_passed_def word_le_nat_alt)
  also have "\<dots> \<le> ticks_of es" by (simp add: unat_of_nat)
  finally show ?thesis .
qed

text \<open>
  C32. The CPU time of a guest call is kept to one epoch period: when only the ticker advances the
  epoch, no interleaving of its steps lets the deadline of a call pass before the CPU time of the
  limits, less one period, has gone by since the call began.
\<close>

theorem deadline_floor:
  assumes "reachable_clock period external c" "clock_run period c es c'" "bumps_of es = 0" "0 < period"
    and "cpu_time l \<le> period * ((2 ^ 64 - 1) div 4)"
    and "deadline_passed (budget_new l period) c c'"
  shows "cpu_time l \<le> (ck_now c' - ck_now c) + period"
proof -
  let ?n = "unat (epoch_ticks (budget_new l period))" and ?k = "ticks_of es"
  have n: "cpu_time l \<le> ?n * period" "1 \<le> ?n" using budget_ticks [OF assms(5,4)] by auto
  have k: "?n \<le> ?k" by (rule deadline_ticks [OF assms(2,6,3)])
  from n(2) k obtain m where m: "?k = Suc m" by (cases "?k") auto
  have "paced period (ck_now c) (Suc m) c'"
    using clock_run_paced [OF assms(2) reachable_clock_ok [OF assms(1)]] m by simp
  then have "ck_now c + m * Suc period \<le> ck_now c'" by (simp add: paced_def)
  then have "m * period \<le> ck_now c' - ck_now c" by simp
  moreover have "?n * period \<le> Suc m * period" using k m by (metis mult_le_mono1)
  ultimately show ?thesis using n(1) by simp
qed

text \<open>A call that begins while the ticker is between two steps, for the witness.\<close>

definition due_clock :: clock where
  "due_clock = (clock_new False)\<lparr>ck_now := 11, ck_locked := True, ck_thread := Some Expired\<rparr>"

definition ticked_clock :: clock where
  "ticked_clock = due_clock\<lparr>ck_thread := Some Advanced, ck_epoch := 1\<rparr>"

lemma due_clock_reachable: "reachable_clock 10 False due_clock"
proof -
  let ?a = "(clock_new False)\<lparr>ck_thread := Some (Testing 0), ck_locked := True\<rparr>"
  let ?b = "?a\<lparr>ck_now := 11\<rparr>"
  have "clock_moves 10 TakeLock (clock_new False) ?a"
    using ticker [OF take_lock [of "clock_new False" 10]] by (simp add: clock_new_def)
  moreover have "clock_moves 10 (Pass 11) ?a ?b" using pass [of 10 11 ?a] by (simp add: clock_new_def)
  moreover have "clock_moves 10 Expire ?b due_clock"
    using ticker [OF expire [of ?b 0 10]] by (simp add: clock_new_def due_clock_def)
  ultimately have "clock_run 10 (clock_new False) ((([] @ [TakeLock]) @ [Pass 11]) @ [Expire]) due_clock"
    by (intro run_step [OF run_step [OF run_step [OF run_refl]]])
  then show ?thesis by (auto simp: reachable_clock_def)
qed

lemma due_clock_ticks: "clock_run 10 due_clock [Advance] ticked_clock"
  using run_step [OF run_refl ticker [OF advance [of due_clock 10]]]
  by (simp add: due_clock_def ticked_clock_def clock_new_def)

theorem deadline_floor_witness:
  "cpu_time (with_cpu_time 10 limits_default) \<le> (ck_now ticked_clock - ck_now due_clock) + 10"
  by (rule deadline_floor [OF due_clock_reachable due_clock_ticks])
    (simp_all add: bumps_of_def with_cpu_time_def limits_default_def deadline_passed_def budget_new_def
      due_clock_def ticked_clock_def clock_new_def)

text \<open>
  The floor is reached: a call of a CPU time of a whole period that begins just before a tick is
  past its deadline although no time went by, so the deadline may come before the time the limits
  name.
\<close>

lemma deadline_early:
  "\<exists>c es c'. reachable_clock 10 False c \<and> clock_run 10 c es c' \<and>
     deadline_passed (budget_new (with_cpu_time 10 limits_default) 10) c c' \<and> ck_now c' = ck_now c"
  by (intro exI [of _ due_clock] exI [of _ "[Advance]"] exI [of _ ticked_clock])
    (simp add: due_clock_reachable due_clock_ticks deadline_passed_def budget_new_def
      with_cpu_time_def limits_default_def, simp add: due_clock_def ticked_clock_def clock_new_def)

section \<open>What an engine is built with\<close>

lemma reachable_new: "reachable_clock period external (clock_new external)"
  unfolding reachable_clock_def using run_refl by blast

lemma clock_new_reads:
  "ck_ticks (clock_new external) = 0" "(ck_thread (clock_new external) = None) = external"
  by (simp_all add: clock_new_def)

text \<open>
  An engine is built exactly when its epoch period is not zero and the runtime accepts the
  settings, which always ask for epoch interruption; it keeps its settings, starts with both
  counters at zero, and runs a ticker exactly when the ticks are not external.
\<close>

theorem engine_build_spec:
  "(case engine_build runtime cfg of
      Inl e \<Rightarrow> (cfg_epoch_period cfg = 0 \<or>
          (\<exists>source. runtime \<lparr>epoch_interruption = True, wasm_multi_memory = False,
             consume_fuel = cfg_fuel_enabled cfg, max_wasm_stack = cfg_max_wasm_stack cfg\<rparr> = Inl source \<and>
             e = Config source)) \<and> (\<exists>m. e = Config m)
    | Inr (eng, c) \<Rightarrow>
        0 < epoch_period eng \<and> epoch_period eng = cfg_epoch_period cfg \<and>
        fuel_enabled eng = cfg_fuel_enabled cfg \<and> engine_ticks c = 0 \<and>
        has_ticker c = (\<not> cfg_external_ticks cfg) \<and>
        reachable_clock (epoch_period eng) (cfg_external_ticks cfg) c)"
  by (simp add: engine_build_def epoch_period_def fuel_enabled_def engine_ticks_def has_ticker_def
      reachable_new clock_new_reads del: not_None_eq split: sum.splits)

end
