(* ===== verification/Linking.thy ===== *)
theory Linking
  imports Engines
begin

text \<open>
  A host: an engine with the functions a guest may import (\<open>host.rs\<close>,
  \<open>host_functions/table.rs\<close>, \<open>add_to_linker\<close> of \<open>wasi.rs\<close>).
  The linker is the runtime's, which answers whether a definition is accepted. What each function does
  is the table of host calls of \<open>Guest_Run\<close>.
\<close>

section \<open>Function types and the linker\<close>

datatype value_type = I32 | I64 | OtherType

type_synonym func_type = "value_type list \<times> value_type list"

type_synonym linker = "((string \<times> string) \<times> func_type) list"

text \<open>
  The linker is the runtime's. What is known of a linker here is the list of the functions defined on it;
  whether the runtime refuses one more definition is its answer \<open>refuses\<close>, with the reason.
\<close>

type_synonym linker_answer = "string \<Rightarrow> string \<Rightarrow> func_type \<Rightarrow> linker \<Rightarrow> string option"

text \<open>A run of definitions stops at the first one the runtime refuses.\<close>

fun wrap_all :: "linker_answer \<Rightarrow> string \<Rightarrow> (string \<times> func_type) list \<Rightarrow> linker \<Rightarrow> error + linker" where
  "wrap_all refuses m [] l = Inr l"
| "wrap_all refuses m ((name, ty) # rows) l =
     (case refuses m name ty l of
        Some source \<Rightarrow> Inl (Instantiate source)
      | None \<Rightarrow> wrap_all refuses m rows (l @ [((m, name), ty)]))"

section \<open>The tables\<close>

definition WASI_MODULE :: string where
  "WASI_MODULE = ''wasi_snapshot_preview1''"

definition wasi_functions :: "(string \<times> func_type) list" where
  "wasi_functions =
     [(''fd_write'', ([I32, I32, I32, I32], [I32])),
      (''clock_time_get'', ([I32, I64, I32], [I32])),
      (''random_get'', ([I32, I32], [I32])),
      (''environ_sizes_get'', ([I32, I32], [I32])),
      (''environ_get'', ([I32, I32], [I32])),
      (''args_sizes_get'', ([I32, I32], [I32])),
      (''args_get'', ([I32, I32], [I32])),
      (''proc_exit'', ([I32], []))]"

definition host_functions :: "(string \<times> value_type list) list" where
  "host_functions =
     [(''proxy_done'', []),
      (''proxy_set_effective_context'', [I32]),
      (''proxy_log'', [I32, I32, I32]),
      (''proxy_get_log_level'', [I32]),
      (''proxy_get_current_time_nanoseconds'', [I32]),
      (''proxy_set_tick_period_milliseconds'', [I32]),
      (''proxy_set_buffer_bytes'', [I32, I32, I32, I32, I32]),
      (''proxy_get_buffer_bytes'', [I32, I32, I32, I32, I32]),
      (''proxy_get_buffer_status'', [I32, I32, I32]),
      (''proxy_get_header_map_size'', [I32, I32]),
      (''proxy_get_header_map_pairs'', [I32, I32, I32]),
      (''proxy_set_header_map_pairs'', [I32, I32, I32]),
      (''proxy_get_header_map_value'', [I32, I32, I32, I32, I32]),
      (''proxy_add_header_map_value'', [I32, I32, I32, I32, I32]),
      (''proxy_replace_header_map_value'', [I32, I32, I32, I32, I32]),
      (''proxy_remove_header_map_value'', [I32, I32, I32]),
      (''proxy_continue_stream'', [I32]),
      (''proxy_close_stream'', [I32]),
      (''proxy_get_status'', [I32, I32, I32]),
      (''proxy_send_local_response'', [I32, I32, I32, I32, I32, I32, I32, I32]),
      (''proxy_http_call'', [I32, I32, I32, I32, I32, I32, I32, I32, I32, I32]),
      (''proxy_grpc_call'', [I32, I32, I32, I32, I32, I32, I32, I32, I32, I32, I32, I32]),
      (''proxy_grpc_stream'', [I32, I32, I32, I32, I32, I32, I32, I32, I32]),
      (''proxy_grpc_send'', [I32, I32, I32, I32]),
      (''proxy_grpc_cancel'', [I32]),
      (''proxy_grpc_close'', [I32]),
      (''proxy_set_shared_data'', [I32, I32, I32, I32, I32]),
      (''proxy_get_shared_data'', [I32, I32, I32, I32, I32]),
      (''proxy_register_shared_queue'', [I32, I32, I32]),
      (''proxy_resolve_shared_queue'', [I32, I32, I32, I32, I32]),
      (''proxy_enqueue_shared_queue'', [I32, I32, I32]),
      (''proxy_dequeue_shared_queue'', [I32, I32, I32]),
      (''proxy_define_metric'', [I32, I32, I32, I32]),
      (''proxy_record_metric'', [I32, I64]),
      (''proxy_increment_metric'', [I32, I64]),
      (''proxy_get_metric'', [I32, I32]),
      (''proxy_get_property'', [I32, I32, I32, I32]),
      (''proxy_set_property'', [I32, I32, I32, I32]),
      (''proxy_call_foreign_function'', [I32, I32, I32, I32, I32, I32])]"

definition add_to_linker :: "linker_answer \<Rightarrow> linker \<Rightarrow> error + linker" where
  "add_to_linker refuses l = wrap_all refuses WASI_MODULE wasi_functions l"

text \<open>The WASI functions come first, and every host function returns a status.\<close>

definition register :: "linker_answer \<Rightarrow> linker \<Rightarrow> error + linker" where
  "register refuses l =
     rbind (add_to_linker refuses l) (\<lambda>l.
     wrap_all refuses ''env'' (map (\<lambda>(name, params). (name, (params, [I32]))) host_functions) l)"

section \<open>The host\<close>

record abi_host =
  host_engine :: engine
  host_linker :: linker

definition host_new :: "linker_answer \<Rightarrow> engine \<Rightarrow> error + abi_host" where
  "host_new refuses eng = rbind (register refuses []) (\<lambda>l. Inr \<lparr>host_engine = eng, host_linker = l\<rparr>)"

text \<open>
  An import of a module names a function with its type, or something else, which no host
  defines. What the runtime is documented to require of an import is that the linker has it with its
  type.
\<close>

datatype import = Import (import_module: string) (import_name: string) (import_type: "func_type option")

definition resolves :: "linker \<Rightarrow> import \<Rightarrow> bool" where
  "resolves l i \<longleftrightarrow>
     import_type i \<noteq> None \<and> map_of l (import_module i, import_name i) = import_type i"

section \<open>The table that a host links\<close>

lemma wrap_all_Inr:
  "wrap_all refuses m rows l = Inr l' \<Longrightarrow> l' = l @ map (\<lambda>(name, ty). ((m, name), ty)) rows"
  by (induction refuses m rows l rule: wrap_all.induct) (auto split: option.splits)

lemma wrap_all_accepted:
  "(\<And>m name ty l. map_of l (m, name) = None \<Longrightarrow> refuses m name ty l = None) \<Longrightarrow>
   distinct (map fst rows) \<Longrightarrow> \<forall>name \<in> fst ` set rows. map_of l (m, name) = None \<Longrightarrow>
   wrap_all refuses m rows l = Inr (l @ map (\<lambda>(name, ty). ((m, name), ty)) rows)"
proof (induction rows arbitrary: l)
  case (Cons row rows)
  obtain name ty where row: "row = (name, ty)" by (cases row)
  have "map_of (l @ [((m, name), ty)]) (m, n) = None" if "n \<in> fst ` set rows" for n
    using that Cons.prems row by (auto simp: map_add_def split: option.splits)
  with Cons row show ?case by simp
qed simp

definition linked_functions :: linker where
  "linked_functions =
     map (\<lambda>(name, ty). ((WASI_MODULE, name), ty)) wasi_functions @
     map (\<lambda>(name, params). ((''env'', name), (params, [I32]))) host_functions"

lemma wasi_distinct: "distinct (map fst wasi_functions)"
  by (simp add: wasi_functions_def)

lemma host_functions_distinct: "distinct (map fst host_functions)"
  by (simp add: host_functions_def)

lemma register_Inr: "register refuses [] = Inr l \<Longrightarrow> l = linked_functions"
  by (auto simp: register_def add_to_linker_def rbind_def linked_functions_def case_prod_beta comp_def
      dest!: wrap_all_Inr split: sum.splits)

lemma host_new_Inr: "host_new refuses eng = Inr hst \<Longrightarrow> hst = \<lparr>host_engine = eng, host_linker = linked_functions\<rparr>"
  by (auto simp: host_new_def rbind_def dest: register_Inr split: sum.splits)

text \<open>A runtime that refuses only what is there already accepts every definition of the crate.\<close>

lemma host_new_accepted:
  assumes "\<And>m name ty l. map_of l (m, name) = None \<Longrightarrow> refuses m name ty l = None"
  shows "host_new refuses eng = Inr \<lparr>host_engine = eng, host_linker = linked_functions\<rparr>"
proof -
  let ?w = "map (\<lambda>(name, ty). ((WASI_MODULE, name), ty)) wasi_functions"
  let ?rows = "map (\<lambda>(name, params). (name, (params, [I32]))) host_functions"
  have "add_to_linker refuses [] = Inr ?w"
    unfolding add_to_linker_def using wrap_all_accepted [of refuses wasi_functions "[]" WASI_MODULE] assms wasi_distinct by simp
  moreover have "map_of ?w (''env'', name) = None" for name
    by (auto simp: map_of_eq_None_iff WASI_MODULE_def)
  moreover have "distinct (map fst ?rows)" using host_functions_distinct by (simp add: case_prod_beta comp_def)
  ultimately have "\<exists>l. register refuses [] = Inr l"
    unfolding register_def using wrap_all_accepted [of refuses ?rows ?w "''env''"] assms by (simp add: rbind_def)
  then show ?thesis using register_Inr by (fastforce simp: host_new_def rbind_def)
qed

lemma linked_distinct: "distinct (map fst linked_functions)"
proof -
  have "distinct (map (Pair WASI_MODULE) (map fst wasi_functions))"
    using wasi_distinct by (simp only: distinct_map) (simp add: inj_on_def)
  moreover have "distinct (map (Pair ''env'') (map fst host_functions))"
    using host_functions_distinct by (simp only: distinct_map) (simp add: inj_on_def)
  moreover have "WASI_MODULE \<noteq> ''env''" by (simp add: WASI_MODULE_def)
  ultimately show ?thesis
    by (auto simp: linked_functions_def case_prod_beta comp_def)
qed

end
