(* ===== verification/Guest_Run.thy ===== *)
theory Guest_Run
  imports Host_Shared Host_Streams Host_Callouts Wasi Linking "HOL-Library.Char_ord"
begin

text \<open>
  Running a guest: the table that connects a name a guest imports to the body that serves it
  (\<open>host_functions/table.rs\<close>), the instantiation of a module
  (\<open>runtime/instance.rs\<close>), and the callbacks of a guest, resolved once
  (\<open>guest/callbacks.rs\<close>). The code of a guest is not part of the repository, so every
  definition here takes it as an argument: a tree of the guest's own steps and of the host
  calls it makes, each with what the guest does with the answer. The tree is well founded,
  because the epoch deadline ends every call: a guest that would not return is one that traps.
\<close>

section \<open>The table of host functions\<close>

datatype (plugins only: code size) host_call =
    CallDone
  | CallSetEffectiveContext i32
  | CallLog i32 i32 i32
  | CallGetLogLevel i32
  | CallGetCurrentTimeNanoseconds i32
  | CallSetTickPeriodMilliseconds i32
  | CallSetBufferBytes i32 i32 i32 i32 i32
  | CallGetBufferBytes i32 i32 i32 i32 i32
  | CallGetBufferStatus i32 i32 i32
  | CallGetHeaderMapSize i32 i32
  | CallGetHeaderMapPairs i32 i32 i32
  | CallSetHeaderMapPairs i32 i32 i32
  | CallGetHeaderMapValue i32 i32 i32 i32 i32
  | CallAddHeaderMapValue i32 i32 i32 i32 i32
  | CallReplaceHeaderMapValue i32 i32 i32 i32 i32
  | CallRemoveHeaderMapValue i32 i32 i32
  | CallContinueStream i32
  | CallCloseStream i32
  | CallGetStatus i32 i32 i32
  | CallSendLocalResponse i32 i32 i32 i32 i32 i32 i32 i32
  | CallHttpCall i32 i32 i32 i32 i32 i32 i32 i32 i32 i32
  | CallGrpcCall i32 i32 i32 i32 i32 i32 i32 i32 i32 i32 i32 i32
  | CallGrpcStream i32 i32 i32 i32 i32 i32 i32 i32 i32
  | CallGrpcSend i32 i32 i32 i32
  | CallGrpcCancel i32
  | CallGrpcClose i32
  | CallSetSharedData i32 i32 i32 i32 i32
  | CallGetSharedData i32 i32 i32 i32 i32
  | CallRegisterSharedQueue i32 i32 i32
  | CallResolveSharedQueue i32 i32 i32 i32 i32
  | CallEnqueueSharedQueue i32 i32 i32
  | CallDequeueSharedQueue i32 i32 i32
  | CallDefineMetric i32 i32 i32 i32
  | CallRecordMetric i32 i64
  | CallIncrementMetric i32 i64
  | CallGetMetric i32 i32
  | CallGetProperty i32 i32 i32 i32
  | CallSetProperty i32 i32 i32 i32
  | CallCallForeignFunction i32 i32 i32 i32 i32 i32
  | FdWrite i32 i32 i32 i32
  | ClockTimeGet i32 i64 i32
  | RandomGet i32 i32
  | EnvironSizesGet i32 i32
  | EnvironGet i32 i32
  | ArgsSizesGet i32 i32
  | ArgsGet i32 i32
  | ProcExit i32

definition host_result ::
  "('e, 'h, 'g, unit) host \<Rightarrow> (('e, 'h, 'g) store, wasm_error, i32) act" where
  "host_result body w = (case body w of (r, w') \<Rightarrow> (complete r, w'))"

definition wasi_answer ::
  "('e, 'h, 'g, unit) wasi \<Rightarrow> (('e, 'h, 'g) store, wasm_error, i32) act" where
  "wasi_answer body w = (case body w of (r, w') \<Rightarrow> (Inr (wasi_result r), w'))"

type_synonym 'e random_fill = "nat \<Rightarrow> 'e \<Rightarrow> (bool \<times> bytes) \<times> 'e"

primrec host_body ::
  "('e, 'h, 'g) allocator \<Rightarrow> 'e random_fill \<Rightarrow> host_call \<Rightarrow>
   (('e, 'h, 'g) store, wasm_error, i32) act" where
  "host_body alloc fill CallDone = host_result (proxy_done)"
| "host_body alloc fill (CallSetEffectiveContext a) = host_result (proxy_set_effective_context a)"
| "host_body alloc fill (CallLog a b c) = host_result (proxy_log a b c)"
| "host_body alloc fill (CallGetLogLevel a) = host_result (proxy_get_log_level a)"
| "host_body alloc fill (CallGetCurrentTimeNanoseconds a) = host_result (proxy_get_current_time_nanoseconds a)"
| "host_body alloc fill (CallSetTickPeriodMilliseconds a) = host_result (proxy_set_tick_period_milliseconds a)"
| "host_body alloc fill (CallSetBufferBytes a b c d e) = host_result (proxy_set_buffer_bytes a b c d e)"
| "host_body alloc fill (CallGetBufferBytes a b c d e) = host_result (proxy_get_buffer_bytes alloc a b c d e)"
| "host_body alloc fill (CallGetBufferStatus a b c) = host_result (proxy_get_buffer_status a b c)"
| "host_body alloc fill (CallGetHeaderMapSize a b) = host_result (proxy_get_header_map_size a b)"
| "host_body alloc fill (CallGetHeaderMapPairs a b c) = host_result (proxy_get_header_map_pairs alloc a b c)"
| "host_body alloc fill (CallSetHeaderMapPairs a b c) = host_result (proxy_set_header_map_pairs a b c)"
| "host_body alloc fill (CallGetHeaderMapValue a b c d e) = host_result (proxy_get_header_map_value alloc a b c d e)"
| "host_body alloc fill (CallAddHeaderMapValue a b c d e) = host_result (proxy_add_header_map_value a b c d e)"
| "host_body alloc fill (CallReplaceHeaderMapValue a b c d e) = host_result (proxy_replace_header_map_value a b c d e)"
| "host_body alloc fill (CallRemoveHeaderMapValue a b c) = host_result (proxy_remove_header_map_value a b c)"
| "host_body alloc fill (CallContinueStream a) = host_result (proxy_continue_stream a)"
| "host_body alloc fill (CallCloseStream a) = host_result (proxy_close_stream a)"
| "host_body alloc fill (CallGetStatus a b c) = host_result (proxy_get_status alloc a b c)"
| "host_body alloc fill (CallSendLocalResponse a b c d e f g h) = host_result (proxy_send_local_response a b c d e f g h)"
| "host_body alloc fill (CallHttpCall a b c d e f g h i j) = host_result (proxy_http_call a b c d e f g h i j)"
| "host_body alloc fill (CallGrpcCall a b c d e f g h i j k l) = host_result (proxy_grpc_call a b c d e f g h i j k l)"
| "host_body alloc fill (CallGrpcStream a b c d e f g h i) = host_result (proxy_grpc_stream a b c d e f g h i)"
| "host_body alloc fill (CallGrpcSend a b c d) = host_result (proxy_grpc_send a b c d)"
| "host_body alloc fill (CallGrpcCancel a) = host_result (proxy_grpc_cancel a)"
| "host_body alloc fill (CallGrpcClose a) = host_result (proxy_grpc_close a)"
| "host_body alloc fill (CallSetSharedData a b c d e) = host_result (proxy_set_shared_data a b c d e)"
| "host_body alloc fill (CallGetSharedData a b c d e) = host_result (proxy_get_shared_data alloc a b c d e)"
| "host_body alloc fill (CallRegisterSharedQueue a b c) = host_result (proxy_register_shared_queue a b c)"
| "host_body alloc fill (CallResolveSharedQueue a b c d e) = host_result (proxy_resolve_shared_queue a b c d e)"
| "host_body alloc fill (CallEnqueueSharedQueue a b c) = host_result (proxy_enqueue_shared_queue a b c)"
| "host_body alloc fill (CallDequeueSharedQueue a b c) = host_result (proxy_dequeue_shared_queue alloc a b c)"
| "host_body alloc fill (CallDefineMetric a b c d) = host_result (proxy_define_metric a b c d)"
| "host_body alloc fill (CallRecordMetric a b) = host_result (proxy_record_metric a b)"
| "host_body alloc fill (CallIncrementMetric a b) = host_result (proxy_increment_metric a b)"
| "host_body alloc fill (CallGetMetric a b) = host_result (proxy_get_metric a b)"
| "host_body alloc fill (CallGetProperty a b c d) = host_result (proxy_get_property alloc a b c d)"
| "host_body alloc fill (CallSetProperty a b c d) = host_result (proxy_set_property a b c d)"
| "host_body alloc fill (CallCallForeignFunction a b c d e f) = host_result (proxy_call_foreign_function alloc a b c d e f)"
| "host_body alloc fill (FdWrite fd iovs iovs_len nwritten) = wasi_answer (fd_write_impl fd iovs iovs_len nwritten)"
| "host_body alloc fill (ClockTimeGet cid precision time) = wasi_answer (clock_time_get_impl cid time)"
| "host_body alloc fill (RandomGet buf len) = wasi_answer (random_get_impl fill buf len)"
| "host_body alloc fill (EnvironSizesGet count_ptr size_ptr) = wasi_answer (environ_sizes_get_impl count_ptr size_ptr)"
| "host_body alloc fill (EnvironGet array buf) = wasi_answer (environ_get_impl array buf)"
| "host_body alloc fill (ArgsSizesGet argc sz) = wasi_answer (args_sizes_get_impl argc sz)"
| "host_body alloc fill (ArgsGet argv buf) = aret (args_get argv buf)"
| "host_body alloc fill (ProcExit code) = alift (map_sum id (\<lambda>_. 0) (proc_exit code))"

section \<open>The import behind a host call\<close>

text \<open>
  The name a guest imports for each host call, and the type the call has there: a parameter of the
  model's call is a parameter of the function, at its width.
\<close>

primrec call_import :: "host_call \<Rightarrow> string \<times> string" where
  "call_import CallDone = (''env'', ''proxy_done'')"
| "call_import (CallSetEffectiveContext a) = (''env'', ''proxy_set_effective_context'')"
| "call_import (CallLog a b c) = (''env'', ''proxy_log'')"
| "call_import (CallGetLogLevel a) = (''env'', ''proxy_get_log_level'')"
| "call_import (CallGetCurrentTimeNanoseconds a) = (''env'', ''proxy_get_current_time_nanoseconds'')"
| "call_import (CallSetTickPeriodMilliseconds a) = (''env'', ''proxy_set_tick_period_milliseconds'')"
| "call_import (CallSetBufferBytes a b c d e) = (''env'', ''proxy_set_buffer_bytes'')"
| "call_import (CallGetBufferBytes a b c d e) = (''env'', ''proxy_get_buffer_bytes'')"
| "call_import (CallGetBufferStatus a b c) = (''env'', ''proxy_get_buffer_status'')"
| "call_import (CallGetHeaderMapSize a b) = (''env'', ''proxy_get_header_map_size'')"
| "call_import (CallGetHeaderMapPairs a b c) = (''env'', ''proxy_get_header_map_pairs'')"
| "call_import (CallSetHeaderMapPairs a b c) = (''env'', ''proxy_set_header_map_pairs'')"
| "call_import (CallGetHeaderMapValue a b c d e) = (''env'', ''proxy_get_header_map_value'')"
| "call_import (CallAddHeaderMapValue a b c d e) = (''env'', ''proxy_add_header_map_value'')"
| "call_import (CallReplaceHeaderMapValue a b c d e) = (''env'', ''proxy_replace_header_map_value'')"
| "call_import (CallRemoveHeaderMapValue a b c) = (''env'', ''proxy_remove_header_map_value'')"
| "call_import (CallContinueStream a) = (''env'', ''proxy_continue_stream'')"
| "call_import (CallCloseStream a) = (''env'', ''proxy_close_stream'')"
| "call_import (CallGetStatus a b c) = (''env'', ''proxy_get_status'')"
| "call_import (CallSendLocalResponse a b c d e f g h) = (''env'', ''proxy_send_local_response'')"
| "call_import (CallHttpCall a b c d e f g h i j) = (''env'', ''proxy_http_call'')"
| "call_import (CallGrpcCall a b c d e f g h i j k l) = (''env'', ''proxy_grpc_call'')"
| "call_import (CallGrpcStream a b c d e f g h i) = (''env'', ''proxy_grpc_stream'')"
| "call_import (CallGrpcSend a b c d) = (''env'', ''proxy_grpc_send'')"
| "call_import (CallGrpcCancel a) = (''env'', ''proxy_grpc_cancel'')"
| "call_import (CallGrpcClose a) = (''env'', ''proxy_grpc_close'')"
| "call_import (CallSetSharedData a b c d e) = (''env'', ''proxy_set_shared_data'')"
| "call_import (CallGetSharedData a b c d e) = (''env'', ''proxy_get_shared_data'')"
| "call_import (CallRegisterSharedQueue a b c) = (''env'', ''proxy_register_shared_queue'')"
| "call_import (CallResolveSharedQueue a b c d e) = (''env'', ''proxy_resolve_shared_queue'')"
| "call_import (CallEnqueueSharedQueue a b c) = (''env'', ''proxy_enqueue_shared_queue'')"
| "call_import (CallDequeueSharedQueue a b c) = (''env'', ''proxy_dequeue_shared_queue'')"
| "call_import (CallDefineMetric a b c d) = (''env'', ''proxy_define_metric'')"
| "call_import (CallRecordMetric a b) = (''env'', ''proxy_record_metric'')"
| "call_import (CallIncrementMetric a b) = (''env'', ''proxy_increment_metric'')"
| "call_import (CallGetMetric a b) = (''env'', ''proxy_get_metric'')"
| "call_import (CallGetProperty a b c d) = (''env'', ''proxy_get_property'')"
| "call_import (CallSetProperty a b c d) = (''env'', ''proxy_set_property'')"
| "call_import (CallCallForeignFunction a b c d e f) = (''env'', ''proxy_call_foreign_function'')"
| "call_import (FdWrite a b c d) = (WASI_MODULE, ''fd_write'')"
| "call_import (ClockTimeGet a b c) = (WASI_MODULE, ''clock_time_get'')"
| "call_import (RandomGet a b) = (WASI_MODULE, ''random_get'')"
| "call_import (EnvironSizesGet a b) = (WASI_MODULE, ''environ_sizes_get'')"
| "call_import (EnvironGet a b) = (WASI_MODULE, ''environ_get'')"
| "call_import (ArgsSizesGet a b) = (WASI_MODULE, ''args_sizes_get'')"
| "call_import (ArgsGet a b) = (WASI_MODULE, ''args_get'')"
| "call_import (ProcExit a) = (WASI_MODULE, ''proc_exit'')"

primrec call_type :: "host_call \<Rightarrow> func_type" where
  "call_type CallDone = ([], [I32])"
| "call_type (CallSetEffectiveContext a) = ([I32], [I32])"
| "call_type (CallLog a b c) = ([I32, I32, I32], [I32])"
| "call_type (CallGetLogLevel a) = ([I32], [I32])"
| "call_type (CallGetCurrentTimeNanoseconds a) = ([I32], [I32])"
| "call_type (CallSetTickPeriodMilliseconds a) = ([I32], [I32])"
| "call_type (CallSetBufferBytes a b c d e) = ([I32, I32, I32, I32, I32], [I32])"
| "call_type (CallGetBufferBytes a b c d e) = ([I32, I32, I32, I32, I32], [I32])"
| "call_type (CallGetBufferStatus a b c) = ([I32, I32, I32], [I32])"
| "call_type (CallGetHeaderMapSize a b) = ([I32, I32], [I32])"
| "call_type (CallGetHeaderMapPairs a b c) = ([I32, I32, I32], [I32])"
| "call_type (CallSetHeaderMapPairs a b c) = ([I32, I32, I32], [I32])"
| "call_type (CallGetHeaderMapValue a b c d e) = ([I32, I32, I32, I32, I32], [I32])"
| "call_type (CallAddHeaderMapValue a b c d e) = ([I32, I32, I32, I32, I32], [I32])"
| "call_type (CallReplaceHeaderMapValue a b c d e) = ([I32, I32, I32, I32, I32], [I32])"
| "call_type (CallRemoveHeaderMapValue a b c) = ([I32, I32, I32], [I32])"
| "call_type (CallContinueStream a) = ([I32], [I32])"
| "call_type (CallCloseStream a) = ([I32], [I32])"
| "call_type (CallGetStatus a b c) = ([I32, I32, I32], [I32])"
| "call_type (CallSendLocalResponse a b c d e f g h) = ([I32, I32, I32, I32, I32, I32, I32, I32], [I32])"
| "call_type (CallHttpCall a b c d e f g h i j) = ([I32, I32, I32, I32, I32, I32, I32, I32, I32, I32], [I32])"
| "call_type (CallGrpcCall a b c d e f g h i j k l) = ([I32, I32, I32, I32, I32, I32, I32, I32, I32, I32, I32, I32], [I32])"
| "call_type (CallGrpcStream a b c d e f g h i) = ([I32, I32, I32, I32, I32, I32, I32, I32, I32], [I32])"
| "call_type (CallGrpcSend a b c d) = ([I32, I32, I32, I32], [I32])"
| "call_type (CallGrpcCancel a) = ([I32], [I32])"
| "call_type (CallGrpcClose a) = ([I32], [I32])"
| "call_type (CallSetSharedData a b c d e) = ([I32, I32, I32, I32, I32], [I32])"
| "call_type (CallGetSharedData a b c d e) = ([I32, I32, I32, I32, I32], [I32])"
| "call_type (CallRegisterSharedQueue a b c) = ([I32, I32, I32], [I32])"
| "call_type (CallResolveSharedQueue a b c d e) = ([I32, I32, I32, I32, I32], [I32])"
| "call_type (CallEnqueueSharedQueue a b c) = ([I32, I32, I32], [I32])"
| "call_type (CallDequeueSharedQueue a b c) = ([I32, I32, I32], [I32])"
| "call_type (CallDefineMetric a b c d) = ([I32, I32, I32, I32], [I32])"
| "call_type (CallRecordMetric a b) = ([I32, I64], [I32])"
| "call_type (CallIncrementMetric a b) = ([I32, I64], [I32])"
| "call_type (CallGetMetric a b) = ([I32, I32], [I32])"
| "call_type (CallGetProperty a b c d) = ([I32, I32, I32, I32], [I32])"
| "call_type (CallSetProperty a b c d) = ([I32, I32, I32, I32], [I32])"
| "call_type (CallCallForeignFunction a b c d e f) = ([I32, I32, I32, I32, I32, I32], [I32])"
| "call_type (FdWrite a b c d) = ([I32, I32, I32, I32], [I32])"
| "call_type (ClockTimeGet a b c) = ([I32, I64, I32], [I32])"
| "call_type (RandomGet a b) = ([I32, I32], [I32])"
| "call_type (EnvironSizesGet a b) = ([I32, I32], [I32])"
| "call_type (EnvironGet a b) = ([I32, I32], [I32])"
| "call_type (ArgsSizesGet a b) = ([I32, I32], [I32])"
| "call_type (ArgsGet a b) = ([I32, I32], [I32])"
| "call_type (ProcExit a) = ([I32], [])"

section \<open>The code of a guest\<close>

text \<open>
  A step of a guest changes its memory and its private state, reads them to choose how to go
  on, calls a host function, traps, or returns.
\<close>

datatype 'g program =
    Return i32
  | TrapWith trap "string option"
  | Update "bytes \<Rightarrow> 'g \<Rightarrow> bytes \<times> 'g" "'g program"
  | Inspect "bytes \<Rightarrow> 'g \<Rightarrow> 'g program"
  | HostCall host_call "i32 \<Rightarrow> 'g program"

definition guest_update :: "(bytes \<Rightarrow> 'g \<Rightarrow> bytes \<times> 'g) \<Rightarrow> ('e, 'h, 'g) store \<Rightarrow> ('e, 'h, 'g) store" where
  "guest_update f w =
     (let (m, g) = f (memory_of w) (st_guest w) in
      w\<lparr>st_memory := map_option (\<lambda>_. m) (st_memory w), st_guest := g\<rparr>)"

primrec exec_program ::
  "(host_call \<Rightarrow> (('e, 'h, 'g) store, wasm_error, i32) act) \<Rightarrow> 'g program \<Rightarrow>
   (('e, 'h, 'g) store, wasm_error, i32) act" where
  "exec_program host (Return r) = aret r"
| "exec_program host (TrapWith t backtrace) = afail (Trapped t backtrace)"
| "exec_program host (Update f p) = (\<lambda>w. exec_program host p (guest_update f w))"
| "exec_program host (Inspect k) = (\<lambda>w. exec_program host (k (memory_of w) (st_guest w)) w)"
| "exec_program host (HostCall c k) = abind (host c) (\<lambda>r. exec_program host (k r))"

text \<open>
  The allocator of the guest is guest code too, and a host function it calls may ask it for
  memory again. Each of these calls takes stack, so the nesting has a bound, and going past it
  is the stack trap.
\<close>

type_synonym 'g func = "i32 list \<Rightarrow> 'g program"

primrec alloc_at :: "'e random_fill \<Rightarrow> 'g func \<Rightarrow> nat \<Rightarrow> ('e, 'h, 'g) allocator" where
  "alloc_at fill code 0 = (\<lambda>_. afail (Trapped StackOverflow None))"
| "alloc_at fill code (Suc depth) =
     (\<lambda>sz. exec_program (host_body (alloc_at fill code depth) fill) (code [sz]))"

section \<open>Modules and instances\<close>

datatype 'g export = Func func_type "'g func" | NotFunc

text \<open>
  What the runtime reports of a compiled module: its exports and imports, the memory it exports
  with its data segments, the state its globals start with, the engine it was compiled on, its start
  section (code the binary format names, which is run while the module is instantiated), and the two
  answers of the runtime: why it does not link the module on an engine with a linker (an import that
  is not there or has another type, a limit), and how it words a failure of the start section.
\<close>

record 'g wasm_module =
  module_exports :: "(string \<times> 'g export) list"
  module_imports :: "import list"
  module_memory :: "bytes option"
  module_state :: 'g
  module_engine :: nat
  module_start :: "'g program option"
  module_link :: "nat \<Rightarrow> linker \<Rightarrow> string option"
  module_start_error :: "wasm_error \<Rightarrow> string"

text \<open>The names a module exports as an ordered set, and the version markers among them.\<close>

definition ABI_PREFIX :: string where
  "ABI_PREFIX = ''proxy_abi_version_''"

definition export_names :: "'g wasm_module \<Rightarrow> string btree_set" where
  "export_names m = fold bts_insert (map fst (module_exports m)) []"

definition abi_exports :: "'g wasm_module \<Rightarrow> string list" where
  "abi_exports m =
     filter (\<lambda>name. take (length ABI_PREFIX) name = ABI_PREFIX) (map fst (export_names m))"

definition has_export :: "'g wasm_module \<Rightarrow> string \<Rightarrow> bool" where
  "has_export m name \<longleftrightarrow> bts_contains (export_names m) name"

lemma bts_contains_fold:
  "bts_contains (fold bts_insert ks s) k \<longleftrightarrow> k \<in> set ks \<or> bts_contains s k"
  by (induction ks arbitrary: s) auto

lemma btm_ok_fold: "btm_ok s \<Longrightarrow> btm_ok (fold bts_insert ks s)"
  by (induction ks arbitrary: s) auto

lemma has_export_iff: "has_export m name \<longleftrightarrow> name \<in> set (map fst (module_exports m))"
  by (simp add: has_export_def export_names_def bts_contains_fold)

lemma abi_exports_set:
  "set (abi_exports m) =
     {name. name \<in> set (map fst (module_exports m)) \<and> take (length ABI_PREFIX) name = ABI_PREFIX}"
proof -
  have "name \<in> set (map fst (export_names m)) \<longleftrightarrow> name \<in> set (map fst (module_exports m))" for name
    using bts_contains_fold [of "map fst (module_exports m)" "[]" name]
    by (simp add: export_names_def bts_contains_set)
  then show ?thesis unfolding abi_exports_def by auto
qed

type_synonym 'g compiler = "engine \<Rightarrow> bytes \<Rightarrow> string + 'g wasm_module"

definition module_new :: "'g compiler \<Rightarrow> engine \<Rightarrow> bytes \<Rightarrow> error + 'g wasm_module" where
  "module_new compile eng bs =
     (case compile eng bs of Inl source \<Rightarrow> Inl (Compile source) | Inr m \<Rightarrow> Inr m)"

text \<open>
  An instance is its store with the module it came from, the budget of a call, and what wasm
  needs to run: the bound on the stack and the source of random bytes.
\<close>

record ('e, 'h, 'g) wasm_instance =
  in_store :: "('e, 'h, 'g) store"
  in_module :: "'g wasm_module"
  in_budget :: budget
  in_depth :: nat
  in_fill :: "'e random_fill"

definition get_func :: "'g wasm_module \<Rightarrow> string \<Rightarrow> func_type \<Rightarrow> 'g func option" where
  "get_func m name ty =
     (case map_of (module_exports m) name of
        Some (Func ty' f) \<Rightarrow> if ty' = ty then Some f else None | _ \<Rightarrow> None)"

definition allocator_code :: "'g wasm_module \<Rightarrow> 'g func option" where
  "allocator_code m =
     (case get_func m ''proxy_on_memory_allocate'' ([I32], [I32]) of
        Some f \<Rightarrow> Some f
      | None \<Rightarrow> get_func m ''malloc'' ([I32], [I32]))"

definition host_of :: "('e, 'h, 'g) wasm_instance \<Rightarrow> host_call \<Rightarrow> (('e, 'h, 'g) store, wasm_error, i32) act" where
  "host_of i =
     (let code = (case allocator_code (in_module i) of Some f \<Rightarrow> f | None \<Rightarrow> (\<lambda>_. Return 0))
      in host_body (alloc_at (in_fill i) code (in_depth i)) (in_fill i))"

definition is_poisoned :: "('e, 'h, 'g) wasm_instance \<Rightarrow> bool" where
  "is_poisoned i \<longleftrightarrow> st_poisoned (in_store i)"

definition ensure_live :: "('e, 'h, 'g) wasm_instance \<Rightarrow> error + unit" where
  "ensure_live i = (if is_poisoned i then Inl Poisoned else Inr ())"

definition typed_func :: "string \<Rightarrow> func_type \<Rightarrow> ('e, 'h, 'g) wasm_instance \<Rightarrow> error + 'g func option" where
  "typed_func name ty i =
     rbind (ensure_live i) (\<lambda>_.
     case map_of (module_exports (in_module i)) name of
       Some (Func ty' f) \<Rightarrow> if ty' = ty then Inr (Some f) else Inl (ExportTypeMismatch name)
     | _ \<Rightarrow>
         if has_export (in_module i) name then Inl (ExportTypeMismatch name) else Inr None)"

definition call_typed :: "'g func \<Rightarrow> i32 list \<Rightarrow> (('e, 'h, 'g) wasm_instance, error, i32) act" where
  "call_typed f params i =
     (let (r, w) = call_on (exec_program (host_of i) (f params)) (in_store i) in
      (r, i\<lparr>in_store := w\<rparr>))"

definition instance_start :: "(('e, 'h, 'g) wasm_instance, error, unit) act" where
  "instance_start =
     abind (atry (typed_func ''_initialize'' ([], []))) (\<lambda>initialize.
     case initialize of
       Some initialize \<Rightarrow>
         abind (call_typed initialize []) (\<lambda>_.
         abind (atry (typed_func ''main'' ([I32, I32], [I32]))) (\<lambda>main.
         case main of
           Some main \<Rightarrow> abind (call_typed main [0, 0]) (\<lambda>_. aret ())
         | None \<Rightarrow> aret ()))
     | None \<Rightarrow>
         abind (atry (typed_func ''_start'' ([], []))) (\<lambda>start.
         case start of
           Some start \<Rightarrow> abind (call_typed start []) (\<lambda>_. aret ())
         | None \<Rightarrow> aret ()))"

text \<open>
  The start section of a module runs inside the runtime, with the memory of the new instance, before
  the host has the handle of that memory: a host function it calls finds none. So its run has the
  memory beside the store.
\<close>

primrec exec_section ::
  "(host_call \<Rightarrow> (('e, 'h, 'g) store, wasm_error, i32) act) \<Rightarrow> 'g program \<Rightarrow>
   (bytes \<times> ('e, 'h, 'g) store, wasm_error, i32) act" where
  "exec_section host (Return r) = aret r"
| "exec_section host (TrapWith t backtrace) = afail (Trapped t backtrace)"
| "exec_section host (Update f p) =
     (\<lambda>(mem, w). case f mem (st_guest w) of (mem', g) \<Rightarrow> exec_section host p (mem', w\<lparr>st_guest := g\<rparr>))"
| "exec_section host (Inspect k) = (\<lambda>(mem, w). exec_section host (k mem (st_guest w)) (mem, w))"
| "exec_section host (HostCall c k) =
     (\<lambda>(mem, w). case host c w of
        (Inl e, w') \<Rightarrow> (Inl e, (mem, w'))
      | (Inr r, w') \<Rightarrow> exec_section host (k r) (mem, w'))"

text \<open>
  An instantiation by the runtime: the linking, its own, and the start section. It gives the memory the
  module exports. The store it was given is lost when it fails, but what the section did to the
  embedder's world stays.
\<close>

definition instantiate ::
  "abi_host \<Rightarrow> ('e, 'h, 'g) wasm_instance \<Rightarrow> (error + bytes option) \<times> ('e, 'h, 'g) wasm_instance" where
  "instantiate h i =
     (let m = in_module i in
      case module_link m (engine_id (host_engine h)) (host_linker h) of
        Some source \<Rightarrow> (Inl (Instantiate source), i)
      | None \<Rightarrow>
          (case module_start m of
             None \<Rightarrow> (Inr (module_memory m), i)
           | Some section \<Rightarrow>
               (case exec_section (host_of i) section
                       (case module_memory m of Some mem \<Rightarrow> mem | None \<Rightarrow> [], in_store i) of
                  (Inl e, (_, w)) \<Rightarrow> (Inl (Instantiate (module_start_error m e)), i\<lparr>in_store := w\<rparr>)
                | (Inr _, (mem, w)) \<Rightarrow>
                    (Inr (map_option (\<lambda>_. mem) (module_memory m)), i\<lparr>in_store := w\<rparr>))))"

definition instance_new ::
  "abi_host \<Rightarrow> 'e random_fill \<Rightarrow> 'g wasm_module \<Rightarrow> ('e, 'h) abi_state \<Rightarrow> limits \<Rightarrow> 'e \<Rightarrow>
   (error + ('e, 'h, 'g) wasm_instance) \<times> 'e" where
  "instance_new h fill m abi lim env =
     (if fuel lim \<noteq> None \<and> \<not> fuel_enabled (host_engine h) then
        (Inl (Config ''fuel is not enabled on this engine''), env)
      else if fuel lim = None \<and> fuel_enabled (host_engine h) then
        (Inl (Config ''this engine meters fuel, so the limits must name a fuel budget''), env)
      else
        (let i = \<lparr>in_store = set_guest_limits lim (host_state_new abi env (module_state m)), in_module = m,
                  in_budget = budget_new lim (epoch_period (host_engine h)),
                  in_depth = stack_depth (host_engine h), in_fill = fill\<rparr>
         in case instantiate h i of
              (Inl e, i) \<Rightarrow> (Inl e, st_env (in_store i))
            | (Inr memory, i) \<Rightarrow>
                if memory = None then (Inl MissingMemory, st_env (in_store i))
                else if allocator_code m = None then (Inl MissingAllocator, st_env (in_store i))
                else
                  (let i = i\<lparr>in_store := (in_store i)\<lparr>st_memory := memory, st_allocator := True\<rparr>\<rparr>
                   in case instance_start i of
                        (Inl e, i) \<Rightarrow> (Inl e, st_env (in_store i))
                      | (Inr _, i) \<Rightarrow> (Inr i, st_env (in_store i)))))"

section \<open>Callbacks\<close>

fun callback_type :: "callback \<Rightarrow> func_type" where
  "callback_type OnContextCreate = ([I32, I32], [])"
| "callback_type OnVmStart = ([I32, I32], [I32])"
| "callback_type OnConfigure = ([I32, I32], [I32])"
| "callback_type OnNewConnection = ([I32], [I32])"
| "callback_type OnDownstreamData = ([I32, I32, I32], [I32])"
| "callback_type OnDownstreamConnectionClose = ([I32, I32], [])"
| "callback_type OnUpstreamData = ([I32, I32, I32], [I32])"
| "callback_type OnUpstreamConnectionClose = ([I32, I32], [])"
| "callback_type OnRequestHeaders = ([I32, I32, I32], [I32])"
| "callback_type OnRequestBody = ([I32, I32, I32], [I32])"
| "callback_type OnRequestTrailers = ([I32, I32], [I32])"
| "callback_type OnResponseHeaders = ([I32, I32, I32], [I32])"
| "callback_type OnResponseBody = ([I32, I32, I32], [I32])"
| "callback_type OnResponseTrailers = ([I32, I32], [I32])"
| "callback_type OnHttpCallResponse = ([I32, I32, I32, I32, I32], [])"
| "callback_type OnGrpcReceiveInitialMetadata = ([I32, I32, I32], [])"
| "callback_type OnGrpcReceive = ([I32, I32, I32], [])"
| "callback_type OnGrpcReceiveTrailingMetadata = ([I32, I32, I32], [])"
| "callback_type OnGrpcClose = ([I32, I32, I32], [])"
| "callback_type OnDone = ([I32], [I32])"
| "callback_type OnLog = ([I32], [])"
| "callback_type OnDelete = ([I32], [])"
| "callback_type OnTick = ([I32], [])"
| "callback_type OnQueueReady = ([I32, I32], [])"
| "callback_type OnForeignFunction = ([I32, I32, I32], [])"

type_synonym 'g callbacks = "(callback \<times> 'g func option) list"

text \<open>The cache is filled in the order of its fields; the first export of a wrong type ends it.\<close>

fun resolve_from :: "callback list \<Rightarrow> ('e, 'h, 'g) wasm_instance \<Rightarrow> error + 'g callbacks" where
  "resolve_from [] i = Inr []"
| "resolve_from (cb # rest) i =
     rbind (typed_func (callback_export_name cb) (callback_type cb) i) (\<lambda>f.
     rbind (resolve_from rest i) (\<lambda>cs. Inr ((cb, f) # cs)))"

definition callbacks_resolve :: "('e, 'h, 'g) wasm_instance \<Rightarrow> error + 'g callbacks" where
  "callbacks_resolve = resolve_from
     [OnContextCreate, OnVmStart, OnConfigure, OnNewConnection, OnDownstreamData,
      OnDownstreamConnectionClose, OnUpstreamData, OnUpstreamConnectionClose, OnRequestHeaders,
      OnRequestBody, OnRequestTrailers, OnResponseHeaders, OnResponseBody, OnResponseTrailers,
      OnHttpCallResponse, OnGrpcReceiveInitialMetadata, OnGrpcReceive,
      OnGrpcReceiveTrailingMetadata, OnGrpcClose, OnDone, OnLog, OnDelete, OnTick, OnQueueReady,
      OnForeignFunction]"

definition callbacks_get :: "'g callbacks \<Rightarrow> callback \<Rightarrow> 'g func option" where
  "callbacks_get cs cb = (case map_of cs cb of Some f \<Rightarrow> f | None \<Rightarrow> None)"

definition callbacks_exports :: "'g callbacks \<Rightarrow> callback \<Rightarrow> bool" where
  "callbacks_exports cs cb \<longleftrightarrow> callbacks_get cs cb \<noteq> None"

end
