(* ===== verification/Guests.thy ===== *)
theory Guests
  imports Guest_Run
begin

text \<open>
  A guest as the embedder holds it (\<open>guest.rs\<close>, \<open>guest/exports.rs\<close>,
  \<open>guest/contexts.rs\<close>, \<open>guest/recovery.rs\<close>, \<open>guest/counting.rs\<close>) and the spec
  that builds guests of one VM (\<open>guest_spec.rs\<close>). A stream state is the operations of its
  type with its value; \<open>NoStream\<close> has no value.
\<close>

section \<open>Stream states\<close>

type_synonym 'v dyn_stream = "'v option stream_ops \<times> 'v option"

definition no_stream :: "'v dyn_stream" where
  "no_stream = (stream_ops_default, None)"

definition stream_type_id :: "'v dyn_stream \<Rightarrow> nat" where
  "stream_type_id s = ss_type_id (fst s)"

definition is_no_stream :: "'v dyn_stream \<Rightarrow> bool" where
  "is_no_stream s \<longleftrightarrow> stream_type_id s = 0"

section \<open>The guest\<close>

record ('e, 'v, 'g) guest =
  detached :: "'v dyn_stream option"
  g_instance :: "('e, 'v option, 'g) wasm_instance"
  g_abi :: abi_version
  g_id :: guest_id
  g_callbacks :: "'g callbacks"
  g_counted :: bool

type_synonym ('e, 'v, 'g, 'a) guest_act = "(('e, 'v, 'g) guest, guest_error, 'a) act"

abbreviation from_runtime :: "(('e, 'v, 'g) guest, error, 'a) act \<Rightarrow> ('e, 'v, 'g, 'a) guest_act" where
  "from_runtime m \<equiv> amap_err Runtime m"

definition g_store :: "('e, 'v, 'g) guest \<Rightarrow> ('e, 'v option, 'g) store" where
  "g_store g = in_store (g_instance g)"

definition set_store ::
  "(('e, 'v option, 'g) store \<Rightarrow> ('e, 'v option, 'g) store) \<Rightarrow> ('e, 'v, 'g) guest \<Rightarrow> ('e, 'v, 'g) guest" where
  "set_store f g = g\<lparr>g_instance := (g_instance g)\<lparr>in_store := f (in_store (g_instance g))\<rparr>\<rparr>"

abbreviation abi_of :: "('e, 'v, 'g) guest \<Rightarrow> ('e, 'v option) abi_state" where
  "abi_of g \<equiv> st_abi (g_store g)"

definition change_abi ::
  "(('e, 'v option) abi_state \<Rightarrow> ('e, 'v option) abi_state) \<Rightarrow> ('e, 'v, 'g) guest \<Rightarrow> ('e, 'v, 'g) guest" where
  "change_abi f = set_store (set_abi f)"

definition change_contexts ::
  "(context_table \<Rightarrow> context_table) \<Rightarrow> ('e, 'v, 'g) guest \<Rightarrow> ('e, 'v, 'g) guest" where
  "change_contexts f = change_abi (\<lambda>a. a\<lparr>contexts_of := f (contexts_of a)\<rparr>)"

definition change_callouts ::
  "(callout_table \<Rightarrow> callout_table) \<Rightarrow> ('e, 'v, 'g) guest \<Rightarrow> ('e, 'v, 'g) guest" where
  "change_callouts f = change_abi (\<lambda>a. a\<lparr>callouts_of := f (callouts_of a)\<rparr>)"

definition guest_new ::
  "abi_host \<Rightarrow> 'e random_fill \<Rightarrow> 'g wasm_module \<Rightarrow> 'e vm_services \<Rightarrow> limits \<Rightarrow> guest_id \<Rightarrow> 'e \<Rightarrow>
   (guest_error + ('e, 'v, 'g) guest) \<times> 'e" where
  "guest_new h fill m svc lim gid env =
     (case detect_version (abi_exports m) of
        Inl e \<Rightarrow> (Inl (Unsupported e), env)
      | Inr abi \<Rightarrow>
          (case instance_new h fill m (abi_state_new gid svc) lim env of
             (Inl e, env) \<Rightarrow> (Inl (Runtime e), env)
           | (Inr i, env) \<Rightarrow>
               (case callbacks_resolve i of
                  Inl e \<Rightarrow> (Inl (Runtime e), env)
                | Inr callbacks \<Rightarrow>
                    (Inr \<lparr>detached = None, g_instance = i, g_abi = abi,
                          g_id = guest_of (st_abi (in_store i)), g_callbacks = callbacks,
                          g_counted = False\<rparr>, env))))"

definition guest_is_poisoned :: "('e, 'v, 'g) guest \<Rightarrow> bool" where
  "guest_is_poisoned g \<longleftrightarrow> is_poisoned (g_instance g)"

definition is_serving :: "('e, 'v, 'g) guest \<Rightarrow> bool" where
  "is_serving g \<longleftrightarrow> \<not> guest_is_poisoned g \<and> vm_rejected (contexts_of (abi_of g)) = None"

text \<open>A guest whose last callback did not return is poisoned at the next call.\<close>

definition require_live :: "(('e, 'v, 'g) guest, error, unit) act" where
  "require_live g =
     (let g = (if current_callback (abi_of g) \<noteq> None then set_store poison g else g) in
      if guest_is_poisoned g then (Inl Poisoned, g) else (Inr (), g))"

definition call_callback ::
  "callback \<Rightarrow> i32 list \<Rightarrow> i32 \<Rightarrow> (('e, 'v, 'g) guest, error, i32) act" where
  "call_callback cb params answer g =
     (case callbacks_get (g_callbacks g) cb of
        None \<Rightarrow> (Inr answer, g)
      | Some f \<Rightarrow>
          (let (r, i) = call_typed f params (g_instance g) in (r, g\<lparr>g_instance := i\<rparr>)))"

definition exports_callback :: "('e, 'v, 'g) guest \<Rightarrow> callback \<Rightarrow> bool" where
  "exports_callback g cb \<longleftrightarrow> callbacks_exports (g_callbacks g) cb"

definition guest_has_export :: "('e, 'v, 'g) guest \<Rightarrow> string \<Rightarrow> bool" where
  "guest_has_export g name \<longleftrightarrow> has_export (in_module (g_instance g)) name"

definition guest_vm_started :: "('e, 'v, 'g) guest \<Rightarrow> bool" where
  "guest_vm_started g \<longleftrightarrow> vm_started (abi_of g)"

definition mark_vm_started :: "('e, 'v, 'g) guest \<Rightarrow> ('e, 'v, 'g) guest" where
  "mark_vm_started = change_abi (\<lambda>a. a\<lparr>vm_started := True\<rparr>)"

definition services_mut ::
  "('e vm_services \<Rightarrow> 'e vm_services) \<Rightarrow> ('e, 'v, 'g) guest \<Rightarrow> ('e, 'v, 'g) guest" where
  "services_mut f = change_abi (\<lambda>a. a\<lparr>services_of := f (services_of a)\<rparr>)"

section \<open>What a guest reports\<close>

definition rejected_by :: "('e, 'v, 'g) guest \<Rightarrow> context_id \<Rightarrow> callback option" where
  "rejected_by g c = rejection_of (contexts_of (abi_of g)) c"

definition guest_context_state :: "('e, 'v, 'g) guest \<Rightarrow> context_id \<Rightarrow> context_state option" where
  "guest_context_state g c = ctx_state (contexts_of (abi_of g)) c"

definition context_stream_kind :: "('e, 'v, 'g) guest \<Rightarrow> context_id \<Rightarrow> stream_kind option" where
  "context_stream_kind g c = ctx_stream_kind (contexts_of (abi_of g)) c"

definition guest_context_type :: "('e, 'v, 'g) guest \<Rightarrow> context_id \<Rightarrow> context_type option" where
  "guest_context_type g c = ctx_type (contexts_of (abi_of g)) c"

definition context_parent :: "('e, 'v, 'g) guest \<Rightarrow> context_id \<Rightarrow> context_id option" where
  "context_parent g c = ctx_parent (contexts_of (abi_of g)) c"

definition has_stream_contexts :: "('e, 'v, 'g) guest \<Rightarrow> context_id \<Rightarrow> bool" where
  "has_stream_contexts g root = has_children (contexts_of (abi_of g)) root"

definition guest_plugin :: "('e, 'v, 'g) guest \<Rightarrow> context_id \<Rightarrow> plugin_config option" where
  "guest_plugin g c = ctx_plugin (contexts_of (abi_of g)) c"

definition guest_tick_period :: "('e, 'v, 'g) guest \<Rightarrow> context_id \<Rightarrow> duration option" where
  "guest_tick_period g root = ctx_tick_period (contexts_of (abi_of g)) root"

definition effective_context :: "('e, 'v, 'g) guest \<Rightarrow> context_id option" where
  "effective_context g = effective (contexts_of (abi_of g))"

definition open_callouts :: "('e, 'v, 'g) guest \<Rightarrow> open_callout_report list" where
  "open_callouts g = map (\<lambda>(cid, entry). callout_report entry cid) (callout_iter (callouts_of (abi_of g)))"

definition guest_open_callout :: "('e, 'v, 'g) guest \<Rightarrow> callout_id \<Rightarrow> open_callout_report option" where
  "guest_open_callout g callout =
     map_option (\<lambda>entry. callout_report entry callout) (callout_lookup (callouts_of (abi_of g)) callout)"

definition open_callout_count :: "('e, 'v, 'g) guest \<Rightarrow> nat" where
  "open_callout_count g = callout_table_len (callouts_of (abi_of g))"

definition queue_registrants :: "('e, 'v, 'g) guest \<Rightarrow> queue_id \<Rightarrow> context_id list" where
  "queue_registrants g queue = registrants (abi_of g) queue"

definition guest_take_changes :: "('e, 'v, 'g) guest \<Rightarrow> changes \<times> ('e, 'v, 'g) guest" where
  "guest_take_changes g =
     (let (c, a) = take_changes (abi_of g) in (c, change_abi (\<lambda>_. a) g))"

definition expect_stream_kind :: "context_id \<Rightarrow> stream_kind \<Rightarrow> ('e, 'v, 'g, unit) guest_act" where
  "expect_stream_kind ctx kind =
     abind (from_runtime require_live) (\<lambda>_.
     abind (atry (\<lambda>g. case guest_context_type g ctx of
              None \<Rightarrow> Inl (ContextError ctx Unknown)
            | Some Root \<Rightarrow> Inl (ContextError ctx NotStream)
            | Some Stream \<Rightarrow> Inr ())) (\<lambda>_.
     abind (atry (\<lambda>g. case context_stream_kind g ctx of
              Some recorded \<Rightarrow>
                if recorded \<noteq> kind then Inl (ContextError ctx (WrongStreamKind recorded kind)) else Inr ()
            | None \<Rightarrow> Inr ())) (\<lambda>_.
     amod (change_contexts (\<lambda>t. snd (ctx_set_stream_kind ctx kind t))))))"

section \<open>The stream state a scope left behind\<close>

definition detach :: "'v dyn_stream \<Rightarrow> ('e, 'v, 'g) guest \<Rightarrow> ('e, 'v, 'g) guest" where
  "detach stream g = g\<lparr>detached := Some stream\<rparr>"

definition discard_detached :: "('e, 'v, 'g) guest \<Rightarrow> ('e, 'v, 'g) guest" where
  "discard_detached g = g\<lparr>detached := None\<rparr>"

definition take_stream :: "nat \<Rightarrow> ('e, 'v, 'g) guest \<Rightarrow> 'v dyn_stream option \<times> ('e, 'v, 'g) guest" where
  "take_stream ty g =
     (case detached g of
        None \<Rightarrow> (None, g)
      | Some held \<Rightarrow>
          if stream_type_id held \<noteq> ty then (None, g) else (Some held, g\<lparr>detached := None\<rparr>))"

definition take_stream_any :: "('e, 'v, 'g) guest \<Rightarrow> 'v dyn_stream option \<times> ('e, 'v, 'g) guest" where
  "take_stream_any g = (detached g, g\<lparr>detached := None\<rparr>)"

section \<open>The spec of a guest\<close>

record build_counters =
  builds :: u64
  poisoned_guests :: u64

definition raise :: "u64 \<Rightarrow> u64" where
  "raise count = (if count = - 1 then count else count + 1)"

definition record_build :: "build_counters \<Rightarrow> build_counters" where
  "record_build c = c\<lparr>builds := raise (builds c)\<rparr>"

definition record_poison :: "build_counters \<Rightarrow> build_counters" where
  "record_poison c = c\<lparr>poisoned_guests := raise (poisoned_guests c)\<rparr>"

record ('e, 'g) guest_spec =
  spec_host :: abi_host
  spec_module :: "'g wasm_module"
  spec_services :: "'e vm_services"
  spec_limits :: limits
  spec_counters :: build_counters

definition guest_spec_new ::
  "abi_host \<Rightarrow> 'g wasm_module \<Rightarrow> 'e vm_services \<Rightarrow> limits \<Rightarrow> guest_error + ('e, 'g) guest_spec" where
  "guest_spec_new h m svc lim =
     (case detect_version (abi_exports m) of
        Inl e \<Rightarrow> Inl (Unsupported e)
      | Inr _ \<Rightarrow>
          if engine_id (host_engine h) \<noteq> module_engine m then Inl (Runtime EngineMismatch)
          else Inr \<lparr>spec_host = h, spec_module = m, spec_services = svc, spec_limits = lim,
                    spec_counters = \<lparr>builds = 0, poisoned_guests = 0\<rparr>\<rparr>)"

definition count_on :: "('e, 'v, 'g) guest \<Rightarrow> ('e, 'v, 'g) guest" where
  "count_on g = g\<lparr>g_counted := True\<rparr>"

definition spec_build ::
  "'e random_fill \<Rightarrow> guest_id \<Rightarrow> 'e \<Rightarrow> ('e, 'g) guest_spec \<Rightarrow>
   ((guest_error + ('e, 'v, 'g) guest) \<times> 'e) \<times> ('e, 'g) guest_spec" where
  "spec_build fill gid env spec =
     (case guest_new (spec_host spec) fill (spec_module spec) (spec_services spec) (spec_limits spec) gid env of
        (Inl e, env) \<Rightarrow> ((Inl e, env), spec)
      | (Inr g, env) \<Rightarrow>
          ((Inr (count_on g), env), spec\<lparr>spec_counters := record_build (spec_counters spec)\<rparr>))"

definition guest_drop :: "('e, 'v, 'g) guest \<Rightarrow> build_counters \<Rightarrow> build_counters" where
  "guest_drop g c = (if guest_is_poisoned g \<and> g_counted g then record_poison c else c)"

end
