(* ===== verification/Call_Scopes.thy ===== *)
theory Call_Scopes
  imports Guests
begin

text \<open>
  The scopes through which an embedder calls a guest (\<open>call_scope.rs\<close>,
  \<open>guest/scope.rs\<close>): the checks every callback shares (\<open>call_scope/prologue.rs\<close>), the
  life of a context (\<open>lifecycle.rs\<close>, \<open>finalize.rs\<close>), the callbacks of a stream
  (\<open>stream.rs\<close>, \<open>tcp.rs\<close>), the deliveries (\<open>delivery.rs\<close>, \<open>grpc.rs\<close>,
  \<open>foreign.rs\<close>) and the start of a root (\<open>guest/start.rs\<close>).
\<close>

section \<open>Scopes\<close>

text \<open>A scope borrows the guest and remembers the one stream context it serves.\<close>

record ('e, 'v, 'g) scope =
  sc_guest :: "('e, 'v, 'g) guest"
  served_context :: "context_id option"

type_synonym ('e, 'v, 'g, 'a) scope_act = "(('e, 'v, 'g) scope, guest_error, 'a) act"

definition scope_new :: "('e, 'v, 'g) guest \<Rightarrow> ('e, 'v, 'g) scope" where
  "scope_new g = \<lparr>sc_guest = g, served_context = None\<rparr>"

definition on_guest :: "(('e, 'v, 'g) guest, 'f, 'a) act \<Rightarrow> (('e, 'v, 'g) scope, 'f, 'a) act" where
  "on_guest m s = (case m (sc_guest s) of (r, g) \<Rightarrow> (r, s\<lparr>sc_guest := g\<rparr>))"

definition enter :: "'v dyn_stream \<Rightarrow> ('e, 'v, 'g) guest \<Rightarrow> ('e, 'v, 'g) scope" where
  "enter stream g =
     scope_new (change_abi (\<lambda>a. a\<lparr>stream_state_of := Some stream\<rparr>) (discard_detached g))"

definition enter_root :: "('e, 'v, 'g) guest \<Rightarrow> ('e, 'v, 'g) scope" where
  "enter_root g = enter no_stream g"

text \<open>
  Between callbacks the embedder reaches the value it lent, at the type it lent it with. There is no
  answer when the state is missing or of another type, where the code panics as unreachable. What
  \<open>stream_mut\<close> borrows is changed by a function.
\<close>

definition stream_state_as_ref :: "nat \<Rightarrow> ('e, 'v option) abi_state \<Rightarrow> 'v option option" where
  "stream_state_as_ref ty a =
     (case stream_state_of a of
        Some stream \<Rightarrow> if stream_type_id stream = ty then Some (snd stream) else None
      | None \<Rightarrow> None)"

definition stream_state_as ::
  "nat \<Rightarrow> ('v option \<Rightarrow> 'v option) \<Rightarrow> ('e, 'v option) abi_state \<Rightarrow> ('e, 'v option) abi_state option" where
  "stream_state_as ty f a =
     (case stream_state_of a of
        Some (ops, v) \<Rightarrow>
          if stream_type_id (ops, v) = ty then Some (a\<lparr>stream_state_of := Some (ops, f v)\<rparr>) else None
      | None \<Rightarrow> None)"

definition scope_stream :: "nat \<Rightarrow> ('e, 'v, 'g) scope \<Rightarrow> 'v option option" where
  "scope_stream ty s = stream_state_as_ref ty (abi_of (sc_guest s))"

definition scope_stream_mut ::
  "nat \<Rightarrow> ('v option \<Rightarrow> 'v option) \<Rightarrow> ('e, 'v, 'g) scope \<Rightarrow> ('e, 'v, 'g) scope option" where
  "scope_stream_mut ty f s =
     map_option (\<lambda>a. s\<lparr>sc_guest := change_abi (\<lambda>_. a) (sc_guest s)\<rparr>)
       (stream_state_as ty f (abi_of (sc_guest s)))"

text \<open>
  Dropping a scope takes the stream state out of the store, and keeps it on the guest when it
  holds a value; a callback that never returned poisons the guest.
\<close>

definition poison_if_running :: "('e, 'v, 'g) guest \<Rightarrow> ('e, 'v, 'g) guest" where
  "poison_if_running g = (if current_callback (abi_of g) \<noteq> None then set_store poison g else g)"

definition take_held :: "('e, 'v, 'g) guest \<Rightarrow> 'v dyn_stream option \<times> ('e, 'v, 'g) guest" where
  "take_held g = (let (held, a) = take_stream_state (abi_of g) in (held, change_abi (\<lambda>_. a) g))"

definition scope_drop :: "('e, 'v, 'g) scope \<Rightarrow> ('e, 'v, 'g) guest" where
  "scope_drop s =
     (let (held, g) = take_held (sc_guest s);
          g = (case held of
                 Some stream \<Rightarrow> if is_no_stream stream then g else detach stream g
               | None \<Rightarrow> g)
      in if current_callback (abi_of g) \<noteq> None
         then change_abi (\<lambda>a. a\<lparr>current_callback := None\<rparr>) (set_store poison g) else g)"

text \<open>
  Finishing gives the stream state back, and drops the scope. There is no value when the state
  is missing or of another type, where the code panics as unreachable.
\<close>

definition finish :: "nat \<Rightarrow> ('e, 'v, 'g) scope \<Rightarrow> 'v dyn_stream option \<times> ('e, 'v, 'g) guest" where
  "finish ty s =
     (let g = poison_if_running (sc_guest s);
          (held, g) = take_held g;
          stream = (case held of
                      Some stream \<Rightarrow> if stream_type_id stream = ty then Some stream else None
                    | None \<Rightarrow> None)
      in (stream, scope_drop (s\<lparr>sc_guest := g\<rparr>)))"

definition with_scope ::
  "'v dyn_stream \<Rightarrow> (('e, 'v, 'g) scope \<Rightarrow> 'r \<times> ('e, 'v, 'g) scope) \<Rightarrow> ('e, 'v, 'g) guest \<Rightarrow>
   ('r \<times> 'v dyn_stream option) \<times> ('e, 'v, 'g) guest" where
  "with_scope stream body g =
     (let (answer, s) = body (enter stream g);
          (stream, g) = finish (stream_type_id stream) s
      in ((answer, stream), g))"

section \<open>What every callback shares\<close>

definition require :: "('e, 'v, 'g) guest \<Rightarrow> context_id \<Rightarrow> guest_error + context_type" where
  "require g ctx = ok_or (ContextError ctx Unknown) (guest_context_type g ctx)"

definition require_root :: "('e, 'v, 'g) guest \<Rightarrow> context_id \<Rightarrow> guest_error + unit" where
  "require_root g ctx =
     rbind (require g ctx) (\<lambda>t.
     case t of Root \<Rightarrow> Inr () | Stream \<Rightarrow> Inl (ContextError ctx NotRoot))"

definition require_stream :: "('e, 'v, 'g) guest \<Rightarrow> context_id \<Rightarrow> guest_error + unit" where
  "require_stream g ctx =
     rbind (require g ctx) (\<lambda>t.
     case t of Stream \<Rightarrow> Inr () | Root \<Rightarrow> Inl (ContextError ctx NotStream))"

definition require_done :: "('e, 'v, 'g) guest \<Rightarrow> context_id \<Rightarrow> guest_error + unit" where
  "require_done g ctx =
     rbind (require g ctx) (\<lambda>_.
     if guest_context_state g ctx = Some DoneState then Inr () else Inl (ContextError ctx NotDone))"

definition require_deletable :: "('e, 'v, 'g) guest \<Rightarrow> context_id \<Rightarrow> guest_error + unit" where
  "require_deletable g ctx =
     rbind (require_done g ctx) (\<lambda>_.
     if has_children (contexts_of (abi_of g)) ctx then Inl (ContextError ctx HasChildren) else Inr ())"

definition require_stream_kind ::
  "('e, 'v, 'g) guest \<Rightarrow> context_id \<Rightarrow> stream_kind \<Rightarrow> guest_error + unit" where
  "require_stream_kind g ctx kind =
     (case ctx_stream_kind (contexts_of (abi_of g)) ctx of
        Some recorded \<Rightarrow>
          if recorded \<noteq> kind then Inl (ContextError ctx (WrongStreamKind recorded kind)) else Inr ()
      | None \<Rightarrow> Inr ())"

definition record_stream_kind :: "context_id \<Rightarrow> stream_kind \<Rightarrow> ('e, 'v, 'g) guest \<Rightarrow> ('e, 'v, 'g) guest" where
  "record_stream_kind ctx kind = change_contexts (\<lambda>t. snd (ctx_set_stream_kind ctx kind t))"

definition accepted :: "('e, 'v, 'g) guest \<Rightarrow> context_id \<Rightarrow> guest_error + unit" where
  "accepted g ctx =
     (let t = contexts_of (abi_of g) in
      case rejection_of t ctx of
        None \<Rightarrow> Inr ()
      | Some cb \<Rightarrow>
          if cb = OnVmStart
          then Inl (GuestRejected cb (case vm_rejected t of Some root \<Rightarrow> root | None \<Rightarrow> ctx))
          else Inl (GuestRejected cb (case root_of t ctx of Some root \<Rightarrow> root | None \<Rightarrow> ctx)))"

definition vm_accepted :: "('e, 'v, 'g) guest \<Rightarrow> guest_error + unit" where
  "vm_accepted g =
     (case vm_rejected (contexts_of (abi_of g)) of
        Some root \<Rightarrow> Inl (GuestRejected OnVmStart root) | None \<Rightarrow> Inr ())"

definition wire_u32 :: "u32 \<Rightarrow> error + i32" where
  "wire_u32 value = ok_or (ValueTooLarge (unat value)) (i32_try_from_u32 value)"

definition wire_size :: "nat \<Rightarrow> error + i32" where
  "wire_size len = ok_or (ValueTooLarge len) (i32_try_from_usize len)"

definition boolean :: "callback \<Rightarrow> i32 \<Rightarrow> guest_error + bool" where
  "boolean cb value =
     (if value = 0 then Inr False else if value = 1 then Inr True
      else Inl (UnexpectedReturn cb value))"

definition i32_from_bool :: "bool \<Rightarrow> i32" where
  "i32_from_bool b = (if b then 1 else 0)"

definition run ::
  "context_id \<Rightarrow> callback \<Rightarrow> i32 list \<Rightarrow> i32 \<Rightarrow> (('e, 'v, 'g) guest, error, i32) act" where
  "run ctx cb params answer g =
     (let g = change_contexts (\<lambda>t. snd (ctx_set_effective ctx t)) g;
          g = change_abi (\<lambda>a. a\<lparr>current_callback := Some cb\<rparr>) g;
          (r, g) = call_callback cb params answer g
      in (r, change_abi (\<lambda>a. a\<lparr>current_callback := None\<rparr>) g))"

abbreviation live :: "('e, 'v, 'g, unit) guest_act" where
  "live \<equiv> from_runtime require_live"

abbreviation run_callback :: "context_id \<Rightarrow> callback \<Rightarrow> i32 list \<Rightarrow> i32 \<Rightarrow> ('e, 'v, 'g, i32) guest_act" where
  "run_callback ctx cb params answer \<equiv> from_runtime (run ctx cb params answer)"

abbreviation sized :: "error + i32 \<Rightarrow> ('e, 'v, 'g, i32) guest_act" where
  "sized r \<equiv> alift (map_sum Runtime id r)"

section \<open>The life of a context\<close>

definition create_context :: "context_id option \<Rightarrow> ('e, 'v, 'g, context_id) guest_act" where
  "create_context parent g =
     (case ctx_create parent (contexts_of (abi_of g)) of
        (r, t) \<Rightarrow> (r, change_contexts (\<lambda>_. t) g))"

definition context_create :: "context_id option \<Rightarrow> ('e, 'v, 'g, context_id) guest_act" where
  "context_create parent =
     abind live (\<lambda>_.
     abind (case parent of
              Some p \<Rightarrow> abind (atry (\<lambda>g. require_root g p)) (\<lambda>_. atry (\<lambda>g. accepted g p))
            | None \<Rightarrow> atry vm_accepted) (\<lambda>_.
     abind (create_context parent) (\<lambda>cid.
     let parent = (case parent of Some p \<Rightarrow> context_wire p | None \<Rightarrow> 0) in
     abind (run_callback cid OnContextCreate [context_wire cid, parent] 0) (\<lambda>_.
     aret cid))))"

definition vm_start :: "context_id \<Rightarrow> ('e, 'v, 'g, bool) guest_act" where
  "vm_start root =
     abind live (\<lambda>_.
     abind (atry (\<lambda>g. require_root g root)) (\<lambda>_.
     abind (atry (\<lambda>g. accepted g root)) (\<lambda>_.
     abind (aget (\<lambda>g. length (vm_configuration (services_of (abi_of g))))) (\<lambda>len.
     abind (sized (wire_size len)) (\<lambda>sz.
     abind (run_callback root OnVmStart [context_wire root, sz] 1) (\<lambda>value.
     abind (alift (boolean OnVmStart value)) (\<lambda>ok.
     abind (if ok then aret () else amod (change_contexts (ctx_reject_vm root))) (\<lambda>_.
     aret ok))))))))"

definition configure :: "context_id \<Rightarrow> plugin_config \<Rightarrow> ('e, 'v, 'g, bool) guest_act" where
  "configure root plugin =
     abind live (\<lambda>_.
     abind (atry (\<lambda>g. require_root g root)) (\<lambda>_.
     abind (atry (\<lambda>g. accepted g root)) (\<lambda>_.
     abind (sized (wire_size (length (plugin_configuration plugin)))) (\<lambda>sz.
     abind (amod (change_contexts (\<lambda>t. snd (ctx_set_plugin root plugin t)))) (\<lambda>_.
     abind (run_callback root OnConfigure [context_wire root, sz] 1) (\<lambda>value.
     abind (alift (boolean OnConfigure value)) (\<lambda>ok.
     abind (if ok then aret () else amod (change_contexts (\<lambda>t. snd (ctx_reject root t)))) (\<lambda>_.
     aret ok))))))))"

definition on_context_create :: "context_id option \<Rightarrow> ('e, 'v, 'g, context_id) scope_act" where
  "on_context_create parent = on_guest (context_create parent)"

definition on_vm_start :: "context_id \<Rightarrow> ('e, 'v, 'g, bool) scope_act" where
  "on_vm_start root = on_guest (vm_start root)"

definition on_configure :: "context_id \<Rightarrow> plugin_config \<Rightarrow> ('e, 'v, 'g, bool) scope_act" where
  "on_configure root plugin = on_guest (configure root plugin)"

section \<open>Deliveries\<close>

text \<open>
  A delivery lends its payload while the callback runs. One that ends its callout takes the
  callout out of the table first, and puts it back when the guest is poisoned.
\<close>

record delivered_call =
  dc_context :: context_id
  dc_callout :: "callout_id option"
  dc_delivery :: delivery
  dc_callback :: callback
  dc_params :: "i32 list"
  dc_ends :: bool

definition remove_callout ::
  "callout_id \<Rightarrow> ('e, 'v, 'g) guest \<Rightarrow> callout option \<times> ('e, 'v, 'g) guest" where
  "remove_callout callout g =
     (case callout_remove callout (callouts_of (abi_of g)) of
        (entry, t) \<Rightarrow> (entry, change_callouts (\<lambda>_. t) g))"

definition deliver :: "delivered_call \<Rightarrow> ('e, 'v, 'g, unit) guest_act" where
  "deliver call g =
     (let (entry, g) =
        (case dc_callout call of
           Some callout \<Rightarrow>
             if dc_ends call then
               (case remove_callout callout g of
                  (removed, g) \<Rightarrow> (map_option (\<lambda>e. (callout, e)) removed, g))
             else (None, g)
         | None \<Rightarrow> (None, g));
          g = change_abi (\<lambda>a. a\<lparr>delivery_of := Some (dc_delivery call)\<rparr>) g;
          (result, g) = run (dc_context call) (dc_callback call) (dc_params call) 0 g;
          poisoned = guest_is_poisoned g;
          g = change_abi (\<lambda>a. a\<lparr>delivery_of := None\<rparr>) g;
          g = (case entry of
                 Some (callout, e) \<Rightarrow> if poisoned then change_callouts (callout_enter callout e) g else g
               | None \<Rightarrow> g)
      in (map_sum Runtime (\<lambda>_. ()) result, g))"

definition callout_wire :: "callout_id \<Rightarrow> i32" where
  "callout_wire c = callout_get c"

definition deliver_http_response ::
  "context_id \<Rightarrow> callout_id \<Rightarrow> http_call_response \<Rightarrow> ('e, 'v, 'g, unit) guest_act" where
  "deliver_http_response root callout response =
     abind (sized (wire_size (length (hr_headers response)))) (\<lambda>hs.
     abind (sized (wire_size (length (hr_body response)))) (\<lambda>b.
     abind (sized (wire_size (length (hr_trailers response)))) (\<lambda>ts.
     deliver
       \<lparr>dc_context = root, dc_callout = Some callout,
        dc_delivery = delivery_http_call_response callout response,
        dc_callback = OnHttpCallResponse,
        dc_params = [context_wire root, callout_wire callout, hs, b, ts], dc_ends = True\<rparr>)))"

definition deliver_grpc_close ::
  "context_id \<Rightarrow> callout_id \<Rightarrow> grpc_status \<Rightarrow> ('e, 'v, 'g, unit) guest_act" where
  "deliver_grpc_close root callout st =
     abind (sized (wire_size (length (gst_message st)))) (\<lambda>_.
     deliver
       \<lparr>dc_context = root, dc_callout = Some callout,
        dc_delivery = delivery_grpc_close callout st, dc_callback = OnGrpcClose,
        dc_params = [context_wire root, callout_wire callout, gst_code st], dc_ends = True\<rparr>)"

definition receive_http_call_response ::
  "context_id \<Rightarrow> callout_id \<Rightarrow> http_call_response \<Rightarrow> ('e, 'v, 'g, unit) guest_act" where
  "receive_http_call_response ctx callout response =
     abind live (\<lambda>_.
     abind (atry (\<lambda>g. ok_or (CalloutError callout NotOpen)
                        (callout_lookup (callouts_of (abi_of g)) callout))) (\<lambda>entry.
     if co_caller entry \<noteq> ctx then afail (CalloutError callout (NotMadeBy ctx))
     else if co_kind entry \<noteq> HttpCall then afail (CalloutError callout (WrongKind (co_kind entry)))
     else if \<not> is_failed response \<and> hr_headers response = [] then
       afail (CalloutError callout NoResponseHeader)
     else
       abind (atry (\<lambda>g. require_root g (co_root entry))) (\<lambda>_.
       abind (atry (\<lambda>g. accepted g (co_root entry))) (\<lambda>_.
       deliver_http_response (co_root entry) callout response))))"

definition tick :: "context_id \<Rightarrow> ('e, 'v, 'g, unit) guest_act" where
  "tick root =
     abind live (\<lambda>_.
     abind (atry (\<lambda>g. require_root g root)) (\<lambda>_.
     abind (atry (\<lambda>g. accepted g root)) (\<lambda>_.
     abind (run_callback root OnTick [context_wire root] 0) (\<lambda>_.
     aret ()))))"

definition queue_ready :: "context_id \<Rightarrow> queue_id \<Rightarrow> ('e, 'v, 'g, unit) guest_act" where
  "queue_ready root queue =
     abind live (\<lambda>_.
     abind (atry (\<lambda>g. require_root g root)) (\<lambda>_.
     abind (atry (\<lambda>g. accepted g root)) (\<lambda>_.
     abind (aguard (\<lambda>g. root \<in> set (registrants (abi_of g) queue))
              (QueueError queue (NotRegisteredBy root))) (\<lambda>_.
     abind (run_callback root OnQueueReady [context_wire root, queue_get queue] 0) (\<lambda>_.
     aret ())))))"

definition on_http_call_response ::
  "context_id \<Rightarrow> callout_id \<Rightarrow> http_call_response \<Rightarrow> ('e, 'v, 'g, unit) scope_act" where
  "on_http_call_response ctx callout response = on_guest (receive_http_call_response ctx callout response)"

definition on_tick :: "context_id \<Rightarrow> ('e, 'v, 'g, unit) scope_act" where
  "on_tick root = on_guest (tick root)"

definition on_queue_ready :: "context_id \<Rightarrow> queue_id \<Rightarrow> ('e, 'v, 'g, unit) scope_act" where
  "on_queue_ready root queue = on_guest (queue_ready root queue)"

section \<open>gRPC and foreign functions\<close>

definition grpc_accepted ::
  "('e, 'v, 'g) guest \<Rightarrow> context_id \<Rightarrow> callout_id \<Rightarrow> callout_kind list \<Rightarrow>
   guest_error + context_id \<times> callout_kind" where
  "grpc_accepted g ctx callout kinds =
     rbind (ok_or (CalloutError callout NotOpen) (callout_lookup (callouts_of (abi_of g)) callout)) (\<lambda>entry.
     if co_caller entry \<noteq> ctx then Inl (CalloutError callout (NotMadeBy ctx))
     else if co_kind entry \<notin> set kinds then Inl (CalloutError callout (WrongKind (co_kind entry)))
     else
       rbind (require_root g (co_root entry)) (\<lambda>_.
       rbind (accepted g (co_root entry)) (\<lambda>_.
       Inr (co_root entry, co_kind entry))))"

definition BOTH_KINDS :: "callout_kind list" where
  "BOTH_KINDS = [GrpcCall, GrpcStream]"

definition grpc_receive_initial_metadata ::
  "context_id \<Rightarrow> callout_id \<Rightarrow> header_pairs \<Rightarrow> ('e, 'v, 'g, unit) guest_act" where
  "grpc_receive_initial_metadata ctx callout metadata =
     abind live (\<lambda>_.
     abind (atry (\<lambda>g. grpc_accepted g ctx callout BOTH_KINDS)) (\<lambda>(root, kind).
     abind (sized (wire_size (length metadata))) (\<lambda>count.
     deliver
       \<lparr>dc_context = root, dc_callout = Some callout,
        dc_delivery = delivery_grpc_initial_metadata callout metadata,
        dc_callback = OnGrpcReceiveInitialMetadata,
        dc_params = [context_wire root, callout_wire callout, count], dc_ends = False\<rparr>)))"

definition grpc_receive ::
  "context_id \<Rightarrow> callout_id \<Rightarrow> bytes \<Rightarrow> ('e, 'v, 'g, unit) guest_act" where
  "grpc_receive ctx callout message =
     abind live (\<lambda>_.
     abind (atry (\<lambda>g. grpc_accepted g ctx callout BOTH_KINDS)) (\<lambda>(root, kind).
     abind (sized (wire_size (length message))) (\<lambda>sz.
     deliver
       \<lparr>dc_context = root, dc_callout = Some callout,
        dc_delivery = delivery_grpc_message callout message,
        dc_callback = OnGrpcReceive,
        dc_params = [context_wire root, callout_wire callout, sz], dc_ends = (kind = GrpcCall)\<rparr>)))"

definition grpc_receive_trailing_metadata ::
  "context_id \<Rightarrow> callout_id \<Rightarrow> header_pairs \<Rightarrow> ('e, 'v, 'g, unit) guest_act" where
  "grpc_receive_trailing_metadata ctx callout metadata =
     abind live (\<lambda>_.
     abind (atry (\<lambda>g. grpc_accepted g ctx callout BOTH_KINDS)) (\<lambda>(root, kind).
     abind (sized (wire_size (length metadata))) (\<lambda>count.
     deliver
       \<lparr>dc_context = root, dc_callout = Some callout,
        dc_delivery = delivery_grpc_trailing_metadata callout metadata,
        dc_callback = OnGrpcReceiveTrailingMetadata,
        dc_params = [context_wire root, callout_wire callout, count], dc_ends = False\<rparr>)))"

definition grpc_close ::
  "context_id \<Rightarrow> callout_id \<Rightarrow> grpc_status \<Rightarrow> ('e, 'v, 'g, unit) guest_act" where
  "grpc_close ctx callout st =
     abind live (\<lambda>_.
     abind (atry (\<lambda>g. grpc_accepted g ctx callout BOTH_KINDS)) (\<lambda>(root, kind).
     deliver_grpc_close root callout st))"

definition foreign_function ::
  "context_id \<Rightarrow> u32 \<Rightarrow> bytes \<Rightarrow> ('e, 'v, 'g, unit) guest_act" where
  "foreign_function ctx function_id arguments =
     abind live (\<lambda>_.
     abind (atry (\<lambda>g. require g ctx)) (\<lambda>_.
     abind (atry (\<lambda>g. accepted g ctx)) (\<lambda>_.
     abind (sized (wire_size (length arguments))) (\<lambda>sz.
     deliver
       \<lparr>dc_context = ctx, dc_callout = None, dc_delivery = delivery_foreign_arguments arguments,
        dc_callback = OnForeignFunction, dc_params = [context_wire ctx, function_id, sz],
        dc_ends = False\<rparr>))))"

definition on_grpc_receive_initial_metadata ::
  "context_id \<Rightarrow> callout_id \<Rightarrow> header_pairs \<Rightarrow> ('e, 'v, 'g, unit) scope_act" where
  "on_grpc_receive_initial_metadata ctx callout metadata =
     on_guest (grpc_receive_initial_metadata ctx callout metadata)"

definition on_grpc_receive ::
  "context_id \<Rightarrow> callout_id \<Rightarrow> bytes \<Rightarrow> ('e, 'v, 'g, unit) scope_act" where
  "on_grpc_receive ctx callout message = on_guest (grpc_receive ctx callout message)"

definition on_grpc_receive_trailing_metadata ::
  "context_id \<Rightarrow> callout_id \<Rightarrow> header_pairs \<Rightarrow> ('e, 'v, 'g, unit) scope_act" where
  "on_grpc_receive_trailing_metadata ctx callout metadata =
     on_guest (grpc_receive_trailing_metadata ctx callout metadata)"

definition on_grpc_close ::
  "context_id \<Rightarrow> callout_id \<Rightarrow> grpc_status \<Rightarrow> ('e, 'v, 'g, unit) scope_act" where
  "on_grpc_close ctx callout st = on_guest (grpc_close ctx callout st)"

definition on_foreign_function ::
  "context_id \<Rightarrow> u32 \<Rightarrow> bytes \<Rightarrow> ('e, 'v, 'g, unit) scope_act" where
  "on_foreign_function ctx function_id arguments = on_guest (foreign_function ctx function_id arguments)"

section \<open>The end of a context\<close>

definition CANCELLED :: u32 where "CANCELLED = 1"

definition drop_open_callouts :: "context_id \<Rightarrow> ('e, 'v, 'g, callout_id list) guest_act" where
  "drop_open_callouts ctx g =
     (let open = made_by (callouts_of (abi_of g)) ctx in
      (Inr (map fst open),
       change_callouts (fold (\<lambda>(callout, _) t. snd (callout_remove callout t)) open) g))"

fun fail_each ::
  "context_id \<Rightarrow> (callout_id \<times> callout_kind) list \<Rightarrow> ('e, 'v, 'g, callout_id list) guest_act" where
  "fail_each root [] = aret []"
| "fail_each root ((callout, kind) # rest) =
     abind (aget (\<lambda>g. callout_lookup (callouts_of (abi_of g)) callout)) (\<lambda>entry.
     if entry = None then fail_each root rest
     else
       abind (case kind of
                HttpCall \<Rightarrow> deliver_http_response root callout response_failed
              | GrpcCall \<Rightarrow> deliver_grpc_close root callout (grpc_status_new CANCELLED [])
              | GrpcStream \<Rightarrow> deliver_grpc_close root callout (grpc_status_new CANCELLED [])) (\<lambda>_.
       abind (fail_each root rest) (\<lambda>ended.
       aret (callout # ended))))"

definition fail_open_callouts ::
  "context_id \<Rightarrow> context_id \<Rightarrow> ('e, 'v, 'g, callout_id list) guest_act" where
  "fail_open_callouts ctx root =
     abind (aget (\<lambda>g. made_by (callouts_of (abi_of g)) ctx)) (\<lambda>open.
     abind (aget (\<lambda>g. rejected_by g root)) (\<lambda>rejected.
     if rejected \<noteq> None then drop_open_callouts ctx else fail_each root open))"

definition delete_context :: "context_id \<Rightarrow> ('e, 'v, 'g, callout_id list) guest_act" where
  "delete_context ctx =
     abind (aget (\<lambda>g. context_parent g ctx)) (\<lambda>root.
     abind (case root of None \<Rightarrow> fail_open_callouts ctx ctx | Some _ \<Rightarrow> aret []) (\<lambda>ended.
     abind (run_callback ctx OnDelete [context_wire ctx] 0) (\<lambda>_.
     abind (amod (change_contexts (\<lambda>t. snd (ctx_remove ctx t)))) (\<lambda>_.
     abind (if root = None then amod (change_abi (forget_registrant ctx)) else aret ()) (\<lambda>_.
     abind (case root of
              Some root \<Rightarrow> abind (fail_open_callouts ctx root) (\<lambda>more. aret (ended @ more))
            | None \<Rightarrow> aret ended) (\<lambda>ended.
     abind (drop_open_callouts ctx) (\<lambda>more.
     aret (ended @ more))))))))"

definition mark_deleting :: "context_id option \<Rightarrow> ('e, 'v, 'g) guest \<Rightarrow> ('e, 'v, 'g) guest" where
  "mark_deleting ctx = change_abi (set_deleting ctx)"

text \<open>
  The mark is set around the deletion, whether it fails or not.
\<close>

definition delete_marked :: "context_id \<Rightarrow> ('e, 'v, 'g, callout_id list) guest_act" where
  "delete_marked ctx g =
     (let (r, g) = delete_context ctx (mark_deleting (Some ctx) g) in (r, mark_deleting None g))"

section \<open>The callbacks of a stream\<close>

definition require_served :: "context_id \<Rightarrow> ('e, 'v, 'g, unit) scope_act" where
  "require_served ctx s =
     (case served_context s of
        Some lent \<Rightarrow>
          if lent \<noteq> ctx then (Inl (ContextError ctx (OtherStream lent)), s)
          else (Inr (), s\<lparr>served_context := Some ctx\<rparr>)
      | None \<Rightarrow> (Inr (), s\<lparr>served_context := Some ctx\<rparr>))"

definition require_served_stream :: "context_id \<Rightarrow> ('e, 'v, 'g, unit) scope_act" where
  "require_served_stream ctx s =
     (if guest_context_type (sc_guest s) ctx = Some Stream then require_served ctx s else (Inr (), s))"

definition scope_expect_stream_kind :: "context_id \<Rightarrow> stream_kind \<Rightarrow> ('e, 'v, 'g, unit) scope_act" where
  "scope_expect_stream_kind ctx kind = on_guest (expect_stream_kind ctx kind)"

definition stream_checks :: "context_id \<Rightarrow> stream_kind \<Rightarrow> ('e, 'v, 'g, unit) scope_act" where
  "stream_checks ctx kind =
     abind (on_guest live) (\<lambda>_.
     abind (on_guest (atry (\<lambda>g. require_stream g ctx))) (\<lambda>_.
     abind (on_guest (atry (\<lambda>g. accepted g ctx))) (\<lambda>_.
     abind (on_guest (atry (\<lambda>g. require_stream_kind g ctx kind))) (\<lambda>_.
     abind (require_served ctx) (\<lambda>_.
     on_guest (amod (record_stream_kind ctx kind)))))))"

text \<open>The size a data callback announces is cleared before the result of the call is looked at.\<close>

definition announced_run ::
  "context_id \<Rightarrow> callback \<Rightarrow> (buffer_type \<times> u32) option \<Rightarrow> i32 list \<Rightarrow> ('e, 'v, 'g, i32) guest_act" where
  "announced_run ctx cb n params g =
     (let g = change_abi (set_announced n) g;
          (value, g) = run_callback ctx cb params (action_code Continue) g
      in (value, change_abi (set_announced None) g))"

definition stream_action ::
  "context_id \<Rightarrow> stream_kind \<Rightarrow> callback \<Rightarrow> (buffer_type \<times> u32) option \<Rightarrow> i32 list \<Rightarrow>
   ('e, 'v, 'g, action) scope_act" where
  "stream_action ctx kind cb n params =
     abind (stream_checks ctx kind) (\<lambda>_.
     abind (on_guest (announced_run ctx cb n params)) (\<lambda>value.
     alift (map_sum (\<lambda>_. UnexpectedReturn cb value) id (action_try_from value))))"

definition stream_event ::
  "context_id \<Rightarrow> callback \<Rightarrow> i32 list \<Rightarrow> ('e, 'v, 'g, unit) scope_act" where
  "stream_event ctx cb params =
     abind (stream_checks ctx Tcp) (\<lambda>_.
     abind (on_guest (run_callback ctx cb params 0)) (\<lambda>_.
     aret ()))"

abbreviation sized_u32 :: "u32 \<Rightarrow> ('e, 'v, 'g, i32) scope_act" where
  "sized_u32 v \<equiv> alift (map_sum Runtime id (wire_u32 v))"

definition on_request_headers :: "context_id \<Rightarrow> u32 \<Rightarrow> bool \<Rightarrow> ('e, 'v, 'g, action) scope_act" where
  "on_request_headers ctx num_headers end_of_stream =
     abind (sized_u32 num_headers) (\<lambda>count.
     stream_action ctx Http OnRequestHeaders None
       [context_wire ctx, count, i32_from_bool end_of_stream])"

definition on_request_body :: "context_id \<Rightarrow> u32 \<Rightarrow> bool \<Rightarrow> ('e, 'v, 'g, action) scope_act" where
  "on_request_body ctx body_size end_of_stream =
     abind (sized_u32 body_size) (\<lambda>sz.
     stream_action ctx Http OnRequestBody (Some (HttpRequestBody, body_size))
       [context_wire ctx, sz, i32_from_bool end_of_stream])"

definition on_request_trailers :: "context_id \<Rightarrow> u32 \<Rightarrow> ('e, 'v, 'g, action) scope_act" where
  "on_request_trailers ctx num_trailers =
     abind (sized_u32 num_trailers) (\<lambda>count.
     stream_action ctx Http OnRequestTrailers None [context_wire ctx, count])"

definition on_response_headers :: "context_id \<Rightarrow> u32 \<Rightarrow> bool \<Rightarrow> ('e, 'v, 'g, action) scope_act" where
  "on_response_headers ctx num_headers end_of_stream =
     abind (sized_u32 num_headers) (\<lambda>count.
     stream_action ctx Http OnResponseHeaders None
       [context_wire ctx, count, i32_from_bool end_of_stream])"

definition on_response_body :: "context_id \<Rightarrow> u32 \<Rightarrow> bool \<Rightarrow> ('e, 'v, 'g, action) scope_act" where
  "on_response_body ctx body_size end_of_stream =
     abind (sized_u32 body_size) (\<lambda>sz.
     stream_action ctx Http OnResponseBody (Some (HttpResponseBody, body_size))
       [context_wire ctx, sz, i32_from_bool end_of_stream])"

definition on_response_trailers :: "context_id \<Rightarrow> u32 \<Rightarrow> ('e, 'v, 'g, action) scope_act" where
  "on_response_trailers ctx num_trailers =
     abind (sized_u32 num_trailers) (\<lambda>count.
     stream_action ctx Http OnResponseTrailers None [context_wire ctx, count])"

definition on_new_connection :: "context_id \<Rightarrow> ('e, 'v, 'g, action) scope_act" where
  "on_new_connection ctx = stream_action ctx Tcp OnNewConnection None [context_wire ctx]"

definition on_downstream_data :: "context_id \<Rightarrow> u32 \<Rightarrow> bool \<Rightarrow> ('e, 'v, 'g, action) scope_act" where
  "on_downstream_data ctx data_size end_of_stream =
     abind (sized_u32 data_size) (\<lambda>sz.
     stream_action ctx Tcp OnDownstreamData (Some (DownstreamData, data_size))
       [context_wire ctx, sz, i32_from_bool end_of_stream])"

definition on_upstream_data :: "context_id \<Rightarrow> u32 \<Rightarrow> bool \<Rightarrow> ('e, 'v, 'g, action) scope_act" where
  "on_upstream_data ctx data_size end_of_stream =
     abind (sized_u32 data_size) (\<lambda>sz.
     stream_action ctx Tcp OnUpstreamData (Some (UpstreamData, data_size))
       [context_wire ctx, sz, i32_from_bool end_of_stream])"

definition on_downstream_connection_close ::
  "context_id \<Rightarrow> peer_type \<Rightarrow> ('e, 'v, 'g, unit) scope_act" where
  "on_downstream_connection_close ctx peer =
     stream_event ctx OnDownstreamConnectionClose [context_wire ctx, peer_type_code peer]"

definition on_upstream_connection_close ::
  "context_id \<Rightarrow> peer_type \<Rightarrow> ('e, 'v, 'g, unit) scope_act" where
  "on_upstream_connection_close ctx peer =
     stream_event ctx OnUpstreamConnectionClose [context_wire ctx, peer_type_code peer]"

section \<open>Finalization\<close>

definition on_done :: "context_id \<Rightarrow> ('e, 'v, 'g, bool) scope_act" where
  "on_done ctx =
     abind (on_guest live) (\<lambda>_.
     abind (require_served_stream ctx) (\<lambda>_.
     abind (on_guest (atry (\<lambda>g. require g ctx))) (\<lambda>_.
     abind (on_guest (run_callback ctx OnDone [context_wire ctx] 1)) (\<lambda>value.
     abind (alift (boolean OnDone value)) (\<lambda>is_done.
     let state = (if is_done then DoneState else Pending) in
     abind (on_guest (amod (change_contexts (\<lambda>t. snd (ctx_set_state ctx state t))))) (\<lambda>_.
     aret is_done))))))"

definition on_log :: "context_id \<Rightarrow> ('e, 'v, 'g, unit) scope_act" where
  "on_log ctx =
     abind (on_guest live) (\<lambda>_.
     abind (require_served_stream ctx) (\<lambda>_.
     abind (on_guest (atry (\<lambda>g. require_done g ctx))) (\<lambda>_.
     abind (on_guest (run_callback ctx OnLog [context_wire ctx] 0)) (\<lambda>_.
     aret ()))))"

definition on_delete :: "context_id \<Rightarrow> ('e, 'v, 'g, callout_id list) scope_act" where
  "on_delete ctx =
     abind (on_guest live) (\<lambda>_.
     abind (require_served_stream ctx) (\<lambda>_.
     abind (on_guest (atry (\<lambda>g. require_deletable g ctx))) (\<lambda>_.
     on_guest (delete_marked ctx))))"

section \<open>The start of a root\<close>

datatype started = Serving context_id | Refused context_id callback

fun started_root :: "started \<Rightarrow> context_id" where
  "started_root (Serving root) = root"
| "started_root (Refused root _) = root"

definition start_run ::
  "context_id \<Rightarrow> plugin_config \<Rightarrow> (('e, 'v, 'g) scope, callback \<times> guest_error, started) act" where
  "start_run root plugin =
     abind (aget (\<lambda>s. guest_vm_started (sc_guest s))) (\<lambda>was_started.
     abind (if was_started then aret True
            else abind (amap_err (Pair OnVmStart) (on_vm_start root)) (\<lambda>ok.
                 abind (if ok then on_guest (amod mark_vm_started) else aret ()) (\<lambda>_. aret ok))) (\<lambda>ok.
     if \<not> ok then aret (Refused root OnVmStart)
     else
       abind (amap_err (Pair OnConfigure) (on_configure root plugin)) (\<lambda>ok.
       if \<not> ok then aret (Refused root OnConfigure) else aret (Serving root))))"

definition start :: "plugin_config \<Rightarrow> ('e, 'v, 'g, started) guest_act" where
  "start plugin g =
     (case root_with_id (contexts_of (abi_of g)) (plugin_root_id plugin) of
        Some root \<Rightarrow> (Inl (DuplicateRootId (plugin_root_id plugin) root), g)
      | None \<Rightarrow>
          (case on_context_create None (enter_root g) of
             (Inl e, s) \<Rightarrow> (Inl e, scope_drop s)
           | (Inr root, s) \<Rightarrow>
               (case start_run root plugin s of
                  (Inr answer, s) \<Rightarrow> (Inr answer, scope_drop s)
                | (Inl (cb, e), s) \<Rightarrow>
                    (Inl e, change_contexts
                       (\<lambda>t. if cb = OnVmStart then ctx_reject_vm root t else snd (ctx_reject root t))
                       (scope_drop s)))))"

end
