(* ===== verification/Guest_Invariants.thy ===== *)
theory Guest_Invariants
  imports Guest_Run
begin

text \<open>
  What any code of a guest preserves. \<open>host_changes\<close> states, once for each change a host
  function makes to the store of its instance by itself, that an invariant survives it, and
  \<open>service_invariant\<close> which changes the services of the embedder make to their world; from that every host
  function that returns no bytes keeps the invariant. \<open>served_guest\<close> adds the poison of a failed
  allocation; from it every host function, every program of a guest, the allocator at every
  depth and every call into the guest keep the invariant. \<open>host_invariant\<close> and
  \<open>guest_invariant\<close> are the cases where the world of the embedder may change in any way. The later theories interpret the
  locales with the invariants of the store.
\<close>

section \<open>Case distinctions of the host functions\<close>

lemma keeps_case_served [keeps_intros]:
  "(\<And>x. keeps I (k x)) \<Longrightarrow> keeps I m \<Longrightarrow>
   keeps I (case s of CrateServes x \<Rightarrow> k x | EmbedderServes \<Rightarrow> m)"
  by (cases s) auto

lemma keeps_case_map_ref [keeps_intros]:
  "(\<And>x. keeps I (k x)) \<Longrightarrow> (\<And>y. keeps I (l y)) \<Longrightarrow>
   keeps I (case m of DeliveredRef x \<Rightarrow> k x | StreamRef y \<Rightarrow> l y)"
  by (cases m) auto

lemma keeps_case_source [keeps_intros]:
  "(\<And>x. keeps I (k x)) \<Longrightarrow> (\<And>y. keeps I (l y)) \<Longrightarrow>
   keeps I (case s of CrateBytes x \<Rightarrow> k x | StreamBuffer y \<Rightarrow> l y)"
  by (cases s) auto

lemma keeps_case_crate_buffer [keeps_intros]:
  "keeps I m \<Longrightarrow> keeps I n \<Longrightarrow> (\<And>x. keeps I (k x)) \<Longrightarrow>
   keeps I (case b of VmConfigurationBuffer \<Rightarrow> m | PluginConfigurationBuffer \<Rightarrow> n | DeliveredBuffer x \<Rightarrow> k x)"
  by (cases b) auto

lemma keeps_case_well_known [keeps_intros]:
  "keeps I m \<Longrightarrow> keeps I n \<Longrightarrow> keeps I k \<Longrightarrow>
   keeps I (case b of WellKnownName \<Rightarrow> m | WellKnownRootId \<Rightarrow> n | WellKnownVmId \<Rightarrow> k)"
  by (cases b) auto

lemma keeps_case_found [keeps_intros]:
  "(\<And>c e. keeps I (k c e)) \<Longrightarrow> keeps I m \<Longrightarrow>
   keeps I (case f of FoundOpen c e \<Rightarrow> k c e | FoundEnded \<Rightarrow> m)"
  by (cases f) auto

lemma keeps_case_callout_kind [keeps_intros]:
  "keeps I m \<Longrightarrow> keeps I n \<Longrightarrow> keeps I k \<Longrightarrow>
   keeps I (case b of HttpCall \<Rightarrow> m | GrpcCall \<Rightarrow> n | GrpcStream \<Rightarrow> k)"
  by (cases b) auto

section \<open>The changes a guest can make\<close>

locale host_changes =
  fixes I :: "('e, 'h, 'g) store \<Rightarrow> bool"
  assumes keep_memory: "I w \<Longrightarrow> I (w\<lparr>st_memory := m\<rparr>)"
    and keep_guest: "I w \<Longrightarrow> I (w\<lparr>st_guest := x\<rparr>)"
    and keep_stream: "I w \<Longrightarrow> stream_state_of (st_abi w) = Some (ops, h) \<Longrightarrow>
      I (set_abi (\<lambda>a. a\<lparr>stream_state_of := Some (ops, h')\<rparr>) w)"
    and keep_settle: "I w \<Longrightarrow> I (set_abi (settle_grants shared) w)"
    and keep_grant_queue: "I w \<Longrightarrow> I (set_abi (grant_queue queue) w)"
    and keep_grant_metric: "I w \<Longrightarrow> I (set_abi (grant_metric metric) w)"
    and keep_hold: "I w \<Longrightarrow> I (set_abi (hold_shared_name name) w)"
    and keep_register: "I w \<Longrightarrow> root_of (contexts w) c = Some root \<Longrightarrow>
      I (set_abi (abi_register_queue queue root nm) w)"
    and keep_announced: "I w \<Longrightarrow> I (set_abi (\<lambda>a. a\<lparr>announced := None\<rparr>) w)"
    and keep_done: "I w \<Longrightarrow> I (set_abi (\<lambda>a. a\<lparr>contexts_of := snd (ctx_done (contexts_of a))\<rparr>) w)"
    and keep_tick: "I w \<Longrightarrow> effective (contexts w) = Some c \<Longrightarrow> root_of (contexts w) c = Some root \<Longrightarrow>
      I (set_abi (\<lambda>a. note_tick_period root period
        (a\<lparr>contexts_of := snd (ctx_set_tick_period c period (contexts_of a))\<rparr>)) w)"
    and keep_effective: "I w \<Longrightarrow> effective (contexts w) = Some current \<Longrightarrow>
      root_of (contexts w) c = root_of (contexts w) current \<Longrightarrow> \<not> is_rejected (contexts w) c \<Longrightarrow>
      I (set_abi (\<lambda>a. a\<lparr>contexts_of := snd (ctx_set_effective c (contexts_of a))\<rparr>) w)"
    and keep_open: "I w \<Longrightarrow> effective (contexts w) = Some caller \<Longrightarrow>
      rejection_of (contexts w) caller = None \<Longrightarrow> root_of (contexts w) caller = Some root \<Longrightarrow>
      \<not> is_deleting (st_abi w) caller \<Longrightarrow> callout_table_len (callouts w) < st_max_open_callouts w \<Longrightarrow>
      callout_reserve (callouts w) = Some (callout, t) \<Longrightarrow>
      I (set_abi (\<lambda>a. a\<lparr>callouts_of := t\<rparr>) w) \<and>
      I (set_abi (\<lambda>a. a\<lparr>callouts_of := callout_enter callout (callout_new kind caller root) t\<rparr>) w)"
    and keep_remove: "I w \<Longrightarrow>
      I (set_abi (\<lambda>a. a\<lparr>callouts_of := snd (callout_remove callout (callouts_of a))\<rparr>) w)"
    and keep_close: "I w \<Longrightarrow>
      I (set_abi (\<lambda>a. a\<lparr>callouts_of := close_by_guest callout (callouts_of a)\<rparr>) w)"

context host_changes
begin

lemma keeps_split: "keeps I split_store" "keeps I (mem_get f)" "keeps I (slice_get p n)"
    "keeps I (read_slice s)" "keeps I (check_u32 p)" "keeps I (arg_slice p' n')" "keeps I (arg_enum g v)"
  by (auto intro!: keepsI simp: split_store_def mem_get_def slice_get_def read_slice_def check_u32_def
      arg_slice_def arg_enum_def amap_err_def abind_def act_simps split: prod.splits sum.splits)

lemma keeps_put: "keeps I (mem_put f)" "keeps I (put_u32 p v)" "keeps I (put_u64 p v')"
  by (auto intro!: keepsI keep_memory simp: mem_put_def put_u32_def put_u64_def amap_err_def
      split: sum.splits prod.splits)

lemma keeps_on_stream: "keeps I (on_stream f)"
  by (auto intro!: keepsI keep_stream simp: on_stream_def split: option.splits prod.splits)

lemma keeps_stream_call: "keeps I (stream_call absent f)"
  unfolding stream_call_def by (intro keeps_intros keeps_on_stream)

lemma keeps_reads:
  "keeps I (context_of absent)" "keeps I (guest_pairs bs)" "keeps I (within_name_bytes nm s)"
  "keeps I within_shared_names" "keeps I (with_stream absent')" "keeps I (queue_arg q)"
  "keeps I (metric_arg mt)" "keeps I plugin_of" "keeps I (grpc_metadata bs')"
  unfolding context_of_def guest_pairs_def within_name_bytes_def within_shared_names_def
    with_stream_def queue_arg_def metric_arg_def plugin_of_def grpc_metadata_def
  by (intro keeps_intros)+

lemma keeps_room: "keeps I (room_for_name held)"
  unfolding room_for_name_def by (intro keeps_intros keeps_reads)

lemma keeps_on_abi: "(\<And>w. I w \<Longrightarrow> I (set_abi f w)) \<Longrightarrow> keeps I (on_abi f)"
  unfolding on_abi_def by (rule keeps_amod)

lemma keeps_settle: "keeps I settle" "keeps I (with_shared absent)"
proof -
  show "keeps I settle"
    unfolding settle_def abi_settle_def
    by (intro keepsI) (use keep_settle in \<open>simp add: on_abi_def amod_def set_abi_def\<close>)
  show "keeps I (with_shared absent)"
    unfolding with_shared_def by (intro keeps_intros keeps_reads keeps_on_abi) (erule keep_settle)
qed

lemma keeps_require: "keeps I (require_queue q)" "keeps I (require_metric m)"
  unfolding require_queue_def require_metric_def by (intro keeps_intros keeps_settle)+

lemma keeps_grants:
  "keeps I (on_abi (grant_queue q))" "keeps I (on_abi (grant_metric m))"
  "keeps I (on_abi (hold_shared_name n))"
  by (rule keeps_on_abi, erule keep_grant_queue keep_grant_metric keep_hold)+

text \<open>A registration is under the root of a context that lives at that moment.\<close>

lemma keeps_register:
  assumes "\<And>root. keeps I (k root)"
  shows "keeps I (abind (aget (\<lambda>w. root_of (contexts w) c)) (\<lambda>root.
    abind (case root of Some root \<Rightarrow> on_abi (abi_register_queue q root nm) | None \<Rightarrow> aret ()) (\<lambda>_. k root)))"
proof (rule keepsI)
  fix w assume I: "I w"
  show "I (snd (abind (aget (\<lambda>w. root_of (contexts w) c)) (\<lambda>root.
    abind (case root of Some root \<Rightarrow> on_abi (abi_register_queue q root nm) | None \<Rightarrow> aret ()) (\<lambda>_. k root)) w))"
    using keepsD [OF assms I] keepsD [OF assms keep_register [OF I]]
    by (cases "root_of (contexts w) c") (simp_all add: abind_def act_simps on_abi_def)
qed

lemmas keeps_steps = keeps_split keeps_put keeps_on_stream keeps_stream_call keeps_reads
  keeps_room keeps_settle keeps_require keeps_grants

section \<open>The context, header maps, buffers, properties and the stream\<close>

lemma on_contexts_eq:
  "on_contexts f w =
     (Inr (fst (f (contexts w))), set_abi (\<lambda>a. a\<lparr>contexts_of := snd (f (contexts_of a))\<rparr>) w)"
  by (cases "f (contexts w)") (simp add: on_contexts_def set_abi_def)

lemma keeps_proxy_done: "keeps I proxy_done"
proof -
  have "keeps I (on_contexts ctx_done)"
    by (rule keepsI) (simp add: on_contexts_eq keep_done)
  then show ?thesis
    unfolding proxy_done_def by (intro keeps_intros)
qed

lemma keeps_proxy_set_effective_context: "keeps I (proxy_set_effective_context c)"
proof (rule keepsI)
  fix w assume I: "I w"
  show "I (snd (proxy_set_effective_context c w))"
    using I keep_effective [OF I]
    by (auto simp: proxy_set_effective_context_def abind_def act_simps on_contexts_eq
        split: sum.splits prod.splits option.splits)
qed

lemma context_of_Inr:
  "context_of absent w = (Inr c, w') \<longleftrightarrow>
     w' = w \<and> effective (contexts w) = Some c \<and> rejection_of (contexts w) c = None"
  by (auto simp: context_of_def act_simps split: option.splits)

lemma ctx_set_tick_period_root [simp]:
  "root_of (snd (ctx_set_tick_period c p t)) d = root_of t d"
  by (auto simp: ctx_set_tick_period_def root_of_def split: option.split)

lemma ctx_set_tick_period_cases:
  obtains "ctx_set_tick_period c p t = (False, t)"
    | root where "root_of t c = Some root" "fst (ctx_set_tick_period c p t)"
  by (cases "fst (ctx_set_tick_period c p t)") (auto simp: ctx_set_tick_period_def split: option.splits)

lemma keeps_proxy_set_tick_period: "keeps I (proxy_set_tick_period_milliseconds p)"
proof (rule keepsI)
  fix w assume I: "I w"
  let ?period = "if p > 0 then Some (from_millis (unat p)) else None"
  show "I (snd (proxy_set_tick_period_milliseconds p w))"
  proof (cases "\<exists>c. context_of BadArgument w = (Inr c, w)")
    case False
    then have "\<exists>e. context_of BadArgument w = (Inl e, w)"
      by (auto simp: context_of_def act_simps split: option.splits)
    with I show ?thesis
      by (auto simp: proxy_set_tick_period_milliseconds_def abind_def)
  next
    case True
    then obtain c where c: "context_of BadArgument w = (Inr c, w)" "effective (contexts w) = Some c"
      using context_of_Inr by blast
    show ?thesis
    proof (cases rule: ctx_set_tick_period_cases [of c ?period "contexts w"])
      case 1
      have "set_abi (\<lambda>a. a\<lparr>contexts_of := contexts w\<rparr>) w = w" by (simp add: set_abi_def)
      with 1 c(1) I show ?thesis
        by (simp add: proxy_set_tick_period_milliseconds_def abind_def Let_def act_simps on_contexts_def)
    next
      case (2 root)
      from keep_tick [OF I c(2) 2(1), of ?period] 2 c(1) show ?thesis
        by (simp add: proxy_set_tick_period_milliseconds_def abind_def Let_def act_simps on_contexts_eq on_abi_def
            set_abi_def)
    qed
  qed
qed

lemma keeps_maps: "keeps I (host_map t access)" "keeps I (map_read f g m)"
  unfolding host_map_def map_read_def delivered_def
  by (intro keeps_intros keeps_steps)+

lemma keeps_map_write: "keeps I (map_write wr (StreamRef ops))"
  unfolding map_write_def by (simp only: map_ref.case) (intro keeps_intros keeps_steps)

text \<open>A map of the running delivery is never lent for a write, so a write reaches the stream state only.\<close>

lemma keeps_for_write:
  assumes "\<And>ops. keeps I (k (StreamRef ops))"
  shows "keeps I (abind (host_map t Write) k)"
proof (cases "map_served t")
  case (CrateServes which)
  have "abind (host_map t Write) k = afail (FStatus BadArgument)"
    by (rule ext) (simp add: host_map_def CrateServes delivered_def abind_def act_simps)
  then show ?thesis by (simp add: keeps_intros)
next
  case EmbedderServes
  have assoc: "abind (abind m f) k = abind m (\<lambda>x. abind (f x) k)" for m :: "('e, 'h, 'g, 'x) host" and f
    by (rule ext) (auto simp: abind_def split: prod.split sum.split)
  have ret: "abind (aret x) k = k x" for x
    by (rule ext) (simp add: abind_def act_simps)
  show ?thesis
    unfolding host_map_def EmbedderServes served.case case_prod_beta assoc ret
    by (intro keeps_intros keeps_steps assms)
qed

lemma keeps_header_maps:
  "keeps I (proxy_get_header_map_size a b)" "keeps I (proxy_set_header_map_pairs a b c)"
  "keeps I (proxy_add_header_map_value a b c d e)" "keeps I (proxy_replace_header_map_value a b c d e)"
  "keeps I (proxy_remove_header_map_value a b c)"
  unfolding proxy_get_header_map_size_def proxy_set_header_map_pairs_def proxy_add_header_map_value_def
    proxy_replace_header_map_value_def write_header_value_def proxy_remove_header_map_value_def Let_def
  by (rule keeps_for_write keeps_map_write | rule keeps_intros | rule keeps_steps keeps_maps)+

lemma keeps_take_announced: "keeps I (on_abi_get (take_announced b))"
proof (rule keepsI)
  fix w assume "I w"
  with keep_announced [OF this] show "I (snd (on_abi_get (take_announced b) w))"
    by (auto simp: on_abi_get_def take_announced_def set_abi_def split: option.splits prod.splits)
qed

lemma keeps_sources: "keeps I (read_buffer t)" "keeps I (write_buffer t)"
    "keeps I (source_len s)" "keeps I (source_copy_range s a b)"
proof -
  show 1: "keeps I (source_len s)" for s
    unfolding source_len_def by (intro keeps_intros keeps_steps)
  show "keeps I (source_copy_range s a b)"
    unfolding source_copy_range_def Let_def by (intro keeps_intros keeps_steps 1)
  show "keeps I (read_buffer t)" "keeps I (write_buffer t)"
    unfolding read_buffer_def write_buffer_def
    by (intro keeps_intros keeps_steps keeps_take_announced)+
qed

lemma keeps_buffers: "keeps I (proxy_set_buffer_bytes a b c d e)" "keeps I (proxy_get_buffer_status a b c)"
  unfolding proxy_set_buffer_bytes_def proxy_get_buffer_status_def Let_def
  by (intro keeps_intros keeps_steps keeps_sources)+

lemma keeps_well_known: "keeps I (well_known n)"
  unfolding well_known_def by (intro keeps_intros keeps_steps)

lemma keeps_set_property: "keeps I (proxy_set_property a b c d)"
  unfolding proxy_set_property_def Let_def by (intro keeps_intros keeps_steps)

lemma keeps_streams: "keeps I (proxy_continue_stream a)" "keeps I (proxy_close_stream a)"
    "keeps I (proxy_send_local_response a b c d e f g h)"
  unfolding proxy_continue_stream_def proxy_close_stream_def proxy_send_local_response_def Let_def
  by (intro keeps_intros keeps_steps)+

section \<open>Callouts and WASI\<close>

lemma keeps_close: "keeps I (on_callouts (close_by_guest c))"
  unfolding on_callouts_def by (rule keeps_on_abi) (erule keep_close)

lemma keeps_find_callout: "keeps I (find_callout i)"
  unfolding find_callout_def by (intro keeps_intros keeps_steps)

lemma keeps_gather: "keeps I (gather budget es message)" "keeps I (check_entries fs)"
proof -
  show "keeps I (gather budget es message)"
    by (induction es arbitrary: message) (auto intro!: keeps_intros keeps_steps simp: Let_def)
  show "keeps I (check_entries fs)"
    by (induction fs) (auto intro!: keeps_intros keeps_steps)
qed

lemma keeps_environ:
  "keeps I (environ_sizes_get_impl i j)" "keeps I (environ_get_impl k l)" "keeps I (args_sizes_get_impl m n)"
  unfolding environ_sizes_get_impl_def environ_get_impl_def write_block_def args_sizes_get_impl_def Let_def
  by (intro keeps_intros keeps_steps)+

lemma keeps_host_result: "keeps I m \<Longrightarrow> keeps I (host_result m)"
  by (auto simp: keeps_def host_result_def split: prod.splits)

lemma keeps_wasi_answer: "keeps I m \<Longrightarrow> keeps I (wasi_answer m)"
  by (auto simp: keeps_def wasi_answer_def split: prod.splits)

end

section \<open>The services of the embedder\<close>

text \<open>
  The changes a set of services makes to the world of the embedder: each operation of the shared
  services, the clock, the log and the callouts changes it by a function of \<open>F\<close>.
\<close>

definition services_within :: "('e \<Rightarrow> 'e) set \<Rightarrow> 'e vm_services \<Rightarrow> bool" where
  "services_within F s \<longleftrightarrow>
     (\<forall>call vm k. (\<lambda>e. snd (get_shared_data (snd (vs_shared s)) call vm k e)) \<in> F) \<and>
     (\<forall>call vm k v cas. (\<lambda>e. snd (set_shared_data (snd (vs_shared s)) call vm k v cas e)) \<in> F) \<and>
     (\<forall>call vm n. (\<lambda>e. snd (register_shared_queue (snd (vs_shared s)) call vm n e)) \<in> F) \<and>
     (\<forall>call vm n. (\<lambda>e. snd (resolve_shared_queue (snd (vs_shared s)) call vm n e)) \<in> F) \<and>
     (\<forall>call q v. (\<lambda>e. snd (enqueue_shared_queue (snd (vs_shared s)) call q v e)) \<in> F) \<and>
     (\<forall>call q. (\<lambda>e. snd (dequeue_shared_queue (snd (vs_shared s)) call q e)) \<in> F) \<and>
     (\<forall>call vm kind n. (\<lambda>e. snd (define_metric (snd (vs_shared s)) call vm kind n e)) \<in> F) \<and>
     (\<forall>call m v. (\<lambda>e. snd (record_metric (snd (vs_shared s)) call m v e)) \<in> F) \<and>
     (\<forall>call m d. (\<lambda>e. snd (increment_metric (snd (vs_shared s)) call m d e)) \<in> F) \<and>
     (\<forall>call m. (\<lambda>e. snd (get_metric (snd (vs_shared s)) call m e)) \<in> F) \<and>
     (\<lambda>e. snd (realtime_nanos (vs_clock s) e)) \<in> F \<and> (\<lambda>e. snd (monotonic_nanos (vs_clock s) e)) \<in> F \<and>
     (\<forall>ctx level message. vs_log s ctx level message \<in> F) \<and>
     (\<forall>call c r. (\<lambda>e. snd (cs_http_call (vs_callouts s) call c r e)) \<in> F) \<and>
     (\<forall>call c r. (\<lambda>e. snd (cs_grpc_call (vs_callouts s) call c r e)) \<in> F) \<and>
     (\<forall>call c r. (\<lambda>e. snd (cs_grpc_stream (vs_callouts s) call c r e)) \<in> F) \<and>
     (\<forall>call c m b. (\<lambda>e. snd (cs_grpc_send (vs_callouts s) call c m b e)) \<in> F) \<and>
     (\<forall>call c. cs_grpc_cancel (vs_callouts s) call c \<in> F) \<and>
     (\<forall>call c. cs_grpc_close (vs_callouts s) call c \<in> F)"

locale service_invariant = host_changes I for I :: "('e, 'h, 'g) store \<Rightarrow> bool" +
  fixes F :: "('e \<Rightarrow> 'e) set"
  assumes keep_world: "I w \<Longrightarrow> f \<in> F \<Longrightarrow> I (w\<lparr>st_env := f (st_env w)\<rparr>)"
    and keep_within: "I w \<Longrightarrow> services_within F (services w)"

context service_invariant
begin

lemma keeps_on_env:
  assumes "(\<lambda>e. snd (f e)) \<in> F"
  shows "keeps I (on_env f)"
proof (rule keepsI)
  fix w assume "I w"
  from keep_world [OF this assms] show "I (snd (on_env f w))"
    by (simp add: on_env_def case_prod_unfold Let_def)
qed

lemma keeps_embedder: "(\<lambda>e. snd (f e)) \<in> F \<Longrightarrow> keeps I (embedder f)"
  unfolding embedder_def by (intro keeps_intros keeps_on_env)

text \<open>A body that takes a service from the store works with services within \<open>F\<close>.\<close>

lemma keeps_service:
  assumes "\<And>s. services_within F s \<Longrightarrow> keeps I (k (g s))"
  shows "keeps I (abind (aget (\<lambda>w. g (services w))) k)"
proof (rule keepsI)
  fix w assume w: "I w"
  from keepsD [OF assms [OF keep_within [OF w]] w] show "I (snd (abind (aget (\<lambda>w. g (services w))) k w))"
    by (simp add: abind_def act_simps)
qed

lemma keeps_with_shared:
  assumes "\<And>call s. services_within F s \<Longrightarrow> keeps I (k call (snd (vs_shared s)))"
  shows "keeps I (abind (with_shared absent) (\<lambda>(call, shared). k call shared))"
proof -
  have "keeps I (abind (aget (\<lambda>w. vs_shared (services w))) (\<lambda>shared.
      abind (on_abi (settle_grants shared)) (\<lambda>_. abind (context_of absent) (\<lambda>ctx.
      abind (aget (\<lambda>w. invocation_of w ctx)) (\<lambda>call. k call (snd shared))))))"
    by (rule keeps_service, intro keeps_intros keeps_reads keeps_on_abi assms) (erule keep_settle)
  also have "abind (aget (\<lambda>w. vs_shared (services w))) (\<lambda>shared.
      abind (on_abi (settle_grants shared)) (\<lambda>_. abind (context_of absent) (\<lambda>ctx.
      abind (aget (\<lambda>w. invocation_of w ctx)) (\<lambda>call. k call (snd shared))))) =
    abind (with_shared absent) (\<lambda>(call, shared). k call shared)"
    by (rule ext) (auto simp: with_shared_def abind_def act_simps split: prod.splits sum.splits)
  finally show ?thesis .
qed

lemmas keeps_calls = keeps_with_shared keeps_service [where g = vs_clock] keeps_service [where g = vs_callouts]

lemmas keeps_world = keeps_on_env keeps_embedder

lemma keeps_shared_data:
  "keeps I (proxy_set_shared_data a b c d e)" "keeps I (proxy_resolve_shared_queue a b c d e)"
  "keeps I (proxy_enqueue_shared_queue a b c)" "keeps I (proxy_define_metric a b c d)"
  "keeps I (proxy_record_metric a m)" "keeps I (proxy_increment_metric a m)" "keeps I (proxy_get_metric a b)"
  unfolding proxy_set_shared_data_def proxy_resolve_shared_queue_def
    proxy_enqueue_shared_queue_def proxy_define_metric_def proxy_record_metric_def
    proxy_increment_metric_def proxy_get_metric_def Let_def
  by (intro keeps_calls keeps_intros keeps_steps keeps_world; simp add: services_within_def)+

lemma keeps_register_shared_queue: "keeps I (proxy_register_shared_queue a b c)"
  unfolding proxy_register_shared_queue_def Let_def
  by (intro keeps_calls keeps_register keeps_intros keeps_steps keeps_world; simp add: services_within_def)

lemma keeps_log_message: "keeps I (log_message level message)"
proof (rule keepsI)
  fix w assume w: "I w"
  have "vs_log (services w) (log_context_of w) level message \<in> F"
    using keep_within [OF w] by (simp add: services_within_def)
  from keep_world [OF w this] show "I (snd (log_message level message w))" by (simp add: log_message_def)
qed

lemma keeps_log:
  "keeps I (proxy_get_current_time_nanoseconds a)" "keeps I (proxy_log a b c)" "keeps I (proxy_get_log_level a)"
  unfolding proxy_get_current_time_nanoseconds_def proxy_log_def proxy_get_log_level_def
  by (intro keeps_calls keeps_intros keeps_steps keeps_log_message keeps_world; simp add: services_within_def)+

lemma keeps_end_callout: "keeps I (end_callout c)"
proof -
  have k: "keeps I (on_callouts (\<lambda>t. snd (callout_remove c t)))" for c
    unfolding on_callouts_def by (rule keeps_on_abi) (erule keep_remove)
  show ?thesis
  proof (rule keepsI)
    fix w assume I: "I w"
    then have I': "I (snd (context_of NotFound w))"
      by (rule keepsD [OF keeps_reads(1)])
    have "keeps I (abind (aget (\<lambda>w. invocation_of w caller)) (\<lambda>call.
          abind (aget (\<lambda>w. vs_callouts (services w))) (\<lambda>service.
          abind (on_callouts (\<lambda>t. snd (callout_remove c t))) (\<lambda>_.
          on_env (\<lambda>env. ((), cs_grpc_cancel service call c env))))))" for caller
      by (intro keeps_calls keeps_intros k keeps_steps keeps_world; simp add: services_within_def)
    from keepsD [OF this] I' show "I (snd (end_callout c w))"
      by (cases "context_of NotFound w"; cases "fst (context_of NotFound w)") (auto simp: end_callout_def)
  qed
qed

lemma keeps_open_callout:
  assumes "\<And>s call c. services_within F s \<Longrightarrow> (\<lambda>e. snd (ask (vs_callouts s) call c e)) \<in> F"
  shows "keeps I (open_callout kind ask)"
proof (rule keepsI)
  fix w assume I: "I w"
  show "I (snd (open_callout kind ask w))"
  proof (cases rule: open_callout_cases [of kind ask w])
    case (2 caller root callout t r env)
    have "I (w\<lparr>st_env := env\<rparr>)"
      using keep_world [OF I assms [OF keep_within [OF I]], of "invocation_of w caller" callout] 2 by simp
    from keep_open [OF this, of caller root callout t kind] 2 show ?thesis
      by (auto split: sum.splits)
  qed (use I in simp)
qed

lemma keeps_callouts:
  "keeps I (proxy_http_call a b c d e f g h i j)"
  "keeps I (proxy_grpc_call a b c d e f g h i j k l)" "keeps I (proxy_grpc_stream a b c d e f g h i)"
  "keeps I (proxy_grpc_send a b c d)" "keeps I (proxy_grpc_cancel a)" "keeps I (proxy_grpc_close a)"
  unfolding proxy_http_call_def proxy_grpc_call_def proxy_grpc_stream_def proxy_grpc_send_def
    proxy_grpc_cancel_def proxy_grpc_close_def Let_def
  by (intro keeps_calls keeps_intros keeps_steps keeps_open_callout keeps_find_callout keeps_end_callout keeps_close
      keeps_world; simp add: services_within_def case_prod_unfold)+

lemma keeps_wasi:
  "keeps I (fd_write_impl a b c d)" "keeps I (clock_time_get_impl e f)"
proof -
  show "keeps I (fd_write_impl a b c d)"
    unfolding fd_write_impl_def Let_def by (intro keeps_intros keeps_steps keeps_gather keeps_log_message)
  have "(\<lambda>e. snd ((case cid of Realtime \<Rightarrow> realtime_nanos (vs_clock s) | Monotonic \<Rightarrow> monotonic_nanos (vs_clock s)) e)) \<in> F"
    if "services_within F s" for s cid
    using that by (cases cid) (simp_all add: services_within_def)
  then show "keeps I (clock_time_get_impl e f)"
    unfolding clock_time_get_impl_def by (intro keeps_calls keeps_intros keeps_steps keeps_world)
qed

lemma keeps_random:
  "(\<And>n. (\<lambda>e. snd (fill n e)) \<in> F) \<Longrightarrow> keeps I (random_get_impl fill g h)"
  unfolding random_get_impl_def by (intro keeps_intros keeps_steps keeps_world)

end

section \<open>Programs of a guest\<close>

text \<open>
  A program reaches the allocator of the guest through the host functions that return values,
  and a failure there poisons the store, so an invariant of programs survives that too.
\<close>

locale served_guest = service_invariant I F for I :: "('e, 'h, 'g) store \<Rightarrow> bool" and F +
  assumes keep_failed: "I w \<Longrightarrow> I (poison w)"

context served_guest
begin

lemma keeps_allocate:
  assumes "\<And>n. keeps I (alloc n)"
  shows "keeps I (allocate alloc sz)"
proof (rule keepsI)
  fix w assume "I w"
  then have "I (snd (alloc n w))" for n
    by (rule keepsD [OF assms])
  then have "I w'" "I (poison w')" if "alloc n w = (r, w')" for n r w'
    using that keep_failed by (metis snd_conv)+
  with \<open>I w\<close> show "I (snd (allocate alloc sz w))"
    by (auto simp: allocate_def fail_def split: option.splits sum.splits prod.splits)
qed

lemma keeps_write_return:
  assumes "\<And>n. keeps I (alloc n)"
  shows "keeps I (write_to_guest alloc bs)" "keeps I (write_optional_return alloc bs p q)"
    "keeps I (write_return alloc bs p' q')"
proof -
  show 1: "keeps I (write_to_guest alloc bs)" for bs
    unfolding write_to_guest_def
    by (intro keeps_intros keeps_steps keeps_allocate assms)
  show "keeps I (write_optional_return alloc bs p q)" for p q
    unfolding write_optional_return_def check_return_def
    by (intro keeps_intros keeps_steps 1)
  then show "keeps I (write_return alloc bs p' q')"
    by (simp add: write_return_def)
qed

lemma keeps_shared_reads:
  assumes "\<And>n. keeps I (alloc n)"
  shows "keeps I (proxy_get_shared_data alloc a b c d e)" "keeps I (proxy_dequeue_shared_queue alloc a b c)"
  unfolding proxy_get_shared_data_def proxy_dequeue_shared_queue_def Let_def
  by (intro keeps_calls keeps_intros keeps_steps keeps_write_return keeps_world assms; simp add: services_within_def)+

lemma keeps_header_map_reads:
  assumes "\<And>n. keeps I (alloc n)"
  shows "keeps I (proxy_get_header_map_pairs alloc a b c)" "keeps I (proxy_get_header_map_value alloc a b c d e)"
  unfolding proxy_get_header_map_pairs_def proxy_get_header_map_value_def Let_def
  by (intro keeps_intros keeps_steps keeps_maps keeps_write_return assms)+

lemma keeps_get_buffer_bytes:
  assumes "\<And>n. keeps I (alloc n)"
  shows "keeps I (proxy_get_buffer_bytes alloc a b c d e)"
  unfolding proxy_get_buffer_bytes_def Let_def
  by (intro keeps_intros keeps_steps keeps_sources keeps_write_return assms)

lemma keeps_get_property:
  assumes "\<And>n. keeps I (alloc n)"
  shows "keeps I (proxy_get_property alloc a b c d)"
  unfolding proxy_get_property_def Let_def
  by (intro keeps_intros keeps_steps keeps_well_known keeps_write_return assms)

lemma keeps_foreign:
  assumes "\<And>n. keeps I (alloc n)"
  shows "keeps I (proxy_call_foreign_function alloc a b c d e f)"
  unfolding proxy_call_foreign_function_def check_wanted_def Let_def
  by (intro keeps_intros keeps_steps keeps_write_return assms)

lemma keeps_get_status:
  assumes "\<And>n. keeps I (alloc n)"
  shows "keeps I (proxy_get_status alloc a b c)"
  unfolding proxy_get_status_def Let_def
  by (intro keeps_intros keeps_steps keeps_write_return assms)

lemma keeps_host_body:
  assumes "\<And>n. keeps I (alloc n)" and "\<And>n. (\<lambda>e. snd (fill n e)) \<in> F"
  shows "keeps I (host_body alloc fill c)"
  by (cases c)
    (simp_all only: host_body.simps,
      (intro keeps_host_result keeps_wasi_answer keeps_proxy_done keeps_proxy_set_effective_context
        keeps_log keeps_proxy_set_tick_period keeps_buffers keeps_get_buffer_bytes keeps_header_maps
        keeps_header_map_reads keeps_streams keeps_get_status keeps_callouts keeps_shared_data keeps_register_shared_queue
        keeps_shared_reads keeps_get_property keeps_set_property keeps_foreign keeps_wasi keeps_environ keeps_random
        keeps_pure assms)+)

lemma keeps_exec_program:
  assumes "\<And>c. keeps I (host c)"
  shows "keeps I (exec_program host p)"
proof (induction p)
  case (Update f p)
  have "I (guest_update f w)" if "I w" for w
    using keep_guest [OF keep_memory [OF that]]
    by (simp add: guest_update_def split: prod.split)
  with Update show ?case by (auto simp: keeps_def)
next
  case (Inspect k)
  then show ?case by (auto simp: keeps_def)
next
  case (HostCall c k)
  then show ?case by (auto intro!: keeps_abind assms)
qed (auto intro: keeps_intros)

lemma keeps_alloc_at:
  "(\<And>n. (\<lambda>e. snd (fill n e)) \<in> F) \<Longrightarrow> keeps I (alloc_at fill code depth n)"
  by (induction depth arbitrary: n) (auto intro!: keeps_intros keeps_exec_program keeps_host_body)

lemma keeps_call_on:
  assumes "keeps I m"
  shows "keeps I (call_on m)"
proof (rule keepsI)
  fix w assume "I w"
  with keepsD [OF assms, of w] show "I (snd (call_on m w))"
    by (auto simp: call_on_def fail_def intro: keep_failed split: prod.splits sum.splits)
qed

lemma keeps_host_of: "(\<And>n. (\<lambda>e. snd (in_fill i n e)) \<in> F) \<Longrightarrow> keeps I (host_of i c)"
  by (simp add: host_of_def Let_def keeps_host_body keeps_alloc_at)

theorem keeps_served_call:
  assumes "I (in_store i)" and "call_typed f params i = (r, i')" and "\<And>n. (\<lambda>e. snd (in_fill i n e)) \<in> F"
  shows "I (in_store i')"
  using keepsD [OF keeps_call_on [OF keeps_exec_program [where host = "host_of i" and p = "f params",
    OF keeps_host_of [OF assms(3)]]], of "in_store i"] assms(1,2)
  by (auto simp: call_typed_def split: prod.splits)

end

section \<open>Invariants that no service reaches\<close>

text \<open>Most invariants say nothing of the world of the embedder, so any change of it is one of theirs.\<close>

locale host_invariant = host_changes I for I :: "('e, 'h, 'g) store \<Rightarrow> bool" +
  assumes keep_env: "I w \<Longrightarrow> I (w\<lparr>st_env := env\<rparr>)"

sublocale host_invariant \<subseteq> service_invariant I UNIV
  by unfold_locales (simp_all add: keep_env services_within_def)

context host_invariant
begin

lemma keeps_any_service:
  "keeps I (on_env f)" "keeps I (embedder g)" "keeps I (random_get_impl fill p n)"
  by (simp_all add: keeps_on_env keeps_embedder keeps_random)

end

locale guest_invariant = host_invariant I for I :: "('e, 'h, 'g) store \<Rightarrow> bool" +
  assumes keep_poison: "I w \<Longrightarrow> I (poison w)"

sublocale guest_invariant \<subseteq> served_guest I UNIV
  by unfold_locales (rule keep_poison)

context guest_invariant
begin

theorem keeps_call_typed: "I (in_store i) \<Longrightarrow> call_typed f params i = (r, i') \<Longrightarrow> I (in_store i')"
  by (rule keeps_served_call) simp_all

lemma keeps_instance_start: "keeps (\<lambda>i. I (in_store i)) instance_start"
proof -
  have "keeps (\<lambda>i. I (in_store i)) (call_typed f params)" for f params
    by (rule keepsI) (rule keeps_call_typed, assumption, rule prod.collapse [symmetric])
  then show ?thesis
    unfolding instance_start_def by (intro keeps_intros)
qed

end

end
