(* ===== verification/Guest_Safety.thy ===== *)
theory Guest_Safety
  imports Guest_Invariants
begin

text \<open>
  What the code of a guest can do to the state of the host: the interpretations of
  \<open>guest_invariant\<close> with the well-formedness of the store, with the values of the store
  that belong to the host, and with the isolation of the contexts of other roots; then the
  properties of calls into a guest that follow from them.
\<close>

section \<open>The changes, component by component\<close>

lemma set_abi_simps [simp]:
  "st_abi (set_abi f w) = f (st_abi w)" "st_memory (set_abi f w) = st_memory w"
  "st_env (set_abi f w) = st_env w" "st_guest (set_abi f w) = st_guest w"
  "st_poisoned (set_abi f w) = st_poisoned w" "st_allocator (set_abi f w) = st_allocator w"
  "st_pair_limits (set_abi f w) = st_pair_limits w" "st_max_shared_names (set_abi f w) = st_max_shared_names w"
  "st_max_name_bytes (set_abi f w) = st_max_name_bytes w" "st_max_log_bytes (set_abi f w) = st_max_log_bytes w"
  "st_max_open_callouts (set_abi f w) = st_max_open_callouts w"
  by (simp_all add: set_abi_def)

lemma poison_simps [simp]:
  "st_abi (poison w) = st_abi w" "st_poisoned (poison w)" "st_memory (poison w) = st_memory w"
  "st_pair_limits (poison w) = st_pair_limits w" "st_max_shared_names (poison w) = st_max_shared_names w"
  "st_max_name_bytes (poison w) = st_max_name_bytes w" "st_max_log_bytes (poison w) = st_max_log_bytes w"
  "st_max_open_callouts (poison w) = st_max_open_callouts w" "st_allocator (poison w) = st_allocator w"
  "st_env (poison w) = st_env w"
  by (simp_all add: poison_def)

lemma settle_grants_simps [simp]:
  "contexts_of (settle_grants s a) = contexts_of a" "callouts_of (settle_grants s a) = callouts_of a"
  "deleting (settle_grants s a) = deleting a" "guest_of (settle_grants s a) = guest_of a"
  "services_of (settle_grants s a) = services_of a" "current_callback (settle_grants s a) = current_callback a"
  "vm_started (settle_grants s a) = vm_started a" "delivery_of (settle_grants s a) = delivery_of a"
  "stream_state_of (settle_grants s a) = stream_state_of a" "announced (settle_grants s a) = announced a"
  by (simp_all add: settle_grants_def)

lemma grant_simps [simp]:
  "contexts_of (grant_queue q a) = contexts_of a" "callouts_of (grant_queue q a) = callouts_of a"
  "deleting (grant_queue q a) = deleting a" "guest_of (grant_queue q a) = guest_of a"
  "services_of (grant_queue q a) = services_of a" "current_callback (grant_queue q a) = current_callback a"
  "vm_started (grant_queue q a) = vm_started a" "delivery_of (grant_queue q a) = delivery_of a"
  "stream_state_of (grant_queue q a) = stream_state_of a"
  "contexts_of (grant_metric m a) = contexts_of a" "callouts_of (grant_metric m a) = callouts_of a"
  "deleting (grant_metric m a) = deleting a" "guest_of (grant_metric m a) = guest_of a"
  "services_of (grant_metric m a) = services_of a" "current_callback (grant_metric m a) = current_callback a"
  "vm_started (grant_metric m a) = vm_started a" "delivery_of (grant_metric m a) = delivery_of a"
  "stream_state_of (grant_metric m a) = stream_state_of a"
  by (simp_all add: grant_queue_def grant_metric_def)

lemma note_simps [simp]:
  "contexts_of (hold_shared_name n a) = contexts_of a" "callouts_of (hold_shared_name n a) = callouts_of a"
  "deleting (hold_shared_name n a) = deleting a" "guest_of (hold_shared_name n a) = guest_of a"
  "services_of (hold_shared_name n a) = services_of a" "current_callback (hold_shared_name n a) = current_callback a"
  "vm_started (hold_shared_name n a) = vm_started a" "delivery_of (hold_shared_name n a) = delivery_of a"
  "stream_state_of (hold_shared_name n a) = stream_state_of a"
  "contexts_of (note_tick_period c p a) = contexts_of a" "callouts_of (note_tick_period c p a) = callouts_of a"
  "deleting (note_tick_period c p a) = deleting a" "guest_of (note_tick_period c p a) = guest_of a"
  "services_of (note_tick_period c p a) = services_of a" "current_callback (note_tick_period c p a) = current_callback a"
  "vm_started (note_tick_period c p a) = vm_started a" "delivery_of (note_tick_period c p a) = delivery_of a"
  "stream_state_of (note_tick_period c p a) = stream_state_of a"
  by (simp_all add: hold_shared_name_def note_tick_period_def)

lemma register_simps [simp]:
  "contexts_of (abi_register_queue q c nm a) = contexts_of a"
  "callouts_of (abi_register_queue q c nm a) = callouts_of a"
  "deleting (abi_register_queue q c nm a) = deleting a" "guest_of (abi_register_queue q c nm a) = guest_of a"
  "services_of (abi_register_queue q c nm a) = services_of a"
  "current_callback (abi_register_queue q c nm a) = current_callback a"
  "vm_started (abi_register_queue q c nm a) = vm_started a"
  "delivery_of (abi_register_queue q c nm a) = delivery_of a"
  "stream_state_of (abi_register_queue q c nm a) = stream_state_of a"
  by (simp_all add: abi_register_queue_def Let_def)

section \<open>What belongs to the host\<close>

text \<open>
  Everything of the store a guest has no way to change: its identity, the services, the running
  callback, the mark of a deletion, the limits, which operations the lent stream state has, and the
  running delivery, its maps and its body included.
\<close>

definition host_part :: "('e, 'h, 'g) store \<Rightarrow>
    (guest_id \<times> 'e vm_services \<times> callback option \<times> context_id option \<times> bool) \<times>
    (pair_limits \<times> nat option \<times> nat option \<times> nat option \<times> nat \<times> bool) \<times>
    'h stream_ops option \<times> delivery option" where
  "host_part w =
     ((guest_of (st_abi w), services_of (st_abi w), current_callback (st_abi w), deleting (st_abi w),
       vm_started (st_abi w)),
      (st_pair_limits w, st_max_shared_names w, st_max_name_bytes w, st_max_log_bytes w,
       st_max_open_callouts w, st_allocator w),
      map_option fst (stream_state_of (st_abi w)), delivery_of (st_abi w))"

interpretation host_part: guest_invariant "\<lambda>w. host_part w = k" for k
  by unfold_locales (simp_all add: host_part_def)

text \<open>The size a callback announced is taken, never set.\<close>

interpretation announced: guest_invariant "\<lambda>w. announced (st_abi w) = None \<or> announced (st_abi w) = n" for n
  by unfold_locales (auto simp: grant_queue_def grant_metric_def hold_shared_name_def note_tick_period_def
      abi_register_queue_def Let_def)

text \<open>A poisoned store stays poisoned, whatever runs on it.\<close>

interpretation poisoned: guest_invariant st_poisoned
  by unfold_locales simp_all

section \<open>The contexts of other roots\<close>

definition entry_frame :: "context_entry \<Rightarrow> context_entry \<Rightarrow> bool" where
  "entry_frame e e' \<longleftrightarrow>
     context_type_of e' = context_type_of e \<and> entry_stream_kind e' = entry_stream_kind e \<and>
     entry_parent e' = entry_parent e \<and> entry_rejected e' = entry_rejected e \<and>
     entry_plugin e' = entry_plugin e \<and>
     (entry_state e' = entry_state e \<or> entry_state e = Pending \<and> entry_state e' = DoneState)"

definition effective_root :: "context_table \<Rightarrow> context_id option" where
  "effective_root t = Option.bind (effective t) (root_of t)"

text \<open>
  From \<open>t\<close> to \<open>t'\<close> no context came or went; an entry kept all but its tick period, or
  went from pending to done; and only entries below the root of the effective context changed
  at all, a root that stays the same.
\<close>

definition ctx_frame :: "context_table \<Rightarrow> context_table \<Rightarrow> bool" where
  "ctx_frame t t' \<longleftrightarrow>
     next_context t' = next_context t \<and> vm_rejected t' = vm_rejected t \<and>
     effective_root t' = effective_root t \<and>
     (\<forall>c. rel_option entry_frame (ctx_entry t c) (ctx_entry t' c)) \<and>
     (\<forall>c. root_of t c = None \<or> root_of t c \<noteq> effective_root t \<longrightarrow> ctx_entry t' c = ctx_entry t c)"

lemma entry_frame_refl [simp]: "entry_frame e e"
  by (simp add: entry_frame_def)

lemma entry_frame_trans: "entry_frame e f \<Longrightarrow> entry_frame f g \<Longrightarrow> entry_frame e g"
  by (auto simp: entry_frame_def)

lemma ctx_frame_refl [simp]: "ctx_frame t t"
  by (auto simp: ctx_frame_def intro: option.rel_refl)

lemma ctx_frame_lookups:
  assumes "ctx_frame t t'"
  shows "root_of t' c = root_of t c" "ctx_type t' c = ctx_type t c" "ctx_plugin t' c = ctx_plugin t c"
    "rejection_of t' c = rejection_of t c" "ctx_parent t' c = ctx_parent t c"
    "ctx_stream_kind t' c = ctx_stream_kind t c"
proof -
  have e: "rel_option entry_frame (ctx_entry t d) (ctx_entry t' d)" for d
    using assms by (simp add: ctx_frame_def)
  have m: "map_option g (ctx_entry t' d) = map_option g (ctx_entry t d)"
    if "\<And>x y. entry_frame x y \<Longrightarrow> g y = g x" for g :: "context_entry \<Rightarrow> 'x" and d
    using e [of d] that by (cases "ctx_entry t d"; cases "ctx_entry t' d") auto
  have b: "Option.bind (ctx_entry t' d) g = Option.bind (ctx_entry t d) g"
    if "\<And>x y. entry_frame x y \<Longrightarrow> g y = g x" for g :: "context_entry \<Rightarrow> 'x option" and d
    using e [of d] that by (cases "ctx_entry t d"; cases "ctx_entry t' d") auto
  show root: "root_of t' c = root_of t c" for c
    unfolding root_of_def by (rule m) (simp add: entry_frame_def)
  show "ctx_type t' c = ctx_type t c"
    unfolding ctx_type_def by (rule m) (simp add: entry_frame_def)
  have "Option.bind (ctx_entry t' d) entry_plugin = Option.bind (ctx_entry t d) entry_plugin" for d
    by (rule b) (simp add: entry_frame_def)
  then show "ctx_plugin t' c = ctx_plugin t c"
    unfolding ctx_plugin_def root by simp
  show "ctx_parent t' c = ctx_parent t c"
    unfolding ctx_parent_def by (rule b) (simp add: entry_frame_def)
  show "ctx_stream_kind t' c = ctx_stream_kind t c"
    unfolding ctx_stream_kind_def by (rule b) (simp add: entry_frame_def)
  have "map_option entry_rejected (ctx_entry t' d) = map_option entry_rejected (ctx_entry t d)" for d
    by (rule m) (simp add: entry_frame_def)
  moreover have "is_rejected u c =
      (case root_of u c of None \<Rightarrow> False | Some r \<Rightarrow> map_option entry_rejected (ctx_entry u r) = Some True)" for u
    by (auto simp: is_rejected_def split: option.splits)
  ultimately have "is_rejected t' c = is_rejected t c"
    by (simp only: root)
  then show "rejection_of t' c = rejection_of t c"
    using assms by (simp add: rejection_of_def ctx_frame_def)
qed

lemma ctx_frame_trans:
  assumes "ctx_frame t u" "ctx_frame u v"
  shows "ctx_frame t v"
proof -
  have "rel_option entry_frame (ctx_entry t c) (ctx_entry v c)" for c
  proof -
    have "rel_option entry_frame (ctx_entry t c) (ctx_entry u c)"
      "rel_option entry_frame (ctx_entry u c) (ctx_entry v c)"
      using assms by (simp_all add: ctx_frame_def)
    then show ?thesis
      by (cases "ctx_entry t c"; cases "ctx_entry u c"; cases "ctx_entry v c") (auto intro: entry_frame_trans)
  qed
  then show ?thesis
    using assms ctx_frame_lookups(1) [OF assms(1)] by (simp add: ctx_frame_def)
qed

text \<open>An update below the root of the effective context is such a change.\<close>

lemma ctx_frame_update:
  assumes "root_of t c = effective_root t" "root_of t c \<noteq> None"
    and "\<And>e. ctx_entry t c = Some e \<Longrightarrow> entry_frame e (f e)"
  shows "ctx_frame t (ctx_update c f t)"
proof -
  have rel: "rel_option entry_frame (ctx_entry t d) (ctx_entry (ctx_update c f t) d)" for d
    using assms(3) by (cases "ctx_entry t d") auto
  have "root_of (ctx_update c f t) d = root_of t d" for d
    using rel [of d] unfolding root_of_def
    by (cases "ctx_entry t d"; cases "ctx_entry (ctx_update c f t) d") (auto simp: entry_frame_def)
  then have "effective_root (ctx_update c f t) = effective_root t"
    by (simp add: effective_root_def cong: Option.bind_cong)
  with rel assms(1,2) show ?thesis
    by (auto simp: ctx_frame_def)
qed

lemma ctx_frame_steps:
  assumes ok: "ctx_ok t"
  shows "ctx_frame t (snd (ctx_done t))"
    and "effective t = Some c \<Longrightarrow> ctx_frame t (snd (ctx_set_tick_period c p t))"
    and "effective t = Some d \<Longrightarrow> root_of t c = root_of t d \<Longrightarrow> ctx_frame t (snd (ctx_set_effective c t))"
proof -
  show "ctx_frame t (snd (ctx_done t))"
  proof (cases "effective t")
    case (Some c)
    then show ?thesis
      by (auto simp: ctx_done_def entry_frame_def root_of_def effective_root_def
          split: option.split intro!: ctx_frame_update)
  qed (simp add: ctx_done_def)
  show "ctx_frame t (snd (ctx_set_tick_period c p t))" if "effective t = Some c"
  proof (cases "root_of t c")
    case (Some r)
    with root_of_root [OF ok Some] that show ?thesis
      by (auto simp: ctx_set_tick_period_def entry_frame_def effective_root_def
          split: option.split intro!: ctx_frame_update)
  qed (simp add: ctx_set_tick_period_def)
  show "ctx_frame t (snd (ctx_set_effective c t))" if "effective t = Some d" "root_of t c = root_of t d"
  proof -
    have "root_of (t\<lparr>effective := x\<rparr>) = root_of t" for x
      by (rule ext) (simp add: root_of_def)
    with that show ?thesis
      by (auto simp: ctx_set_effective_def ctx_frame_def effective_root_def intro: option.rel_refl)
  qed
qed

definition contexts_framed :: "context_table \<Rightarrow> ('e, 'h, 'g) store \<Rightarrow> bool" where
  "contexts_framed t w \<longleftrightarrow> ctx_ok (contexts w) \<and> ctx_frame t (contexts w)"

interpretation contexts_framed: guest_invariant "contexts_framed t" for t
proof (unfold_locales, goal_cases)
  case (10 w)
  then show ?case
    using ctx_frame_steps(1) [of "contexts w"]
    by (auto simp: contexts_framed_def intro: ctx_ok_setters ctx_frame_trans)
next
  case (11 w c root period)
  then show ?case
    using ctx_frame_steps(2) [of "contexts w"]
    by (auto simp: contexts_framed_def intro: ctx_ok_setters ctx_frame_trans)
next
  case (12 w current c)
  then show ?case
    using ctx_frame_steps(3) [of "contexts w" current c]
    by (auto simp: contexts_framed_def intro: ctx_ok_setters ctx_frame_trans)
qed (simp_all add: contexts_framed_def)

section \<open>The store stays well formed\<close>

text \<open>
  Every open callout belongs to a live context, whose root is the root of the callout, or to
  the context that is being deleted; and no more are open than the limit allows.
\<close>

definition callers_live :: "('e, 'h, 'g) store \<Rightarrow> bool" where
  "callers_live w \<longleftrightarrow>
     (\<forall>cid c. callout_lookup (callouts w) cid = Some c \<longrightarrow>
        is_deleting (st_abi w) (co_caller c) \<or> root_of (contexts w) (co_caller c) = Some (co_root c))"

definition store_wf :: "('e, 'h, 'g) store \<Rightarrow> bool" where
  "store_wf w \<longleftrightarrow>
     ctx_ok (contexts w) \<and> callouts_ok (callouts w) \<and> callers_live w \<and>
     callout_table_len (callouts w) \<le> st_max_open_callouts w"

lemma store_wf_cong:
  assumes "store_wf w" and "contexts w' = contexts w" "callouts w' = callouts w"
    "deleting (st_abi w') = deleting (st_abi w)" "st_max_open_callouts w' = st_max_open_callouts w"
  shows "store_wf w'"
  using assms by (simp add: store_wf_def callers_live_def is_deleting_def)

lemma store_wf_contexts:
  assumes "store_wf w" and "ctx_frame (contexts w) (f (contexts w))" "ctx_ok (f (contexts w))"
  shows "store_wf (set_abi (\<lambda>a. a\<lparr>contexts_of := f (contexts_of a)\<rparr>) w)"
  using assms ctx_frame_lookups(1) [OF assms(2)]
  by (simp add: store_wf_def callers_live_def is_deleting_def)

lemma store_wf_open:
  assumes wf: "store_wf w" and root: "root_of (contexts w) caller = Some root"
    and room: "callout_table_len (callouts w) < st_max_open_callouts w"
    and r: "callout_reserve (callouts w) = Some (callout, t)"
  shows "store_wf (set_abi (\<lambda>a. a\<lparr>callouts_of := t\<rparr>) w)"
    and "store_wf (set_abi (\<lambda>a. a\<lparr>callouts_of := callout_enter callout (callout_new kind caller root) t\<rparr>) w)"
proof -
  have t: "opened t = opened (callouts w)" "callout_get callout \<noteq> 0" "next_callout t \<noteq> 0"
    using reserve_partial [OF r] wf by (auto simp: store_wf_def callouts_ok_def)
  then have look: "callout_lookup t = callout_lookup (callouts w)" "callout_table_len t = callout_table_len (callouts w)"
    by (auto simp: callout_lookup_def callout_table_len_def)
  moreover have ok: "callouts_ok t"
    using wf t look by (simp add: store_wf_def callouts_ok_def)
  ultimately show "store_wf (set_abi (\<lambda>a. a\<lparr>callouts_of := t\<rparr>) w)"
    using wf by (simp add: store_wf_def callers_live_def is_deleting_def)
  have "callout_table_len (callout_enter callout (callout_new kind caller root) t) \<le> st_max_open_callouts w"
    using room look callout_table_len_steps(3) [of callout "callout_new kind caller root" t] by linarith
  then show "store_wf (set_abi (\<lambda>a. a\<lparr>callouts_of := callout_enter callout (callout_new kind caller root) t\<rparr>) w)"
    using wf root ok look t(2)
    by (auto simp: store_wf_def callers_live_def is_deleting_def callout_new_def callouts_ok_enter)
qed

interpretation store_wf: guest_invariant "store_wf :: ('e, 'h, 'g) store \<Rightarrow> bool"
proof (unfold_locales, goal_cases)
  case (10 w)
  then show ?case
    using ctx_frame_steps(1) [of "contexts w"]
    by (intro store_wf_contexts) (auto simp: store_wf_def intro: ctx_ok_setters)
next
  case (11 w c root period)
  then have "store_wf (set_abi (\<lambda>a. a\<lparr>contexts_of := snd (ctx_set_tick_period c period (contexts_of a))\<rparr>) w)"
    using ctx_frame_steps(2) [of "contexts w"]
    by (intro store_wf_contexts) (auto simp: store_wf_def intro: ctx_ok_setters)
  then show ?case by (rule store_wf_cong) simp_all
next
  case (12 w current c)
  then show ?case
    using ctx_frame_steps(3) [of "contexts w" current c]
    by (intro store_wf_contexts) (auto simp: store_wf_def intro: ctx_ok_setters)
next
  case (13 w caller root callout t kind)
  then show ?case by (auto intro: store_wf_open)
next
  case (14 w callout)
  moreover have "callout_table_len (snd (callout_remove callout (callouts w))) \<le> st_max_open_callouts w"
    using 14 le_trans [OF callout_table_len_steps(2)] by (simp add: store_wf_def)
  ultimately show ?case
    by (auto simp: store_wf_def callers_live_def is_deleting_def callouts_ok_remove split: if_splits)
next
  case (15 w callout)
  moreover have "is_deleting (st_abi w) (co_caller c) \<or> root_of (contexts w) (co_caller c) = Some (co_root c)"
    if "callout_lookup (callouts w) cid = Some c" for cid c
    using that 15 by (simp add: store_wf_def callers_live_def)
  ultimately show ?case
    by (auto simp: store_wf_def callers_live_def callouts_ok_close is_deleting_def split: if_splits) metis+
qed (erule store_wf_cong; simp)+

section \<open>Properties of a call into a guest\<close>

text \<open>An instance with an empty table, for the witnesses.\<close>

definition sample_services :: "unit vm_services" where
  "sample_services = vm_services_new (\<lambda>_ _ _ e. e)
     \<lparr>realtime_nanos = (\<lambda>e. (0, e)), monotonic_nanos = (\<lambda>e. (0, e))\<rparr> (1, shared_services_default)"

definition sample_store :: "(unit, unit option, unit) store" where
  "sample_store = set_guest_limits limits_default (host_state_new (abi_state_new (GuestId 1) sample_services) () ())
     \<lparr>st_memory := Some (replicate 64 0), st_allocator := True\<rparr>"

text \<open>A runtime that links as documented: the engines agree, and the linker has each import with its type.\<close>

definition sample_link :: "nat \<Rightarrow> import list \<Rightarrow> nat \<Rightarrow> linker \<Rightarrow> string option" where
  "sample_link engine imports eid l =
     (if eid = engine \<and> list_all (resolves l) imports then None else Some ''no such import'')"

definition sample_module :: "unit wasm_module" where
  "sample_module =
     \<lparr>module_exports = [(''proxy_on_memory_allocate'', Func ([I32], [I32]) (\<lambda>_. Return 32)),
        (''proxy_abi_version_0_2_1'', Func ([], []) (\<lambda>_. Return 0))],
      module_imports = [Import ''env'' ''proxy_log'' (Some ([I32, I32, I32], [I32]))],
      module_memory = Some (replicate 64 0), module_state = (), module_engine = 0, module_start = None,
      module_link = sample_link 0 [Import ''env'' ''proxy_log'' (Some ([I32, I32, I32], [I32]))],
      module_start_error = (\<lambda>_. [])\<rparr>"

definition sample_instance :: "(unit, unit option, unit) wasm_instance" where
  "sample_instance =
     \<lparr>in_store = sample_store, in_module = sample_module, in_budget = budget_new limits_default 10,
      in_depth = 8, in_fill = (\<lambda>n e. ((True, replicate n 0), e))\<rparr>"

lemmas sample_defs = sample_instance_def sample_store_def sample_services_def sample_module_def
  host_state_new_def set_guest_limits_def abi_state_new_def limits_default_def

lemma sample_wf: "store_wf (in_store sample_instance)" "ctx_ok (contexts (in_store sample_instance))"
    "\<not> st_poisoned (in_store sample_instance)"
  by (simp_all add: store_wf_def callers_live_def sample_defs ctx_ok_new callouts_ok_new)
    (simp add: callout_table_new_def callout_table_len_def callout_lookup_def)

text \<open>
  C1. No code of a guest can break the tables of the host: whatever the guest runs, which host
  functions it calls with which arguments and in which order, and however the call ends, the
  context and the callout table keep their invariants, every open callout belongs to a live
  context under the root it was opened for, and the guest has no more open callouts than its
  limit.
\<close>

theorem guest_call_keeps_store:
  assumes "store_wf (in_store i)" and "call_typed f params i = (r, i')"
  shows "store_wf (in_store i')"
  using assms by (rule store_wf.keeps_call_typed)

lemma guest_call_keeps_store_witness:
  "store_wf (in_store (snd (call_typed (\<lambda>_. HostCall CallDone (\<lambda>r. Return r)) [] sample_instance)))"
  by (rule guest_call_keeps_store [OF sample_wf(1) prod.collapse [symmetric]])

text \<open>
  C4. A guest cannot touch what belongs to the host: a call into it leaves the identity of the
  guest, the services it runs against, the running callback, the mark of a deletion and of the start
  of the VM, the limits, and the whole of a running delivery (its callout, its maps, its body and its
  trailers) as they were. Of the stream state the embedder lent, the guest can change the contents, and
  those only through the operations it was lent with: which operations these are stays the same, and
  a stream state is lent after the call exactly if one was before.
\<close>

theorem guest_call_leaves_host:
  assumes "call_typed f params i = (r, i')"
  shows "host_part (in_store i') = host_part (in_store i)"
  by (rule host_part.keeps_call_typed [OF refl assms])

lemma guest_call_leaves_host_witness:
  "host_part (in_store (snd (call_typed (\<lambda>_. HostCall (CallLog 2 0 4) (\<lambda>r. Return r)) [] sample_instance))) =
     host_part (in_store sample_instance)"
  by (rule guest_call_leaves_host [OF prod.collapse [symmetric]])

text \<open>
  C3. Isolation of roots: a call into a guest creates and removes no context, and changes no
  type, parent, plugin, stream kind or refusal; it can only move the effective context under the
  same root, set the tick period of that root and finish a pending context under it; every entry
  under another root is exactly as before.
\<close>

theorem guest_call_isolates_roots:
  assumes "ctx_ok (contexts (in_store i))" and "call_typed f params i = (r, i')"
  shows "ctx_frame (contexts (in_store i)) (contexts (in_store i'))"
  using contexts_framed.keeps_call_typed [of "contexts (in_store i)" i f params r i'] assms
  by (simp add: contexts_framed_def)

lemma guest_call_isolates_roots_witness:
  "ctx_frame (contexts (in_store sample_instance))
     (contexts (in_store (snd (call_typed (\<lambda>_. HostCall (CallSetEffectiveContext 1) (\<lambda>r. Return r)) [] sample_instance))))"
  by (rule guest_call_isolates_roots [OF sample_wf(2) prod.collapse [symmetric]])

lemma call_typed_eq:
  "call_typed f params i =
     (if is_poisoned i then (Inl Poisoned, i)
      else case exec_program (host_of i) (f params) (in_store i) of
          (Inr x, w) \<Rightarrow> (Inr x, i\<lparr>in_store := w\<rparr>)
        | (Inl e, w) \<Rightarrow> (Inl (map_guest_error e), i\<lparr>in_store := w\<lparr>st_poisoned := True\<rparr>\<rparr>))"
  by (auto simp: call_typed_def call_on_def is_poisoned_def fail_def poison_def split: prod.splits sum.splits)

lemma call_typed_poisoned: "is_poisoned i \<Longrightarrow> call_typed f params i = (Inl Poisoned, i)"
  by (simp add: call_typed_eq)

end
