(* ===== verification/Guest_Verdict.thy ===== *)
theory Guest_Verdict
  imports Guest_Safety
begin

text \<open>
  What the result of a call tells of the instance. A host function may call the allocator of the
  guest, which may fail and poison the store in the middle of a call; here every such failure is
  shown to end the call, so that a call that returns leaves an instance that is not poisoned.
\<close>

section \<open>The errors of an action\<close>

definition errs :: "('f \<Rightarrow> bool) \<Rightarrow> ('w, 'f, 'a) act \<Rightarrow> bool" where
  "errs P m \<longleftrightarrow> (\<forall>w e. fst (m w) = Inl e \<longrightarrow> P e)"

named_theorems errs_intros "the errors of each step of a body"

lemma errs_pure [errs_intros]:
  "errs P (aret x)" "errs P (aget g)" "errs P (amod f)" "P e \<Longrightarrow> errs P (afail e)" "P e \<Longrightarrow> errs P (aguard p e)"
  "(\<And>e. r = Inl e \<Longrightarrow> P e) \<Longrightarrow> errs P (alift r)" "(\<And>w e. h w = Inl e \<Longrightarrow> P e) \<Longrightarrow> errs P (atry h)"
  by (auto simp: errs_def act_simps split: if_splits)

lemma abind_err:
  assumes "fst (abind m k w) = Inl e"
  obtains w' where "m w = (Inl e, w')" | x w' where "m w = (Inr x, w')" "fst (k x w') = Inl e"
  using assms by (auto simp: abind_def split: prod.splits sum.splits)

lemma map_sum_InlE:
  assumes "map_sum h k r = Inl e"
  obtains x where "r = Inl x" "e = h x"
  using assms by (cases r) auto

lemma errs_abind [errs_intros]: "errs P m \<Longrightarrow> (\<And>x. errs P (k x)) \<Longrightarrow> errs P (abind m k)"
  unfolding errs_def by (intro allI impI) (erule abind_err; metis fst_conv)

lemma errs_map_all: "(\<And>e. P (h e)) \<Longrightarrow> errs P (amap_err h m)"
  by (auto simp: errs_def amap_err_def split: prod.splits elim: map_sum_InlE)

lemma errs_cases [errs_intros]:
  "errs P m \<Longrightarrow> errs P n \<Longrightarrow> errs P (if b then m else n)"
  "errs P m \<Longrightarrow> (\<And>x. errs P (k x)) \<Longrightarrow> errs P (case v of None \<Rightarrow> m | Some x \<Rightarrow> k x)"
  "(\<And>x y. errs P (k' x y)) \<Longrightarrow> errs P (case p of (x, y) \<Rightarrow> k' x y)"
  by (simp_all split: option.split prod.split)

lemma errs_host_cases [errs_intros]:
  "(\<And>x. errs P (k1 x)) \<Longrightarrow> errs P m \<Longrightarrow> errs P (case s1 of CrateServes x \<Rightarrow> k1 x | EmbedderServes \<Rightarrow> m)"
  "(\<And>x. errs P (k2 x)) \<Longrightarrow> (\<And>y. errs P (l2 y)) \<Longrightarrow>
   errs P (case s2 of DeliveredRef x \<Rightarrow> k2 x | StreamRef y \<Rightarrow> l2 y)"
  "(\<And>x. errs P (k3 x)) \<Longrightarrow> (\<And>y. errs P (l3 y)) \<Longrightarrow>
   errs P (case s3 of CrateBytes x \<Rightarrow> k3 x | StreamBuffer y \<Rightarrow> l3 y)"
  "errs P m4 \<Longrightarrow> errs P n4 \<Longrightarrow> (\<And>x. errs P (k4 x)) \<Longrightarrow>
   errs P (case s4 of VmConfigurationBuffer \<Rightarrow> m4 | PluginConfigurationBuffer \<Rightarrow> n4 | DeliveredBuffer x \<Rightarrow> k4 x)"
  "errs P m5 \<Longrightarrow> errs P n5 \<Longrightarrow> errs P k5 \<Longrightarrow>
   errs P (case s5 of WellKnownName \<Rightarrow> m5 | WellKnownRootId \<Rightarrow> n5 | WellKnownVmId \<Rightarrow> k5)"
  "(\<And>c e. errs P (k6 c e)) \<Longrightarrow> errs P m6 \<Longrightarrow> errs P (case s6 of FoundOpen c e \<Rightarrow> k6 c e | FoundEnded \<Rightarrow> m6)"
  "errs P m7 \<Longrightarrow> errs P n7 \<Longrightarrow> errs P k7 \<Longrightarrow>
   errs P (case s7 of HttpCall \<Rightarrow> m7 | GrpcCall \<Rightarrow> n7 | GrpcStream \<Rightarrow> k7)"
  by (simp_all split: served.split map_ref.split source.split crate_buffer.split well_known_property.split
      found.split callout_kind.split)

section \<open>The errors that unwind a guest\<close>

text \<open>
  A host function answers some errors of the crate with a status, and unwinds with the others. An
  error it unwinds with is of the second kind, so no host function further out answers it with a
  status.
\<close>

definition unwinds :: "error \<Rightarrow> bool" where
  "unwinds e \<longleftrightarrow> failure_of_error e = Unwind e"

definition sound_failure :: "failure \<Rightarrow> bool" where
  "sound_failure f \<longleftrightarrow> (\<forall>e. f = Unwind e \<longrightarrow> unwinds e)"

lemma sound_failures [simp, intro]:
  "sound_failure (FStatus s)" "sound_failure (failure_of_error e)" "sound_failure DIVERGES"
  "sound_failure (failure_of_memory m)" "sound_failure (failure_of_unknown u)"
  "sound_failure (failure_of_context_id i)" "sound_failure (failure_of_decode d)"
  "sound_failure (failure_of_encode en)" "sound_failure (failure_of_not_allowed n)"
  by (auto simp: sound_failure_def unwinds_def DIVERGES_def failure_of_memory_def failure_of_unknown_def
      failure_of_context_id_def failure_of_decode_def failure_of_encode_def failure_of_not_allowed_def
      elim: failure_of_error.elims)

lemma sound_results:
  "ok_or f v = Inl e \<Longrightarrow> sound_failure f \<Longrightarrow> sound_failure e"
  "map_sum h k r = Inl e \<Longrightarrow> (\<And>x. sound_failure (h x)) \<Longrightarrow> sound_failure e"
  "from_embedder q = Inl e \<Longrightarrow> sound_failure e"
  by (auto simp: ok_or_def from_embedder_def elim: map_sum_InlE split: option.splits sum.splits if_splits)

abbreviation sound :: "('e, 'h, 'g, 'a) host \<Rightarrow> bool" where
  "sound \<equiv> errs sound_failure"

lemma sound_from_error [errs_intros]: "sound (from_error m)"
  by (simp add: errs_map_all)

lemma sound_never [errs_intros]:
  "sound (on_abi f)" "sound (on_env g)" "sound (on_stream h)" "sound (on_contexts i)" "sound (on_callouts j)"
  "sound (on_abi_get k)" "sound (log_message l b)"
  by (auto simp: errs_def on_abi_def on_env_def on_stream_def on_contexts_def on_callouts_def on_abi_get_def
      log_message_def act_simps split: prod.splits option.splits)


lemma sound_helpers [errs_intros]:
  "sound (arg_slice p n)" "sound (arg_enum f v)" "sound (read_slice sl)" "sound (check_u32 q)" "sound (put_u32 q' x)"
  "sound (put_u64 q'' y)" "sound (within_name_bytes b s1)" "sound within_shared_names" "sound (guest_pairs b')"
  "sound (context_of s2)" "sound (with_stream s3)" "sound settle" "sound (with_shared s4)" "sound (embedder g)"
  "sound (stream_call s5 i)" "sound (room_for_name h)" "sound (queue_arg qa)" "sound (metric_arg ma)"
  "sound (require_queue rq)" "sound (require_metric rm)" "sound plugin_of" "sound (grpc_metadata gm)"
  unfolding arg_slice_def arg_enum_def read_slice_def check_u32_def put_u32_def put_u64_def within_name_bytes_def
    within_shared_names_def guest_pairs_def context_of_def with_stream_def settle_def with_shared_def embedder_def
    stream_call_def room_for_name_def queue_arg_def metric_arg_def require_queue_def require_metric_def plugin_of_def
    grpc_metadata_def
  by ((intro errs_intros)?; auto intro: errs_map_all elim: sound_results split: option.splits if_splits)+

lemma sound_shared:
  "sound (proxy_set_shared_data a b c d e)" "sound (proxy_get_shared_data alloc a b c d e)"
  "sound (proxy_register_shared_queue a b c)" "sound (proxy_resolve_shared_queue a b c d e)"
  "sound (proxy_enqueue_shared_queue a b c)" "sound (proxy_dequeue_shared_queue alloc a b c)"
  "sound (proxy_define_metric a b c d)" "sound (proxy_record_metric a m)" "sound (proxy_increment_metric a m)"
  "sound (proxy_get_metric a b)" "sound proxy_done" "sound (proxy_set_effective_context a)"
  "sound (proxy_set_tick_period_milliseconds a)" "sound (proxy_get_current_time_nanoseconds a)"
  "sound (proxy_log a b c)" "sound (proxy_get_log_level a)"
  unfolding proxy_set_shared_data_def proxy_get_shared_data_def proxy_register_shared_queue_def
    proxy_resolve_shared_queue_def proxy_enqueue_shared_queue_def proxy_dequeue_shared_queue_def
    proxy_define_metric_def proxy_record_metric_def proxy_increment_metric_def proxy_get_metric_def proxy_done_def
    proxy_set_effective_context_def proxy_set_tick_period_milliseconds_def proxy_get_current_time_nanoseconds_def
    proxy_log_def proxy_get_log_level_def Let_def
  by (intro errs_intros; auto elim: sound_results)+

lemma sound_sources [errs_intros]:
  "sound (host_map t access)" "sound (map_read f g m)" "sound (map_write wr m')" "sound (read_buffer b)"
  "sound (write_buffer b')" "sound (source_len s)" "sound (source_copy_range s' i j)" "sound (well_known n)"
  "sound (check_wanted p)"
  unfolding host_map_def delivered_def map_read_def map_write_def read_buffer_def write_buffer_def source_len_def
    source_copy_range_def well_known_def check_wanted_def Let_def
  by ((intro errs_intros)?; auto simp: errs_def elim: sound_results split: option.splits prod.splits)+

lemma sound_streams:
  "sound (proxy_get_header_map_size a b)" "sound (proxy_get_header_map_pairs alloc a b c)"
  "sound (proxy_set_header_map_pairs a b c)" "sound (proxy_get_header_map_value alloc a b c d e)"
  "sound (proxy_add_header_map_value a b c d e)" "sound (proxy_replace_header_map_value a b c d e)"
  "sound (proxy_remove_header_map_value a b c)" "sound (proxy_get_buffer_bytes alloc a b c d e)"
  "sound (proxy_set_buffer_bytes a b c d e)" "sound (proxy_get_buffer_status a b c)"
  "sound (proxy_get_property alloc a b c d)" "sound (proxy_set_property a b c d)" "sound (proxy_continue_stream a)"
  "sound (proxy_close_stream a)" "sound (proxy_send_local_response a b c d e f g h)"
  unfolding proxy_get_header_map_size_def proxy_get_header_map_pairs_def proxy_set_header_map_pairs_def
    proxy_get_header_map_value_def proxy_add_header_map_value_def proxy_replace_header_map_value_def
    write_header_value_def proxy_remove_header_map_value_def proxy_get_buffer_bytes_def proxy_set_buffer_bytes_def
    proxy_get_buffer_status_def proxy_get_property_def proxy_set_property_def proxy_continue_stream_def
    proxy_close_stream_def proxy_send_local_response_def Let_def
  by (intro errs_intros; auto elim: sound_results)+


lemma errs_case_sum [errs_intros]:
  "(\<And>x. s = Inl x \<Longrightarrow> errs P (k x)) \<Longrightarrow> (\<And>y. errs P (l y)) \<Longrightarrow> errs P (case s of Inl x \<Rightarrow> k x | Inr y \<Rightarrow> l y)"
  by (cases s) auto

lemma sound_callout_steps [errs_intros]:
  "sound reserve_callout" "sound (open_callout kind ask)" "sound (find_callout i)" "sound (end_callout c)"
proof -
  show r: "sound reserve_callout"
    by (auto simp: errs_def reserve_callout_def split: option.splits prod.splits)
  show "sound (open_callout kind ask)"
    unfolding open_callout_def by (intro errs_intros r; auto elim: sound_results)
  show "sound (find_callout i)"
    unfolding find_callout_def by (intro errs_intros; auto elim: sound_results)
  show "sound (end_callout c)"
    by (auto simp: errs_def end_callout_def abind_def act_simps on_callouts_def on_abi_def on_env_def split: prod.splits sum.splits)
qed

lemma sound_callouts:
  "sound (proxy_http_call a b c d e f g h i j)" "sound (proxy_get_status alloc a b c)"
  "sound (proxy_grpc_call a b c d e f g h i j k l)" "sound (proxy_grpc_stream a b c d e f g h i)"
  "sound (proxy_grpc_send a b c d)" "sound (proxy_grpc_cancel a)" "sound (proxy_grpc_close a)"
  "sound (proxy_call_foreign_function alloc a b c d e f)"
  unfolding proxy_http_call_def proxy_get_status_def proxy_grpc_call_def proxy_grpc_stream_def proxy_grpc_send_def
    proxy_grpc_cancel_def proxy_grpc_close_def proxy_call_foreign_function_def Let_def
  by (intro errs_intros; auto elim: sound_results)+

section \<open>The errors of a call\<close>

text \<open>So every failure of guest code, seen from the host function that called it, unwinds.\<close>

definition fatal :: "wasm_error \<Rightarrow> bool" where
  "fatal e \<longleftrightarrow> unwinds (map_guest_error e)"

lemma fatal_trapped [simp]: "fatal (Trapped t b)" "fatal (OtherError m b)"
  by (cases t; simp add: fatal_def unwinds_def) (simp add: fatal_def unwinds_def)

lemma fatal_host_result: "sound m \<Longrightarrow> errs fatal (host_result m)"
  by (auto simp: errs_def host_result_def complete_def fatal_def sound_failure_def
      split: prod.splits sum.splits failure.splits) (metis fst_conv)

lemma fatal_wasi_answer: "errs fatal (wasi_answer m)"
  by (simp add: errs_def wasi_answer_def split: prod.splits)

lemma fatal_proc_exit: "errs fatal (alift (map_sum id (\<lambda>_. 0) (proc_exit code)))"
  by (simp add: errs_def act_simps proc_exit_def fatal_def unwinds_def)

lemma fatal_host_body: "errs fatal (host_body alloc fill c)"
  by (cases c)
    (simp_all only: host_body.simps,
      (intro fatal_host_result fatal_wasi_answer fatal_proc_exit errs_pure sound_shared sound_streams sound_callouts)+)

lemma fatal_exec_program: "(\<And>c. errs fatal (host c)) \<Longrightarrow> errs fatal (exec_program host p)"
proof (induction p)
  case (HostCall c k)
  then show ?case by (auto intro!: errs_abind)
qed (auto simp: errs_def act_simps)

lemma fatal_alloc_at: "errs fatal (alloc_at fill code depth n)"
  by (cases depth) (auto intro!: errs_pure fatal_exec_program fatal_host_body)


section \<open>Poison ends a call\<close>

interpretation live: host_invariant "\<lambda>w. \<not> st_poisoned w"
  by unfold_locales (simp_all split: if_splits)

definition stops :: "('f \<Rightarrow> bool) \<Rightarrow> (('e, 'h, 'g) store, 'f, 'a) act \<Rightarrow> bool" where
  "stops P m \<longleftrightarrow>
     (\<forall>w. \<not> st_poisoned w \<longrightarrow> st_poisoned (snd (m w)) \<longrightarrow> (\<exists>e. fst (m w) = Inl e \<and> P e))"

abbreviation unwound :: "failure \<Rightarrow> bool" where
  "unwound f \<equiv> \<exists>e. f = Unwind e"

lemma stops_keeps: "keeps (\<lambda>w. \<not> st_poisoned w) m \<Longrightarrow> stops P m"
  by (simp add: stops_def keeps_def)

lemma stopsI:
  assumes "\<And>w r w'. m w = (r, w') \<Longrightarrow> \<not> st_poisoned w \<Longrightarrow> st_poisoned w' \<Longrightarrow> \<exists>e. r = Inl e \<and> P e"
  shows "stops P m"
  unfolding stops_def by (metis assms prod.collapse)

lemma stopsD:
  assumes "stops P m" "m w = (r, w')" "\<not> st_poisoned w" "st_poisoned w'"
  shows "\<exists>e. r = Inl e \<and> P e"
  using assms unfolding stops_def by (metis fst_conv snd_conv)

lemma stops_abind:
  assumes "stops P m" "\<And>x. stops P (k x)"
  shows "stops P (abind m k)"
proof (rule stopsI)
  fix w r w' assume a: "abind m k w = (r, w')" "\<not> st_poisoned w" "st_poisoned w'"
  from a(1) show "\<exists>e. r = Inl e \<and> P e"
  proof (cases rule: abind_cases)
    case (1 e)
    with stopsD [OF assms(1) 1(1) a(2,3)] show ?thesis by simp
  next
    case (2 x v)
    then have "\<not> st_poisoned v" using stopsD [OF assms(1) 2(1) a(2)] by auto
    with stopsD [OF assms(2) 2(2) _ a(3)] show ?thesis .
  qed
qed

lemma stops_cases:
  "stops P m \<Longrightarrow> stops P n \<Longrightarrow> stops P (if b then m else n)"
  "stops P m \<Longrightarrow> (\<And>x. stops P (k x)) \<Longrightarrow> stops P (case v of None \<Rightarrow> m | Some x \<Rightarrow> k x)"
  "(\<And>x y. stops P (k' x y)) \<Longrightarrow> stops P (case p of (x, y) \<Rightarrow> k' x y)"
  "(\<And>x. stops P (k1 x)) \<Longrightarrow> (\<And>y. stops P (l1 y)) \<Longrightarrow> stops P (case s of Inl x \<Rightarrow> k1 x | Inr y \<Rightarrow> l1 y)"
  by (simp_all split: option.split prod.split sum.split)

lemma stops_from_error:
  assumes "stops unwinds m"
  shows "stops unwound (from_error m)"
proof (rule stopsI)
  fix w r w' assume a: "from_error m w = (r, w')" "\<not> st_poisoned w" "st_poisoned w'"
  then obtain r0 where m: "m w = (r0, w')" "r = map_sum failure_of_error id r0"
    by (auto simp: amap_err_def split: prod.splits)
  with stopsD [OF assms m(1) a(2,3)] show "\<exists>e. r = Inl e \<and> unwound e"
    by (auto simp: unwinds_def)
qed

lemma stops_allocate:
  assumes "\<And>n. stops (\<lambda>_. True) (alloc n)" "\<And>n. errs fatal (alloc n)"
  shows "stops unwinds (allocate alloc sz)"
proof (rule stopsI)
  fix w r w' assume a: "allocate alloc sz w = (r, w')" "\<not> st_poisoned w" "st_poisoned w'"
  then obtain n r0 v where n: "alloc n w = (r0, v)"
      "(r, w') = (case r0 of Inr address \<Rightarrow>
         (if address = 0 then Inl (AllocationFailed sz) else Inr (guest_ptr_of address), v)
       | Inl e \<Rightarrow> (Inl (map_guest_error e), poison v))"
    by (auto simp: allocate_def fail_def split: option.splits if_splits prod.splits sum.splits)
  show "\<exists>e. r = Inl e \<and> unwinds e"
  proof (cases r0)
    case (Inl e)
    then have "fatal e" using assms(2) [of n] n(1) by (auto simp: errs_def) (metis fst_conv)
    with n(2) Inl show ?thesis by (simp add: fatal_def)
  next
    case (Inr address)
    with stopsD [OF assms(1) n(1) a(2)] n(2) a(3) show ?thesis by simp
  qed
qed

lemma stops_write_return:
  assumes "\<And>n. stops (\<lambda>_. True) (alloc n)" "\<And>n. errs fatal (alloc n)"
  shows "stops unwinds (write_to_guest alloc bs)" "stops unwinds (write_optional_return alloc bs p q)"
    "stops unwinds (write_return alloc bs p' q')"
proof -
  note step = stops_abind stops_cases
  have pure: "stops unwinds m" if "keeps (\<lambda>w. \<not> st_poisoned w) m" for m
    using that by (rule stops_keeps)
  show 1: "stops unwinds (write_to_guest alloc bs)" for bs
    unfolding write_to_guest_def
    by (rule step stops_allocate assms | rule pure, (intro keeps_intros live.keeps_steps live.keeps_any_service; fail))+
  show "stops unwinds (write_optional_return alloc bs p q)" for p q
    unfolding write_optional_return_def check_return_def
    by (rule step 1 | rule pure, (intro keeps_intros live.keeps_steps live.keeps_any_service; fail))+
  then show "stops unwinds (write_return alloc bs p' q')"
    by (simp add: write_return_def)
qed


lemma stops_returning:
  assumes "\<And>n. stops (\<lambda>_. True) (alloc n)" "\<And>n. errs fatal (alloc n)"
  shows "stops unwound (proxy_get_shared_data alloc a b c d e)" "stops unwound (proxy_dequeue_shared_queue alloc a b c)"
    "stops unwound (proxy_get_header_map_pairs alloc a b c)" "stops unwound (proxy_get_header_map_value alloc a b c d e)"
    "stops unwound (proxy_get_buffer_bytes alloc a b c d e)" "stops unwound (proxy_get_property alloc a b c d)"
    "stops unwound (proxy_call_foreign_function alloc a b c d e f)" "stops unwound (proxy_get_status alloc a b c)"
  unfolding proxy_get_shared_data_def proxy_dequeue_shared_queue_def proxy_get_header_map_pairs_def
    proxy_get_header_map_value_def proxy_get_buffer_bytes_def proxy_get_property_def
    proxy_call_foreign_function_def check_wanted_def proxy_get_status_def Let_def
  by (rule stops_abind stops_cases stops_from_error stops_write_return assms
      | rule stops_keeps, (intro keeps_intros live.keeps_steps live.keeps_any_service live.keeps_maps live.keeps_sources live.keeps_well_known; fail))+


lemma stops_host_result: "stops unwound m \<Longrightarrow> stops (\<lambda>_. True) (host_result m)"
proof (rule stopsI)
  fix w r w' assume m: "stops unwound m" and a: "host_result m w = (r, w')" "\<not> st_poisoned w" "st_poisoned w'"
  then obtain r0 where "m w = (r0, w')" "r = complete r0"
    by (auto simp: host_result_def split: prod.splits)
  with stopsD [OF m _ a(2,3)] show "\<exists>e. r = Inl e \<and> True"
    by (fastforce simp: complete_def)
qed

lemma stops_host_body:
  assumes "\<And>n. stops (\<lambda>_. True) (alloc n)" "\<And>n. errs fatal (alloc n)"
  shows "stops (\<lambda>_. True) (host_body alloc fill c)"
  by (cases c)
    (simp_all only: host_body.simps,
      (rule stops_host_result stops_returning assms
       | rule stops_keeps, (intro live.keeps_host_result live.keeps_wasi_answer live.keeps_proxy_done
          live.keeps_proxy_set_effective_context live.keeps_log live.keeps_proxy_set_tick_period live.keeps_buffers
          live.keeps_header_maps live.keeps_streams live.keeps_callouts live.keeps_shared_data
          live.keeps_register_shared_queue
          live.keeps_set_property live.keeps_wasi live.keeps_environ live.keeps_any_service keeps_pure; fail))+)

lemma stops_exec_program:
  assumes "\<And>c. stops (\<lambda>_. True) (host c)"
  shows "stops (\<lambda>_. True) (exec_program host p)"
proof (induction p)
  case (HostCall c k)
  then show ?case by (auto intro!: stops_abind assms)
next
  case (Update f p)
  have "st_poisoned (guest_update f w) = st_poisoned w" for w :: "('a, 'b, 'c) store"
    by (simp add: guest_update_def split: prod.split)
  with Update show ?case by (auto simp: stops_def)
next
  case (Inspect k)
  then have "stops (\<lambda>_. True) (exec_program host (k m g))" for m g by blast
  then show ?case by (simp add: stops_def)
qed (auto simp: stops_def act_simps)

lemma stops_alloc_at: "stops (\<lambda>_. True) (alloc_at fill code depth n)"
  by (induction depth arbitrary: n)
    (auto intro!: stops_exec_program stops_host_body fatal_alloc_at intro: stops_keeps keeps_pure)

lemma stops_host_of: "stops (\<lambda>_. True) (host_of i c)"
  by (simp add: host_of_def Let_def stops_host_body stops_alloc_at fatal_alloc_at)

text \<open>A call that returns leaves an instance that is not poisoned.\<close>

lemma call_typed_live: "call_typed f params i = (Inr v, i') \<Longrightarrow> \<not> is_poisoned i'"
  using stopsD [OF stops_exec_program [where host = "host_of i" and p = "f params", OF stops_host_of], of "in_store i"]
  by (fastforce simp: call_typed_eq is_poisoned_def split: if_splits prod.splits sum.splits)

text \<open>The parts of what a failed call leaves.\<close>

lemma poison_parts:
  assumes "call_typed f params i = (Inl e, i')"
  shows "is_poisoned i'"
    and "\<not> is_poisoned i \<Longrightarrow> \<exists>x. e = map_guest_error x \<and>
      fst (exec_program (host_of i) (f params) (in_store i)) = Inl x"
    and "fold (\<lambda>(g, ps) (rs, j). case call_typed g ps j of (r, j) \<Rightarrow> (rs @ [r], j)) calls ([], i') =
      (replicate (length calls) (Inl Poisoned), i')"
proof -
  show p: "is_poisoned i'"
    using assms by (auto simp: call_typed_eq is_poisoned_def split: if_splits prod.splits sum.splits)
  show "\<exists>x. e = map_guest_error x \<and> fst (exec_program (host_of i) (f params) (in_store i)) = Inl x"
    if "\<not> is_poisoned i"
    using assms that by (auto simp: call_typed_eq split: prod.splits sum.splits)
  have "fold (\<lambda>(g, ps) (rs, j). case call_typed g ps j of (r, j) \<Rightarrow> (rs @ [r], j)) calls (rs, i') =
      (rs @ replicate (length calls) (Inl Poisoned), i')" for rs
    by (induction calls arbitrary: rs)
      (auto simp: call_typed_poisoned [OF p] replicate_append_same simp flip: replicate_append_same)
  then show "fold (\<lambda>(g, ps) (rs, j). case call_typed g ps j of (r, j) \<Rightarrow> (rs @ [r], j)) calls ([], i') =
      (replicate (length calls) (Inl Poisoned), i')" by simp
qed

text \<open>
  C27. The result of a call tells the state of the instance: it is poisoned exactly when the call
  failed, whatever the reason (an epoch, fuel or stack limit, an error of the crate, a trap) and
  however deep the failure was, in the allocator of the guest too; so a call that returns leaves
  an instance that can serve. The error of a live instance is the one the runtime error maps to.
  And poison is for ever: after a failure every sequence of calls, of any functions of the guest,
  answers \<open>Poisoned\<close> throughout and changes nothing.
\<close>

theorem guest_call_poison:
  assumes "call_typed f params i = (r, i')"
  shows "(is_poisoned i' \<longleftrightarrow> (\<exists>e. r = Inl e)) \<and>
    (\<forall>e. r = Inl e \<longrightarrow> \<not> is_poisoned i \<longrightarrow> (\<exists>x. e = map_guest_error x \<and>
       fst (exec_program (host_of i) (f params) (in_store i)) = Inl x)) \<and>
    (\<forall>e. r = Inl e \<longrightarrow>
       fold (\<lambda>(g, ps) (rs, j). case call_typed g ps j of (r, j) \<Rightarrow> (rs @ [r], j)) calls ([], i') =
         (replicate (length calls) (Inl Poisoned), i'))"
proof (cases r)
  case (Inl e)
  with assms have "call_typed f params i = (Inl e, i')" by simp
  from poison_parts [OF this] Inl show ?thesis by blast
next
  case (Inr v)
  with assms have "call_typed f params i = (Inr v, i')" by simp
  from call_typed_live [OF this] Inr show ?thesis by simp
qed

lemma guest_call_poison_witness:
  "is_poisoned (snd (call_typed (\<lambda>_. TrapWith Interrupt None) [] sample_instance)) \<and>
   \<not> is_poisoned (snd (call_typed (\<lambda>_. Return 3) [] sample_instance))"
proof -
  have f: "call_typed (\<lambda>_. TrapWith Interrupt None) [] sample_instance =
      (Inl (LimitExceeded Epoch), snd (call_typed (\<lambda>_. TrapWith Interrupt None) [] sample_instance))"
    and g: "call_typed (\<lambda>_. Return 3) [] sample_instance = (Inr 3, sample_instance)"
    using sample_wf(3) by (simp_all add: call_typed_eq is_poisoned_def act_simps)
  from guest_call_poison [OF f] guest_call_poison [OF g] show ?thesis by (simp add: g)
qed

end
