(* ===== verification/Scope_Invariants.thy ===== *)
theory Scope_Invariants
  imports Call_Scopes Guest_Safety
begin

text \<open>
  What the operations of an embedder keep. Every callback is a few checks, a run of guest code
  and a change of the tables; the lemmas here show, operation by operation, that the tables stay
  well formed and that between two operations the guest is idle: no callback is running, nothing
  is delivered, announced or being deleted.
\<close>

section \<open>The parts of a guest\<close>

lemma set_store_simps [simp]:
  "g_store (set_store f g) = f (g_store g)" "g_callbacks (set_store f g) = g_callbacks g"
  "detached (set_store f g) = detached g" "in_module (g_instance (set_store f g)) = in_module (g_instance g)"
  by (simp_all add: set_store_def g_store_def)

lemma change_simps [simp]:
  "g_store (change_abi f g) = set_abi f (g_store g)" "g_callbacks (change_abi f g) = g_callbacks g"
  "detached (change_abi f g) = detached g"
  "g_store (change_contexts h g) = set_abi (\<lambda>a. a\<lparr>contexts_of := h (contexts_of a)\<rparr>) (g_store g)"
  "g_callbacks (change_contexts h g) = g_callbacks g" "detached (change_contexts h g) = detached g"
  "g_store (change_callouts k g) = set_abi (\<lambda>a. a\<lparr>callouts_of := k (callouts_of a)\<rparr>) (g_store g)"
  "g_callbacks (change_callouts k g) = g_callbacks g" "detached (change_callouts k g) = detached g"
  by (simp_all add: change_abi_def change_contexts_def change_callouts_def)

lemma guest_is_poisoned_store: "guest_is_poisoned g = st_poisoned (g_store g)"
  by (simp add: guest_is_poisoned_def is_poisoned_def g_store_def)

lemma guest_poisoned_simps [simp]:
  "guest_is_poisoned (change_abi f g) = guest_is_poisoned g"
  "guest_is_poisoned (change_contexts h g) = guest_is_poisoned g"
  "guest_is_poisoned (change_callouts k g) = guest_is_poisoned g"
  by (simp_all add: guest_is_poisoned_store)

section \<open>One run of guest code\<close>

text \<open>
  The laws of a relation between the state before and after a run: the guest is called at most
  once, so what a call keeps, the callback keeps.
\<close>

lemma call_callback_keeps:
  assumes "call_callback cb params answer g = (r, g')" and "I (g_store g)"
    and "\<And>f i r i'. call_typed f params i = (r, i') \<Longrightarrow> I (in_store i) \<Longrightarrow> I (in_store i')"
  shows "I (g_store g')"
  using assms by (auto simp: call_callback_def g_store_def split: option.splits prod.splits)

lemma call_callback_same:
  assumes "call_callback cb params answer g = (r, g')"
  shows "host_part (g_store g') = host_part (g_store g)" "g_callbacks g' = g_callbacks g"
    "detached g' = detached g"
    "announced (abi_of g') = None \<or> announced (abi_of g') = announced (abi_of g)"
    "ctx_ok (contexts_of (abi_of g)) \<Longrightarrow>
       ctx_ok (contexts_of (abi_of g')) \<and> ctx_frame (contexts_of (abi_of g)) (contexts_of (abi_of g'))"
    "guest_is_poisoned g \<Longrightarrow> guest_is_poisoned g' \<and> callouts_of (abi_of g') = callouts_of (abi_of g)"
    "store_wf (g_store g) \<Longrightarrow> store_wf (g_store g')"
proof -
  note k = call_callback_keeps [OF assms]
  show "host_part (g_store g') = host_part (g_store g)"
    by (rule k) (auto dest: host_part.keeps_call_typed)
  show "g_callbacks g' = g_callbacks g" "detached g' = detached g"
    using assms by (auto simp: call_callback_def split: option.splits prod.splits)
  show "announced (abi_of g') = None \<or> announced (abi_of g') = announced (abi_of g)"
    by (rule k [of "\<lambda>w. announced (st_abi w) = None \<or> announced (st_abi w) = announced (abi_of g)"])
      (simp, rule announced.keeps_call_typed)
  show "ctx_ok (contexts_of (abi_of g')) \<and> ctx_frame (contexts_of (abi_of g)) (contexts_of (abi_of g'))"
    if "ctx_ok (contexts_of (abi_of g))"
  proof -
    have "contexts_framed (contexts_of (abi_of g)) (g_store g')"
      by (rule k) (use that in \<open>simp add: contexts_framed_def\<close>, rule contexts_framed.keeps_call_typed)
    then show ?thesis by (simp add: contexts_framed_def)
  qed
  show "store_wf (g_store g')" if "store_wf (g_store g)"
    by (rule k [of store_wf, OF that]) (auto dest: store_wf.keeps_call_typed)
  show "guest_is_poisoned g' \<and> callouts_of (abi_of g') = callouts_of (abi_of g)" if "guest_is_poisoned g"
    using assms that
    by (auto simp: call_callback_def guest_is_poisoned_def call_typed_def call_on_def is_poisoned_def
        g_store_def split: option.splits prod.splits)
qed

text \<open>A callback that fails leaves a poisoned guest.\<close>

lemma call_callback_failed:
  "call_callback cb params answer g = (Inl e, g') \<Longrightarrow> guest_is_poisoned g'"
  by (auto simp: call_callback_def guest_is_poisoned_def call_typed_def call_on_def is_poisoned_def fail_def
      poison_def split: option.splits prod.splits sum.splits if_splits)

text \<open>What decides which context is a child of which, and what a context is.\<close>

definition ctx_shape :: "context_table \<Rightarrow> context_id \<Rightarrow>
    (context_type \<times> stream_kind option \<times> context_id option \<times> bool \<times> plugin_config option) option" where
  "ctx_shape t c = map_option (\<lambda>e. (context_type_of e, entry_stream_kind e, entry_parent e, entry_rejected e,
     entry_plugin e)) (ctx_entry t c)"

lemma ctx_frame_shape: "ctx_frame t t' \<Longrightarrow> ctx_shape t' = ctx_shape t"
proof
  fix c assume "ctx_frame t t'"
  then have "rel_option entry_frame (ctx_entry t c) (ctx_entry t' c)"
    by (simp add: ctx_frame_def)
  then show "ctx_shape t' c = ctx_shape t c"
    by (cases "ctx_entry t c"; cases "ctx_entry t' c") (auto simp: ctx_shape_def entry_frame_def)
qed

lemma shape_lookups:
  assumes "ctx_shape t' = ctx_shape t"
  shows "root_of t' c = root_of t c" "ctx_type t' c = ctx_type t c" "ctx_parent t' c = ctx_parent t c"
    "ctx_stream_kind t' c = ctx_stream_kind t c" "(ctx_entry t' c = None) = (ctx_entry t c = None)"
proof -
  have a: "ctx_shape t' c = ctx_shape t c" by (simp add: assms)
  show "root_of t' c = root_of t c" "ctx_type t' c = ctx_type t c" "ctx_parent t' c = ctx_parent t c"
    "ctx_stream_kind t' c = ctx_stream_kind t c" "(ctx_entry t' c = None) = (ctx_entry t c = None)"
    using a by (cases "ctx_entry t c"; cases "ctx_entry t' c";
      simp add: ctx_shape_def root_of_def ctx_type_def ctx_parent_def ctx_stream_kind_def)+
qed

lemma has_children_iff:
  assumes "ctx_ok t"
  shows "has_children t c \<longleftrightarrow> ctx_type t c = Some Root \<and> (\<exists>d. ctx_parent t d = Some c)"
proof -
  have "btm_ok (entries t)" using assms by (simp add: ctx_ok_def)
  then have "list_ex (\<lambda>(_, e). entry_parent e = Some c) (entries t) \<longleftrightarrow>
      (\<exists>d e. ctx_entry t d = Some e \<and> entry_parent e = Some c)"
    using btm_iter_get [of "entries t"] by (fastforce simp: list_ex_iff)
  then show ?thesis
    by (simp add: has_children_def ctx_parent_def bind_eq_Some_conv)
qed

lemma shape_has_children:
  "ctx_ok t \<Longrightarrow> ctx_ok t' \<Longrightarrow> ctx_shape t' = ctx_shape t \<Longrightarrow> has_children t' c = has_children t c"
  by (simp add: has_children_iff shape_lookups(2,3) [of t' t])

lemma set_effective_shape [simp]:
  "ctx_shape (snd (ctx_set_effective c t)) = ctx_shape t"
  "ctx_entry (snd (ctx_set_effective c t)) = ctx_entry t"
  "vm_rejected (snd (ctx_set_effective c t)) = vm_rejected t"
  by (auto simp: ctx_set_effective_def ctx_shape_def [abs_def])

section \<open>Well-formed guests\<close>

text \<open>
  A guest that is not poisoned has a well-formed store; a poisoned one may hold callouts of a
  context that is gone, for the embedder to read.
\<close>

definition tables_ok :: "('e, 'v, 'g) guest \<Rightarrow> bool" where
  "tables_ok g \<longleftrightarrow>
     ctx_ok (contexts_of (abi_of g)) \<and> callouts_ok (callouts_of (abi_of g)) \<and>
     (guest_is_poisoned g \<or> store_wf (g_store g))"

definition idle_but :: "context_id option \<Rightarrow> ('e, 'v, 'g) guest \<Rightarrow> bool" where
  "idle_but d g \<longleftrightarrow>
     current_callback (abi_of g) = None \<and> delivery_of (abi_of g) = None \<and>
     announced (abi_of g) = None \<and> deleting (abi_of g) = d"

definition guest_wf :: "('e, 'v, 'g) guest \<Rightarrow> bool" where
  "guest_wf g \<longleftrightarrow> tables_ok g \<and> idle_but None g"

text \<open>The parts of a guest that every callback leaves alone.\<close>

definition guest_fixed :: "('e, 'v, 'g) guest \<Rightarrow> guest_id \<times> 'e vm_services \<times> nat \<times> 'g callbacks" where
  "guest_fixed g =
     (guest_of (abi_of g), services_of (abi_of g), st_max_open_callouts (g_store g), g_callbacks g)"

lemma tables_ok_cong:
  assumes "tables_ok g" "contexts_of (abi_of g') = contexts_of (abi_of g)"
    "callouts_of (abi_of g') = callouts_of (abi_of g)" "deleting (abi_of g') = deleting (abi_of g)"
    "st_max_open_callouts (g_store g') = st_max_open_callouts (g_store g)"
    "guest_is_poisoned g' = guest_is_poisoned g"
  shows "tables_ok g'"
  using assms by (auto simp: tables_ok_def intro: store_wf_cong)

lemma tables_ok_contexts:
  assumes "tables_ok g" and "ctx_ok (f (contexts_of (abi_of g)))"
    and "\<And>c r. root_of (contexts_of (abi_of g)) c = Some r \<Longrightarrow> root_of (f (contexts_of (abi_of g))) c = Some r"
  shows "tables_ok (change_contexts f g)"
  using assms by (auto simp: tables_ok_def store_wf_def callers_live_def is_deleting_def)

section \<open>The run of a callback\<close>

lemma run_effects:
  assumes "run ctx cb params answer g = (r, g')" and ok: "tables_ok g"
  shows "tables_ok g'" "current_callback (abi_of g') = None" "deleting (abi_of g') = deleting (abi_of g)"
    "(delivery_of (abi_of g') = None) = (delivery_of (abi_of g) = None)"
    "announced (abi_of g') = None \<or> announced (abi_of g') = announced (abi_of g)"
    "ctx_shape (contexts_of (abi_of g')) = ctx_shape (contexts_of (abi_of g))"
    "vm_rejected (contexts_of (abi_of g')) = vm_rejected (contexts_of (abi_of g))"
    "guest_fixed g' = guest_fixed g"
    "map_option fst (stream_state_of (abi_of g')) = map_option fst (stream_state_of (abi_of g))"
    "\<And>e. r = Inl e \<Longrightarrow> guest_is_poisoned g'" "guest_is_poisoned g \<Longrightarrow> guest_is_poisoned g'"
proof -
  define g1 where "g1 = change_abi (\<lambda>a. a\<lparr>current_callback := Some cb\<rparr>)
      (change_contexts (\<lambda>t. snd (ctx_set_effective ctx t)) g)"
  obtain g2 where c: "call_callback cb params answer g1 = (r, g2)"
    and g': "g' = change_abi (\<lambda>a. a\<lparr>current_callback := None\<rparr>) g2"
    using assms(1) by (auto simp: run_def g1_def Let_def split: prod.splits)
  have ctx1: "contexts_of (abi_of g1) = snd (ctx_set_effective ctx (contexts_of (abi_of g)))"
    by (simp add: g1_def)
  have ok1: "ctx_ok (contexts_of (abi_of g1))"
    using ok by (simp add: ctx1 tables_ok_def ctx_ok_setters)
  have t1: "tables_ok g1"
  proof -
    have "tables_ok (change_contexts (\<lambda>t. snd (ctx_set_effective ctx t)) g)"
      using ok ok1 by (intro tables_ok_contexts) (simp_all add: ctx1 shape_lookups(1) [OF set_effective_shape(1)])
    then show ?thesis
      unfolding g1_def by (rule tables_ok_cong) simp_all
  qed
  note same = call_callback_same [OF c]
  have frame: "ctx_ok (contexts_of (abi_of g2))" "ctx_frame (contexts_of (abi_of g1)) (contexts_of (abi_of g2))"
    using same(5) [OF ok1] by simp_all
  have "tables_ok g2"
    using t1 same(6,7) frame(1) by (auto simp: tables_ok_def store_wf_def)
  then show "tables_ok g'"
    unfolding g' by (rule tables_ok_cong) simp_all
  show "current_callback (abi_of g') = None"
    by (simp add: g')
  have hp: "host_part (g_store g2) = host_part (g_store g1)" by (rule same(1))
  show "deleting (abi_of g') = deleting (abi_of g)" "guest_fixed g' = guest_fixed g"
    "(delivery_of (abi_of g') = None) = (delivery_of (abi_of g) = None)"
    "map_option fst (stream_state_of (abi_of g')) = map_option fst (stream_state_of (abi_of g))"
    using hp same(2) by (auto simp: g' host_part_def g1_def guest_fixed_def)
  show "announced (abi_of g') = None \<or> announced (abi_of g') = announced (abi_of g)"
    using same(4) by (simp add: g' g1_def)
  show "ctx_shape (contexts_of (abi_of g')) = ctx_shape (contexts_of (abi_of g))"
    using ctx_frame_shape [OF frame(2)] by (simp add: g' ctx1)
  show "vm_rejected (contexts_of (abi_of g')) = vm_rejected (contexts_of (abi_of g))"
    using frame(2) by (simp add: g' ctx1 ctx_frame_def)
  show "guest_is_poisoned g'" if "r = Inl e" for e
    using call_callback_failed c that by (auto simp: g')
  show "guest_is_poisoned g'" if "guest_is_poisoned g"
    using same(6) that by (simp add: g' g1_def)
qed

section \<open>Operations that leave the contexts as they are\<close>

text \<open>
  \<open>calm g g'\<close>: from a guest that is ready for a callback to one that is, with the same
  contexts, the same refusals, the same host part, the same type of stream state, and poison
  that stays.
\<close>

definition ready :: "('e, 'v, 'g) guest \<Rightarrow> bool" where
  "ready g \<longleftrightarrow> tables_ok g \<and> idle_but (deleting (abi_of g)) g"

definition calm :: "('e, 'v, 'g) guest \<Rightarrow> ('e, 'v, 'g) guest \<Rightarrow> bool" where
  "calm g g' \<longleftrightarrow>
     tables_ok g' \<and> idle_but (deleting (abi_of g)) g' \<and>
     ctx_shape (contexts_of (abi_of g')) = ctx_shape (contexts_of (abi_of g)) \<and>
     vm_rejected (contexts_of (abi_of g')) = vm_rejected (contexts_of (abi_of g)) \<and>
     guest_fixed g' = guest_fixed g \<and>
     map_option fst (stream_state_of (abi_of g')) = map_option fst (stream_state_of (abi_of g)) \<and>
     (guest_is_poisoned g \<longrightarrow> guest_is_poisoned g')"

definition calms :: "(('e, 'v, 'g) guest, 'f, 'a) act \<Rightarrow> bool" where
  "calms m \<longleftrightarrow> (\<forall>g. ready g \<longrightarrow> calm g (snd (m g)))"

named_theorems calms_intros "operations that leave the contexts as they are"

lemma calm_ready: "calm g g' \<Longrightarrow> ready g'"
  by (auto simp: calm_def ready_def idle_but_def)

lemma calm_deleting: "calm g g' \<Longrightarrow> deleting (abi_of g') = deleting (abi_of g)"
  by (simp add: calm_def idle_but_def)

lemma calm_refl: "ready g \<Longrightarrow> calm g g"
  by (simp add: calm_def ready_def)

lemma calm_trans: "calm g h \<Longrightarrow> calm h k \<Longrightarrow> calm g k"
  by (auto simp: calm_def idle_but_def)

lemma calmsD: "calms m \<Longrightarrow> ready g \<Longrightarrow> m g = (r, g') \<Longrightarrow> calm g g'"
  by (auto simp: calms_def dest!: spec [of _ g])

lemma calms_pure [calms_intros]:
  "calms (aret x)" "calms (afail e)" "calms (aget f)" "calms (alift r)" "calms (atry h)" "calms (aguard p e)"
  by (simp_all add: calms_def act_simps calm_refl)

lemma calms_abind [calms_intros]:
  fixes m :: "(('e, 'v, 'g) guest, 'f, 'a) act"
  assumes "calms m" "\<And>x. calms (k x)"
  shows "calms (abind m k)"
  unfolding calms_def
proof (intro allI impI)
  fix g :: "('e, 'v, 'g) guest" assume g: "ready g"
  obtain r h where m: "m g = (r, h)" by fastforce
  note h = calmsD [OF assms(1) g m]
  show "calm g (snd (abind m k g))"
  proof (cases r)
    case (Inr x)
    with h calmsD [OF assms(2) calm_ready [OF h] prod.collapse [symmetric]] show ?thesis
      by (auto simp: abind_def m intro: calm_trans)
  qed (use h in \<open>simp add: abind_def m\<close>)
qed

lemma calms_amap_err [calms_intros]: "calms m \<Longrightarrow> calms (amap_err f m)"
  by (auto simp: calms_def amap_err_def split: prod.splits)

lemma calms_cases [calms_intros]:
  "calms m \<Longrightarrow> calms n \<Longrightarrow> calms (if b then m else n)"
  "calms m \<Longrightarrow> (\<And>x. calms (k x)) \<Longrightarrow> calms (case v of None \<Rightarrow> m | Some x \<Rightarrow> k x)"
  "(\<And>x y. calms (l x y)) \<Longrightarrow> calms (case p of (x, y) \<Rightarrow> l x y)"
  by (simp_all split: option.split prod.split)

lemma calms_require_live [calms_intros]: "calms require_live"
  by (auto simp: calms_def require_live_def ready_def idle_but_def calm_def)

lemma run_calm:
  assumes "run ctx cb params answer g = (r, g')" and "tables_ok g"
    and "delivery_of (abi_of g) = None" "announced (abi_of g) = None"
  shows "calm g g'"
  using run_effects [OF assms(1,2)] assms(3,4) by (auto simp: calm_def idle_but_def)

lemma calms_run [calms_intros]: "calms (run ctx cb params answer)"
  by (auto simp: calms_def ready_def idle_but_def intro: run_calm [OF prod.collapse [symmetric]])

text \<open>A delivery: what it takes out and what it lends is put back.\<close>

lemma tables_ok_remove: "tables_ok g \<Longrightarrow> tables_ok (change_callouts (\<lambda>t. snd (callout_remove c t)) g)"
  using store_wf.keep_remove [of "g_store g" c]
  by (auto simp: tables_ok_def callouts_ok_remove)

lemma tables_ok_enter:
  "tables_ok g \<Longrightarrow> guest_is_poisoned g \<Longrightarrow> callout_get c \<noteq> 0 \<Longrightarrow>
   tables_ok (change_callouts (callout_enter c e) g)"
  by (simp add: tables_ok_def callouts_ok_enter)

definition taken :: "delivered_call \<Rightarrow> ('e, 'v, 'g) guest \<Rightarrow> (callout_id \<times> callout) option" where
  "taken call g =
     (case dc_callout call of
        Some c \<Rightarrow>
          if dc_ends call then map_option (Pair c) (callout_lookup (callouts_of (abi_of g)) c) else None
      | None \<Rightarrow> None)"

definition lend :: "delivered_call \<Rightarrow> ('e, 'v, 'g) guest \<Rightarrow> ('e, 'v, 'g) guest" where
  "lend call g =
     change_abi (\<lambda>a. a\<lparr>delivery_of := Some (dc_delivery call)\<rparr>)
       (case dc_callout call of
          Some c \<Rightarrow> if dc_ends call then change_callouts (\<lambda>t. snd (callout_remove c t)) g else g
        | None \<Rightarrow> g)"

lemma change_abi_cong:
  "f (abi_of g) = h (abi_of g) \<Longrightarrow> change_abi f g = change_abi h g"
  by (simp add: change_abi_def set_store_def set_abi_def g_store_def)

lemma deliver_eq:
  "deliver call g =
     (case run (dc_context call) (dc_callback call) (dc_params call) 0 (lend call g) of
        (r, h) \<Rightarrow>
          (map_sum Runtime (\<lambda>_. ()) r,
           let k = change_abi (\<lambda>a. a\<lparr>delivery_of := None\<rparr>) h in
           case taken call g of
             Some (c, e) \<Rightarrow> if guest_is_poisoned h then change_callouts (callout_enter c e) k else k
           | None \<Rightarrow> k))"
proof -
  have "change_callouts (\<lambda>_. snd (callout_remove c (callouts_of (abi_of g)))) g =
      change_callouts (\<lambda>t. snd (callout_remove c t)) g" for c
    unfolding change_callouts_def by (rule change_abi_cong) simp
  then show ?thesis
    by (simp add: deliver_def taken_def lend_def remove_callout_def callout_lookup_def callout_remove_def
        Let_def split: option.split prod.split)
qed

lemma lend_effects:
  fixes g :: "('e, 'v, 'g) guest"
  assumes "tables_ok g"
  shows "tables_ok (lend call g)" "contexts_of (abi_of (lend call g)) = contexts_of (abi_of g)"
    "deleting (abi_of (lend call g)) = deleting (abi_of g)" "announced (abi_of (lend call g)) = announced (abi_of g)"
    "guest_fixed (lend call g) = guest_fixed g" "guest_is_poisoned (lend call g) = guest_is_poisoned g"
    "stream_state_of (abi_of (lend call g)) = stream_state_of (abi_of g)"
proof -
  have "tables_ok (change_abi (\<lambda>a. a\<lparr>delivery_of := d\<rparr>) h)" if "tables_ok h" for d and h :: "('e, 'v, 'g) guest"
    using that by (rule tables_ok_cong) simp_all
  with assms tables_ok_remove [OF assms] show "tables_ok (lend call g)"
    by (simp add: lend_def split: option.split)
qed (simp_all add: lend_def guest_fixed_def split: option.split)

lemma calms_deliver [calms_intros]: "calms (deliver call)"
  unfolding calms_def
proof (intro allI impI)
  fix g :: "('e, 'v, 'g) guest" assume g: "ready g"
  then have ok: "tables_ok g" and idle: "delivery_of (abi_of g) = None" "announced (abi_of g) = None"
    by (simp_all add: ready_def idle_but_def)
  note l = lend_effects [OF ok, of call]
  obtain r h where run: "run (dc_context call) (dc_callback call) (dc_params call) 0 (lend call g) = (r, h)"
    by fastforce
  note e = run_effects [OF run l(1)]
  let ?k = "change_abi (\<lambda>a. a\<lparr>delivery_of := None\<rparr>) h"
  have k: "calm g ?k"
  proof -
    have "tables_ok ?k" using e(1) by (rule tables_ok_cong) simp_all
    with e l idle show ?thesis by (auto simp: calm_def idle_but_def guest_fixed_def)
  qed
  have "calm g (change_callouts (callout_enter c x) ?k)" if "guest_is_poisoned h" "taken call g = Some (c, x)" for c x
  proof -
    have "callout_get c \<noteq> 0"
      using that(2) ok by (auto simp: taken_def tables_ok_def callouts_ok_def split: option.splits if_splits)
    with k that(1) have "tables_ok (change_callouts (callout_enter c x) ?k)"
      by (intro tables_ok_enter) (auto simp: calm_def)
    with k show ?thesis by (auto simp: calm_def idle_but_def guest_fixed_def)
  qed
  with k show "calm g (snd (deliver call g))"
    by (auto simp: deliver_eq run Let_def split: option.split)
qed

lemma calms_deliveries [calms_intros]:
  "calms (deliver_http_response root callout response)" "calms (deliver_grpc_close root callout st)"
  unfolding deliver_http_response_def deliver_grpc_close_def by (intro calms_intros)+

lemma calms_callbacks [calms_intros]:
  "calms (receive_http_call_response ctx callout response)" "calms (tick root)" "calms (queue_ready root queue)"
  "calms (grpc_receive_initial_metadata ctx callout metadata)" "calms (grpc_receive ctx callout message)"
  "calms (grpc_receive_trailing_metadata ctx callout metadata)" "calms (grpc_close ctx callout st)"
  "calms (foreign_function ctx function_id arguments)"
  unfolding receive_http_call_response_def tick_def queue_ready_def grpc_receive_initial_metadata_def
    grpc_receive_def grpc_receive_trailing_metadata_def grpc_close_def foreign_function_def
  by (intro calms_intros)+

section \<open>The end of a context\<close>

text \<open>A run that fails leaves a poisoned guest, and so does every delivery that fails in it.\<close>

lemma run_failed: "run ctx cb params answer g = (Inl e, g') \<Longrightarrow> guest_is_poisoned g'"
  by (auto simp: run_def Let_def dest!: call_callback_failed split: prod.splits)

lemma deliver_failed: "deliver call g = (Inl e, g') \<Longrightarrow> guest_is_poisoned g'"
proof -
  assume d: "deliver call g = (Inl e, g')"
  obtain r h where run: "run (dc_context call) (dc_callback call) (dc_params call) 0 (lend call g) = (r, h)"
    by fastforce
  with d have "guest_is_poisoned h"
    by (cases r) (auto simp: deliver_eq dest: run_failed)
  with d run show ?thesis
    by (auto simp: deliver_eq Let_def split: option.splits if_splits)
qed

lemma deliver_failure_failed:
  "deliver_http_response root callout response_failed g = (Inl e, g') \<Longrightarrow> guest_is_poisoned g'"
  "deliver_grpc_close root callout (grpc_status_new CANCELLED []) g = (Inl e, g') \<Longrightarrow> guest_is_poisoned g'"
  by (auto simp: deliver_http_response_def deliver_grpc_close_def response_failed_def grpc_status_new_def
      wire_size_def i32_try_from_usize_def abind_def act_simps dest: deliver_failed)

lemma lookup_fold_remove:
  "callout_lookup (fold (\<lambda>(c, _) t. snd (callout_remove c t)) xs t) k =
     (if k \<in> fst ` set xs then None else callout_lookup t k)"
  by (induction xs arbitrary: t) auto

lemma callouts_ok_fold_remove:
  "callouts_ok t \<Longrightarrow> callouts_ok (fold (\<lambda>(c, _) t. snd (callout_remove c t)) xs t)"
  by (induction xs arbitrary: t) (auto simp: callouts_ok_remove)

lemma callout_len_fold_remove:
  "callout_table_len (fold (\<lambda>(c, _) t. snd (callout_remove c t)) xs t) \<le> callout_table_len t"
  by (induction xs arbitrary: t) (auto intro: le_trans [OF _ callout_table_len_steps(2)])

lemma drop_effects:
  assumes "drop_open_callouts ctx g = (r, g')" and "tables_ok g"
  shows "r = Inr (map fst (made_by (callouts_of (abi_of g)) ctx))"
    "callout_lookup (callouts_of (abi_of g')) c = Some e \<longleftrightarrow>
       callout_lookup (callouts_of (abi_of g)) c = Some e \<and> co_caller e \<noteq> ctx"
    "contexts_of (abi_of g') = contexts_of (abi_of g)" "tables_ok g'"
    "g' = change_callouts (fold (\<lambda>(c, _) t. snd (callout_remove c t)) (made_by (callouts_of (abi_of g)) ctx)) g"
proof -
  let ?drop = "fold (\<lambda>(c, _) t. snd (callout_remove c t)) (made_by (callouts_of (abi_of g)) ctx)"
  show r: "r = Inr (map fst (made_by (callouts_of (abi_of g)) ctx))" and g': "g' = change_callouts ?drop g"
    using assms(1) by (auto simp: drop_open_callouts_def Let_def)
  have ok: "callouts_ok (callouts_of (abi_of g))"
    using assms(2) by (simp add: tables_ok_def)
  have ids: "c \<in> fst ` set (made_by (callouts_of (abi_of g)) ctx) \<longleftrightarrow>
      (\<exists>e. callout_lookup (callouts_of (abi_of g)) c = Some e \<and> co_caller e = ctx)" for c
    using made_by_iff [OF ok] by (force simp: image_iff)
  show look: "callout_lookup (callouts_of (abi_of g')) c = Some e \<longleftrightarrow>
      callout_lookup (callouts_of (abi_of g)) c = Some e \<and> co_caller e \<noteq> ctx" for c e
    by (auto simp: g' lookup_fold_remove ids)
  show "contexts_of (abi_of g') = contexts_of (abi_of g)"
    by (simp add: g')
  have "callout_table_len (?drop (callouts_of (abi_of g))) \<le> st_max_open_callouts (g_store g)"
    if "store_wf (g_store g)"
  proof -
    have "callout_table_len (?drop (callouts_of (abi_of g))) \<le> callout_table_len (callouts_of (abi_of g))"
      by (rule callout_len_fold_remove)
    with that show ?thesis by (simp add: store_wf_def)
  qed
  with assms(2) ok look show "tables_ok g'"
    by (auto simp: tables_ok_def store_wf_def callers_live_def is_deleting_def g' callouts_ok_fold_remove)
qed

lemma calms_drop [calms_intros]: "calms (drop_open_callouts ctx)"
  unfolding calms_def
proof (intro allI impI)
  fix g :: "('e, 'v, 'g) guest" assume "ready g"
  then show "calm g (snd (drop_open_callouts ctx g))"
    using drop_effects(4,5) [OF prod.collapse [symmetric], where ctx = ctx and g = g]
    by (auto simp: calm_def ready_def idle_but_def guest_fixed_def)
qed

lemma calms_fail_each [calms_intros]: "calms (fail_each root xs)"
  by (induction xs) (auto intro!: calms_intros split: callout_kind.split)

lemma calms_fail_open_callouts [calms_intros]: "calms (fail_open_callouts ctx root)"
  unfolding fail_open_callouts_def by (intro calms_intros)

lemma fail_each_failed: "fail_each root xs g = (Inl e, g') \<Longrightarrow> guest_is_poisoned g'"
proof (induction xs arbitrary: g g' e)
  case (Cons x xs)
  then show ?case
    by (cases x) (auto simp: abind_def act_simps dest: deliver_failure_failed
      split: prod.splits sum.splits if_splits callout_kind.splits)
qed (simp add: act_simps)

lemma fail_open_failed: "fail_open_callouts ctx root g = (Inl e, g') \<Longrightarrow> guest_is_poisoned g'"
  by (auto simp: fail_open_callouts_def abind_def act_simps drop_open_callouts_def Let_def
      split: if_splits dest: fail_each_failed)

text \<open>While a context is being deleted, no callout is opened for it.\<close>

definition made_within :: "callout_id set \<Rightarrow> context_id \<Rightarrow> ('e, 'h, 'g) store \<Rightarrow> bool" where
  "made_within S ctx w \<longleftrightarrow>
     deleting (st_abi w) = Some ctx \<and>
     (\<forall>cid c. callout_lookup (callouts w) cid = Some c \<longrightarrow> co_caller c = ctx \<longrightarrow> cid \<in> S)"

interpretation made_within: guest_invariant "made_within S ctx" for S ctx
proof (unfold_locales, goal_cases)
  case (13 w caller root callout t kind)
  note r = reserve_partial [OF 13(7)]
  then have "callout_lookup t = callout_lookup (callouts w)"
    by (auto simp: callout_lookup_def)
  with 13 show ?case
    by (auto simp: made_within_def is_deleting_def callout_new_def)
qed (auto simp: made_within_def split: if_splits)

lemma made_within_cong:
  "made_within S ctx w \<Longrightarrow> callouts w' = callouts w \<Longrightarrow> deleting (st_abi w') = deleting (st_abi w) \<Longrightarrow>
   made_within S ctx w'"
  by (simp add: made_within_def)

lemma run_made_within:
  assumes "run c cb params answer g = (r, g')" and "made_within S ctx (g_store g)"
  shows "made_within S ctx (g_store g')"
proof -
  define g1 where "g1 = change_abi (\<lambda>a. a\<lparr>current_callback := Some cb\<rparr>)
      (change_contexts (\<lambda>t. snd (ctx_set_effective c t)) g)"
  obtain g2 where c: "call_callback cb params answer g1 = (r, g2)"
    and g': "g' = change_abi (\<lambda>a. a\<lparr>current_callback := None\<rparr>) g2"
    using assms(1) by (auto simp: run_def g1_def Let_def split: prod.splits)
  have "made_within S ctx (g_store g1)"
    using assms(2) by (rule made_within_cong) (simp_all add: g1_def)
  from call_callback_keeps [of _ _ _ _ _ _ "made_within S ctx", OF c this]
  have "made_within S ctx (g_store g2)"
    by (auto dest: made_within.keeps_call_typed)
  then show ?thesis
    by (rule made_within_cong) (simp_all add: g')
qed

lemma deliver_made_within:
  assumes "made_within S ctx (g_store g)"
  shows "made_within S ctx (g_store (snd (deliver call g)))"
proof -
  obtain r h where run: "run (dc_context call) (dc_callback call) (dc_params call) 0 (lend call g) = (r, h)"
    by fastforce
  have "made_within S ctx (g_store (lend call g))"
    using assms by (auto simp: lend_def made_within_def split: option.splits if_splits)
  note h = run_made_within [OF run this]
  have "cid \<in> S" if "taken call g = Some (cid, c)" "co_caller c = ctx" for cid c
    using that assms by (auto simp: taken_def made_within_def split: option.splits if_splits)
  with h show ?thesis
    by (auto simp: deliver_eq run Let_def made_within_def split: option.splits if_splits)
qed

lemma keeps_made_within:
  "keeps (\<lambda>g. made_within S ctx (g_store g)) (deliver call)"
  "keeps (\<lambda>g. made_within S ctx (g_store g)) (from_runtime (run c cb params answer))"
  "keeps (\<lambda>g. made_within S ctx (g_store g)) (drop_open_callouts d)"
  by (auto intro!: keepsI deliver_made_within intro: run_made_within simp: amap_err_def split: prod.splits)
    (auto simp: made_within_def drop_open_callouts_def Let_def lookup_fold_remove split: if_splits)

lemma keeps_made_within_fail:
  "keeps (\<lambda>g. made_within S ctx (g_store g)) (fail_each root xs)"
proof (induction xs)
  case (Cons x xs)
  then show ?case
    by (cases x) (auto intro!: keeps_intros keeps_made_within
      simp: deliver_http_response_def deliver_grpc_close_def split: callout_kind.split)
qed (simp add: keeps_intros)

text \<open>What is reported as ended was open, and made by the context.\<close>

definition reports_within ::
  "callout_id set \<Rightarrow> context_id \<Rightarrow> ('e, 'v, 'g, callout_id list) guest_act \<Rightarrow> bool" where
  "reports_within S ctx m \<longleftrightarrow>
     (\<forall>g. tables_ok g \<longrightarrow> made_within S ctx (g_store g) \<longrightarrow>
        (\<forall>ended. fst (m g) = Inr ended \<longrightarrow> set ended \<subseteq> S))"

lemma fail_each_reports: "fail_each root xs g = (Inr ended, g') \<Longrightarrow> set ended \<subseteq> fst ` set xs"
proof (induction xs arbitrary: g g' ended)
  case (Cons x xs)
  obtain c k where x: "x = (c, k)" by fastforce
  show ?case
  proof (cases "callout_lookup (callouts_of (abi_of g)) c")
    case None
    with Cons x show ?thesis by (fastforce simp: abind_def act_simps)
  next
    case (Some e)
    with Cons.prems obtain g1 more where "fail_each root xs g1 = (Inr more, g')" "ended = c # more"
      by (auto simp: x abind_def act_simps split: prod.splits sum.splits)
    with Cons.IH [of g1 more g'] x show ?thesis by auto
  qed
qed (simp add: act_simps)

lemma made_by_within:
  "tables_ok g \<Longrightarrow> made_within S ctx (g_store g) \<Longrightarrow> fst ` set (made_by (callouts_of (abi_of g)) ctx) \<subseteq> S"
  using made_by_iff [of "callouts_of (abi_of g)"] by (force simp: tables_ok_def made_within_def)

lemma reports_drop: "reports_within S ctx (drop_open_callouts ctx)"
  using made_by_within by (force simp: reports_within_def drop_open_callouts_def Let_def)

lemma reports_fail_open: "reports_within S ctx (fail_open_callouts ctx root)"
  unfolding reports_within_def
proof (intro allI impI)
  fix g :: "('e, 'v, 'g) guest" and ended
  assume ok: "tables_ok g" and w: "made_within S ctx (g_store g)"
    and e: "fst (fail_open_callouts ctx root g) = Inr ended"
  show "set ended \<subseteq> S"
  proof (cases "rejected_by g root")
    case None
    with e have "fail_each root (made_by (callouts_of (abi_of g)) ctx) g =
        (Inr ended, snd (fail_open_callouts ctx root g))"
      by (simp add: fail_open_callouts_def abind_def act_simps prod_eq_iff)
    then show ?thesis
      using fail_each_reports made_by_within [OF ok w] by fastforce
  next
    case (Some r)
    with e ok w reports_drop [of S ctx] show ?thesis
      by (auto simp: reports_within_def fail_open_callouts_def abind_def act_simps)
  qed
qed

text \<open>The two halves of a deletion: up to the callback, and from the removal on.\<close>

definition delete_first :: "context_id \<Rightarrow> ('e, 'v, 'g, context_id option \<times> callout_id list) guest_act" where
  "delete_first ctx =
     abind (aget (\<lambda>g. context_parent g ctx)) (\<lambda>root.
     abind (case root of None \<Rightarrow> fail_open_callouts ctx ctx | Some _ \<Rightarrow> aret []) (\<lambda>ended.
     abind (run_callback ctx OnDelete [context_wire ctx] 0) (\<lambda>_.
     aret (root, ended))))"

definition delete_entry :: "context_id \<Rightarrow> context_id option \<Rightarrow> ('e, 'v, 'g) guest \<Rightarrow> ('e, 'v, 'g) guest" where
  "delete_entry ctx root g =
     (let g = change_contexts (\<lambda>t. snd (ctx_remove ctx t)) g in
      if root = None then change_abi (forget_registrant ctx) g else g)"

definition delete_rest ::
  "context_id \<Rightarrow> context_id option \<Rightarrow> callout_id list \<Rightarrow> ('e, 'v, 'g, callout_id list) guest_act" where
  "delete_rest ctx root ended =
     abind (case root of
              Some root \<Rightarrow> abind (fail_open_callouts ctx root) (\<lambda>more. aret (ended @ more))
            | None \<Rightarrow> aret ended) (\<lambda>ended.
     abind (drop_open_callouts ctx) (\<lambda>more. aret (ended @ more)))"

lemma delete_context_eq:
  "delete_context ctx =
     abind (delete_first ctx) (\<lambda>(root, ended) g. delete_rest ctx root ended (delete_entry ctx root g))"
  by (rule ext)
    (auto simp: delete_context_def delete_first_def delete_rest_def delete_entry_def abind_def act_simps
      split: option.splits prod.splits sum.splits)

lemma calms_delete_parts: "calms (delete_first ctx)" "calms (delete_rest ctx root ended)"
  unfolding delete_first_def delete_rest_def by (intro calms_intros)+

lemma keeps_made_within_fail_open:
  "keeps (\<lambda>g. made_within S ctx (g_store g)) (fail_open_callouts c d)"
  unfolding fail_open_callouts_def
  by (intro keeps_intros keeps_made_within keeps_made_within_fail)

lemma keeps_made_within_parts:
  "keeps (\<lambda>g. made_within S ctx (g_store g)) (delete_first ctx)"
  "keeps (\<lambda>g. made_within S ctx (g_store g)) (delete_rest ctx root ended)"
  unfolding delete_first_def delete_rest_def
  by (intro keeps_intros keeps_made_within keeps_made_within_fail_open)+

lemma from_runtime_failed:
  "run_callback ctx cb params answer g = (Inl e, g') \<Longrightarrow> guest_is_poisoned g'"
  by (cases "run ctx cb params answer g"; cases "fst (run ctx cb params answer g)")
    (auto simp: amap_err_def dest: run_failed)

lemma delete_first_failed: "delete_first ctx g = (Inl e, g') \<Longrightarrow> guest_is_poisoned g'"
  by (auto simp: delete_first_def abind_def act_simps split: prod.splits sum.splits option.splits
      dest: fail_open_failed from_runtime_failed)

lemma delete_rest_failed: "delete_rest ctx root ended g = (Inl e, g') \<Longrightarrow> guest_is_poisoned g'"
  by (auto simp: delete_rest_def abind_def act_simps drop_open_callouts_def Let_def
      split: prod.splits sum.splits option.splits dest: fail_open_failed)

lemma delete_first_reports:
  assumes "delete_first ctx g = (Inr (root, ended), g')" and "tables_ok g" "made_within S ctx (g_store g)"
  shows "set ended \<subseteq> S" "root = context_parent g ctx"
proof -
  show root: "root = context_parent g ctx"
    using assms(1) by (auto simp: delete_first_def abind_def act_simps split: prod.splits sum.splits option.splits)
  show "set ended \<subseteq> S"
  proof (cases "context_parent g ctx")
    case None
    with assms(1) have "fst (fail_open_callouts ctx ctx g) = Inr ended"
      by (auto simp: delete_first_def abind_def act_simps split: prod.splits sum.splits)
    with reports_fail_open [of S ctx ctx] assms(2,3) show ?thesis
      by (auto simp: reports_within_def)
  next
    case (Some r)
    with assms(1) show ?thesis
      by (auto simp: delete_first_def abind_def act_simps split: prod.splits sum.splits)
  qed
qed

lemma delete_rest_reports:
  assumes "delete_rest ctx root ended g = (Inr all, g')" and "ready g" "made_within S ctx (g_store g)"
    and "set ended \<subseteq> S"
  shows "set all \<subseteq> S" "callout_lookup (callouts_of (abi_of g')) c = Some e \<Longrightarrow> co_caller e \<noteq> ctx"
proof -
  obtain h more last where h: "ready h" "made_within S ctx (g_store h)" "set more \<subseteq> S"
    and d: "drop_open_callouts ctx h = (Inr last, g')" and all: "all = more @ last"
  proof (cases root)
    case None
    with assms that show ?thesis
      by (auto simp: delete_rest_def abind_def act_simps split: prod.splits sum.splits)
  next
    case (Some r)
    with assms(1) obtain xs h last where f: "fail_open_callouts ctx r g = (Inr xs, h)"
      and d: "drop_open_callouts ctx h = (Inr last, g')" and "all = (ended @ xs) @ last"
      by (auto simp: delete_rest_def abind_def act_simps split: prod.splits sum.splits)
    moreover have "ready h" using calmsD [OF calms_fail_open_callouts assms(2) f] by (rule calm_ready)
    moreover have "made_within S ctx (g_store h)"
      using keepsD [OF keeps_made_within_fail_open [of S ctx ctx r] assms(3)] f by simp
    moreover have "set xs \<subseteq> S"
    proof -
      have "fst (fail_open_callouts ctx r g) = Inr xs" by (simp add: f)
      with reports_fail_open [of S ctx r] assms(2,3) show ?thesis
        unfolding reports_within_def ready_def by blast
    qed
    ultimately show ?thesis using that [of h "ended @ xs" last] assms(4) by simp
  qed
  have ok: "tables_ok h" using h(1) by (simp add: ready_def)
  note e = drop_effects [OF d ok]
  show "set all \<subseteq> S"
    using h(3) e(1) made_by_within [OF ok h(2)] by (auto simp: all)
  show "callout_lookup (callouts_of (abi_of g')) c = Some e \<Longrightarrow> co_caller e \<noteq> ctx"
    by (simp add: e(2))
qed

lemma tables_ok_mark:
  assumes "tables_ok g"
    and "deleting (abi_of g) = None \<or> guest_is_poisoned g \<or>
      (\<forall>c e. callout_lookup (callouts_of (abi_of g)) c = Some e \<longrightarrow> deleting (abi_of g) \<noteq> Some (co_caller e))"
  shows "tables_ok (mark_deleting d g)"
  using assms by (auto simp: tables_ok_def mark_deleting_def set_deleting_def store_wf_def callers_live_def is_deleting_def)

lemma forget_registrant_simps [simp]:
  "contexts_of (forget_registrant c a) = contexts_of a" "callouts_of (forget_registrant c a) = callouts_of a"
  "deleting (forget_registrant c a) = deleting a" "current_callback (forget_registrant c a) = current_callback a"
  "delivery_of (forget_registrant c a) = delivery_of a" "announced (forget_registrant c a) = announced a"
  "guest_of (forget_registrant c a) = guest_of a" "services_of (forget_registrant c a) = services_of a"
  "stream_state_of (forget_registrant c a) = stream_state_of a" "vm_started (forget_registrant c a) = vm_started a"
  by (simp_all add: forget_registrant_def)

lemma ctx_remove_lookup:
  "ctx_entry (snd (ctx_remove c t)) d = (if d = c then None else ctx_entry t d)"
  "vm_rejected (snd (ctx_remove c t)) = vm_rejected t"
  by (auto simp: ctx_remove_def Let_def split: option.split)

lemma delete_entry_effects:
  assumes "ready g" and "deleting (abi_of g) = Some ctx" and "\<not> has_children (contexts_of (abi_of g)) ctx"
  shows "ready (delete_entry ctx root g)" "deleting (abi_of (delete_entry ctx root g)) = Some ctx"
    "contexts_of (abi_of (delete_entry ctx root g)) = snd (ctx_remove ctx (contexts_of (abi_of g)))"
    "callouts_of (abi_of (delete_entry ctx root g)) = callouts_of (abi_of g)"
    "guest_fixed (delete_entry ctx root g) = guest_fixed g"
    "guest_is_poisoned (delete_entry ctx root g) = guest_is_poisoned g"
    "stream_state_of (abi_of (delete_entry ctx root g)) = stream_state_of (abi_of g)"
proof -
  let ?t = "contexts_of (abi_of g)"
  have ok: "ctx_ok ?t" using assms(1) by (simp add: ready_def tables_ok_def)
  then have "ctx_ok (snd (ctx_remove ctx ?t))"
    using ctx_ok_remove [OF ok prod.collapse [symmetric] assms(3)] by blast
  moreover have "root_of (snd (ctx_remove ctx ?t)) c = (if c = ctx then None else root_of ?t c)" for c
    by (simp add: root_of_def ctx_remove_lookup)
  ultimately have "tables_ok (change_contexts (\<lambda>t. snd (ctx_remove ctx t)) g)"
    using assms(1,2) by (auto simp: ready_def tables_ok_def store_wf_def callers_live_def is_deleting_def)
  then have "tables_ok (delete_entry ctx root g)"
    by (rule tables_ok_cong) (simp_all add: delete_entry_def Let_def)
  then show "ready (delete_entry ctx root g)"
    using assms(1) by (simp add: ready_def idle_but_def delete_entry_def Let_def)
qed (use assms(2) in \<open>simp_all add: delete_entry_def guest_fixed_def Let_def\<close>)

text \<open>What a deletion leaves, by its result.\<close>

definition deletion :: "context_id \<Rightarrow> ('e, 'v, 'g) guest \<Rightarrow> guest_error + callout_id list \<Rightarrow> ('e, 'v, 'g) guest \<Rightarrow> bool" where
  "deletion ctx g r g' \<longleftrightarrow>
     guest_wf g' \<and> guest_fixed g' = guest_fixed g \<and>
     map_option fst (stream_state_of (abi_of g')) = map_option fst (stream_state_of (abi_of g)) \<and>
     (case r of
        Inl e \<Rightarrow> guest_is_poisoned g'
      | Inr ended \<Rightarrow>
          ctx_shape (contexts_of (abi_of g')) = (ctx_shape (contexts_of (abi_of g)))(ctx := None) \<and>
          (\<forall>c e. callout_lookup (callouts_of (abi_of g')) c = Some e \<longrightarrow> co_caller e \<noteq> ctx) \<and>
          set ended \<subseteq> {c. \<exists>e. callout_lookup (callouts_of (abi_of g)) c = Some e \<and> co_caller e = ctx})"

lemma mark_deleting_simps [simp]:
  "guest_fixed (mark_deleting x h) = guest_fixed h"
  "stream_state_of (abi_of (mark_deleting x h)) = stream_state_of (abi_of h)"
  "guest_is_poisoned (mark_deleting x h) = guest_is_poisoned h"
  "contexts_of (abi_of (mark_deleting x h)) = contexts_of (abi_of h)"
  "callouts_of (abi_of (mark_deleting x h)) = callouts_of (abi_of h)"
  "deleting (abi_of (mark_deleting x h)) = x"
  by (simp_all add: mark_deleting_def set_deleting_def guest_fixed_def)

lemma idle_unmark: "ready h \<Longrightarrow> idle_but None (mark_deleting None h)"
  by (simp add: ready_def idle_but_def mark_deleting_def set_deleting_def)

lemma delete_marked_effects:
  assumes wf: "guest_wf g" and nc: "\<not> has_children (contexts_of (abi_of g)) ctx"
    and d: "delete_marked ctx g = (r, g')"
  shows "deletion ctx g r g'"
proof -
  define S where "S = {c. \<exists>e. callout_lookup (callouts_of (abi_of g)) c = Some e \<and> co_caller e = ctx}"
  define g1 where "g1 = mark_deleting (Some ctx) g"
  have idle1: "idle_but (Some ctx) g1"
    using wf by (simp add: g1_def guest_wf_def idle_but_def) (simp add: mark_deleting_def set_deleting_def)
  have g1: "ready g1" "made_within S ctx (g_store g1)"
    using wf tables_ok_mark [of g "Some ctx"] idle1
    by (auto simp: g1_def guest_wf_def ready_def idle_but_def [of None] made_within_def S_def)
  obtain r1 g2 where first: "delete_first ctx g1 = (r1, g2)" by fastforce
  note c2 = calmsD [OF calms_delete_parts(1) g1(1) first]
  have same2: "guest_fixed g2 = guest_fixed g" "deleting (abi_of g2) = Some ctx"
      "map_option fst (stream_state_of (abi_of g2)) = map_option fst (stream_state_of (abi_of g))"
      "ctx_shape (contexts_of (abi_of g2)) = ctx_shape (contexts_of (abi_of g))"
    using c2 by (simp_all add: calm_def g1_def idle_but_def)
  show ?thesis
  proof (cases r1)
    case (Inl e)
    with first d have r: "r = Inl e" "g' = mark_deleting None g2"
      by (simp_all add: delete_marked_def g1_def [symmetric] delete_context_eq abind_def)
    have p: "guest_is_poisoned g2" using delete_first_failed first Inl by blast
    then have "guest_wf g'"
      using idle_unmark [OF calm_ready [OF c2]] c2 tables_ok_mark [of g2 None]
      by (simp add: guest_wf_def r calm_def)
    with p same2 show ?thesis by (simp add: r deletion_def)
  next
    case (Inr x)
    obtain root ended where x: "x = (root, ended)" by fastforce
    let ?g3 = "delete_entry ctx root g2"
    obtain r4 g4 where rest: "delete_rest ctx root ended ?g3 = (r4, g4)" by fastforce
    with first d Inr x have r: "r = r4" "g' = mark_deleting None g4"
      by (simp_all add: delete_marked_def g1_def [symmetric] delete_context_eq abind_def)
    have "ctx_ok (contexts_of (abi_of g2))" "ctx_ok (contexts_of (abi_of g))"
      using c2 wf by (simp_all add: calm_def tables_ok_def guest_wf_def)
    then have nc2: "\<not> has_children (contexts_of (abi_of g2)) ctx"
      using nc shape_has_children same2(4) by blast
    note e3 = delete_entry_effects [OF calm_ready [OF c2] same2(2) nc2, of root]
    note c4 = calmsD [OF calms_delete_parts(2) e3(1) rest]
    have w3: "made_within S ctx (g_store ?g3)"
      using keepsD [OF keeps_made_within_parts(1) g1(2)] first e3(2,4) by (simp add: made_within_def)
    have shape: "ctx_shape (contexts_of (abi_of g4)) = (ctx_shape (contexts_of (abi_of g)))(ctx := None)"
    proof -
      have "ctx_shape (snd (ctx_remove ctx t)) = (ctx_shape t)(ctx := None)" for t
        by (rule ext) (simp add: ctx_shape_def ctx_remove_lookup)
      then show ?thesis using c4 e3(3) same2(4) by (simp add: calm_def)
    qed
    have fixed: "guest_fixed g4 = guest_fixed g"
      "map_option fst (stream_state_of (abi_of g4)) = map_option fst (stream_state_of (abi_of g))"
      using c4 e3(5,7) same2(1,3) by (simp_all add: calm_def)
    have no_calls: "\<forall>c e. callout_lookup (callouts_of (abi_of g4)) c = Some e \<longrightarrow> co_caller e \<noteq> ctx"
      and sub: "set all \<subseteq> S" if "r4 = Inr all" for all
      using delete_rest_reports [OF _ e3(1) w3 delete_first_reports(1) [OF _ _ g1(2)]] rest first that Inr x g1(1)
      by (auto simp: ready_def)
    have p: "guest_is_poisoned g4" if "r4 = Inl e" for e
      using delete_rest_failed rest that by blast
    have "tables_ok g'"
      unfolding r(2)
    proof (rule tables_ok_mark)
      show "tables_ok g4" using c4 by (simp add: calm_def)
      show "deleting (abi_of g4) = None \<or> guest_is_poisoned g4 \<or>
          (\<forall>c e. callout_lookup (callouts_of (abi_of g4)) c = Some e \<longrightarrow> deleting (abi_of g4) \<noteq> Some (co_caller e))"
        using calm_deleting [OF c4] e3(2) p no_calls by (cases r4) auto
    qed
    with idle_unmark [OF calm_ready [OF c4]] have "guest_wf g'"
      by (simp add: guest_wf_def r(2))
    with fixed shape no_calls sub p show ?thesis
      by (cases r4) (simp_all add: deletion_def r S_def)
  qed
qed

end
