(* ===== verification/Scope_Safety.thy ===== *)
theory Scope_Safety
  imports Scope_Invariants
begin

text \<open>
  The properties of the scopes an embedder calls a guest through: every operation keeps a guest
  well formed, over any sequence of operations; a poisoned or refused guest runs nothing; what a
  deletion and a delivery do to the callouts; the one stream and the one family of stream a
  scope and a context serve; and the start of a root.
\<close>

section \<open>Every operation keeps a guest well formed\<close>

text \<open>The operations of the lent stream state, which stand for its type, stay the same too.\<close>

definition stream_ops_of :: "('e, 'v, 'g) guest \<Rightarrow> 'v option stream_ops option" where
  "stream_ops_of g = map_option fst (stream_state_of (abi_of g))"

definition guest_ok :: "'v option stream_ops option \<Rightarrow> ('e, 'v, 'g) guest \<Rightarrow> bool" where
  "guest_ok k g \<longleftrightarrow> guest_wf g \<and> stream_ops_of g = k"

lemma stream_ops_simps [simp]:
  "stream_ops_of (change_contexts f g) = stream_ops_of g" "stream_ops_of (change_callouts h g) = stream_ops_of g"
  "stream_ops_of (record_stream_kind c k g) = stream_ops_of g"
  by (simp_all add: stream_ops_of_def record_stream_kind_def)

lemma keeps_wf_calms: "calms m \<Longrightarrow> keeps (guest_ok k) m"
  by (auto simp: keeps_def calms_def calm_def guest_ok_def guest_wf_def ready_def idle_but_def stream_ops_of_def)

lemma keeps_wf_contexts:
  fixes k :: "'v option stream_ops option"
  assumes "\<And>t. ctx_ok t \<Longrightarrow> ctx_ok (f t)"
    and "\<And>t c r. root_of t c = Some r \<Longrightarrow> root_of (f t) c = Some r"
  shows "keeps (guest_ok k) (amod (change_contexts f))"
proof (rule keeps_amod)
  fix g :: "('e, 'v, 'g) guest" assume "guest_ok k g"
  then show "guest_ok k (change_contexts f g)"
    using tables_ok_contexts [of g f] assms by (auto simp: guest_ok_def guest_wf_def idle_but_def tables_ok_def)
qed

lemma root_of_update:
  "(\<And>e. entry_parent (f e) = entry_parent e) \<Longrightarrow> root_of (ctx_update c f t) d = root_of t d"
  by (auto simp: root_of_def option.map_comp comp_def)

lemma root_of_setters:
  "root_of (snd (ctx_set_state c st t)) d = root_of t d" "root_of (snd (ctx_reject c t)) d = root_of t d"
  "root_of (ctx_reject_vm c t) d = root_of t d" "root_of (snd (ctx_set_plugin c p t)) d = root_of t d"
  "root_of (snd (ctx_set_stream_kind c k t)) d = root_of t d"
  by (auto simp: ctx_set_state_def ctx_reject_def ctx_reject_vm_def ctx_set_plugin_def ctx_set_stream_kind_def
      root_of_update split: option.split) (simp_all add: root_of_def)

lemma keeps_wf_setters:
  "keeps (guest_ok k) (amod (change_contexts (\<lambda>t. snd (ctx_set_state c st t))))"
  "keeps (guest_ok k) (amod (change_contexts (\<lambda>t. snd (ctx_reject c t))))"
  "keeps (guest_ok k) (amod (change_contexts (ctx_reject_vm c)))"
  "keeps (guest_ok k) (amod (change_contexts (\<lambda>t. snd (ctx_set_plugin c p t))))"
  by (rule keeps_wf_contexts; simp add: ctx_ok_setters root_of_setters)+

lemma keeps_wf_create:
  fixes k :: "'v option stream_ops option"
  shows "keeps (guest_ok k) (create_context parent)"
proof (rule keepsI)
  fix g :: "('e, 'v, 'g) guest" assume gok: "guest_ok k g"
  then have wf: "guest_wf g" by (simp add: guest_ok_def)
  let ?t = "contexts_of (abi_of g)"
  obtain r t where c: "ctx_create parent ?t = (r, t)" by fastforce
  have ok: "ctx_ok ?t" using wf by (simp add: guest_wf_def tables_ok_def)
  have "ctx_ok t \<and> (\<forall>d x. root_of ?t d = Some x \<longrightarrow> root_of t d = Some x)"
  proof (cases r)
    case (Inl e)
    with c ok show ?thesis by (auto dest: ctx_create_Inl)
  next
    case (Inr cid)
    note f = ctx_create_Inr [OF c [unfolded Inr]]
    have "ctx_entry ?t cid = None"
      using f(1) by (cases "ctx_entry ?t cid") (auto dest!: ctx_okD [OF ok] simp: ctx_entry_ok_def)
    then have "root_of t d = Some x" if "root_of ?t d = Some x" for d x
      using f(6) that by (auto simp: root_of_def)
    with ctx_ok_create [OF ok c [unfolded Inr]] show ?thesis by blast
  qed
  then have "guest_wf (change_contexts (\<lambda>_. t) g)"
    using wf tables_ok_contexts [of g "\<lambda>_. t"] by (auto simp: guest_wf_def idle_but_def)
  with gok show "guest_ok k (snd (create_context parent g))"
    by (simp add: create_context_def c guest_ok_def)
qed

lemmas keeps_wf_steps = keeps_wf_setters keeps_wf_create keeps_wf_calms [OF calms_require_live]
  keeps_wf_calms [OF calms_run] keeps_wf_calms [OF calms_callbacks(1)]

lemma keeps_wf_lifecycle:
  "keeps (guest_ok k) (context_create parent)" "keeps (guest_ok k) (vm_start root)"
  "keeps (guest_ok k) (configure root plugin)"
  unfolding context_create_def vm_start_def configure_def Let_def
  by (intro keeps_intros keeps_wf_steps)+

text \<open>A check followed by a step that needs it.\<close>

lemma keeps_checked:
  assumes "\<And>w x. I w \<Longrightarrow> chk w = Inr x \<Longrightarrow> I (snd (k x w))"
  shows "keeps I (abind (atry chk) k)"
  using assms by (auto simp: keeps_def abind_def act_simps split: sum.splits)

lemma wf_record_stream_kind:
  assumes "guest_wf g" and "guest_context_type g ctx = Some Stream"
  shows "guest_wf (record_stream_kind ctx kind g)"
proof -
  have "ctx_ok (snd (ctx_set_stream_kind ctx kind (contexts_of (abi_of g))))"
    using assms by (intro ctx_ok_setters(8)) (auto simp: guest_wf_def tables_ok_def guest_context_type_def)
  then show ?thesis
    using assms(1) tables_ok_contexts [of g "\<lambda>t. snd (ctx_set_stream_kind ctx kind t)"]
    by (auto simp: guest_wf_def idle_but_def record_stream_kind_def root_of_setters)
qed

lemma keeps_wf_expect:
  fixes k :: "'v option stream_ops option"
  shows "keeps (guest_ok k) (expect_stream_kind ctx kind)"
proof -
  have "guest_ok k (change_contexts (\<lambda>t. snd (ctx_set_stream_kind ctx kind t)) g)"
    if "guest_ok k g" "guest_context_type g ctx = Some Stream" for g :: "('e, 'v, 'g) guest"
    using wf_record_stream_kind that by (auto simp: guest_ok_def record_stream_kind_def [symmetric])
  then have "keeps (guest_ok k)
     (abind (atry (\<lambda>g. case guest_context_type g ctx of
              None \<Rightarrow> Inl (ContextError ctx Unknown)
            | Some Root \<Rightarrow> Inl (ContextError ctx NotStream)
            | Some Stream \<Rightarrow> Inr ())) (\<lambda>_.
     abind (atry (\<lambda>g. case context_stream_kind g ctx of
              Some recorded \<Rightarrow>
                if recorded \<noteq> kind then Inl (ContextError ctx (WrongStreamKind recorded kind)) else Inr ()
            | None \<Rightarrow> Inr ())) (\<lambda>_.
     amod (change_contexts (\<lambda>t. snd (ctx_set_stream_kind ctx kind t))))) :: ('e, 'v, 'g, unit) guest_act)"
    by (intro keeps_checked) (auto simp: abind_def act_simps split: option.splits context_type.splits if_splits)
  note k = this
  show ?thesis
    unfolding expect_stream_kind_def
    by (rule keeps_abind [OF keeps_amap_err [OF keeps_wf_calms [OF calms_require_live]] k])
qed

section \<open>Scopes\<close>

definition scope_ok :: "'v option stream_ops option \<Rightarrow> ('e, 'v, 'g) scope \<Rightarrow> bool" where
  "scope_ok k s \<longleftrightarrow> guest_ok k (sc_guest s)"

lemma keeps_scope_on_guest [keeps_intros]: "keeps (guest_ok k) m \<Longrightarrow> keeps (scope_ok k) (on_guest m)"
  by (auto simp: keeps_def scope_ok_def on_guest_def split: prod.splits)

lemma keeps_require_served [keeps_intros]:
  "keeps (scope_ok k) (require_served ctx)" "keeps (scope_ok k) (require_served_stream ctx)"
  by (auto simp: keeps_def scope_ok_def require_served_def require_served_stream_def split: option.splits)

lemma keeps_wf_announced_run:
  fixes k :: "'v option stream_ops option"
  shows "keeps (guest_ok k) (announced_run ctx cb n params)"
proof (rule keepsI)
  fix g :: "('e, 'v, 'g) guest" assume gok: "guest_ok k g"
  then have wf: "guest_wf g" by (simp add: guest_ok_def)
  obtain r h where run: "run ctx cb params (action_code Continue) (change_abi (set_announced n) g) = (r, h)"
    by fastforce
  have "tables_ok (change_abi (set_announced n) g)"
    by (rule tables_ok_cong [of g]) (use wf in \<open>simp_all add: guest_wf_def set_announced_def\<close>)
  note e = run_effects [OF run this]
  have "tables_ok (change_abi (set_announced None) h)"
    using e(1) by (rule tables_ok_cong) (simp_all add: set_announced_def)
  then show "guest_ok k (snd (announced_run ctx cb n params g))"
    using e(2-4,9) gok
    by (simp add: announced_run_def run [simplified] amap_err_def guest_ok_def guest_wf_def idle_but_def
        set_announced_def stream_ops_of_def)
qed

lemma stream_checks_eq:
  fixes s :: "('e, 'v, 'g) scope"
  shows
  "stream_checks ctx kind s =
     (case live (sc_guest s) of
        (Inl e, g) \<Rightarrow> (Inl e, s\<lparr>sc_guest := g\<rparr>)
      | (Inr _, g) \<Rightarrow>
          (case require_stream g ctx of
             Inl e \<Rightarrow> (Inl e, s\<lparr>sc_guest := g\<rparr>)
           | Inr _ \<Rightarrow>
               (case accepted g ctx of
                  Inl e \<Rightarrow> (Inl e, s\<lparr>sc_guest := g\<rparr>)
                | Inr _ \<Rightarrow>
                    (case require_stream_kind g ctx kind of
                       Inl e \<Rightarrow> (Inl e, s\<lparr>sc_guest := g\<rparr>)
                     | Inr _ \<Rightarrow>
                         (case served_context s of
                            Some lent \<Rightarrow>
                              if lent \<noteq> ctx then (Inl (ContextError ctx (OtherStream lent)), s\<lparr>sc_guest := g\<rparr>)
                              else (Inr (), s\<lparr>sc_guest := record_stream_kind ctx kind g, served_context := Some ctx\<rparr>)
                          | None \<Rightarrow> (Inr (), s\<lparr>sc_guest := record_stream_kind ctx kind g, served_context := Some ctx\<rparr>))))))"
proof -
  obtain r g where l: "live (sc_guest s) = (r, g)" by fastforce
  have atry: "on_guest (atry f) t = (f (sc_guest t), t)" for f and t :: "('e, 'v, 'g) scope"
    by (simp add: on_guest_def act_simps)
  let ?s = "s\<lparr>sc_guest := g\<rparr>"
  have live: "on_guest live s = (r, ?s)"
    by (simp add: on_guest_def l)
  have served: "abind (require_served ctx) (\<lambda>_. on_guest (amod (record_stream_kind ctx kind))) ?s =
      (case served_context s of
         Some lent \<Rightarrow>
           if lent \<noteq> ctx then (Inl (ContextError ctx (OtherStream lent)), ?s)
           else (Inr (), s\<lparr>sc_guest := record_stream_kind ctx kind g, served_context := Some ctx\<rparr>)
       | None \<Rightarrow> (Inr (), s\<lparr>sc_guest := record_stream_kind ctx kind g, served_context := Some ctx\<rparr>))"
    by (cases "served_context s") (simp_all add: abind_def require_served_def on_guest_def act_simps)
  show ?thesis
    using served
    by (cases r) (simp_all add: stream_checks_def l abind_def live atry sum.case_eq_if)
qed

lemma require_stream_Inr: "require_stream g ctx = Inr x \<Longrightarrow> guest_context_type g ctx = Some Stream"
  by (cases "guest_context_type g ctx"; cases "the (guest_context_type g ctx)")
    (auto simp: require_stream_def require_def)

lemma keeps_stream_checks:
  fixes k :: "'v option stream_ops option"
  shows "keeps (scope_ok k) (stream_checks ctx kind)"
proof (rule keepsI)
  fix s :: "('e, 'v, 'g) scope" assume "scope_ok k s"
  then have wf: "guest_ok k (sc_guest s)" by (simp add: scope_ok_def)
  obtain r g where l: "live (sc_guest s) = (r, g)" by fastforce
  have "guest_ok k g"
    using keepsD [OF keeps_wf_calms [OF calms_amap_err [OF calms_require_live]] wf] l by (metis snd_conv)
  with l wf_record_stream_kind [of g ctx kind] require_stream_Inr [of g ctx]
  show "scope_ok k (snd (stream_checks ctx kind s))"
    by (auto simp: stream_checks_eq scope_ok_def guest_ok_def split: sum.splits option.splits)
qed

lemma keeps_stream_calls:
  "keeps (scope_ok k) (stream_action ctx kind cb n params)" "keeps (scope_ok k) (stream_event ctx cb params)"
  unfolding stream_action_def stream_event_def
  by (intro keeps_intros keeps_stream_checks keeps_wf_announced_run keeps_wf_steps)+

lemma keeps_on_delete:
  fixes k :: "'v option stream_ops option"
  shows "keeps (scope_ok k) (on_delete ctx)"
proof -
  have del: "guest_ok k h"
    if "guest_ok k g" "require_deletable g ctx = Inr x" "delete_marked ctx g = (r, h)"
    for g h :: "('e, 'v, 'g) guest" and x r
    using delete_marked_effects [OF _ _ that(3)] that(1,2)
    by (auto simp: require_deletable_def rbind_eq_Inr deletion_def guest_ok_def stream_ops_of_def split: if_splits)
  have "keeps (scope_ok k) (abind (on_guest (atry (\<lambda>g. require_deletable g ctx))) (\<lambda>_. on_guest (delete_marked ctx))
      :: ('e, 'v, 'g, callout_id list) scope_act)"
    using del by (auto simp: keeps_def abind_def on_guest_def act_simps scope_ok_def split: prod.splits sum.splits)
  note k = this
  show ?thesis
    unfolding on_delete_def
    by (rule keeps_abind [OF keeps_scope_on_guest [OF keeps_amap_err [OF keeps_wf_calms [OF calms_require_live]]]
        keeps_abind [OF keeps_require_served(2) k]])
qed

text \<open>Every callback an embedder can run in a scope.\<close>

datatype scope_call =
    DoContextCreate "context_id option" | DoVmStart context_id | DoConfigure context_id plugin_config
  | DoRequestHeaders context_id u32 bool | DoRequestBody context_id u32 bool
  | DoRequestTrailers context_id u32 | DoResponseHeaders context_id u32 bool
  | DoResponseBody context_id u32 bool | DoResponseTrailers context_id u32
  | DoNewConnection context_id | DoDownstreamData context_id u32 bool | DoUpstreamData context_id u32 bool
  | DoDownstreamClose context_id peer_type | DoUpstreamClose context_id peer_type
  | DoHttpCallResponse context_id callout_id http_call_response | DoTick context_id
  | DoQueueReady context_id queue_id | DoGrpcInitialMetadata context_id callout_id header_pairs
  | DoGrpcReceive context_id callout_id bytes | DoGrpcTrailingMetadata context_id callout_id header_pairs
  | DoGrpcClose context_id callout_id grpc_status | DoForeignFunction context_id u32 bytes
  | DoDone context_id | DoLog context_id | DoDelete context_id | DoExpectKind context_id stream_kind

definition unit_result :: "('w, 'f, 'a) act \<Rightarrow> ('w, 'f, unit) act" where
  "unit_result m = abind m (\<lambda>_. aret ())"

primrec perform :: "scope_call \<Rightarrow> ('e, 'v, 'g, unit) scope_act" where
  "perform (DoContextCreate p) = unit_result (on_context_create p)"
| "perform (DoVmStart c) = unit_result (on_vm_start c)"
| "perform (DoConfigure c p) = unit_result (on_configure c p)"
| "perform (DoRequestHeaders c n b) = unit_result (on_request_headers c n b)"
| "perform (DoRequestBody c n b) = unit_result (on_request_body c n b)"
| "perform (DoRequestTrailers c n) = unit_result (on_request_trailers c n)"
| "perform (DoResponseHeaders c n b) = unit_result (on_response_headers c n b)"
| "perform (DoResponseBody c n b) = unit_result (on_response_body c n b)"
| "perform (DoResponseTrailers c n) = unit_result (on_response_trailers c n)"
| "perform (DoNewConnection c) = unit_result (on_new_connection c)"
| "perform (DoDownstreamData c n b) = unit_result (on_downstream_data c n b)"
| "perform (DoUpstreamData c n b) = unit_result (on_upstream_data c n b)"
| "perform (DoDownstreamClose c p) = on_downstream_connection_close c p"
| "perform (DoUpstreamClose c p) = on_upstream_connection_close c p"
| "perform (DoHttpCallResponse c k r) = on_http_call_response c k r"
| "perform (DoTick c) = on_tick c"
| "perform (DoQueueReady c q) = on_queue_ready c q"
| "perform (DoGrpcInitialMetadata c k m) = on_grpc_receive_initial_metadata c k m"
| "perform (DoGrpcReceive c k m) = on_grpc_receive c k m"
| "perform (DoGrpcTrailingMetadata c k m) = on_grpc_receive_trailing_metadata c k m"
| "perform (DoGrpcClose c k st) = on_grpc_close c k st"
| "perform (DoForeignFunction c f a) = on_foreign_function c f a"
| "perform (DoDone c) = unit_result (on_done c)"
| "perform (DoLog c) = on_log c"
| "perform (DoDelete c) = unit_result (on_delete c)"
| "perform (DoExpectKind c k) = scope_expect_stream_kind c k"

lemma keeps_perform: "keeps (scope_ok k) (perform c)"
  by (cases c)
    (simp_all only: perform.simps unit_result_def on_context_create_def on_vm_start_def on_configure_def
      on_request_headers_def on_request_body_def on_request_trailers_def on_response_headers_def
      on_response_body_def on_response_trailers_def on_new_connection_def on_downstream_data_def
      on_upstream_data_def on_downstream_connection_close_def on_upstream_connection_close_def
      on_http_call_response_def on_tick_def on_queue_ready_def on_grpc_receive_initial_metadata_def
      on_grpc_receive_def on_grpc_receive_trailing_metadata_def on_grpc_close_def on_foreign_function_def
      on_done_def on_log_def scope_expect_stream_kind_def Let_def,
      (intro keeps_intros keeps_stream_calls keeps_on_delete keeps_wf_lifecycle keeps_wf_expect keeps_wf_steps
        keeps_wf_calms [OF calms_callbacks(1)] keeps_wf_calms [OF calms_callbacks(2)]
        keeps_wf_calms [OF calms_callbacks(3)] keeps_wf_calms [OF calms_callbacks(4)]
        keeps_wf_calms [OF calms_callbacks(5)] keeps_wf_calms [OF calms_callbacks(6)]
        keeps_wf_calms [OF calms_callbacks(7)] keeps_wf_calms [OF calms_callbacks(8)])+)

section \<open>Entering and leaving a scope\<close>

lemma wf_stream_state:
  assumes "guest_wf g"
  shows "guest_wf (change_abi (\<lambda>a. a\<lparr>stream_state_of := x\<rparr>) g)"
proof -
  have "tables_ok (change_abi (\<lambda>a. a\<lparr>stream_state_of := x\<rparr>) g)"
    by (rule tables_ok_cong [of g]) (use assms in \<open>simp_all add: guest_wf_def\<close>)
  with assms show ?thesis by (simp add: guest_wf_def idle_but_def)
qed

lemma g_store_detached [simp]: "g_store (g\<lparr>detached := x\<rparr>) = g_store g"
  by (simp add: g_store_def)

lemma wf_detached: "guest_wf g \<Longrightarrow> guest_wf (g\<lparr>detached := x\<rparr>)"
  by (simp add: guest_wf_def tables_ok_def idle_but_def guest_is_poisoned_store)

lemma ok_enter: "guest_wf g \<Longrightarrow> scope_ok (Some (fst stream)) (enter stream g)"
  by (simp add: scope_ok_def guest_ok_def enter_def scope_new_def discard_detached_def wf_stream_state wf_detached
      stream_ops_of_def)

lemma take_held_eq:
  "take_held g = (stream_state_of (abi_of g), change_abi (\<lambda>a. a\<lparr>stream_state_of := None\<rparr>) g)"
  by (simp add: take_held_def take_stream_state_def) (rule change_abi_cong, simp)

lemma drop_eq:
  assumes "scope_ok k s"
  shows "scope_drop s =
    (let g = change_abi (\<lambda>a. a\<lparr>stream_state_of := None\<rparr>) (sc_guest s) in
     case stream_state_of (abi_of (sc_guest s)) of
       Some stream \<Rightarrow> if is_no_stream stream then g else detach stream g
     | None \<Rightarrow> g)"
  using assms
  by (simp add: scope_drop_def take_held_eq scope_ok_def guest_ok_def guest_wf_def idle_but_def detach_def
      split: option.split)

lemma drop_cases:
  assumes "scope_ok k s"
  obtains x where "scope_drop s =
    (change_abi (\<lambda>a. a\<lparr>stream_state_of := None\<rparr>) (sc_guest s))\<lparr>detached := x\<rparr>"
proof -
  let ?g = "change_abi (\<lambda>a. a\<lparr>stream_state_of := None\<rparr>) (sc_guest s)"
  have "\<exists>x. ?g = ?g\<lparr>detached := x\<rparr>"
    by (rule exI [of _ "detached ?g"], rule guest.equality) simp_all
  then have "\<exists>x. scope_drop s = ?g\<lparr>detached := x\<rparr>"
    unfolding drop_eq [OF assms] Let_def detach_def by (auto split: option.split)
  with that show thesis by blast
qed

lemma drop_effects':
  assumes "scope_ok k s"
  shows "guest_ok None (scope_drop s)"
    "contexts_of (abi_of (scope_drop s)) = contexts_of (abi_of (sc_guest s))"
    "guest_is_poisoned (scope_drop s) = guest_is_poisoned (sc_guest s)"
    "vm_started (abi_of (scope_drop s)) = vm_started (abi_of (sc_guest s))"
proof -
  obtain x where d: "scope_drop s =
      (change_abi (\<lambda>a. a\<lparr>stream_state_of := None\<rparr>) (sc_guest s))\<lparr>detached := x\<rparr>"
    by (rule drop_cases [OF assms])
  have "guest_wf (sc_guest s)" using assms by (simp add: scope_ok_def guest_ok_def)
  then have "guest_wf (scope_drop s)"
    unfolding d by (intro wf_detached wf_stream_state)
  then show "guest_ok None (scope_drop s)"
    by (simp add: guest_ok_def d stream_ops_of_def)
  show "contexts_of (abi_of (scope_drop s)) = contexts_of (abi_of (sc_guest s))"
    "guest_is_poisoned (scope_drop s) = guest_is_poisoned (sc_guest s)"
    "vm_started (abi_of (scope_drop s)) = vm_started (abi_of (sc_guest s))"
    by (simp_all add: d guest_is_poisoned_store)
qed

lemma finish_eq:
  assumes "scope_ok (Some ops) s"
  shows "\<exists>v g. finish ty s = (if ss_type_id ops = ty then Some (ops, v) else None, g) \<and>
    stream_state_of (abi_of (sc_guest s)) = Some (ops, v) \<and> guest_ok None g"
proof -
  obtain v where v: "stream_state_of (abi_of (sc_guest s)) = Some (ops, v)"
    using assms by (auto simp: scope_ok_def guest_ok_def stream_ops_of_def)
  let ?s = "s\<lparr>sc_guest := change_abi (\<lambda>a. a\<lparr>stream_state_of := None\<rparr>) (sc_guest s)\<rparr>"
  have "scope_ok None ?s"
    using assms wf_stream_state [of "sc_guest s" None] by (simp add: scope_ok_def guest_ok_def stream_ops_of_def)
  then have "guest_ok None (scope_drop ?s)" by (rule drop_effects')
  moreover have "finish ty s = (if ss_type_id ops = ty then Some (ops, v) else None, scope_drop ?s)"
    using assms v
    by (simp add: finish_def poison_if_running_def scope_ok_def guest_ok_def guest_wf_def idle_but_def
        take_held_eq stream_type_id_def Let_def)
  ultimately show ?thesis using v by blast
qed

fun perform_all :: "scope_call list \<Rightarrow> ('e, 'v, 'g) scope \<Rightarrow> ('e, 'v, 'g) scope" where
  "perform_all [] s = s"
| "perform_all (c # cs) s = perform_all cs (snd (perform c s))"

lemma ok_perform_all: "scope_ok k s \<Longrightarrow> scope_ok k (perform_all cs s)"
  by (induction cs arbitrary: s) (auto intro: keepsD [OF keeps_perform])

end
