(* ===== verification/Start_Section.thy ===== *)
theory Start_Section
  imports Guest_Run
begin

text \<open>
  What the start section of a module can do. It runs while the runtime instantiates the module, before
  the host has the memory of the guest and before any context exists, so every host function it calls
  ends in one of its first checks (\<open>runtime/memory.rs\<close>, \<open>split\<close>).
\<close>

section \<open>A host call without memory and context\<close>

definition unserved :: "('e, 'h, 'g) store \<Rightarrow> bool" where
  "unserved w \<longleftrightarrow> st_memory w = None \<and> effective (contexts w) = None"

text \<open>An action that leaves one state as it is.\<close>

definition unmoved :: "'w \<Rightarrow> ('w, 'f, 'a) act \<Rightarrow> bool" where
  "unmoved w m \<longleftrightarrow> snd (m w) = w"

named_theorems unmoved_intros

lemma unmoved_basic [unmoved_intros]:
  "unmoved w (aret x)" "unmoved w (afail e)" "unmoved w (alift r)" "unmoved w (aget f)" "unmoved w (atry g)"
  "unmoved w (aguard p e')"
  by (simp_all add: unmoved_def act_simps)

lemma unmoved_abind [unmoved_intros]:
  "unmoved w m \<Longrightarrow> (\<And>x. unmoved w (k x)) \<Longrightarrow> unmoved w (abind m k)"
  by (auto simp: unmoved_def abind_def split: prod.splits sum.splits)

lemma unmoved_if [unmoved_intros]: "unmoved w m \<Longrightarrow> unmoved w n \<Longrightarrow> unmoved w (if b then m else n)"
  by simp

lemma unmoved_let [unmoved_intros]: "(\<And>x. unmoved w (k x)) \<Longrightarrow> unmoved w (let x = v in k x)"
  by simp

lemma unmoved_case_prod [unmoved_intros]: "(\<And>x y. unmoved w (k x y)) \<Longrightarrow> unmoved w (case p of (x, y) \<Rightarrow> k x y)"
  by (cases p) simp

lemma unmoved_amap [unmoved_intros]: "unmoved w m \<Longrightarrow> unmoved w (amap_err h m)"
  by (cases "m w") (simp add: unmoved_def amap_err_def)

lemma unmoved_args [unmoved_intros]:
  "unmoved w (arg_slice p n)" "unmoved w (arg_enum g v)" "unmoved w (queue_arg q)" "unmoved w (metric_arg mt)"
  by (simp_all add: arg_slice_def arg_enum_def queue_arg_def metric_arg_def unmoved_intros)

text \<open>The checks at which a call without memory, or without a context, ends.\<close>

lemma unmoved_stops:
  assumes "unserved w"
  shows "unmoved w (abind (from_error split_store) k)" "unmoved w (abind (fault split_store) k')"
    "unmoved w (abind (with_stream absent) l)" "unmoved w (abind (context_of absent) l')"
  using assms
  by (simp_all add: unmoved_def unserved_def abind_def amap_err_def split_store_def act_simps with_stream_def
      context_of_def)

lemma unmoved_contexts:
  assumes "unserved w"
  shows "unmoved w proxy_done" "unmoved w (proxy_set_effective_context c)"
proof -
  have "snd (on_contexts ctx_done w) = w \<and> fst (on_contexts ctx_done w) = Inr False"
    using assms by (simp add: on_contexts_def ctx_done_def unserved_def set_abi_def)
  then show "unmoved w proxy_done"
    by (cases "on_contexts ctx_done w") (simp add: proxy_done_def unmoved_def abind_def act_simps)
  show "unmoved w (proxy_set_effective_context c)"
    using assms
    by (simp add: proxy_set_effective_context_def unmoved_def unserved_def abind_def act_simps split: sum.split)
qed

lemma unmoved_answers:
  "unmoved w m \<Longrightarrow> unmoved w (host_result m)" "unmoved w n \<Longrightarrow> unmoved w (wasi_answer n)"
  by (cases "m w"; simp add: unmoved_def host_result_def) (cases "n w"; simp add: unmoved_def wasi_answer_def)

lemmas shared_bodies = proxy_set_shared_data_def proxy_get_shared_data_def proxy_register_shared_queue_def
  proxy_resolve_shared_queue_def proxy_enqueue_shared_queue_def proxy_dequeue_shared_queue_def
  proxy_define_metric_def proxy_record_metric_def proxy_increment_metric_def proxy_get_metric_def
  proxy_set_tick_period_milliseconds_def proxy_get_current_time_nanoseconds_def proxy_log_def proxy_get_log_level_def

lemmas stream_bodies = proxy_set_buffer_bytes_def proxy_get_buffer_bytes_def proxy_get_buffer_status_def
  proxy_get_header_map_size_def proxy_get_header_map_pairs_def proxy_set_header_map_pairs_def
  proxy_get_header_map_value_def proxy_add_header_map_value_def proxy_replace_header_map_value_def write_header_value_def
  proxy_remove_header_map_value_def proxy_continue_stream_def proxy_close_stream_def proxy_send_local_response_def
  proxy_get_property_def proxy_set_property_def proxy_call_foreign_function_def

lemmas callout_bodies = proxy_get_status_def proxy_http_call_def proxy_grpc_call_def proxy_grpc_stream_def
  proxy_grpc_send_def proxy_grpc_cancel_def proxy_grpc_close_def

lemmas wasi_bodies = fd_write_impl_def clock_time_get_impl_def random_get_impl_def environ_sizes_get_impl_def
  environ_get_impl_def args_sizes_get_impl_def

lemma host_body_unmoved:
  assumes "unserved w"
  shows "unmoved w (host_body alloc fill c)"
  by (cases c)
    (simp_all only: host_body.simps shared_bodies stream_bodies callout_bodies wasi_bodies,
      (assumption | rule unmoved_answers unmoved_contexts [OF assms] unmoved_stops [OF assms] | rule unmoved_intros)+)

section \<open>A start section\<close>

lemma self_guest: "\<exists>g. w = w\<lparr>st_guest := g\<rparr>"
  by (rule exI [of _ "st_guest w"]) simp

lemma exec_section_unmoved:
  assumes "\<And>c w. unserved w \<Longrightarrow> unmoved w (host c)" and "unserved w"
  shows "\<exists>g. snd (snd (exec_section host p (mem, w))) = w\<lparr>st_guest := g\<rparr>"
  using assms(2)
proof (induction p arbitrary: mem w)
  case (Update f p)
  obtain mem' g where f: "f mem (st_guest w) = (mem', g)" by (metis prod.exhaust)
  have "unserved (w\<lparr>st_guest := g\<rparr>)" using Update.prems by (simp add: unserved_def)
  from Update.IH [OF this, of mem'] obtain g' where
    "snd (snd (exec_section host p (mem', w\<lparr>st_guest := g\<rparr>))) = w\<lparr>st_guest := g\<rparr>\<lparr>st_guest := g'\<rparr>" by blast
  then have "snd (snd (exec_section host (Update f p) (mem, w))) = w\<lparr>st_guest := g'\<rparr>" by (simp add: f)
  then show ?case by blast
next
  case (Inspect k)
  have "exec_section host (Inspect k) (mem, w) = exec_section host (k mem (st_guest w)) (mem, w)" by simp
  with Inspect.IH [OF rangeI rangeI Inspect.prems] show ?case by simp
next
  case (HostCall c k)
  have w: "snd (host c w) = w" using assms(1) [OF HostCall.prems] by (simp add: unmoved_def)
  show ?case
  proof (cases "fst (host c w)")
    case (Inl e)
    then have "host c w = (Inl e, w)" using w by (metis prod.collapse)
    with self_guest show ?thesis by simp
  next
    case (Inr x)
    then have "host c w = (Inr x, w)" using w by (metis prod.collapse)
    with HostCall.IH [OF rangeI HostCall.prems] show ?thesis by simp
  qed
qed (use self_guest in \<open>simp_all add: aret_def afail_def\<close>)

lemma instantiate_unmoved:
  assumes "unserved (in_store i)" and "instantiate h i = (r, i')"
  shows "\<exists>g. i' = i\<lparr>in_store := (in_store i)\<lparr>st_guest := g\<rparr>\<rparr>"
proof (cases "module_link (in_module i) (engine_id (host_engine h)) (host_linker h) = None")
  case True
  show ?thesis
  proof (cases "module_start (in_module i)")
    case (Some code)
    let ?mem = "case module_memory (in_module i) of Some mem \<Rightarrow> mem | None \<Rightarrow> []"
    have "\<exists>g. snd (snd (exec_section (host_of i) code (?mem, in_store i))) = (in_store i)\<lparr>st_guest := g\<rparr>"
      by (rule exec_section_unmoved) (simp_all add: host_of_def Let_def host_body_unmoved assms(1))
    then obtain g where "snd (snd (exec_section (host_of i) code (?mem, in_store i))) = (in_store i)\<lparr>st_guest := g\<rparr>"
      by blast
    moreover obtain r2 mem2 w2 where "exec_section (host_of i) code (?mem, in_store i) = (r2, mem2, w2)"
      by (metis prod.exhaust)
    ultimately show ?thesis
      using assms(2) True Some by (cases r2) (auto simp: instantiate_def Let_def)
  qed (use assms(2) True in \<open>auto simp: instantiate_def Let_def intro: exI [of _ "st_guest (in_store i)"]\<close>)
qed (use assms(2) in \<open>auto simp: instantiate_def Let_def intro: exI [of _ "st_guest (in_store i)"]\<close>)

text \<open>The instance a start section finds, and the one the start functions find after it.\<close>

definition instance_blank ::
  "abi_host \<Rightarrow> 'e random_fill \<Rightarrow> 'g wasm_module \<Rightarrow> ('e, 'h) abi_state \<Rightarrow> limits \<Rightarrow> 'e \<Rightarrow> ('e, 'h, 'g) wasm_instance" where
  "instance_blank h fill m abi lim env =
     \<lparr>in_store = set_guest_limits lim (host_state_new abi env (module_state m)), in_module = m,
      in_budget = budget_new lim (epoch_period (host_engine h)), in_depth = stack_depth (host_engine h),
      in_fill = fill\<rparr>"

definition instance_ready :: "bytes \<Rightarrow> 'g \<Rightarrow> ('e, 'h, 'g) wasm_instance \<Rightarrow> ('e, 'h, 'g) wasm_instance" where
  "instance_ready mem g i =
     i\<lparr>in_store := (in_store i)\<lparr>st_guest := g, st_memory := Some mem, st_allocator := True\<rparr>\<rparr>"

lemma instance_blank_simps [simp]:
  "in_module (instance_blank h fill m abi lim env) = m"
  "st_env (in_store (instance_blank h fill m abi lim env)) = env"
  "st_abi (in_store (instance_blank h fill m abi lim env)) = abi"
  "st_memory (in_store (instance_blank h fill m abi lim env)) = None"
  "st_poisoned (in_store (instance_blank h fill m abi lim env)) = False"
  "in_module (instance_ready mem g i) = in_module i"
  "st_abi (in_store (instance_ready mem g i)) = st_abi (in_store i)"
  "st_env (in_store (instance_ready mem g i)) = st_env (in_store i)"
  "st_poisoned (in_store (instance_ready mem g i)) = st_poisoned (in_store i)"
  by (simp_all add: instance_blank_def instance_ready_def set_guest_limits_def host_state_new_def)

text \<open>
  What a new instance comes to, step by step, when no context exists yet: the start section changes
  nothing of the host, so the start functions find the store as it was created.
\<close>

lemma instance_new_cases:
  assumes "effective (contexts_of abi) = None" and b_def: "b = instance_blank h fill m abi lim env"
  shows "instance_new h fill m abi lim env =
    (if (fuel lim \<noteq> None) \<noteq> fuel_enabled (host_engine h) then
       (Inl (Config (if fuel lim = None then ''this engine meters fuel, so the limits must name a fuel budget''
          else ''fuel is not enabled on this engine'')), env)
     else case fst (instantiate h b) of
         Inl e \<Rightarrow> (Inl e, env)
       | Inr None \<Rightarrow> (Inl MissingMemory, env)
       | Inr (Some mem) \<Rightarrow>
           if allocator_code m = None then (Inl MissingAllocator, env)
           else case instance_start (instance_ready mem (st_guest (in_store (snd (instantiate h b)))) b) of
               (Inl e, i) \<Rightarrow> (Inl e, st_env (in_store i))
             | (Inr _, i) \<Rightarrow> (Inr i, st_env (in_store i)))"
proof -
  obtain r i where ri: "instantiate h b = (r, i)" by (metis prod.exhaust)
  have "unserved (in_store b)" unfolding b_def unserved_def using assms(1) by simp
  from instantiate_unmoved [OF this ri] obtain g where g: "i = b\<lparr>in_store := (in_store b)\<lparr>st_guest := g\<rparr>\<rparr>" by blast
  have b: "b = \<lparr>in_store = set_guest_limits lim (host_state_new abi env (module_state m)), in_module = m,
      in_budget = budget_new lim (epoch_period (host_engine h)), in_depth = stack_depth (host_engine h),
      in_fill = fill\<rparr>"
    unfolding b_def instance_blank_def by (rule refl)
  have env: "st_env (in_store b) = env" unfolding b_def by simp
  have new: "instance_new h fill m abi lim env =
    (if fuel lim \<noteq> None \<and> \<not> fuel_enabled (host_engine h) then
        (Inl (Config ''fuel is not enabled on this engine''), env)
      else if fuel lim = None \<and> fuel_enabled (host_engine h) then
        (Inl (Config ''this engine meters fuel, so the limits must name a fuel budget''), env)
      else case instantiate h b of
          (Inl e, i) \<Rightarrow> (Inl e, st_env (in_store i))
        | (Inr memory, i) \<Rightarrow>
            if memory = None then (Inl MissingMemory, st_env (in_store i))
            else if allocator_code m = None then (Inl MissingAllocator, st_env (in_store i))
            else case instance_start (i\<lparr>in_store := (in_store i)\<lparr>st_memory := memory, st_allocator := True\<rparr>\<rparr>) of
                (Inl e, i) \<Rightarrow> (Inl e, st_env (in_store i))
              | (Inr _, i) \<Rightarrow> (Inr i, st_env (in_store i)))"
    unfolding instance_new_def b Let_def by (rule refl)
  have ready: "i\<lparr>in_store := (in_store i)\<lparr>st_memory := Some mem, st_allocator := True\<rparr>\<rparr> =
      instance_ready mem (st_guest (in_store (snd (instantiate h b)))) b" for mem
    by (simp add: ri g instance_ready_def)
  have env': "st_env (in_store i) = env" by (simp add: g env)
  show ?thesis
  proof (cases r)
    case (Inl e)
    then show ?thesis by (simp add: new ri env')
  next
    case (Inr memory)
    with ready show ?thesis by (cases memory) (simp_all add: new ri env')
  qed
qed

lemma instance_new_Inr:
  assumes "effective (contexts_of abi) = None" and "instance_new h fill m abi lim env = (Inr i, env')"
  obtains mem g u where "instance_start (instance_ready mem g (instance_blank h fill m abi lim env)) = (Inr u, i)"
  using assms(2) unfolding instance_new_cases [OF assms(1) refl]
  by (auto split: if_splits sum.splits option.splits prod.splits)

text \<open>A module without a start section that the runtime links.\<close>

lemma instantiate_plain:
  assumes "module_link (in_module i) (engine_id (host_engine h)) (host_linker h) = None" "module_start (in_module i) = None"
  shows "instantiate h i = (Inr (module_memory (in_module i)), i)"
  using assms by (simp add: instantiate_def)

lemma instance_new_plain:
  assumes "effective (contexts_of abi) = None" and "(fuel lim \<noteq> None) = fuel_enabled (host_engine h)"
    and "module_link m (engine_id (host_engine h)) (host_linker h) = None" "module_start m = None"
    and "module_memory m = Some mem" "allocator_code m \<noteq> None"
    and "instance_start (instance_ready mem (module_state m) (instance_blank h fill m abi lim env)) = (Inr u, i)"
  shows "instance_new h fill m abi lim env = (Inr i, st_env (in_store i))"
proof -
  have "st_guest (in_store (instance_blank h fill m abi lim env)) = module_state m"
    by (simp add: instance_blank_def set_guest_limits_def host_state_new_def)
  then show ?thesis
    unfolding instance_new_cases [OF assms(1) refl]
    using assms(2,6,7) by (simp add: instantiate_plain assms(3,4,5))
qed

end
