(* ===== verification/Embedder.thy ===== *)
theory Embedder
  imports Scope_Safety Start_Section
begin

text \<open>
  The properties an embedder relies on: over any sequence of its operations a guest stays well
  formed and idle between them, a scope gives the stream state back, a poisoned or refused guest
  runs nothing, a scope serves one stream and a context one family of stream, a deletion ends
  every callout of the context, a failed delivery keeps its callout, and what the start of a root
  leaves.
\<close>

section \<open>Any sequence of operations\<close>

text \<open>The embedder holds a guest, or a scope that borrows it.\<close>

datatype ('e, 'v, 'g) holder = Held "('e, 'v, 'g) guest" | Scoped "('e, 'v, 'g) scope"

primrec held_guest :: "('e, 'v, 'g) holder \<Rightarrow> ('e, 'v, 'g) guest" where
  "held_guest (Held g) = g"
| "held_guest (Scoped s) = sc_guest s"

inductive operates :: "('e, 'v, 'g) holder \<Rightarrow> ('e, 'v, 'g) holder \<Rightarrow> bool" where
  enter_scope: "operates (Held g) (Scoped (enter stream g))"
| callback: "operates (Scoped s) (Scoped (snd (perform c s)))"
| change_stream: "stream_state_of (abi_of (sc_guest s)) = Some (ops, v) \<Longrightarrow>
    operates (Scoped s) (Scoped (s\<lparr>sc_guest :=
      change_abi (\<lambda>a. a\<lparr>stream_state_of := Some (ops, v')\<rparr>) (sc_guest s)\<rparr>))"
| finish_scope: "finish ty s = (stream, g) \<Longrightarrow> operates (Scoped s) (Held g)"
| drop_scope: "operates (Scoped s) (Held (scope_drop s))"
| start_root: "operates (Held g) (Held (snd (start plugin g)))"
| declare_kind: "operates (Held g) (Held (snd (expect_stream_kind ctx kind g)))"
| change_services: "operates (Held g) (Held (services_mut f g))"
| take_back: "take_stream ty g = (stream, g') \<Longrightarrow> operates (Held g) (Held g')"
| take_any: "take_stream_any g = (stream, g') \<Longrightarrow> operates (Held g) (Held g')"
| outside: "operates (Held g) (Held (set_store (\<lambda>w. w\<lparr>st_env := env\<rparr>) g))"

inductive embeds :: "('e, 'v, 'g) holder \<Rightarrow> ('e, 'v, 'g) holder \<Rightarrow> bool" where
  operate: "operates h h' \<Longrightarrow> embeds h h'"
| read_changes: "guest_take_changes g = (c, g') \<Longrightarrow> embeds (Held g) (Held g')"

inductive_cases operatesE: "operates h h'"
inductive_cases embedsE: "embeds h h'"

definition holder_ok :: "('e, 'v, 'g) holder \<Rightarrow> bool" where
  "holder_ok h \<longleftrightarrow>
     (case h of Held g \<Rightarrow> guest_ok None g | Scoped s \<Rightarrow> \<exists>ops. scope_ok (Some ops) s)"

lemma guest_ok_same_tables:
  assumes "guest_ok k g" "contexts_of (abi_of g') = contexts_of (abi_of g)"
    "callouts_of (abi_of g') = callouts_of (abi_of g)" "deleting (abi_of g') = deleting (abi_of g)"
    "st_max_open_callouts (g_store g') = st_max_open_callouts (g_store g)"
    "guest_is_poisoned g' = guest_is_poisoned g" "current_callback (abi_of g') = current_callback (abi_of g)"
    "delivery_of (abi_of g') = delivery_of (abi_of g)" "announced (abi_of g') = announced (abi_of g)"
    "stream_ops_of g' = k'"
  shows "guest_ok k' g'"
  using assms tables_ok_cong [of g g'] by (simp add: guest_ok_def guest_wf_def idle_but_def)

lemma ok_mark_vm_started: "keeps (scope_ok k) (on_guest (amod mark_vm_started))"
proof (intro keeps_scope_on_guest keeps_amod)
  fix g :: "('a, 'b, 'c) guest" assume "guest_ok k g"
  then show "guest_ok k (mark_vm_started g)"
    by (rule guest_ok_same_tables) (use \<open>guest_ok k g\<close> in \<open>simp_all add: mark_vm_started_def stream_ops_of_def guest_ok_def\<close>)
qed

lemma keeps_start_run: "keeps (scope_ok k) (start_run root plugin)"
  unfolding start_run_def on_vm_start_def on_configure_def
  by (intro keeps_intros keeps_wf_lifecycle ok_mark_vm_started)

lemma ok_change_contexts:
  assumes "guest_ok k g" and "\<And>t. ctx_ok t \<Longrightarrow> ctx_ok (f t)"
    and "\<And>t c r. root_of t c = Some r \<Longrightarrow> root_of (f t) c = Some r"
  shows "guest_ok k (change_contexts f g)"
  using keepsD [OF keeps_wf_contexts [of f k, OF assms(2,3)] assms(1)] by (simp add: act_simps)

lemma start_keeps_ok:
  assumes "guest_ok None g"
  shows "guest_ok None (snd (start plugin g))"
proof (cases "root_with_id (contexts_of (abi_of g)) (plugin_root_id plugin)")
  case None
  have e: "scope_ok (Some (fst no_stream)) (enter_root g)"
    unfolding enter_root_def using assms by (intro ok_enter) (simp add: guest_ok_def)
  obtain r s where c: "on_context_create None (enter_root g) = (r, s)" by fastforce
  have s: "scope_ok (Some (fst no_stream)) s"
  proof -
    have "keeps (scope_ok (Some (fst no_stream))) (on_context_create None)"
      unfolding on_context_create_def by (intro keeps_scope_on_guest keeps_wf_lifecycle)
    from keepsD [OF this e] show ?thesis by (simp add: c)
  qed
  show ?thesis
  proof (cases r)
    case (Inl e)
    with None c show ?thesis by (simp add: start_def drop_effects' [OF s])
  next
    case (Inr root)
    obtain a s' where run: "start_run root plugin s = (a, s')" by fastforce
    have s': "scope_ok (Some (fst no_stream)) s'"
      using keepsD [OF keeps_start_run s, of root plugin] run by simp
    have d: "guest_ok None (scope_drop s')" by (rule drop_effects' [OF s'])
    have "guest_ok None (change_contexts (\<lambda>t. if cb = OnVmStart then ctx_reject_vm root t else snd (ctx_reject root t)) (scope_drop s'))" for cb
      by (rule ok_change_contexts [OF d]) (simp_all add: ctx_ok_setters root_of_setters)
    with d None c Inr run show ?thesis
      by (auto simp: start_def split: sum.split prod.split)
  qed
qed (use assms in \<open>simp add: start_def\<close>)

lemma operates_ok: "operates h h' \<Longrightarrow> holder_ok h \<Longrightarrow> holder_ok h'"
proof (induction rule: operates.induct)
  case (enter_scope g stream)
  then show ?case by (auto simp: holder_ok_def guest_ok_def intro: ok_enter)
next
  case (callback s c)
  then show ?case by (auto simp: holder_ok_def intro: keepsD [OF keeps_perform])
next
  case (change_stream s ops v v')
  then show ?case
    by (auto simp: holder_ok_def scope_ok_def guest_ok_def stream_ops_of_def intro: wf_stream_state)
next
  case (finish_scope ty s stream g)
  then show ?case using finish_eq [of _ s ty] by (auto simp: holder_ok_def)
next
  case (drop_scope s)
  then show ?case by (auto simp: holder_ok_def intro: drop_effects')
next
  case (start_root g plugin)
  then show ?case by (simp add: holder_ok_def start_keeps_ok)
next
  case (declare_kind g ctx kind)
  then show ?case by (auto simp: holder_ok_def intro: keepsD [OF keeps_wf_expect])
next
  case (change_services g f)
  then have "guest_ok None g" by (simp add: holder_ok_def)
  then have "guest_ok None (services_mut f g)"
    by (rule guest_ok_same_tables) (use \<open>guest_ok None g\<close> in \<open>simp_all add: services_mut_def stream_ops_of_def guest_ok_def\<close>)
  then show ?case by (simp add: holder_ok_def)
next
  case (take_back ty g stream g')
  then show ?case
    by (auto simp: holder_ok_def guest_ok_def take_stream_def stream_ops_of_def wf_detached split: option.splits if_splits)
next
  case (take_any g stream g')
  then show ?case by (auto simp: holder_ok_def guest_ok_def take_stream_any_def stream_ops_of_def wf_detached)
next
  case (outside g env)
  then have ok: "guest_ok None g" by (simp add: holder_ok_def)
  have "guest_ok None (set_store (\<lambda>w. w\<lparr>st_env := env\<rparr>) g)"
    using ok by (rule guest_ok_same_tables)
      (use ok in \<open>simp_all add: stream_ops_of_def guest_ok_def guest_is_poisoned_store\<close>)
  then show ?case by (simp add: holder_ok_def)
qed

lemma embeds_ok: "embeds h h' \<Longrightarrow> holder_ok h \<Longrightarrow> holder_ok h'"
proof (induction rule: embeds.induct)
  case (read_changes g c g')
  then have ok: "guest_ok None g" and g': "g' = change_abi (\<lambda>_. (abi_of g)\<lparr>changes_of := changes_empty\<rparr>) g"
    by (auto simp: holder_ok_def guest_take_changes_def take_changes_def Let_def)
  have "guest_ok None g'"
    using ok by (rule guest_ok_same_tables) (use ok in \<open>simp_all add: g' stream_ops_of_def guest_ok_def\<close>)
  then show ?case by (simp add: holder_ok_def)
qed (rule operates_ok)

lemma embeds_star_ok: "embeds\<^sup>*\<^sup>* h h' \<Longrightarrow> holder_ok h \<Longrightarrow> holder_ok h'"
  by (induction rule: rtranclp_induct) (auto intro: embeds_ok)

text \<open>A new guest: its start functions are guest code too.\<close>

lemma guest_new_Inr:
  fixes g :: "('e, 'v, 'g) guest"
  assumes "guest_new hst fill m svc lim gid env = (Inr g, env')"
  obtains mem x u where "instance_start (instance_ready mem x (instance_blank hst fill m (abi_state_new gid svc) lim env)) =
    (Inr u, g_instance g)"
proof -
  have none: "effective (contexts_of (abi_state_new gid svc :: ('e, 'v option) abi_state)) = None"
    by (simp add: abi_state_new_def context_table_new_def)
  from assms obtain i where "instance_new hst fill m (abi_state_new gid svc) lim env = (Inr i, env')" "g_instance g = i"
    by (auto simp: guest_new_def Let_def split: sum.splits prod.splits)
  with instance_new_Inr [OF none] that show thesis by metis
qed

lemma guest_new_ok:
  fixes g :: "('e, 'v, 'g) guest"
  assumes "guest_new hst fill m svc lim gid env = (Inr g, env')"
  shows "guest_ok None g"
proof -
  obtain mem x u where start: "instance_start (instance_ready mem x (instance_blank hst fill m (abi_state_new gid svc) lim env)) =
      (Inr u, g_instance g)"
    by (rule guest_new_Inr [OF assms])
  let ?i = "instance_ready mem x (instance_blank hst fill m (abi_state_new gid svc) lim env)
    :: ('e, 'v option, 'g) wasm_instance"
  have i: "instance_start ?i = (Inr u, g_instance g)" by (rule start)
  have g: "g_store g = in_store (g_instance g)" by (simp add: g_store_def)
  have "store_wf (in_store ?i)"
    by (simp add: store_wf_def callers_live_def instance_ready_def instance_blank_def host_state_new_def
        set_guest_limits_def abi_state_new_def ctx_ok_new callouts_ok_new) (simp add: callout_table_new_def callout_table_len_def callout_lookup_def)
  from keepsD [OF store_wf.keeps_instance_start this] have wf: "store_wf (in_store (g_instance g))" by (simp only: i snd_conv)
  have hp: "host_part (in_store (g_instance g)) = host_part (in_store ?i)"
    using keepsD [OF host_part.keeps_instance_start [of "host_part (in_store ?i)"], of ?i] by (simp only: i snd_conv)
  have an: "announced (st_abi (in_store (g_instance g))) = None"
  proof -
    have "announced (st_abi (in_store ?i)) = None \<or> announced (st_abi (in_store ?i)) = None"
      by (simp add: abi_state_new_def)
    from keepsD [OF announced.keeps_instance_start this] show ?thesis by (simp only: i snd_conv simp_thms)
  qed
  show ?thesis
    using wf hp an
    by (simp add: guest_ok_def guest_wf_def tables_ok_def idle_but_def g stream_ops_of_def host_part_def
        abi_state_new_def store_wf_def)
qed


text \<open>A guest of the sample module, for the witnesses.\<close>

definition sample_engine :: engine where
  "sample_engine =
     \<lparr>engine_id = 0, engine_config = with_epoch_period 10 engine_config_new, stack_depth = 8\<rparr>"

definition sample_host :: abi_host where
  "sample_host = \<lparr>host_engine = sample_engine, host_linker = linked_functions\<rparr>"

definition sample_guest :: "(unit, unit, unit) guest" where
  "sample_guest = \<lparr>detached = None, g_instance = sample_instance, g_abi = V0_2_1, g_id = GuestId 1,
     g_callbacks = map (\<lambda>cb. (cb, None))
       [OnContextCreate, OnVmStart, OnConfigure, OnNewConnection, OnDownstreamData,
        OnDownstreamConnectionClose, OnUpstreamData, OnUpstreamConnectionClose, OnRequestHeaders,
        OnRequestBody, OnRequestTrailers, OnResponseHeaders, OnResponseBody, OnResponseTrailers,
        OnHttpCallResponse, OnGrpcReceiveInitialMetadata, OnGrpcReceive,
        OnGrpcReceiveTrailingMetadata, OnGrpcClose, OnDone, OnLog, OnDelete, OnTick, OnQueueReady,
        OnForeignFunction], g_counted = False\<rparr>"

lemma sample_start: "instance_start sample_instance = (Inr (), sample_instance)"
  by (simp add: instance_start_def abind_def act_simps typed_func_def ensure_live_def is_poisoned_def
      sample_defs has_export_iff)

lemma sample_callbacks: "callbacks_resolve sample_instance = Inr (g_callbacks sample_guest)"
  by (simp add: callbacks_resolve_def typed_func_def ensure_live_def is_poisoned_def sample_defs has_export_iff
      sample_guest_def)

lemma sample_instance_new:
  assumes "module_link m 0 linked_functions = None" "module_start m = None" "module_memory m = Some (replicate 64 0)"
    "allocator_code m \<noteq> None"
    and "instance_start (sample_instance\<lparr>in_module := m, in_store :=
      set_guest_limits limits_default (host_state_new (abi_state_new (GuestId 1) svc) () ())
        \<lparr>st_memory := Some (replicate 64 0), st_allocator := True\<rparr>\<rparr>) = (Inr (), i)"
  shows "instance_new sample_host (\<lambda>n e. ((True, replicate n 0), e)) m (abi_state_new (GuestId 1) svc) limits_default () =
    (Inr i, ())"
proof -
  let ?fill = "\<lambda>n e. ((True, replicate n 0), e)"
  let ?b = "instance_blank sample_host ?fill m (abi_state_new (GuestId 1) svc :: (unit, unit option) abi_state) limits_default ()"
  have host: "engine_id (host_engine sample_host) = 0" "host_linker sample_host = linked_functions"
    "\<not> fuel_enabled (host_engine sample_host)" "epoch_period (host_engine sample_host) = 10"
    "stack_depth (host_engine sample_host) = 8" "fuel limits_default = None"
    by (simp_all add: sample_host_def sample_engine_def fuel_enabled_def epoch_period_def with_epoch_period_def
        engine_config_new_def limits_default_def)
  have "instance_ready (replicate 64 0) (module_state m) ?b = sample_instance\<lparr>in_module := m, in_store :=
      set_guest_limits limits_default (host_state_new (abi_state_new (GuestId 1) svc) () ())
        \<lparr>st_memory := Some (replicate 64 0), st_allocator := True\<rparr>\<rparr>"
    by (simp add: instance_ready_def instance_blank_def sample_instance_def host set_guest_limits_def host_state_new_def)
  with instance_new_plain [of "abi_state_new (GuestId 1) svc :: (unit, unit option) abi_state" limits_default sample_host
      m "replicate 64 0" ?fill "()" "()" i] assms host
  show ?thesis by (simp add: abi_state_new_def context_table_new_def)
qed

lemma sample_guest_new:
  "guest_new sample_host (\<lambda>n e. ((True, replicate n 0), e)) sample_module sample_services limits_default
     (GuestId 1) () = (Inr sample_guest, ())"
proof -
  have "set (abi_exports sample_module) = {''proxy_abi_version_0_2_1''}"
    unfolding abi_exports_set by (auto simp: sample_module_def ABI_PREFIX_def)
  then have "detect_version (abi_exports sample_module) = Inr V0_2_1"
    by (simp add: detect_version_def ok_or_def)
  moreover have "instance_new sample_host (\<lambda>n e. ((True, replicate n 0), e)) sample_module
      (abi_state_new (GuestId 1) sample_services) limits_default () = (Inr sample_instance, ())"
    by (rule sample_instance_new)
      (use sample_start in \<open>simp_all add: sample_module_def allocator_code_def get_func_def sample_link_def resolves_def
        linked_functions_def wasi_functions_def host_functions_def WASI_MODULE_def sample_instance_def sample_store_def\<close>)
  ultimately show ?thesis
    by (simp add: guest_new_def sample_callbacks) (simp add: sample_guest_def sample_defs)
qed


lemma sample_guest_wf: "guest_wf sample_guest" "\<not> guest_is_poisoned sample_guest"
  using guest_new_ok [OF sample_guest_new] sample_wf(3)
  by (simp_all add: guest_ok_def guest_is_poisoned_def is_poisoned_def sample_guest_def)

section \<open>The stream state comes back\<close>

lemma scope_stream_eq:
  assumes "stream_state_of (abi_of (sc_guest s)) = Some stream"
  shows "scope_stream (stream_type_id stream) s = Some (snd stream)"
    "scope_stream_mut (stream_type_id stream) f s = Some (s\<lparr>sc_guest :=
       change_abi (\<lambda>a. a\<lparr>stream_state_of := Some (fst stream, f (snd stream))\<rparr>) (sc_guest s)\<rparr>)"
proof -
  obtain ops v where s: "stream = (ops, v)" by force
  have "change_abi (\<lambda>_. abi_of (sc_guest s)\<lparr>stream_state_of := Some (ops, f v)\<rparr>) (sc_guest s) =
      change_abi (\<lambda>a. a\<lparr>stream_state_of := Some (ops, f v)\<rparr>) (sc_guest s)"
    by (rule change_abi_cong) simp
  with assms show "scope_stream_mut (stream_type_id stream) f s = Some (s\<lparr>sc_guest :=
       change_abi (\<lambda>a. a\<lparr>stream_state_of := Some (fst stream, f (snd stream))\<rparr>) (sc_guest s)\<rparr>)"
    by (simp add: scope_stream_mut_def stream_state_as_def s)
qed (use assms in \<open>simp add: scope_stream_def stream_state_as_ref_def\<close>)

lemma stream_mut_operates:
  assumes "scope_stream_mut ty f s = Some s'" shows "operates (Scoped s) (Scoped s')"
proof -
  from assms obtain stream where held: "stream_state_of (abi_of (sc_guest s)) = Some stream" and ty: "ty = stream_type_id stream"
    by (auto simp: scope_stream_mut_def stream_state_as_def split: option.splits if_splits)
  with assms scope_stream_eq(2) [OF held] show ?thesis
    using change_stream [of s "fst stream" "snd stream"] by auto
qed

text \<open>
  C24. A scope gives back what it was lent: after any callbacks, with any code of the guest, the
  accessors of the scope reach the stream state the store holds at that moment, the finish of the
  scope returns it with the type it was entered with (no branch the code marks as unreachable is
  taken), and no stream state stays within reach of a host function.
\<close>

theorem finish_returns_stream:
  assumes "guest_wf g"
  shows "\<exists>v g'. finish (stream_type_id stream) (perform_all cs (enter stream g)) = (Some (fst stream, v), g') \<and>
    stream_state_of (abi_of (sc_guest (perform_all cs (enter stream g)))) = Some (fst stream, v) \<and>
    scope_stream (stream_type_id stream) (perform_all cs (enter stream g)) = Some v \<and>
    (\<exists>s'. scope_stream_mut (stream_type_id stream) f (perform_all cs (enter stream g)) = Some s' \<and>
      scope_stream (stream_type_id stream) s' = Some (f v)) \<and>
    stream_state_of (abi_of g') = None"
proof -
  let ?s = "perform_all cs (enter stream g)"
  have ok: "scope_ok (Some (fst stream)) ?s"
    by (rule ok_perform_all [OF ok_enter [OF assms]])
  then obtain v where v: "stream_state_of (abi_of (sc_guest ?s)) = Some (fst stream, v)"
    by (auto simp: scope_ok_def guest_ok_def stream_ops_of_def)
  have ty: "stream_type_id (fst stream, x) = stream_type_id stream" for x
    by (simp add: stream_type_id_def)
  note reach = scope_stream_eq [OF v, unfolded ty]
  have "scope_stream (stream_type_id stream) (the (scope_stream_mut (stream_type_id stream) f ?s)) = Some (f v)"
    unfolding reach(2) by (rule scope_stream_eq(1) [of _ "(fst stream, f v)", unfolded ty, simplified]) simp
  with finish_eq [OF ok, of "stream_type_id stream"] v reach show ?thesis
    by (auto simp: stream_type_id_def guest_ok_def stream_ops_of_def)
qed

lemma finish_returns_stream_witness:
  "\<exists>v g'. finish 5 (perform_all [DoContextCreate None] (enter (stream_ops_default\<lparr>ss_type_id := 5\<rparr>, Some ()) sample_guest))
     = (Some (stream_ops_default\<lparr>ss_type_id := 5\<rparr>, v), g')"
  using finish_returns_stream [OF sample_guest_wf(1), of "(stream_ops_default\<lparr>ss_type_id := 5\<rparr>, Some ())" "[DoContextCreate None]" id]
  by (auto simp: stream_type_id_def)

section \<open>A poisoned guest\<close>

lemma live_poisoned: "guest_is_poisoned g \<Longrightarrow> live g = (Inl (Runtime Poisoned), g)"
proof -
  assume p: "guest_is_poisoned g"
  have "set_store poison g = g"
    using p by (simp add: set_store_def poison_def guest_is_poisoned_def is_poisoned_def)
  with p show ?thesis by (simp add: amap_err_def require_live_def)
qed

lemma on_guest_same: "m (sc_guest s) = (r, sc_guest s) \<Longrightarrow> on_guest m s = (r, s)"
  by (simp add: on_guest_def)

lemma on_guest_live_poisoned:
  "guest_is_poisoned (sc_guest s) \<Longrightarrow> abind (on_guest live) k s = (Inl (Runtime Poisoned), s)"
  by (simp add: abind_def on_guest_same live_poisoned)

lemma poisoned_stream_calls:
  assumes "guest_is_poisoned (sc_guest s)"
  shows "stream_action ctx kind cb n params s = (Inl (Runtime Poisoned), s)"
    "stream_event ctx cb params s = (Inl (Runtime Poisoned), s)"
proof -
  have "stream_checks ctx k s = (Inl (Runtime Poisoned), s)" for k
    unfolding stream_checks_def by (rule on_guest_live_poisoned [OF assms])
  then show "stream_action ctx kind cb n params s = (Inl (Runtime Poisoned), s)"
    "stream_event ctx cb params s = (Inl (Runtime Poisoned), s)"
    by (simp_all add: stream_action_def stream_event_def abind_def)
qed

lemma poisoned_guest_calls:
  assumes "guest_is_poisoned g"
  shows "context_create p g = (Inl (Runtime Poisoned), g)" "vm_start c g = (Inl (Runtime Poisoned), g)"
    "configure c plugin g = (Inl (Runtime Poisoned), g)" "receive_http_call_response c k r g = (Inl (Runtime Poisoned), g)"
    "tick c g = (Inl (Runtime Poisoned), g)" "queue_ready c q g = (Inl (Runtime Poisoned), g)"
    "grpc_receive_initial_metadata c k m g = (Inl (Runtime Poisoned), g)"
    "grpc_receive c k b g = (Inl (Runtime Poisoned), g)"
    "grpc_receive_trailing_metadata c k m g = (Inl (Runtime Poisoned), g)"
    "grpc_close c k st g = (Inl (Runtime Poisoned), g)" "foreign_function c f b g = (Inl (Runtime Poisoned), g)"
    "expect_stream_kind c kind g = (Inl (Runtime Poisoned), g)"
  by (simp_all add: context_create_def vm_start_def configure_def receive_http_call_response_def tick_def queue_ready_def
      grpc_receive_initial_metadata_def grpc_receive_def grpc_receive_trailing_metadata_def grpc_close_def
      foreign_function_def expect_stream_kind_def abind_def live_poisoned [OF assms])

lemma perform_poisoned:
  assumes "guest_is_poisoned (sc_guest s)"
  shows "\<exists>e. perform c s = (Inl (Runtime e), s) \<and> (e = Poisoned \<or> (\<exists>n. 2 ^ 31 \<le> n \<and> e = ValueTooLarge n))"
proof -
  note p = poisoned_guest_calls [OF assms]
  have direct: "on_done ctx s = (Inl (Runtime Poisoned), s)" "on_log ctx s = (Inl (Runtime Poisoned), s)"
    "on_delete ctx s = (Inl (Runtime Poisoned), s)" for ctx
    by (simp_all add: on_done_def on_log_def on_delete_def on_guest_live_poisoned [OF assms])
  show ?thesis
    by (cases c)
      (auto simp: unit_result_def abind_def act_simps on_guest_def p direct poisoned_stream_calls [OF assms]
        on_context_create_def on_vm_start_def on_configure_def on_request_headers_def on_request_body_def
        on_request_trailers_def on_response_headers_def on_response_body_def on_response_trailers_def
        on_new_connection_def on_downstream_data_def on_upstream_data_def on_downstream_connection_close_def
        on_upstream_connection_close_def on_http_call_response_def on_tick_def on_queue_ready_def
        on_grpc_receive_initial_metadata_def on_grpc_receive_def on_grpc_receive_trailing_metadata_def
        on_grpc_close_def on_foreign_function_def scope_expect_stream_kind_def wire_u32_def i32_try_from_u32_def)
qed

text \<open>
  C26. A poisoned guest runs nothing: every callback of a scope is refused as poisoned (or, when
  the embedder announces a size of more than 31 bits, as a value too large), and neither the
  guest nor the scope changes.
\<close>

theorem poisoned_guest_refuses:
  assumes "guest_is_poisoned (sc_guest s)"
  shows "\<exists>e. perform c s = (Inl (Runtime e), s) \<and> (e = Poisoned \<or> (\<exists>n. 2 ^ 31 \<le> n \<and> e = ValueTooLarge n))"
  by (rule perform_poisoned [OF assms])

lemma poisoned_guest_refuses_witness:
  "\<exists>e. perform (DoTick (ContextId 1)) (enter_root (set_store poison sample_guest)) =
     (Inl (Runtime e), enter_root (set_store poison sample_guest)) \<and>
     (e = Poisoned \<or> (\<exists>n. 2 ^ 31 \<le> n \<and> e = ValueTooLarge n))"
  by (rule poisoned_guest_refuses)
    (simp add: enter_root_def enter_def scope_new_def guest_is_poisoned_store discard_detached_def)

section \<open>Refused contexts\<close>

lemma live_ok:
  assumes "guest_wf g" "\<not> guest_is_poisoned g"
  shows "live g = (Inr (), g)"
  using assms by (simp add: amap_err_def require_live_def guest_wf_def idle_but_def)

text \<open>The refusal the checks give.\<close>

definition refusal :: "('e, 'v, 'g) guest \<Rightarrow> context_id \<Rightarrow> callback \<Rightarrow> guest_error" where
  "refusal g ctx cb =
     GuestRejected cb (the (if cb = OnVmStart then vm_rejected (contexts_of (abi_of g))
                            else root_of (contexts_of (abi_of g)) ctx))"

lemma accepted_refused:
  assumes "rejected_by g ctx = Some cb"
  shows "accepted g ctx = Inl (refusal g ctx cb)"
  using assms
  by (auto simp: accepted_def rejected_by_def rejection_of_def is_rejected_def refusal_def Let_def
      split: option.splits if_splits)

lemma require_types:
  "guest_context_type g ctx = Some Root \<Longrightarrow> require_root g ctx = Inr ()"
  "guest_context_type g ctx = Some Stream \<Longrightarrow> require_stream g ctx = Inr ()"
  "guest_context_type g ctx = Some k \<Longrightarrow> require g ctx = Inr k"
  by (simp_all add: require_root_def require_stream_def require_def)

text \<open>The context a callback serves. The callbacks that end a context do so of a refused one too.\<close>

primrec serves_context :: "scope_call \<Rightarrow> context_id option" where
  "serves_context (DoContextCreate p) = p"
| "serves_context (DoVmStart c) = Some c"
| "serves_context (DoConfigure c p) = Some c"
| "serves_context (DoRequestHeaders c n b) = Some c"
| "serves_context (DoRequestBody c n b) = Some c"
| "serves_context (DoRequestTrailers c n) = Some c"
| "serves_context (DoResponseHeaders c n b) = Some c"
| "serves_context (DoResponseBody c n b) = Some c"
| "serves_context (DoResponseTrailers c n) = Some c"
| "serves_context (DoNewConnection c) = Some c"
| "serves_context (DoDownstreamData c n b) = Some c"
| "serves_context (DoUpstreamData c n b) = Some c"
| "serves_context (DoDownstreamClose c p) = Some c"
| "serves_context (DoUpstreamClose c p) = Some c"
| "serves_context (DoHttpCallResponse c k r) = Some c"
| "serves_context (DoTick c) = Some c"
| "serves_context (DoQueueReady c q) = Some c"
| "serves_context (DoGrpcInitialMetadata c k m) = Some c"
| "serves_context (DoGrpcReceive c k m) = Some c"
| "serves_context (DoGrpcTrailingMetadata c k m) = Some c"
| "serves_context (DoGrpcClose c k st) = Some c"
| "serves_context (DoForeignFunction c f a) = Some c"
| "serves_context (DoDone c) = None"
| "serves_context (DoLog c) = None"
| "serves_context (DoDelete c) = None"
| "serves_context (DoExpectKind c k) = None"

text \<open>The root of an open callout is the root of its caller, so it is refused with it.\<close>

lemma refused_owner:
  assumes "guest_wf g" "\<not> guest_is_poisoned g" and "callout_lookup (callouts_of (abi_of g)) callout = Some e"
    and "rejected_by g (co_caller e) = Some cb"
  shows "require_root g (co_root e) = Inr ()" "accepted g (co_root e) = Inl (refusal g (co_caller e) cb)"
proof -
  let ?t = "contexts_of (abi_of g)"
  have ok: "ctx_ok ?t" and root: "root_of ?t (co_caller e) = Some (co_root e)"
    using assms(1-3) by (auto simp: guest_wf_def idle_but_def tables_ok_def store_wf_def callers_live_def is_deleting_def)
  note r = root_of_root [OF ok root]
  then show "require_root g (co_root e) = Inr ()"
    by (simp add: require_root_def require_def guest_context_type_def)
  have "is_rejected ?t (co_root e) = is_rejected ?t (co_caller e)" using root r by (simp add: is_rejected_def)
  then have "rejected_by g (co_root e) = Some cb" using assms(4) by (simp only: rejected_by_def rejection_of_def)
  from accepted_refused [OF this] root r show "accepted g (co_root e) = Inl (refusal g (co_caller e) cb)"
    by (simp add: refusal_def)
qed

lemma refused_http_answer:
  assumes "guest_wf g" "\<not> guest_is_poisoned g" and "callout_lookup (callouts_of (abi_of g)) callout = Some e"
    and "rejected_by g (co_caller e) = Some cb"
  shows "receive_http_call_response (co_caller e) callout response g =
    (Inl (if co_kind e \<noteq> HttpCall then CalloutError callout (WrongKind (co_kind e))
          else if \<not> is_failed response \<and> hr_headers response = [] then CalloutError callout NoResponseHeader
          else refusal g (co_caller e) cb), g)"
  using live_ok [OF assms(1,2)] refused_owner [OF assms] assms(3)
  by (simp add: receive_http_call_response_def abind_def act_simps ok_or_def)

lemma refused_grpc_answer:
  assumes "guest_wf g" "\<not> guest_is_poisoned g" and "callout_lookup (callouts_of (abi_of g)) callout = Some e"
    and "rejected_by g (co_caller e) = Some cb"
  defines "err \<equiv> if co_kind e = HttpCall then CalloutError callout (WrongKind HttpCall) else refusal g (co_caller e) cb"
  shows "grpc_receive_initial_metadata (co_caller e) callout metadata g = (Inl err, g)"
    "grpc_receive (co_caller e) callout message g = (Inl err, g)"
    "grpc_receive_trailing_metadata (co_caller e) callout metadata g = (Inl err, g)"
    "grpc_close (co_caller e) callout st g = (Inl err, g)"
proof -
  have "co_kind e \<notin> set BOTH_KINDS \<longleftrightarrow> co_kind e = HttpCall" by (cases "co_kind e") (simp_all add: BOTH_KINDS_def)
  then have "grpc_accepted g (co_caller e) callout BOTH_KINDS = Inl err"
    using refused_owner [OF assms(1-4)] assms(3) by (simp add: grpc_accepted_def rbind_def ok_or_def err_def)
  then show "grpc_receive_initial_metadata (co_caller e) callout metadata g = (Inl err, g)"
    "grpc_receive (co_caller e) callout message g = (Inl err, g)"
    "grpc_receive_trailing_metadata (co_caller e) callout metadata g = (Inl err, g)"
    "grpc_close (co_caller e) callout st g = (Inl err, g)"
    using live_ok [OF assms(1,2)]
    by (simp_all add: grpc_receive_initial_metadata_def grpc_receive_def grpc_receive_trailing_metadata_def
        grpc_close_def abind_def act_simps)
qed

lemma refused_answers:
  assumes "guest_wf g" "\<not> guest_is_poisoned g" and "rejected_by g ctx = Some cb"
  shows "\<exists>e. receive_http_call_response ctx callout response g = (Inl e, g)"
    "\<exists>e. grpc_receive_initial_metadata ctx callout metadata g = (Inl e, g)"
    "\<exists>e. grpc_receive ctx callout message g = (Inl e, g)"
    "\<exists>e. grpc_receive_trailing_metadata ctx callout metadata g = (Inl e, g)"
    "\<exists>e. grpc_close ctx callout st g = (Inl e, g)"
proof -
  note l = live_ok [OF assms(1,2)]
  show "\<exists>e. receive_http_call_response ctx callout response g = (Inl e, g)"
  proof (cases "\<exists>e. callout_lookup (callouts_of (abi_of g)) callout = Some e \<and> co_caller e = ctx")
    case True
    with refused_http_answer [OF assms(1,2)] assms(3) show ?thesis by blast
  next
    case False
    with l show ?thesis
      by (cases "callout_lookup (callouts_of (abi_of g)) callout")
        (auto simp: receive_http_call_response_def abind_def act_simps ok_or_def)
  qed
  have "\<exists>e. grpc_accepted g ctx callout BOTH_KINDS = Inl e"
  proof (cases "\<exists>e. callout_lookup (callouts_of (abi_of g)) callout = Some e \<and> co_caller e = ctx")
    case True
    then obtain e where "callout_lookup (callouts_of (abi_of g)) callout = Some e" "co_caller e = ctx" by blast
    with refused_owner [OF assms(1,2) this(1), of cb] assms(3) show ?thesis
      by (simp add: grpc_accepted_def rbind_def ok_or_def)
  next
    case False
    then show ?thesis
      by (cases "callout_lookup (callouts_of (abi_of g)) callout") (auto simp: grpc_accepted_def rbind_def ok_or_def)
  qed
  then show "\<exists>e. grpc_receive_initial_metadata ctx callout metadata g = (Inl e, g)"
    "\<exists>e. grpc_receive ctx callout message g = (Inl e, g)"
    "\<exists>e. grpc_receive_trailing_metadata ctx callout metadata g = (Inl e, g)"
    "\<exists>e. grpc_close ctx callout st g = (Inl e, g)"
    using l
    by (auto simp: grpc_receive_initial_metadata_def grpc_receive_def grpc_receive_trailing_metadata_def
        grpc_close_def abind_def act_simps)
qed

lemma refused_stream_calls:
  assumes "guest_wf (sc_guest s)" "\<not> guest_is_poisoned (sc_guest s)" and "rejected_by (sc_guest s) ctx = Some cb"
  shows "\<exists>e. stream_action ctx kind c n params s = (Inl e, s)" "\<exists>e. stream_event ctx c params s = (Inl e, s)"
proof -
  have "\<exists>e. stream_checks ctx kd s = (Inl e, s)" for kd
    using live_ok [OF assms(1,2)] accepted_refused [OF assms(3)]
    by (cases "require_stream (sc_guest s) ctx") (simp_all add: stream_checks_eq)
  from this [of kind] this [of Tcp]
  show "\<exists>e. stream_action ctx kind c n params s = (Inl e, s)" "\<exists>e. stream_event ctx c params s = (Inl e, s)"
    by (auto simp: stream_action_def stream_event_def abind_def)
qed

lemma refused_root_calls:
  assumes "guest_wf g" "\<not> guest_is_poisoned g" and "rejected_by g ctx = Some cb"
  shows "\<exists>e. context_create (Some ctx) g = (Inl e, g)" "\<exists>e. vm_start ctx g = (Inl e, g)"
    "\<exists>e. configure ctx plugin g = (Inl e, g)" "\<exists>e. tick ctx g = (Inl e, g)"
    "\<exists>e. queue_ready ctx queue g = (Inl e, g)" "\<exists>e. foreign_function ctx f arguments g = (Inl e, g)"
  using live_ok [OF assms(1,2)] accepted_refused [OF assms(3)]
  by (cases "require_root g ctx"; cases "require g ctx";
      simp add: context_create_def vm_start_def configure_def tick_def queue_ready_def foreign_function_def
        abind_def act_simps)+

lemma perform_refused:
  assumes "guest_wf (sc_guest s)" "\<not> guest_is_poisoned (sc_guest s)" and "rejected_by (sc_guest s) ctx = Some cb"
    and "serves_context c = Some ctx"
  shows "\<exists>e. perform c s = (Inl e, s)"
proof -
  have lift: "\<exists>e. on_guest m s = (Inl e, s)" if "\<exists>e. m (sc_guest s) = (Inl e, sc_guest s)"
    for m :: "('a, 'b, 'c, 'x) guest_act"
    using that by (auto simp: on_guest_def)
  have unit: "\<exists>e. unit_result m s = (Inl e, s)" if "\<exists>e. m s = (Inl e, s)" for m :: "('a, 'b, 'c, 'x) scope_act"
    using that by (auto simp: unit_result_def abind_def)
  have sized: "\<exists>e. abind (sized_u32 v) k s = (Inl e, s)" if "\<And>x. \<exists>e. k x s = (Inl e, s)"
    for v and k :: "i32 \<Rightarrow> ('a, 'b, 'c, 'x) scope_act"
    using that by (cases "wire_u32 v") (auto simp: abind_def act_simps)
  note calls = refused_root_calls [OF assms(1-3)] refused_answers [OF assms(1-3)]
  note streams = refused_stream_calls [OF assms(1-3)]
  show ?thesis
    using assms(4)
    by (cases c; simp only: perform.simps serves_context.simps option.inject option.distinct on_context_create_def
        on_vm_start_def on_configure_def on_request_headers_def on_request_body_def on_request_trailers_def
        on_response_headers_def on_response_body_def on_response_trailers_def on_new_connection_def
        on_downstream_data_def on_upstream_data_def on_downstream_connection_close_def
        on_upstream_connection_close_def on_http_call_response_def on_tick_def on_queue_ready_def
        on_grpc_receive_initial_metadata_def on_grpc_receive_def on_grpc_receive_trailing_metadata_def
        on_grpc_close_def on_foreign_function_def Let_def)
      (blast intro: lift unit sized calls streams)+
qed


text \<open>A guest whose first root, the context one, refused the VM start.\<close>

definition sample_root :: context_entry where
  "sample_root = \<lparr>context_type_of = Root, entry_stream_kind = None, entry_parent = None, entry_state = Active,
     entry_rejected = False, entry_plugin = None, entry_tick_period = None\<rparr>"

definition sample_contexts :: context_table where
  "sample_contexts = \<lparr>entries = [(ContextId 1, sample_root),
      (ContextId 2, sample_root\<lparr>context_type_of := Stream, entry_parent := Some (ContextId 1)\<rparr>)],
     next_context = 3, effective = Some (ContextId 1), vm_rejected = None\<rparr>"

lemma sample_contexts_ok: "ctx_ok sample_contexts" "ctx_ok (ctx_reject_vm c sample_contexts)"
proof -
  have "ctx_type sample_contexts (ContextId 1) = Some Root"
    by (simp add: ctx_type_def sample_contexts_def btm_get_def sample_root_def)
  then show "ctx_ok sample_contexts"
    by (auto simp: ctx_ok_def ctx_entry_ok_def sample_contexts_def btm_ok_def btm_get_def less_context_id_def
        sample_root_def split: if_splits)
  then show "ctx_ok (ctx_reject_vm c sample_contexts)" by (rule ctx_ok_setters)
qed

lemma sample_with_contexts:
  assumes "ctx_ok t"
  shows "guest_wf (change_contexts (\<lambda>_. t) sample_guest)" "\<not> guest_is_poisoned (change_contexts (\<lambda>_. t) sample_guest)"
proof -
  have "contexts_of (abi_of sample_guest) = context_table_new"
    by (simp add: sample_guest_def sample_defs g_store_def)
  then have "tables_ok (change_contexts (\<lambda>_. t) sample_guest)"
    using sample_guest_wf(1) assms
    by (intro tables_ok_contexts) (simp_all add: guest_wf_def context_table_new_def root_of_def btm_get_def)
  then show "guest_wf (change_contexts (\<lambda>_. t) sample_guest)"
    using sample_guest_wf(1) by (simp add: guest_wf_def idle_but_def)
qed (use sample_guest_wf(2) in simp)


section \<open>One family of stream, one stream\<close>

text \<open>
  C28. A stream context serves one family of stream and a scope one stream context: a callback of
  the other family than the recorded one, or of another stream context than the one the scope
  serves, is refused with what is recorded and what was asked, runs no code of the guest and
  changes nothing; a callback that passes the checks records the family and the context.
\<close>

theorem one_stream_one_family:
  assumes "guest_wf (sc_guest s)" "\<not> guest_is_poisoned (sc_guest s)"
    and "guest_context_type (sc_guest s) ctx = Some Stream" and "rejected_by (sc_guest s) ctx = None"
  shows "(\<forall>k. context_stream_kind (sc_guest s) ctx = Some k \<longrightarrow> k \<noteq> kind \<longrightarrow>
      stream_action ctx kind c n params s = (Inl (ContextError ctx (WrongStreamKind k kind)), s)) \<and>
    (context_stream_kind (sc_guest s) ctx \<in> {None, Some kind} \<longrightarrow>
      (\<forall>lent. served_context s = Some lent \<longrightarrow> lent \<noteq> ctx \<longrightarrow>
        stream_action ctx kind c n params s = (Inl (ContextError ctx (OtherStream lent)), s)) \<and>
      (served_context s \<in> {None, Some ctx} \<longrightarrow>
        stream_checks ctx kind s =
          (Inr (), s\<lparr>sc_guest := record_stream_kind ctx kind (sc_guest s), served_context := Some ctx\<rparr>) \<and>
        context_stream_kind (record_stream_kind ctx kind (sc_guest s)) ctx = Some kind))"
proof -
  note l = live_ok [OF assms(1,2)] and t = require_types [of "sc_guest s" ctx]
  have a: "accepted (sc_guest s) ctx = Inr ()"
    using assms(4) by (simp add: accepted_def rejected_by_def Let_def)
  have k: "require_stream_kind (sc_guest s) ctx kind =
      (case context_stream_kind (sc_guest s) ctx of
         Some r \<Rightarrow> if r \<noteq> kind then Inl (ContextError ctx (WrongStreamKind r kind)) else Inr ()
       | None \<Rightarrow> Inr ())"
    by (simp add: require_stream_kind_def context_stream_kind_def)
  have "context_stream_kind (record_stream_kind ctx kind (sc_guest s)) ctx = Some kind"
    using assms(3)
    by (auto simp: context_stream_kind_def record_stream_kind_def ctx_set_stream_kind_def ctx_stream_kind_def
        guest_context_type_def ctx_type_def split: option.split)
  then show ?thesis
    using assms(3) by (auto simp: stream_action_def abind_def stream_checks_eq l a t k)
qed

lemma one_stream_one_family_witness:
  "\<exists>s :: (unit, unit, unit) scope. stream_action (ContextId 2) Http OnRequestHeaders None [2, 0, 0] s =
     (Inl (ContextError (ContextId 2) (OtherStream (ContextId 7))), s)"
proof -
  let ?s = "(scope_new (change_contexts (\<lambda>_. sample_contexts) sample_guest))\<lparr>served_context := Some (ContextId 7)\<rparr>"
  have t: "guest_context_type (sc_guest ?s) (ContextId 2) = Some Stream" "rejected_by (sc_guest ?s) (ContextId 2) = None"
    "context_stream_kind (sc_guest ?s) (ContextId 2) = None"
    by (simp_all add: scope_new_def guest_context_type_def ctx_type_def sample_contexts_def btm_get_def sample_root_def
        rejected_by_def rejection_of_def is_rejected_def root_of_def context_stream_kind_def ctx_stream_kind_def)
  have w: "guest_wf (sc_guest ?s)" "\<not> guest_is_poisoned (sc_guest ?s)"
    using sample_with_contexts [OF sample_contexts_ok(1)] by (simp_all add: scope_new_def)
  have "stream_action (ContextId 2) Http OnRequestHeaders None [2, 0, 0] ?s =
      (Inl (ContextError (ContextId 2) (OtherStream (ContextId 7))), ?s)"
    using one_stream_one_family [OF w t(1,2)] t(3) by simp
  then show ?thesis by blast
qed

section \<open>The end of a context\<close>

text \<open>
  C16. Deleting a context: a context that is not done, or a root that still has stream contexts,
  is refused and nothing changes. Otherwise a deletion that succeeds removes exactly that context,
  leaves no open callout of it, whatever the guest did in the callbacks that ended them, and
  reports only callouts of that context; one that fails leaves the guest poisoned.
\<close>

theorem on_delete_spec:
  assumes "guest_wf (sc_guest s)" "\<not> guest_is_poisoned (sc_guest s)"
    and "guest_context_type (sc_guest s) ctx \<noteq> Some Stream \<or> served_context s \<in> {None, Some ctx}"
    and "on_delete ctx s = (r, s')"
  shows "case require_deletable (sc_guest s) ctx of
      Inl e \<Rightarrow> r = Inl e \<and> sc_guest s' = sc_guest s
    | Inr _ \<Rightarrow>
        (case r of
           Inl e \<Rightarrow> guest_is_poisoned (sc_guest s')
         | Inr ended \<Rightarrow>
             guest_context_type (sc_guest s') ctx = None \<and>
             (\<forall>c. c \<noteq> ctx \<longrightarrow> guest_context_type (sc_guest s') c = guest_context_type (sc_guest s) c \<and>
                context_parent (sc_guest s') c = context_parent (sc_guest s) c) \<and>
             (\<forall>c e. callout_lookup (callouts_of (abi_of (sc_guest s'))) c = Some e \<longrightarrow> co_caller e \<noteq> ctx) \<and>
             (\<forall>c \<in> set ended. \<exists>e. callout_lookup (callouts_of (abi_of (sc_guest s))) c = Some e \<and> co_caller e = ctx))"
proof -
  note l = live_ok [OF assms(1,2)]
  obtain s1 where s1: "require_served_stream ctx s = (Inr (), s1)" "sc_guest s1 = sc_guest s"
  proof (cases "guest_context_type (sc_guest s) ctx = Some Stream")
    case True
    with assms(3) that show thesis
      by (cases "served_context s") (auto simp: require_served_stream_def require_served_def)
  qed (use that in \<open>simp add: require_served_stream_def\<close>)
  have d: "(r, s') = abind (on_guest (atry (\<lambda>g. require_deletable g ctx))) (\<lambda>_. on_guest (delete_marked ctx)) s1"
    using assms(4) by (simp add: on_delete_def abind_def on_guest_def l s1(1) act_simps)
  show ?thesis
  proof (cases "require_deletable (sc_guest s) ctx")
    case (Inl e)
    with d s1(2) show ?thesis by (simp add: abind_def on_guest_def act_simps)
  next
    case (Inr u)
    with d s1(2) obtain g' where g': "delete_marked ctx (sc_guest s) = (r, g')" "sc_guest s' = g'"
      by (auto simp: abind_def on_guest_def act_simps split: prod.splits)
    have "\<not> has_children (contexts_of (abi_of (sc_guest s))) ctx"
      using Inr by (auto simp: require_deletable_def rbind_eq_Inr split: if_splits)
    note e = delete_marked_effects [OF assms(1) this g'(1)]
    have shape: "guest_context_type g' c = (if c = ctx then None else guest_context_type (sc_guest s) c)"
      "c \<noteq> ctx \<Longrightarrow> context_parent g' c = context_parent (sc_guest s) c"
      if "r = Inr ended" for ended c
    proof -
      have "ctx_shape (contexts_of (abi_of g')) c =
          (if c = ctx then None else ctx_shape (contexts_of (abi_of (sc_guest s))) c)"
        using e that by (simp add: deletion_def)
      then show "guest_context_type g' c = (if c = ctx then None else guest_context_type (sc_guest s) c)"
        "c \<noteq> ctx \<Longrightarrow> context_parent g' c = context_parent (sc_guest s) c"
        by (cases "ctx_entry (contexts_of (abi_of g')) c"; cases "ctx_entry (contexts_of (abi_of (sc_guest s))) c";
            simp add: ctx_shape_def guest_context_type_def ctx_type_def context_parent_def ctx_parent_def split: if_splits)+
    qed
    with Inr e g'(2) show ?thesis
      by (cases r) (auto simp: deletion_def)
  qed
qed

lemma on_delete_spec_witness:
  "\<exists>s :: (unit, unit, unit) scope. fst (on_delete (ContextId 1) s) = Inl (ContextError (ContextId 1) HasChildren)"
proof -
  let ?t = "snd (ctx_set_state (ContextId 1) DoneState sample_contexts)"
  let ?s = "scope_new (change_contexts (\<lambda>_. ?t) sample_guest)"
  have w: "guest_wf (sc_guest ?s)" "\<not> guest_is_poisoned (sc_guest ?s)"
    using sample_with_contexts [OF ctx_ok_setters(1) [OF sample_contexts_ok(1)]] by (simp_all add: scope_new_def)
  have t: "guest_context_type (sc_guest ?s) (ContextId 1) = Some Root"
    by (simp add: scope_new_def guest_context_type_def ctx_type_def ctx_set_state_def sample_contexts_def btm_get_def
        sample_root_def ctx_update_def btm_adjust_def)
  have "require_deletable (sc_guest ?s) (ContextId 1) = Inl (ContextError (ContextId 1) HasChildren)"
    by (simp add: require_deletable_def require_done_def require_def scope_new_def guest_context_type_def
        guest_context_state_def ctx_state_def has_children_def ctx_type_def ctx_set_state_def sample_contexts_def btm_get_def
        sample_root_def ctx_update_def btm_adjust_def)
  with on_delete_spec [OF w _ prod.collapse [symmetric], of "ContextId 1"] t show ?thesis
    by (intro exI [of _ ?s]) simp
qed

end
