(* ===== verification/Guest_Answers.thy ===== *)
theory Guest_Answers
  imports Embedder Guest_Verdict
begin

text \<open>
  What the answer of a callback tells the embedder of the guest: every callback of a scope, with
  its checks, its deliveries and its changes of the tables, leaves a poisoned guest exactly when
  it answers an error of the runtime, the refusal of a size apart.
\<close>

section \<open>Actions that tell\<close>

text \<open>
  From a guest that is live and idle to one that is idle, poisoned exactly when the action fails
  with one of the errors \<open>K\<close>. The guest is a part of what the action works on.
\<close>

definition usable :: "('e, 'v, 'g) guest \<Rightarrow> bool" where
  "usable g \<longleftrightarrow> \<not> guest_is_poisoned g \<and> current_callback (abi_of g) = None"

definition tells :: "('w \<Rightarrow> ('e, 'v, 'g) guest) \<Rightarrow> ('f \<Rightarrow> bool) \<Rightarrow> ('w, 'f, 'a) act \<Rightarrow> bool" where
  "tells part K m \<longleftrightarrow>
     (\<forall>w r w'. usable (part w) \<longrightarrow> m w = (r, w') \<longrightarrow>
        current_callback (abi_of (part w')) = None \<and>
        (guest_is_poisoned (part w') \<longleftrightarrow> (\<exists>e. r = Inl e \<and> K e)))"

named_theorems tells_intros "what the answer of each step of a callback tells"

lemma tellsD:
  assumes "tells part K m" "usable (part w)" "m w = (r, w')"
  shows "current_callback (abi_of (part w')) = None"
    "guest_is_poisoned (part w') \<longleftrightarrow> (\<exists>e. r = Inl e \<and> K e)"
  using assms unfolding tells_def by blast+

lemma tells_pure [tells_intros]:
  "tells part K (aret x)" "tells part K (aget f)" "\<not> K e \<Longrightarrow> tells part K (afail e)" "\<not> K e \<Longrightarrow> tells part K (aguard p e)"
  "(\<And>e. r = Inl e \<Longrightarrow> \<not> K e) \<Longrightarrow> tells part K (alift r)"
  "(\<And>w e. h w = Inl e \<Longrightarrow> \<not> K e) \<Longrightarrow> tells part K (atry h)"
  by (auto simp: tells_def usable_def act_simps split: if_splits)

lemma tells_abind [tells_intros]:
  assumes "tells part K m" "\<And>x. tells part K (k x)"
  shows "tells part K (abind m k)"
  unfolding tells_def
proof (intro allI impI)
  fix w r w' assume w: "usable (part w)" and a: "abind m k w = (r, w')"
  from a show "current_callback (abi_of (part w')) = None \<and>
      (guest_is_poisoned (part w') \<longleftrightarrow> (\<exists>e. r = Inl e \<and> K e))"
  proof (cases rule: abind_cases)
    case (1 e)
    with tellsD [OF assms(1) w] show ?thesis by fastforce
  next
    case (2 x v)
    have "usable (part v)" using tellsD [OF assms(1) w 2(1)] by (simp add: usable_def)
    from tellsD [OF assms(2) this 2(2)] show ?thesis by blast
  qed
qed

lemma tells_cases [tells_intros]:
  "tells part K m \<Longrightarrow> tells part K n \<Longrightarrow> tells part K (if b then m else n)"
  "tells part K m \<Longrightarrow> (\<And>x. tells part K (k x)) \<Longrightarrow> tells part K (case v of None \<Rightarrow> m | Some x \<Rightarrow> k x)"
  "(\<And>x y. tells part K (k' x y)) \<Longrightarrow> tells part K (case p of (x, y) \<Rightarrow> k' x y)"
  by (simp_all split: option.split prod.split)

lemma tells_on_guest [tells_intros]: "tells (\<lambda>g. g) K m \<Longrightarrow> tells sc_guest K (on_guest m)"
  by (auto simp: tells_def on_guest_def split: prod.splits)

section \<open>A run of guest code\<close>

text \<open>The only error that comes before guest code runs is the refusal of a size.\<close>

definition broke :: "error \<Rightarrow> bool" where
  "broke e \<longleftrightarrow> (\<forall>n. e \<noteq> ValueTooLarge n)"

definition spent :: "guest_error \<Rightarrow> bool" where
  "spent e \<longleftrightarrow> (\<exists>x. e = Runtime x \<and> broke x)"

lemma tells_from_runtime [tells_intros]: "tells part broke m \<Longrightarrow> tells part spent (amap_err Runtime m)"
  unfolding tells_def
proof (intro allI impI)
  fix w r w' assume t: "\<forall>w r w'. usable (part w) \<longrightarrow> m w = (r, w') \<longrightarrow> current_callback (abi_of (part w')) = None \<and>
      (guest_is_poisoned (part w') \<longleftrightarrow> (\<exists>e. r = Inl e \<and> broke e))"
    and u: "usable (part w)" and a: "amap_err Runtime m w = (r, w')"
  then obtain r0 where "m w = (r0, w')" "r = map_sum Runtime id r0"
    by (auto simp: amap_err_def split: prod.splits)
  with t u show "current_callback (abi_of (part w')) = None \<and> (guest_is_poisoned (part w') \<longleftrightarrow> (\<exists>e. r = Inl e \<and> spent e))"
    by (cases r0) (auto simp: spent_def)
qed

lemma call_error_broke:
  assumes "call_typed f params i = (Inl e, i')" "\<not> is_poisoned i"
  shows "broke e"
proof -
  obtain x where x: "e = map_guest_error x" "fst (exec_program (host_of i) (f params) (in_store i)) = Inl x"
    using poison_parts(2) [OF assms] by blast
  have "errs fatal (exec_program (host_of i) (f params))"
    by (rule fatal_exec_program) (simp add: host_of_def Let_def fatal_host_body)
  then have "unwinds e" using x by (auto simp: errs_def fatal_def)
  then show ?thesis by (auto simp: broke_def unwinds_def)
qed

lemma tells_live [tells_intros]: "tells (\<lambda>g. g) broke require_live"
  by (auto simp: tells_def usable_def require_live_def Let_def)

lemma call_callback_tells:
  assumes "call_callback cb params answer g = (r, g')" "\<not> guest_is_poisoned g"
  shows "guest_is_poisoned g' \<longleftrightarrow> (\<exists>e. r = Inl e \<and> broke e)"
proof (cases "callbacks_get (g_callbacks g) cb")
  case (Some f)
  obtain i where c: "call_typed f params (g_instance g) = (r, i)" and g': "g' = g\<lparr>g_instance := i\<rparr>"
    using assms(1) Some by (auto simp: call_callback_def split: prod.splits)
  have live: "\<not> is_poisoned (g_instance g)" using assms(2) by (simp add: guest_is_poisoned_def)
  show ?thesis
  proof (cases r)
    case (Inl e)
    with c call_error_broke [OF _ live] poison_parts(1) show ?thesis
      by (auto simp: g' guest_is_poisoned_def)
  next
    case (Inr v)
    with c have "\<not> is_poisoned i" by (blast dest: call_typed_live)
    with Inr show ?thesis by (simp add: g' guest_is_poisoned_def)
  qed
qed (use assms in \<open>auto simp: call_callback_def\<close>)

lemma tells_run [tells_intros]: "tells (\<lambda>g. g) broke (run ctx cb params answer)"
  unfolding tells_def
proof (intro allI impI)
  fix g g' :: "('e, 'v, 'g) guest" and r
  assume u: "usable g" and a: "run ctx cb params answer g = (r, g')"
  let ?g = "change_abi (\<lambda>a. a\<lparr>current_callback := Some cb\<rparr>) (change_contexts (\<lambda>t. snd (ctx_set_effective ctx t)) g)"
  obtain h where c: "call_callback cb params answer ?g = (r, h)"
    and g': "g' = change_abi (\<lambda>a. a\<lparr>current_callback := None\<rparr>) h"
    using a by (auto simp: run_def Let_def split: prod.splits)
  have "\<not> guest_is_poisoned ?g" using u by (simp add: usable_def)
  from call_callback_tells [OF c this]
  show "current_callback (abi_of g') = None \<and> (guest_is_poisoned g' \<longleftrightarrow> (\<exists>e. r = Inl e \<and> broke e))"
    by (simp add: g')
qed


section \<open>The steps of a callback\<close>

lemma tells_change [tells_intros]:
  fixes f :: "('e, 'v, 'g) guest \<Rightarrow> ('e, 'v, 'g) guest"
  assumes "\<And>g. guest_is_poisoned (f g) = guest_is_poisoned g" "\<And>g. current_callback (abi_of (f g)) = current_callback (abi_of g)"
  shows "tells (\<lambda>g. g) K (amod f)"
  using assms by (auto simp: tells_def usable_def act_simps)

lemma rbind_InlE:
  assumes "rbind r k = Inl e"
  obtains "r = Inl e" | x where "r = Inr x" "k x = Inl e"
  using assms by (cases r) auto

lemma spent_simps [simp]:
  "\<not> spent (ContextError c p)" "\<not> spent (CalloutError i q)" "\<not> spent (GuestRejected cb root)"
  "\<not> spent (UnexpectedReturn cb v)" "\<not> spent ContextIdsExhausted" "\<not> spent (QueueError j x)"
  "\<not> spent (Runtime (ValueTooLarge n))"
  by (simp_all add: spent_def broke_def)

lemma not_spent_checks:
  "require g c = Inl e \<Longrightarrow> \<not> spent e" "require_root g c = Inl e \<Longrightarrow> \<not> spent e"
  "require_stream g c = Inl e \<Longrightarrow> \<not> spent e" "require_done g c = Inl e \<Longrightarrow> \<not> spent e"
  by (auto simp: require_def require_root_def require_stream_def require_done_def ok_or_def elim!: rbind_InlE
      split: option.splits context_type.splits if_splits)

lemma not_spent_accepted: "accepted g c = Inl e \<Longrightarrow> \<not> spent e" "vm_accepted g = Inl e \<Longrightarrow> \<not> spent e"
  by (auto simp: accepted_def vm_accepted_def Let_def split: option.splits if_splits)

lemma not_spent_requests:
  "require_deletable g c = Inl e \<Longrightarrow> \<not> spent e" "require_stream_kind g c k = Inl e \<Longrightarrow> \<not> spent e"
  "grpc_accepted g c i ks = Inl e \<Longrightarrow> \<not> spent e" "boolean cb v = Inl e \<Longrightarrow> \<not> spent e"
  by (auto simp: require_deletable_def require_stream_kind_def grpc_accepted_def boolean_def ok_or_def elim!: rbind_InlE
      dest: not_spent_checks not_spent_accepted split: option.splits if_splits)

lemma not_spent_values:
  "map_sum Runtime id (wire_size n) = Inl e \<Longrightarrow> \<not> spent e" "map_sum Runtime id (wire_u32 u) = Inl e \<Longrightarrow> \<not> spent e"
  "ok_or f q = Inl e \<Longrightarrow> \<not> spent f \<Longrightarrow> \<not> spent e" "map_sum h k r = Inl e \<Longrightarrow> (\<And>x. \<not> spent (h x)) \<Longrightarrow> \<not> spent e"
  by (auto simp: wire_size_def wire_u32_def ok_or_def split: option.splits elim: map_sum_InlE)

lemmas not_spent = not_spent_checks not_spent_accepted not_spent_requests not_spent_values

lemma tells_create [tells_intros]: "tells (\<lambda>g. g) spent (create_context p)"
  by (auto simp: tells_def usable_def create_context_def ctx_create_def Let_def ok_or_def
      split: option.splits context_type.splits prod.splits if_splits)

lemma tells_deliver [tells_intros]: "tells (\<lambda>g. g) spent (deliver call)"
  unfolding tells_def
proof (intro allI impI)
  fix g g' :: "('e, 'v, 'g) guest" and r
  assume u: "usable g" and a: "deliver call g = (r, g')"
  obtain r0 h where run: "run (dc_context call) (dc_callback call) (dc_params call) 0 (lend call g) = (r0, h)"
    by fastforce
  have "usable (lend call g)"
    using u by (simp add: usable_def lend_def split: option.split)
  note t = tellsD [OF tells_run this run]
  have "current_callback (abi_of g') = None" "guest_is_poisoned g' = guest_is_poisoned h" "r = map_sum Runtime (\<lambda>_. ()) r0"
    using a t(1) by (auto simp: deliver_eq run Let_def split: option.splits if_splits)
  with t(2) show "current_callback (abi_of g') = None \<and> (guest_is_poisoned g' \<longleftrightarrow> (\<exists>e. r = Inl e \<and> spent e))"
    by (cases r0) (auto simp: spent_def)
qed


lemma tells_deliveries [tells_intros]:
  "tells (\<lambda>g. g) spent (deliver_http_response root callout response)"
  "tells (\<lambda>g. g) spent (deliver_grpc_close root callout st)"
  unfolding deliver_http_response_def deliver_grpc_close_def by (intro tells_intros; erule not_spent)+

lemma tells_callbacks [tells_intros]:
  "tells (\<lambda>g. g) spent (context_create p)" "tells (\<lambda>g. g) spent (vm_start root)" "tells (\<lambda>g. g) spent (configure root plugin)"
  "tells (\<lambda>g. g) spent (receive_http_call_response ctx callout response)" "tells (\<lambda>g. g) spent (tick root)"
  "tells (\<lambda>g. g) spent (queue_ready root queue)"
  "tells (\<lambda>g. g) spent (grpc_receive_initial_metadata ctx callout metadata)" "tells (\<lambda>g. g) spent (grpc_receive ctx callout message)"
  "tells (\<lambda>g. g) spent (grpc_receive_trailing_metadata ctx callout metadata)" "tells (\<lambda>g. g) spent (grpc_close ctx callout st)"
  "tells (\<lambda>g. g) spent (foreign_function ctx function_id arguments)" "tells (\<lambda>g. g) spent (expect_stream_kind ctx kind)"
  unfolding context_create_def vm_start_def configure_def receive_http_call_response_def tick_def queue_ready_def
    grpc_receive_initial_metadata_def grpc_receive_def grpc_receive_trailing_metadata_def grpc_close_def
    foreign_function_def expect_stream_kind_def Let_def
  by (intro tells_intros; (erule not_spent)?; auto split: option.splits context_type.splits if_splits)+

section \<open>The end of a context\<close>

lemma tells_drop [tells_intros]: "tells (\<lambda>g. g) spent (drop_open_callouts ctx)"
  by (auto simp: tells_def usable_def drop_open_callouts_def Let_def)

lemma tells_fail_each [tells_intros]: "tells (\<lambda>g. g) spent (fail_each root xs)"
  by (induction xs) (auto intro!: tells_intros split: callout_kind.split)

lemma tells_around:
  assumes m: "tells (\<lambda>g. g) K m" and keep: "\<And>a. current_callback (f a) = current_callback a" "\<And>a. current_callback (h a) = current_callback a"
  shows "tells (\<lambda>g. g) K (\<lambda>g. let (r, g) = m (change_abi f g) in (r, change_abi h g))"
  unfolding tells_def
proof (intro allI impI)
  fix g r g' assume u: "usable g" and a: "(let (r, g) = m (change_abi f g) in (r, change_abi h g)) = (r, g')"
  obtain v where v: "m (change_abi f g) = (r, v)" "g' = change_abi h v"
    using a by (auto split: prod.splits)
  have "usable (change_abi f g)" using u by (simp add: usable_def keep)
  from tellsD [OF m this v(1)]
  show "current_callback (abi_of g') = None \<and> (guest_is_poisoned g' \<longleftrightarrow> (\<exists>e. r = Inl e \<and> K e))"
    by (simp add: v(2) keep)
qed

lemma tells_delete [tells_intros]: "tells (\<lambda>g. g) spent (delete_marked ctx)"
proof -
  have d: "tells (\<lambda>g. g) spent (delete_context ctx)"
    unfolding delete_context_def fail_open_callouts_def by (intro tells_intros; simp)
  have "tells (\<lambda>g. g) spent (\<lambda>g. delete_marked ctx g)"
    unfolding delete_marked_def mark_deleting_def by (rule tells_around [OF d]) (simp_all add: set_deleting_def)
  then show ?thesis .
qed

section \<open>The callbacks of a scope\<close>

lemma tells_served [tells_intros]:
  "tells sc_guest spent (require_served ctx)" "tells sc_guest spent (require_served_stream ctx)"
  by (auto simp: tells_def usable_def require_served_def require_served_stream_def split: option.splits if_splits)

lemma tells_announced [tells_intros]: "tells (\<lambda>g. g) spent (announced_run ctx cb n params)"
proof -
  have "tells (\<lambda>g. g) spent (\<lambda>g. announced_run ctx cb n params g)"
    unfolding announced_run_def Let_def
    by (rule tells_around [unfolded Let_def, OF tells_from_runtime [OF tells_run]]) (simp_all add: set_announced_def)
  then show ?thesis .
qed

lemma tells_streams [tells_intros]:
  "tells sc_guest spent (stream_action ctx kind cb n params)" "tells sc_guest spent (stream_event ctx cb params)"
  unfolding stream_action_def stream_event_def stream_checks_def
  by (intro tells_intros; (erule not_spent)?; auto simp: record_stream_kind_def)+

lemma tells_unit [tells_intros]: "tells part K m \<Longrightarrow> tells part K (unit_result m)"
  unfolding unit_result_def by (intro tells_intros)

lemma tells_perform: "tells sc_guest spent (perform c)"
  by (cases c)
    (simp_all only: perform.simps on_context_create_def on_vm_start_def on_configure_def
      on_request_headers_def on_request_body_def on_request_trailers_def on_response_headers_def
      on_response_body_def on_response_trailers_def on_new_connection_def on_downstream_data_def
      on_upstream_data_def on_downstream_connection_close_def on_upstream_connection_close_def
      on_http_call_response_def on_tick_def on_queue_ready_def on_grpc_receive_initial_metadata_def
      on_grpc_receive_def on_grpc_receive_trailing_metadata_def on_grpc_close_def on_foreign_function_def
      on_done_def on_log_def on_delete_def scope_expect_stream_kind_def Let_def,
      (intro tells_intros; (erule not_spent)?; auto)+)

text \<open>
  C7. The answer of a callback tells whether the guest can be used again: whatever callback the
  embedder runs on a guest that is not poisoned, and whatever the code of the guest does in it,
  the guest is poisoned afterwards exactly when the answer is an error of the runtime other than
  the refusal of a size. Every other error (an unknown context, a refusal, a callout that is not
  open, an answer the ABI does not define) and every success leave a guest that serves on.
\<close>

theorem answer_tells_poison:
  assumes "guest_wf (sc_guest s)" "\<not> guest_is_poisoned (sc_guest s)" and "perform c s = (r, s')"
  shows "guest_is_poisoned (sc_guest s') \<longleftrightarrow> (\<exists>e. r = Inl (Runtime e) \<and> (\<forall>n. e \<noteq> ValueTooLarge n))"
proof -
  have "usable (sc_guest s)" using assms(1,2) by (simp add: usable_def guest_wf_def idle_but_def)
  from tellsD(2) [OF tells_perform this assms(3)] show ?thesis by (auto simp: spent_def broke_def)
qed


lemma trapping_guest:
  fixes g :: "(unit, unit, unit) guest"
  defines "g \<equiv> sample_guest\<lparr>g_callbacks := [(OnContextCreate, Some (\<lambda>_. TrapWith Interrupt None))]\<rparr>"
  shows "guest_wf g" "\<not> guest_is_poisoned g"
    "fst (perform (DoContextCreate None) (scope_new g)) = Inl (Runtime (LimitExceeded Epoch))"
proof -
  have store: "g_store g = g_store sample_guest" by (simp add: g_def g_store_def)
  show "guest_wf g" "\<not> guest_is_poisoned g"
    using sample_guest_wf by (simp_all add: guest_wf_def tables_ok_def idle_but_def guest_is_poisoned_store store)
  obtain t where "ctx_create None \<lparr>entries = [], next_context = 1, effective = None, vm_rejected = None\<rparr> = (Inr (ContextId 1), t)"
    by (simp add: ctx_create_def u32_checked_add_def Let_def)
  then show "fst (perform (DoContextCreate None) (scope_new g)) = Inl (Runtime (LimitExceeded Epoch))"
    by (simp add: unit_result_def on_context_create_def on_guest_def scope_new_def context_create_def abind_def act_simps
        amap_err_def require_live_def Let_def vm_accepted_def create_context_def run_def call_callback_def callbacks_get_def
        call_typed_def call_on_def fail_def g_def sample_guest_def sample_defs g_store_def guest_is_poisoned_def
        is_poisoned_def change_contexts_def change_abi_def set_store_def set_abi_def context_table_new_def
        split: prod.splits)
qed

lemma answer_tells_poison_witness:
  "\<exists>s'. guest_is_poisoned (sc_guest s') \<and>
     perform (DoContextCreate None)
       (scope_new (sample_guest\<lparr>g_callbacks := [(OnContextCreate, Some (\<lambda>_. TrapWith Interrupt None))]\<rparr>))
       = (Inl (Runtime (LimitExceeded Epoch)), s')"
proof -
  let ?s = "scope_new (sample_guest\<lparr>g_callbacks := [(OnContextCreate, Some (\<lambda>_. TrapWith Interrupt None))]\<rparr>)"
  obtain s' where p: "perform (DoContextCreate None) ?s = (Inl (Runtime (LimitExceeded Epoch)), s')"
    using trapping_guest(3) by (metis prod.collapse)
  from answer_tells_poison [OF _ _ p] trapping_guest(1,2) have "guest_is_poisoned (sc_guest s')"
    by (simp add: scope_new_def)
  with p show ?thesis by blast
qed

end
