(* ===== verification/Deliveries.thy ===== *)
theory Deliveries
  imports Embedder
begin

text \<open>
  The properties of the deliveries and of the start of a root: what a result that arrives is
  checked for, that a delivery which fails keeps its callout for the embedder, the answers of a
  guest that exports no callback, and the three outcomes of a start.
\<close>

section \<open>Deliveries\<close>

lemma deliver_failed_keeps:
  assumes "deliver call g = (Inl e, g')" and "dc_callout call = Some c"
    and "callout_lookup (callouts_of (abi_of g)) c = Some x" and "dc_ends call"
  shows "callout_lookup (callouts_of (abi_of g')) c = Some x"
proof -
  obtain r h where run: "run (dc_context call) (dc_callback call) (dc_params call) 0 (lend call g) = (r, h)"
    by fastforce
  have "guest_is_poisoned h"
    using assms(1) run by (cases r) (auto simp: deliver_eq dest: run_failed)
  then show ?thesis
    using assms run by (auto simp: deliver_eq taken_def Let_def)
qed

lemma require_root_Inr: "require_root g c = Inr () \<longleftrightarrow> guest_context_type g c = Some Root"
  by (cases "guest_context_type g c"; cases "the (guest_context_type g c)")
    (simp_all add: require_root_def require_def)

lemma accepted_Inr: "accepted g c = Inr () \<longleftrightarrow> rejected_by g c = None"
  by (cases "rejected_by g c") (simp_all add: accepted_refused, simp add: accepted_def rejected_by_def)

lemma http_response_failed_keeps:
  assumes "deliver_http_response root c response g = (Inl e, g')"
    and "callout_lookup (callouts_of (abi_of g)) c = Some x"
  shows "g' = g \<or> guest_is_poisoned g'" "callout_lookup (callouts_of (abi_of g')) c = Some x"
proof -
  consider "g' = g" | call where "deliver call g = (Inl e, g')" "dc_callout call = Some c" "dc_ends call"
    using assms(1) by (auto simp: deliver_http_response_def abind_def act_simps split: sum.splits)
  then show "g' = g \<or> guest_is_poisoned g'" "callout_lookup (callouts_of (abi_of g')) c = Some x"
    using assms(2) by (auto dest: deliver_failed deliver_failed_keeps)
qed

text \<open>
  C18. The answer of an HTTP callout. It is delivered only for a callout that is open, was made by
  the context the embedder names, is an HTTP call, with headers unless it failed, and whose root
  is live and accepted; any other answer is refused without a change. An answer that fails keeps
  the callout open: either nothing changed, or the guest trapped and is poisoned and the callout
  is back in the table with its entry, for the embedder to end the request that waits for it.
\<close>

theorem http_call_response_spec:
  assumes "guest_wf g" "\<not> guest_is_poisoned g" and "receive_http_call_response ctx callout response g = (r, g')"
  shows "case callout_lookup (callouts_of (abi_of g)) callout of
      None \<Rightarrow> r = Inl (CalloutError callout NotOpen) \<and> g' = g
    | Some entry \<Rightarrow>
        (if co_caller entry \<noteq> ctx then r = Inl (CalloutError callout (NotMadeBy ctx)) \<and> g' = g
         else if co_kind entry \<noteq> HttpCall then r = Inl (CalloutError callout (WrongKind (co_kind entry))) \<and> g' = g
         else if \<not> is_failed response \<and> hr_headers response = []
         then r = Inl (CalloutError callout NoResponseHeader) \<and> g' = g
         else
           (\<forall>e. r = Inl e \<longrightarrow> (g' = g \<or> guest_is_poisoned g') \<and>
              callout_lookup (callouts_of (abi_of g')) callout = Some entry) \<and>
           (r = Inr () \<longrightarrow> guest_context_type g (co_root entry) = Some Root \<and>
              rejected_by g (co_root entry) = None))"
proof -
  note l = live_ok [OF assms(1,2)]
  show ?thesis
  proof (cases "callout_lookup (callouts_of (abi_of g)) callout")
    case None
    then show ?thesis using assms(3) by (simp add: receive_http_call_response_def abind_def l act_simps)
  next
    case (Some entry)
    show ?thesis
    proof (cases "co_caller entry = ctx \<and> co_kind entry = HttpCall \<and> (is_failed response \<or> hr_headers response \<noteq> [])")
      case False
      then show ?thesis
        using assms(3) Some by (auto simp: receive_http_call_response_def abind_def l act_simps)
    next
      case True
      then have eq: "(r, g') =
          abind (atry (\<lambda>g. require_root g (co_root entry))) (\<lambda>_.
          abind (atry (\<lambda>g. accepted g (co_root entry))) (\<lambda>_.
          deliver_http_response (co_root entry) callout response)) g"
        using assms(3) Some by (auto simp: receive_http_call_response_def abind_def l act_simps)
      consider e where "r = Inl e" "g' = g"
        | "require_root g (co_root entry) = Inr ()" "accepted g (co_root entry) = Inr ()"
          "deliver_http_response (co_root entry) callout response g = (r, g')"
        using eq by (auto simp: abind_def act_simps split: sum.splits)
      then show ?thesis
      proof cases
        case 1
        with True Some show ?thesis by auto
      next
        case 2
        have "guest_context_type g (co_root entry) = Some Root" "rejected_by g (co_root entry) = None"
          using 2(1,2) by (simp_all add: require_root_Inr accepted_Inr)
        moreover have "(g' = g \<or> guest_is_poisoned g') \<and> callout_lookup (callouts_of (abi_of g')) callout = Some entry"
          if "r = Inl e" for e
          using http_response_failed_keeps [OF 2(3) [unfolded that] Some] by simp
        ultimately show ?thesis using True Some by auto
      qed
    qed
  qed
qed

lemma http_call_response_spec_witness:
  "fst (receive_http_call_response (ContextId 1) (CalloutId 1) response_failed sample_guest) =
     Inl (CalloutError (CalloutId 1) NotOpen)"
proof -
  have "callout_lookup (callouts_of (abi_of sample_guest)) (CalloutId 1) = None"
    by (simp add: sample_guest_def sample_defs g_store_def callout_table_new_def callout_lookup_def btm_get_def)
  with http_call_response_spec [OF sample_guest_wf prod.collapse [symmetric], of "ContextId 1" "CalloutId 1" response_failed]
  show ?thesis by simp
qed

section \<open>Callbacks a guest does not export\<close>

text \<open>
  A callback the guest does not export answers its default without entering the guest: the
  answer is the one given, the memory and the private state of the guest, the world of the
  embedder, the callouts and every context entry stay as they were, and only the effective
  context is set.
\<close>

theorem unexported_callback_default:
  assumes "\<not> exports_callback g cb"
  shows "\<exists>g'. run ctx cb params answer g = (Inr answer, g') \<and>
    st_memory (g_store g') = st_memory (g_store g) \<and> st_guest (g_store g') = st_guest (g_store g) \<and>
    st_env (g_store g') = st_env (g_store g) \<and> callouts_of (abi_of g') = callouts_of (abi_of g) \<and>
    guest_is_poisoned g' = guest_is_poisoned g \<and>
    contexts_of (abi_of g') = snd (ctx_set_effective ctx (contexts_of (abi_of g))) \<and>
    entries (contexts_of (abi_of g')) = entries (contexts_of (abi_of g))"
  using assms
  by (auto simp: run_def call_callback_def exports_callback_def callbacks_exports_def change_contexts_def
      change_abi_def ctx_set_effective_def guest_is_poisoned_store [symmetric] Let_def)
    (auto simp: set_store_def guest_is_poisoned_def is_poisoned_def)

lemma unexported_callback_default_witness:
  "fst (run (ContextId 1) OnRequestHeaders [1, 0, 0] 0 sample_guest) = Inr 0"
proof -
  have "\<not> exports_callback sample_guest OnRequestHeaders"
    by (simp add: exports_callback_def callbacks_exports_def callbacks_get_def sample_guest_def)
  from unexported_callback_default [OF this, of "ContextId 1" "[1, 0, 0]" 0] show ?thesis by auto
qed

section \<open>The start of a root\<close>

text \<open>What a run keeps of a guest whose tables are well formed.\<close>

lemma run_keeps:
  assumes "run ctx cb params answer g = (r, h)" and "guest_ok k g"
  shows "guest_ok k h" "ctx_shape (contexts_of (abi_of h)) = ctx_shape (contexts_of (abi_of g))"
    "vm_rejected (contexts_of (abi_of h)) = vm_rejected (contexts_of (abi_of g))"
proof -
  have "tables_ok g" using assms(2) by (simp add: guest_ok_def guest_wf_def)
  note e = run_effects [OF assms(1) this]
  show "ctx_shape (contexts_of (abi_of h)) = ctx_shape (contexts_of (abi_of g))"
    "vm_rejected (contexts_of (abi_of h)) = vm_rejected (contexts_of (abi_of g))" by (rule e)+
  show "guest_ok k h"
    using e assms(2) by (auto simp: guest_ok_def guest_wf_def idle_but_def stream_ops_of_def)
qed

lemma change_contexts_same: "change_contexts (\<lambda>_. contexts_of (abi_of g)) g = g"
  by (simp add: change_contexts_def change_abi_def set_store_def g_store_def)

lemma shape_rejection:
  assumes "ctx_shape t' = ctx_shape t" "vm_rejected t' = vm_rejected t"
  shows "rejection_of t' c = rejection_of t c" "ctx_plugin t' c = ctx_plugin t c"
proof -
  have e: "map_option entry_rejected (ctx_entry t' r) = map_option entry_rejected (ctx_entry t r)"
    "map_option entry_plugin (ctx_entry t' r) = map_option entry_plugin (ctx_entry t r)" for r
    using fun_cong [OF assms(1), of r]
    by (cases "ctx_entry t r"; cases "ctx_entry t' r"; simp add: ctx_shape_def)+
  have "is_rejected t' c = is_rejected t c"
  proof (cases "root_of t c")
    case (Some r)
    with e(1) [of r] shape_lookups(1) [OF assms(1), of c] show ?thesis
      by (cases "ctx_entry t r"; cases "ctx_entry t' r"; simp add: is_rejected_def)
  qed (simp add: is_rejected_def shape_lookups(1) [OF assms(1)])
  then show "rejection_of t' c = rejection_of t c" by (simp add: rejection_of_def assms(2))
  show "ctx_plugin t' c = ctx_plugin t c"
  proof (cases "root_of t c")
    case (Some r)
    with e(2) [of r] shape_lookups(1) [OF assms(1), of c] show ?thesis
      by (cases "ctx_entry t r"; cases "ctx_entry t' r"; simp add: ctx_plugin_def)
  qed (simp add: ctx_plugin_def shape_lookups(1) [OF assms(1)])
qed

lemma run_rejection:
  assumes "run ctx cb params answer g = (r, h)" and "guest_ok k g"
  shows "rejected_by h c = rejected_by g c" "guest_context_type h c = guest_context_type g c"
    "guest_plugin h c = guest_plugin g c"
  using shape_rejection [OF run_keeps(2,3) [OF assms]] shape_lookups(2) [OF run_keeps(2) [OF assms]]
  by (simp_all add: rejected_by_def guest_context_type_def guest_plugin_def)

lemma amap_err_Inr: "amap_err f m w = (Inr x, w') \<longleftrightarrow> m w = (Inr x, w')"
  by (cases "m w"; cases "fst (m w)") (auto simp: amap_err_def)

lemma run_callback_run:
  "run_callback ctx cb params answer g = (Inr v, h) \<Longrightarrow> run ctx cb params answer g = (Inr v, h)"
  by (simp only: amap_err_Inr)

lemma live_Inr: "live g = (Inr u, h) \<Longrightarrow> guest_ok k g \<Longrightarrow> h = g"
  using live_ok [of g] live_poisoned [of g] by (auto simp: guest_ok_def)

lemma ctx_setters_types [simp]:
  "ctx_type (snd (ctx_set_plugin root plugin t)) c = ctx_type t c"
  "ctx_type (snd (ctx_reject root t)) c = ctx_type t c"
  "ctx_type (ctx_reject_vm root t) c = ctx_type t c"
  by (auto simp: ctx_set_plugin_def ctx_reject_def ctx_reject_vm_def ctx_type_def split: option.splits)

text \<open>A live root is its own root.\<close>

lemma live_root_of:
  assumes "guest_ok k g" and "guest_context_type g c = Some Root"
  obtains e where "ctx_entry (contexts_of (abi_of g)) c = Some e" "context_type_of e = Root"
    "root_of (contexts_of (abi_of g)) c = Some c"
proof -
  have ok: "ctx_ok (contexts_of (abi_of g))"
    using assms(1) by (simp add: guest_ok_def guest_wf_def tables_ok_def)
  obtain e where e: "ctx_entry (contexts_of (abi_of g)) c = Some e" "context_type_of e = Root"
    using assms(2) by (auto simp: guest_context_type_def ctx_type_def)
  then have "entry_parent e = None"
    using ok by (auto simp: ctx_ok_def ctx_entry_ok_def)
  with e that show ?thesis by (simp add: root_of_def)
qed

text \<open>The answers of the two start callbacks, by what they leave.\<close>

lemma vm_start_answer:
  assumes "vm_start root g = (Inr ok, h)" and "guest_ok k g"
  shows "rejected_by h root = (if ok then None else Some OnVmStart)"
    "guest_context_type h c = guest_context_type g c"
proof -
  obtain v g1 sz where a: "accepted g root = Inr ()"
      "run_callback root OnVmStart [context_wire root, sz] 1 g = (Inr v, g1)"
    and h: "h = (if ok then g1 else change_contexts (ctx_reject_vm root) g1)"
    using assms(1) unfolding vm_start_def
    by (auto elim!: abind_InrE dest!: live_Inr [OF _ assms(2)] simp: act_simps split: if_splits)
  note r = run_rejection [OF run_callback_run [OF a(2)] assms(2)]
  show "rejected_by h root = (if ok then None else Some OnVmStart)"
    using r a(1) h by (simp add: accepted_Inr) (simp add: rejected_by_def rejection_of_def ctx_reject_vm_def)
  show "guest_context_type h c = guest_context_type g c"
    using r h by (simp add: guest_context_type_def)
qed

lemma configure_answer:
  assumes "configure root plugin g = (Inr ok, h)" and "guest_ok k g"
  shows "rejected_by h root = (if ok then None else Some OnConfigure)"
    "guest_context_type h root = Some Root" "guest_plugin h root = Some plugin"
    "guest_context_type h c = guest_context_type g c"
proof -
  let ?g0 = "change_contexts (\<lambda>t. snd (ctx_set_plugin root plugin t)) g"
  obtain v g1 sz where a: "require_root g root = Inr ()" "accepted g root = Inr ()"
      "run_callback root OnConfigure [context_wire root, sz] 1 ?g0 = (Inr v, g1)"
    and h: "h = (if ok then g1 else change_contexts (\<lambda>t. snd (ctx_reject root t)) g1)"
    using assms(1) unfolding configure_def
    by (auto elim!: abind_InrE dest!: live_Inr [OF _ assms(2)] simp: act_simps split: if_splits)
  have ok0: "guest_ok k ?g0"
    by (rule ok_change_contexts [OF assms(2)]) (simp_all add: ctx_ok_setters root_of_setters)
  note r = run_rejection [OF run_callback_run [OF a(3)] ok0]
  have t1: "guest_context_type g1 c = guest_context_type g c" for c
    using r(2) by (simp add: guest_context_type_def)
  then show t: "guest_context_type h c = guest_context_type g c" for c
    using h by (simp add: guest_context_type_def)
  have root: "guest_context_type g root = Some Root" using a(1) by (simp add: require_root_Inr)
  then show "guest_context_type h root = Some Root" by (simp add: t)
  obtain e where e: "ctx_entry (contexts_of (abi_of g)) root = Some e" "context_type_of e = Root"
      "root_of (contexts_of (abi_of g)) root = Some root"
    by (rule live_root_of [OF assms(2) root])
  have ok1: "guest_ok k g1" by (rule run_keeps(1) [OF run_callback_run [OF a(3)] ok0])
  obtain e1 where e1: "ctx_entry (contexts_of (abi_of g1)) root = Some e1"
      "root_of (contexts_of (abi_of g1)) root = Some root"
    by (rule live_root_of [OF ok1, of root]) (auto simp: t1 root)
  have rej: "rejected_by g1 root = None"
    using r(1) a(2) e by (simp add: accepted_Inr)
      (auto simp: rejected_by_def rejection_of_def is_rejected_def root_of_def ctx_set_plugin_def split: if_splits)
  then show "rejected_by h root = (if ok then None else Some OnConfigure)"
    using h e1 by (auto simp: rejected_by_def rejection_of_def is_rejected_def root_of_def ctx_reject_def split: if_splits)
  have "guest_plugin g1 root = Some plugin"
    using r(3) e by (simp add: guest_plugin_def ctx_plugin_def root_of_def ctx_set_plugin_def)
  then show "guest_plugin h root = Some plugin"
    using h e1 by (auto simp: guest_plugin_def ctx_plugin_def root_of_def ctx_reject_def)
qed

lemma on_guest_eq: "on_guest m s = (r, s') \<longleftrightarrow> (\<exists>g. m (sc_guest s) = (r, g) \<and> s' = s\<lparr>sc_guest := g\<rparr>)"
  by (auto simp: on_guest_def split: prod.splits)

text \<open>The outcomes of the two callbacks of a start, for a root that is live.\<close>

lemma start_run_answer:
  assumes "start_run root plugin s = (Inr answer, s')" and "scope_ok k s"
  shows "(answer = Serving root \<and> rejected_by (sc_guest s') root = None \<and>
      guest_context_type (sc_guest s') root = Some Root \<and> guest_plugin (sc_guest s') root = Some plugin) \<or>
    (\<exists>cb. answer = Refused root cb \<and> rejected_by (sc_guest s') root = Some cb)"
proof -
  have conf: ?thesis if c: "amap_err (Pair OnConfigure) (on_configure root plugin) s1 = (Inr ok, s')" "scope_ok k s1"
      "answer = (if ok then Serving root else Refused root OnConfigure)" for s1 ok
  proof -
    obtain h where "configure root plugin (sc_guest s1) = (Inr ok, h)" "s' = s1\<lparr>sc_guest := h\<rparr>"
      using c(1) by (auto simp: amap_err_Inr on_configure_def on_guest_eq)
    with configure_answer [of root plugin "sc_guest s1" ok h k] c(2,3) show ?thesis
      by (auto simp: scope_ok_def)
  qed
  show ?thesis
  proof (cases "guest_vm_started (sc_guest s)")
    case True
    then show ?thesis
      using assms(1) conf [OF _ assms(2)] unfolding start_run_def
      by (auto elim!: abind_InrE simp: act_simps split: if_splits)
  next
    case False
    then obtain ok g1 where v: "vm_start root (sc_guest s) = (Inr ok, g1)"
      and rest: "\<not> ok \<Longrightarrow> answer = Refused root OnVmStart \<and> s' = s\<lparr>sc_guest := g1\<rparr>"
        "ok \<Longrightarrow> \<exists>ok'. amap_err (Pair OnConfigure) (on_configure root plugin) (s\<lparr>sc_guest := mark_vm_started g1\<rparr>) = (Inr ok', s') \<and>
           answer = (if ok' then Serving root else Refused root OnConfigure)"
      using assms(1) unfolding start_run_def
      by (auto elim!: abind_InrE simp: act_simps amap_err_Inr on_vm_start_def on_guest_eq split: if_splits)
    have g: "guest_ok k (sc_guest s)" using assms(2) by (simp add: scope_ok_def)
    show ?thesis
    proof (cases ok)
      case True
      have "guest_ok k g1"
        using keepsD [OF keeps_wf_lifecycle(2) g, of root] v by simp
      then have "scope_ok k (s\<lparr>sc_guest := mark_vm_started g1\<rparr>)"
        using keepsD [OF ok_mark_vm_started, of k "s\<lparr>sc_guest := g1\<rparr>"]
        by (simp add: scope_ok_def on_guest_def act_simps)
      with rest(2) [OF True] conf show ?thesis by blast
    next
      case False
      with rest(1) vm_start_answer(1) [OF v g] show ?thesis by simp
    qed
  qed
qed

text \<open>What a start that fails leaves: no context appears or disappears after the creation.\<close>

definition typed_as :: "'v option stream_ops option \<Rightarrow> (context_id \<Rightarrow> context_type option) \<Rightarrow> ('e, 'v, 'g) guest \<Rightarrow> bool" where
  "typed_as k T g \<longleftrightarrow> guest_ok k g \<and> (\<forall>c. guest_context_type g c = T c)"

lemma keeps_typed_run: "keeps (typed_as k T) (from_runtime (run ctx cb params answer))"
proof -
  have "typed_as k T (snd (run ctx cb params answer g))" if "typed_as k T g" for g :: "('a, 'b, 'c) guest"
  proof -
    obtain r h where "run ctx cb params answer g = (r, h)" by fastforce
    with that run_keeps(1) [OF this] run_rejection(2) [OF this] show ?thesis
      by (auto simp: typed_as_def)
  qed
  then show ?thesis by (intro keeps_amap_err) (simp add: keeps_def)
qed

lemma keeps_typed_live: "keeps (typed_as k T) live"
  using live_ok live_poisoned by (fastforce simp: keeps_def typed_as_def guest_ok_def)

lemma keeps_typed_contexts:
  assumes "\<And>t. ctx_ok t \<Longrightarrow> ctx_ok (f t)" "\<And>t c r. root_of t c = Some r \<Longrightarrow> root_of (f t) c = Some r"
    and "\<And>t c. ctx_type (f t) c = ctx_type t c"
  shows "keeps (typed_as k T) (amod (change_contexts f))"
  using assms(3) ok_change_contexts [OF _ assms(1,2)]
  by (auto simp: keeps_def typed_as_def act_simps guest_context_type_def)

lemma keeps_typed_start:
  "keeps (typed_as k T) (vm_start root)" "keeps (typed_as k T) (configure root plugin)"
  unfolding vm_start_def configure_def
  by (intro keeps_intros keeps_typed_live keeps_typed_run keeps_typed_contexts; simp add: ctx_ok_setters root_of_setters)+

lemma keeps_typed_on_guest:
  "keeps (typed_as k T) m \<Longrightarrow> keeps (\<lambda>s. typed_as k T (sc_guest s)) (on_guest m)"
  by (auto simp: keeps_def on_guest_def split: prod.splits)

lemma keeps_typed_mark: "keeps (typed_as k T) (amod mark_vm_started)"
proof -
  have ok: "guest_ok k (mark_vm_started g)" if "guest_ok k g" for g
    using that by (rule guest_ok_same_tables)
      (use that in \<open>simp_all add: mark_vm_started_def stream_ops_of_def guest_ok_def\<close>)
  show ?thesis
    by (rule keeps_amod) (simp add: typed_as_def ok, simp add: guest_context_type_def mark_vm_started_def)
qed

lemma keeps_typed_start_run: "keeps (\<lambda>s. typed_as k T (sc_guest s)) (start_run root plugin)"
  unfolding start_run_def on_vm_start_def on_configure_def
  by (intro keeps_intros keeps_typed_on_guest keeps_typed_mark keeps_typed_start)

text \<open>A creation that fails leaves the contexts, unless it was the guest that failed.\<close>

lemma context_create_outcome:
  assumes "context_create None g = (r, h)" and "guest_ok k g"
  shows "guest_ok k h"
    and "r = Inl e \<Longrightarrow> guest_is_poisoned h \<or> guest_context_type h = guest_context_type g"
    and "r = Inr root \<Longrightarrow> guest_context_type h = (guest_context_type g)(root := Some Root)"
proof -
  show ok: "guest_ok k h" using keepsD [OF keeps_wf_lifecycle(1) assms(2), of None] assms(1) by simp
  consider "h = g" "\<exists>e. r = Inl e"
    | cid t r0 where "ctx_create None (contexts_of (abi_of g)) = (Inr cid, t)"
      "run_callback cid OnContextCreate [context_wire cid, 0] 0 (change_contexts (\<lambda>_. t) g) = (r0, h)"
      "r = map_sum id (\<lambda>_. cid) r0"
  proof (cases "guest_is_poisoned g")
    case True
    then show ?thesis
      using assms(1) that(1) by (auto simp: context_create_def live_poisoned act_simps)
  next
    case False
    have l: "live g = (Inr (), g)"
      using assms(2) False by (intro live_ok) (simp_all add: guest_ok_def)
    obtain r1 t where t: "ctx_create None (contexts_of (abi_of g)) = (r1, t)" by fastforce
    show ?thesis
    proof (cases "\<exists>cid. vm_accepted g = Inr () \<and> r1 = Inr cid")
      case False
      then show ?thesis
        using assms(1) t that(1) ctx_create_Inl [of None "contexts_of (abi_of g)"]
        by (cases "vm_accepted g"; cases r1)
          (auto simp: context_create_def abind_def l act_simps create_context_def change_contexts_same)
    next
      case True
      then obtain cid where cid: "vm_accepted g = Inr ()" "r1 = Inr cid" by blast
      obtain r0 h0 where "run_callback cid OnContextCreate [context_wire cid, 0] 0 (change_contexts (\<lambda>_. t) g) = (r0, h0)"
        by fastforce
      with assms(1) t cid show ?thesis
        by (intro that(2) [of cid t r0])
          (cases r0; simp add: context_create_def abind_def l act_simps create_context_def Let_def)+
    qed
  qed
  then have "(\<forall>e. r = Inl e \<longrightarrow> guest_is_poisoned h \<or> guest_context_type h = guest_context_type g) \<and>
    (\<forall>root. r = Inr root \<longrightarrow> guest_context_type h = (guest_context_type g)(root := Some Root))"
  proof cases
    case (2 cid t r0)
    let ?g0 = "change_contexts (\<lambda>_. t) g"
    have ct: "ctx_ok (contexts_of (abi_of g))"
      using assms(2) by (simp add: guest_ok_def guest_wf_def tables_ok_def)
    have types: "guest_context_type ?g0 = (guest_context_type g)(cid := Some Root)"
      using ctx_create_Inr(6) [OF 2(1)] by (auto simp: fun_eq_iff guest_context_type_def ctx_type_def)
    have ok0: "guest_ok k ?g0"
      using keepsD [OF keeps_wf_create assms(2), of None] 2(1) by (simp add: create_context_def)
    show ?thesis
    proof (cases r0)
      case (Inl e)
      with 2 show ?thesis by (simp add: from_runtime_failed)
    next
      case (Inr v)
      with 2(2) have "run cid OnContextCreate [context_wire cid, 0] 0 ?g0 = (Inr v, h)"
        by (intro run_callback_run) simp
      from run_rejection(2) [OF this ok0] have "guest_context_type h = guest_context_type ?g0"
        by (rule ext)
      with Inr 2(3) types show ?thesis by simp
    qed
  qed auto
  then show "r = Inl e \<Longrightarrow> guest_is_poisoned h \<or> guest_context_type h = guest_context_type g"
    and "r = Inr root \<Longrightarrow> guest_context_type h = (guest_context_type g)(root := Some Root)"
    by blast+
qed

text \<open>
  C17. The outcomes of a start. A root identifier a live root already has is refused and nothing
  changes. A root that serves is a live root with the plugin it was started with, and nothing
  rejects it. A root that is refused is rejected by the callback the answer names, so it serves
  nothing. A start that fails leaves no context behind that could serve: the guest is poisoned,
  or every context that was not there before the start is rejected.
\<close>

theorem start_spec:
  assumes "guest_ok None g" and "start plugin g = (r, g')"
  shows "case root_with_id (contexts_of (abi_of g)) (plugin_root_id plugin) of
      Some root \<Rightarrow> r = Inl (DuplicateRootId (plugin_root_id plugin) root) \<and> g' = g
    | None \<Rightarrow>
        (case r of
          Inr (Serving root) \<Rightarrow> rejected_by g' root = None \<and> guest_context_type g' root = Some Root \<and>
            guest_plugin g' root = Some plugin
        | Inr (Refused root cb) \<Rightarrow> rejected_by g' root = Some cb
        | Inl e \<Rightarrow> guest_is_poisoned g' \<or>
            (\<forall>c. guest_context_type g' c \<noteq> None \<longrightarrow> guest_context_type g c \<noteq> None \<or> rejected_by g' c \<noteq> None))"
proof (cases "root_with_id (contexts_of (abi_of g)) (plugin_root_id plugin)")
  case None
  have e: "scope_ok (Some (fst no_stream)) (enter_root g)"
    unfolding enter_root_def using assms(1) by (intro ok_enter) (simp add: guest_ok_def)
  have g0: "guest_context_type (sc_guest (enter_root g)) = guest_context_type g"
    by (rule ext) (simp add: enter_root_def enter_def scope_new_def discard_detached_def guest_context_type_def g_store_def change_abi_def set_store_def)
  have ge: "guest_ok (Some (fst no_stream)) (sc_guest (enter_root g))"
    using e by (simp add: scope_ok_def)
  obtain r0 h where c: "context_create None (sc_guest (enter_root g)) = (r0, h)" by fastforce
  note created = context_create_outcome [OF c ge]
  let ?s = "(enter_root g)\<lparr>sc_guest := h\<rparr>"
  have on: "on_context_create None (enter_root g) = (r0, ?s)"
    by (simp add: on_context_create_def on_guest_def c)
  have s: "scope_ok (Some (fst no_stream)) ?s" using created(1) by (simp add: scope_ok_def)
  note d = drop_effects' [OF s]
  show ?thesis
  proof (cases r0)
    case (Inl e)
    with assms(2) None on have "r = Inl e" "g' = scope_drop ?s" by (auto simp: start_def)
    with created(2) [OF Inl] d(2,3) None show ?thesis
      by (auto simp: g0 fun_eq_iff guest_context_type_def)
  next
    case (Inr root)
    obtain a s' where run: "start_run root plugin ?s = (a, s')" by fastforce
    have s': "scope_ok (Some (fst no_stream)) s'"
      using keepsD [OF keeps_start_run s, of root plugin] run by simp
    note d' = drop_effects' [OF s']
    have types: "guest_context_type (sc_guest s') = (guest_context_type g)(root := Some Root)"
      using keepsD [OF keeps_typed_start_run, of "Some (fst no_stream)" "guest_context_type h" ?s root plugin]
        created(1) created(3) [OF Inr] run by (auto simp: typed_as_def g0 fun_eq_iff)
    show ?thesis
    proof (cases a)
      case (Inr answer)
      have "r = Inr answer" "g' = scope_drop s'"
        using assms(2) None on run Inr \<open>r0 = Inr root\<close> by (auto simp: start_def)
      with start_run_answer [OF run [unfolded Inr] s] None d'(2) show ?thesis
        by (auto simp: rejected_by_def guest_context_type_def guest_plugin_def)
    next
      case (Inl ce)
      obtain cb e where ce: "ce = (cb, e)" by fastforce
      have g': "r = Inl e" "g' = change_contexts
          (\<lambda>t. if cb = OnVmStart then ctx_reject_vm root t else snd (ctx_reject root t)) (scope_drop s')"
        using assms(2) None on run Inl ce \<open>r0 = Inr root\<close> by (auto simp: start_def)
      have rt: "guest_context_type (scope_drop s') root = Some Root"
        using types d'(2) by (simp add: guest_context_type_def fun_eq_iff)
      obtain x where x: "ctx_entry (contexts_of (abi_of (scope_drop s'))) root = Some x"
          "root_of (contexts_of (abi_of (scope_drop s'))) root = Some root"
        by (rule live_root_of [OF d'(1) rt])
      have "rejected_by g' root \<noteq> None" "cb = OnVmStart \<Longrightarrow> rejected_by g' c \<noteq> None" for c
        using x by (auto simp: g' rejected_by_def rejection_of_def is_rejected_def root_of_def ctx_reject_def
            ctx_reject_vm_def)
      moreover have "guest_context_type g' c = guest_context_type (sc_guest s') c" for c
        using d'(2) by (simp add: g' guest_context_type_def)
      ultimately show ?thesis using None g'(1) types by (auto split: if_splits)
    qed
  qed
qed (use assms(2) in \<open>simp add: start_def\<close>)

lemma start_spec_witness:
  "case fst (start (with_root_id [112] plugin_config_new) sample_guest) of
     Inr (Serving root) \<Rightarrow> guest_plugin (snd (start (with_root_id [112] plugin_config_new) sample_guest)) root = Some (with_root_id [112] plugin_config_new)
   | Inr (Refused root cb) \<Rightarrow> rejected_by (snd (start (with_root_id [112] plugin_config_new) sample_guest)) root = Some cb
   | Inl e \<Rightarrow> guest_is_poisoned (snd (start (with_root_id [112] plugin_config_new) sample_guest)) \<or>
       (\<forall>c. guest_context_type (snd (start (with_root_id [112] plugin_config_new) sample_guest)) c \<noteq> None \<longrightarrow>
          rejected_by (snd (start (with_root_id [112] plugin_config_new) sample_guest)) c \<noteq> None)"
proof -
  have "guest_context_type sample_guest c = None"
    "root_with_id (contexts_of (abi_of sample_guest)) x = None" for c x
    by (simp_all add: sample_guest_def sample_defs g_store_def guest_context_type_def ctx_type_def
        context_table_new_def btm_get_def root_with_id_def)
  with start_spec [OF guest_new_ok [OF sample_guest_new] prod.collapse [symmetric], of "with_root_id [112] plugin_config_new"]
  show ?thesis by (auto split: sum.splits started.splits)
qed

end
