(* ===== verification/Guest_Building.thy ===== *)
theory Guest_Building
  imports Embedder Guest_Verdict
begin

text \<open>
  What building a guest checks: the names a module exports and the ABI version they announce, the
  functions a host links against the calls a guest can make, what the start section of a module can
  reach, and the refusals of a module, in their order.
\<close>

section \<open>The exports of a module\<close>

lemma sorted_names: "sorted_wrt (<) (map fst (export_names m))"
  using btm_ok_fold [of "[]" "map fst (module_exports m)"] by (simp add: btm_ok_def export_names_def)

lemma detect_iff:
  "detect_version names = Inr V0_2_1 \<longleftrightarrow> ''proxy_abi_version_0_2_1'' \<in> set names"
  "detect_version names = Inr V0_2_0 \<longleftrightarrow>
     ''proxy_abi_version_0_2_0'' \<in> set names \<and> ''proxy_abi_version_0_2_1'' \<notin> set names"
  "detect_version names = Inl e \<longleftrightarrow>
     e = UnsupportedAbi names \<and> ''proxy_abi_version_0_2_0'' \<notin> set names \<and>
     ''proxy_abi_version_0_2_1'' \<notin> set names"
  by (auto simp: detect_version_def)

lemma marker_export:
  "version_export_name v \<in> set (abi_exports m) \<longleftrightarrow> has_export m (version_export_name v)"
  by (cases v) (simp_all add: abi_exports_set has_export_iff ABI_PREFIX_def)

text \<open>
  A compiled module lists its version markers once each, in name order, and exactly the
  exports with the prefix; the version it is accepted with is the newest one it marks, and a module
  that marks none is refused with the markers it has.
\<close>

theorem module_exports_spec:
  assumes "module_new compile eng bs = Inr m"
  shows "sorted_wrt (<) (abi_exports m) \<and> distinct (abi_exports m) \<and>
    (name \<in> set (abi_exports m) \<longleftrightarrow>
       has_export m name \<and> take (length ABI_PREFIX) name = ABI_PREFIX) \<and>
    (has_export m name \<longleftrightarrow> (\<exists>export. (name, export) \<in> set (module_exports m))) \<and>
    (detect_version (abi_exports m) = Inr V0_2_1 \<longleftrightarrow> has_export m (version_export_name V0_2_1)) \<and>
    (detect_version (abi_exports m) = Inr V0_2_0 \<longleftrightarrow>
       has_export m (version_export_name V0_2_0) \<and> \<not> has_export m (version_export_name V0_2_1)) \<and>
    (detect_version (abi_exports m) = Inl (UnsupportedAbi (abi_exports m)) \<longleftrightarrow>
       \<not> has_export m (version_export_name V0_2_0) \<and> \<not> has_export m (version_export_name V0_2_1))"
proof -
  have sorted: "sorted_wrt (<) (abi_exports m)"
    using sorted_names [of m] by (simp add: abi_exports_def sorted_wrt_filter)
  then have "distinct (abi_exports m)" by (simp add: strict_sorted_iff)
  moreover have "name \<in> set (abi_exports m) \<longleftrightarrow>
      has_export m name \<and> take (length ABI_PREFIX) name = ABI_PREFIX"
    by (simp add: abi_exports_set has_export_iff)
  moreover have "has_export m name \<longleftrightarrow> (\<exists>export. (name, export) \<in> set (module_exports m))"
    by (force simp: has_export_iff)
  ultimately show ?thesis
    using sorted marker_export [of V0_2_0 m] marker_export [of V0_2_1 m] by (simp add: detect_iff)
qed

theorem module_exports_spec_witness:
  "detect_version (abi_exports sample_module) = Inr V0_2_1"
proof -
  have "module_new (\<lambda>_ _. Inr sample_module) sample_engine [] = Inr sample_module" by (simp add: module_new_def)
  from module_exports_spec [OF this]
  have "detect_version (abi_exports sample_module) = Inr V0_2_1 \<longleftrightarrow>
      has_export sample_module (version_export_name V0_2_1)" by blast
  then show ?thesis by (simp add: has_export_iff sample_module_def)
qed

section \<open>The functions a host links\<close>

text \<open>A call of each form, in the order of the tables.\<close>

definition call_forms :: "host_call list" where
  "call_forms =
     [
      FdWrite 0 0 0 0, ClockTimeGet 0 0 0, RandomGet 0 0, EnvironSizesGet 0 0, EnvironGet 0 0,
      ArgsSizesGet 0 0, ArgsGet 0 0, ProcExit 0, CallDone, CallSetEffectiveContext 0,
      CallLog 0 0 0, CallGetLogLevel 0, CallGetCurrentTimeNanoseconds 0,
      CallSetTickPeriodMilliseconds 0, CallSetBufferBytes 0 0 0 0 0,
      CallGetBufferBytes 0 0 0 0 0, CallGetBufferStatus 0 0 0, CallGetHeaderMapSize 0 0,
      CallGetHeaderMapPairs 0 0 0, CallSetHeaderMapPairs 0 0 0, CallGetHeaderMapValue 0 0 0 0 0,
      CallAddHeaderMapValue 0 0 0 0 0, CallReplaceHeaderMapValue 0 0 0 0 0,
      CallRemoveHeaderMapValue 0 0 0, CallContinueStream 0, CallCloseStream 0,
      CallGetStatus 0 0 0, CallSendLocalResponse 0 0 0 0 0 0 0 0,
      CallHttpCall 0 0 0 0 0 0 0 0 0 0, CallGrpcCall 0 0 0 0 0 0 0 0 0 0 0 0,
      CallGrpcStream 0 0 0 0 0 0 0 0 0, CallGrpcSend 0 0 0 0, CallGrpcCancel 0, CallGrpcClose 0,
      CallSetSharedData 0 0 0 0 0, CallGetSharedData 0 0 0 0 0, CallRegisterSharedQueue 0 0 0,
      CallResolveSharedQueue 0 0 0 0 0, CallEnqueueSharedQueue 0 0 0,
      CallDequeueSharedQueue 0 0 0, CallDefineMetric 0 0 0 0, CallRecordMetric 0 0,
      CallIncrementMetric 0 0, CallGetMetric 0 0, CallGetProperty 0 0 0 0,
      CallSetProperty 0 0 0 0, CallCallForeignFunction 0 0 0 0 0 0]"

lemma linked_forms: "map fst linked_functions = map call_import call_forms"
  by code_simp

lemma linked_calls: "map_of linked_functions (call_import c) = Some (call_type c)"
  by (cases c; simp only: call_import.simps call_type.simps; code_simp)

lemma resolves_call:
  "resolves linked_functions i \<longleftrightarrow>
     (\<exists>c. i = Import (fst (call_import c)) (snd (call_import c)) (Some (call_type c)))"
proof
    assume res: "resolves linked_functions i"
    then obtain ty where ty: "import_type i = Some ty"
      "map_of linked_functions (import_module i, import_name i) = Some ty" by (auto simp: resolves_def)
    then have "(import_module i, import_name i) \<in> set (map fst linked_functions)"
      by (force dest: map_of_SomeD)
    then obtain c where "(import_module i, import_name i) = call_import c"
      unfolding linked_forms set_map by blast
    with ty linked_calls [of c] show "\<exists>c. i = Import (fst (call_import c)) (snd (call_import c)) (Some (call_type c))"
      by (intro exI [of _ c]) (cases i, auto simp: prod_eq_iff)
qed (auto simp: resolves_def linked_calls)

section \<open>The start section\<close>

text \<open>
  C31. The start section of a module reaches nothing of the host: while it runs there is no memory
  the host knows of and no context, and whatever it does and whichever host functions it calls,
  with any arguments, the store of the host is afterwards as before, but for the part that is the
  state of the module. So a module the host refuses afterwards has done nothing to the services, the
  tables or the world of the embedder.
\<close>

theorem start_section_isolated:
  assumes "st_memory (in_store i) = None" and "effective (contexts (in_store i)) = None"
    and "instantiate h i = (r, i')"
  shows "\<exists>g. i' = i\<lparr>in_store := (in_store i)\<lparr>st_guest := g\<rparr>\<rparr>"
  by (rule instantiate_unmoved [OF _ assms(3)]) (simp add: unserved_def assms(1,2))

text \<open>A module whose start section calls the host, and leaves a trace in its own memory.\<close>

definition section_module :: "unit wasm_module" where
  "section_module = sample_module\<lparr>module_start := Some (HostCall CallDone (\<lambda>_. HostCall (CallLog 2 0 4)
     (\<lambda>r. Update (\<lambda>mem g. (mem[0 := ucast r], g)) (Return r))))\<rparr>"

theorem start_section_isolated_witness:
  "let i = (instance_blank sample_host (\<lambda>n e. ((True, replicate n 0), e)) section_module
       (abi_state_new (GuestId 1) sample_services) limits_default () :: (unit, unit option, unit) wasm_instance)
   in \<exists>g. snd (instantiate sample_host i) = i\<lparr>in_store := (in_store i)\<lparr>st_guest := g\<rparr>\<rparr>"
  unfolding Let_def
  by (rule start_section_isolated [OF _ _ prod.collapse [symmetric]])
    (simp_all add: abi_state_new_def context_table_new_def)

section \<open>The start functions and the callbacks\<close>

lemma call_typed_module: "call_typed f params i = (r, i') \<Longrightarrow> in_module i' = in_module i"
  by (auto simp: call_typed_def split: prod.splits)

lemma instance_start_returns:
  assumes "instance_start b = (Inr u, i)" and "\<not> is_poisoned b"
  shows "\<not> is_poisoned i" "in_module i = in_module b"
proof -
  show "\<not> is_poisoned i"
    using assms
    by (auto simp: instance_start_def abind_def act_simps split: prod.splits sum.splits option.splits
        dest: call_typed_live)
  show "in_module i = in_module b"
    using assms
    by (auto simp: instance_start_def abind_def act_simps split: prod.splits sum.splits option.splits
        dest!: call_typed_module)
qed

text \<open>An export with the name of a callback is a function of the type of the callback, if it is there.\<close>

definition export_fits :: "'g wasm_module \<Rightarrow> callback \<Rightarrow> bool" where
  "export_fits m cb \<longleftrightarrow>
     (case map_of (module_exports m) (callback_export_name cb) of
        None \<Rightarrow> True | Some NotFunc \<Rightarrow> False | Some (Func ty f) \<Rightarrow> ty = callback_type cb)"

lemma typed_func_fits:
  assumes "\<not> is_poisoned i"
  shows "(case typed_func (callback_export_name cb) (callback_type cb) i of
      Inl e \<Rightarrow> \<not> export_fits (in_module i) cb \<and> e = ExportTypeMismatch (callback_export_name cb)
    | Inr f \<Rightarrow> export_fits (in_module i) cb)"
proof -
  have "has_export (in_module i) name \<longleftrightarrow> map_of (module_exports (in_module i)) name \<noteq> None" for name
    by (simp add: has_export_iff map_of_eq_None_iff)
  with assms show ?thesis
    by (simp add: typed_func_def ensure_live_def rbind_def export_fits_def split: option.split export.split)
qed

lemma resolve_from_fits:
  assumes "\<not> is_poisoned i"
  shows "(case resolve_from cbs i of
      Inl e \<Rightarrow> \<exists>cb \<in> set cbs. \<not> export_fits (in_module i) cb \<and> e = ExportTypeMismatch (callback_export_name cb)
    | Inr cs \<Rightarrow> \<forall>cb \<in> set cbs. export_fits (in_module i) cb)"
proof (induction cbs)
  case (Cons cb cbs)
  with typed_func_fits [OF assms, of cb] show ?case
    by (auto simp: rbind_def split: sum.splits)
qed simp

lemma callbacks_resolve_fits:
  assumes "\<not> is_poisoned i"
  shows "(case callbacks_resolve i of
      Inl e \<Rightarrow> \<exists>cb. \<not> export_fits (in_module i) cb \<and> e = ExportTypeMismatch (callback_export_name cb)
    | Inr cs \<Rightarrow> \<forall>cb. export_fits (in_module i) cb)"
proof -
  obtain cbs where cbs: "callbacks_resolve i = resolve_from cbs i" "\<And>cb. cb \<in> set cbs"
  proof (rule that)
    show "callbacks_resolve i = resolve_from
     [OnContextCreate, OnVmStart, OnConfigure, OnNewConnection, OnDownstreamData,
      OnDownstreamConnectionClose, OnUpstreamData, OnUpstreamConnectionClose, OnRequestHeaders,
      OnRequestBody, OnRequestTrailers, OnResponseHeaders, OnResponseBody, OnResponseTrailers,
      OnHttpCallResponse, OnGrpcReceiveInitialMetadata, OnGrpcReceive,
      OnGrpcReceiveTrailingMetadata, OnGrpcClose, OnDone, OnLog, OnDelete, OnTick, OnQueueReady,
      OnForeignFunction] i"
      by (simp only: callbacks_resolve_def)
  qed (case_tac cb; simp)
  with resolve_from_fits [OF assms, of cbs] show ?thesis
    by (auto split: sum.splits)
qed

section \<open>What a guest is built from\<close>

lemma version_detected:
  "(case detect_version (abi_exports m) of
      Inl e \<Rightarrow> e = UnsupportedAbi (abi_exports m) \<and>
        \<not> (has_export m (version_export_name V0_2_0) \<or> has_export m (version_export_name V0_2_1))
    | Inr v \<Rightarrow> has_export m (version_export_name V0_2_0) \<or> has_export m (version_export_name V0_2_1))"
proof (cases "detect_version (abi_exports m)")
  case (Inl e)
  with detect_iff(3) [of "abi_exports m" e] marker_export [of V0_2_0 m] marker_export [of V0_2_1 m]
  show ?thesis by simp
next
  case (Inr v)
  with detect_iff(1,2) [of "abi_exports m"] marker_export [of V0_2_0 m] marker_export [of V0_2_1 m]
  show ?thesis by (cases v) simp_all
qed

lemma instantiate_answers:
  assumes "host_linker h = linked_functions" and "engine_id (host_engine h) = eid"
    and "\<And>id l. module_link m id l = None \<Longrightarrow>
      id = module_engine m \<and> (\<forall>i \<in> set (module_imports m). resolves l i)" and "in_module i = m"
  shows "(case fst (instantiate h i) of
      Inl e \<Rightarrow> \<exists>s. e = Instantiate s
    | Inr memory \<Rightarrow> (memory = None \<longleftrightarrow> module_memory m = None) \<and> eid = module_engine m \<and>
        (\<forall>imp \<in> set (module_imports m).
           \<exists>c. imp = Import (fst (call_import c)) (snd (call_import c)) (Some (call_type c))))"
proof (cases "module_link m eid linked_functions")
  case None
  from assms(3) [OF this] have "eid = module_engine m" "\<forall>imp \<in> set (module_imports m).
      \<exists>c. imp = Import (fst (call_import c)) (snd (call_import c)) (Some (call_type c))"
    by (simp_all add: resolves_call)
  with None show ?thesis
    by (simp add: instantiate_def assms(1,2,4) Let_def split: option.split prod.split sum.split)
qed (simp add: instantiate_def assms(1,2,4))

text \<open>
  C30. A guest exists only of a module that marks an accepted ABI version, was compiled on the
  engine of the host, imports nothing but the functions of the ABI with their types, exports a
  memory, an allocator and no callback of a wrong type, and under limits that meter fuel exactly when
  the engine does. Each refusal has its own error, in this order: the version and the fuel before any
  code of the module runs; a link the runtime refuses or a start section that fails, the memory and the
  allocator after the start section at most, which has reached nothing: the embedder's world is as it
  was; then a failing start function, with its error, and last a callback of a wrong type, when the start
  functions have run. (That the runtime links only on one engine and only imports the linker has with
  their type is what it is documented to do.)
\<close>

theorem guest_new_refuses:
  fixes r :: "guest_error + ('e, 'v, 'g) guest"
  assumes "host_new refuses eng = Inr hst" and "guest_new hst fill m svc lim gid env = (r, env')"
    and "\<And>id l. module_link m id l = None \<Longrightarrow>
      id = module_engine m \<and> (\<forall>i \<in> set (module_imports m). resolves l i)"
  defines "marked \<equiv> has_export m (version_export_name V0_2_0) \<or> has_export m (version_export_name V0_2_1)"
    and "metered \<equiv> (fuel lim \<noteq> None) = fuel_enabled eng"
    and "blank \<equiv> (instance_blank hst fill m (abi_state_new gid svc) lim env :: ('e, 'v option, 'g) wasm_instance)"
  defines "linked \<equiv> instantiate hst blank" and "begun \<equiv> \<lambda>mem g. instance_ready mem g blank"
  shows "(\<not> marked \<longrightarrow> r = Inl (Unsupported (UnsupportedAbi (abi_exports m))) \<and> env' = env) \<and>
    (marked \<and> \<not> metered \<longrightarrow> (\<exists>e. r = Inl (Runtime (Config e))) \<and> env' = env) \<and>
    (\<forall>e. marked \<and> metered \<and> fst linked = Inl e \<longrightarrow>
       (\<exists>e. r = Inl (Runtime (Instantiate e))) \<and> env' = env) \<and>
    (\<forall>mem. marked \<and> metered \<and> fst linked = Inr mem \<and> module_memory m = None \<longrightarrow>
       r = Inl (Runtime MissingMemory) \<and> env' = env) \<and>
    (\<forall>mem. marked \<and> metered \<and> fst linked = Inr mem \<and> module_memory m \<noteq> None \<and> allocator_code m = None \<longrightarrow>
       r = Inl (Runtime MissingAllocator) \<and> env' = env) \<and>
    (\<forall>mem g e i. marked \<and> metered \<and> fst linked = Inr (Some mem) \<and> g = st_guest (in_store (snd linked)) \<and>
       allocator_code m \<noteq> None \<and> instance_start (begun mem g) = (Inl e, i) \<longrightarrow>
       r = Inl (Runtime e) \<and> env' = st_env (in_store i)) \<and>
    (\<forall>mem g i. marked \<and> metered \<and> fst linked = Inr (Some mem) \<and> g = st_guest (in_store (snd linked)) \<and>
       allocator_code m \<noteq> None \<and> instance_start (begun mem g) = (Inr (), i) \<longrightarrow>
       env' = st_env (in_store i) \<and>
       (if \<forall>cb. export_fits m cb then \<exists>g. r = Inr g \<and> g_instance g = i
        else \<exists>cb. \<not> export_fits m cb \<and> r = Inl (Runtime (ExportTypeMismatch (callback_export_name cb))))) \<and>
    (\<forall>g. r = Inr g \<longrightarrow> marked \<and> metered \<and> module_engine m = engine_id eng \<and>
       (\<forall>i \<in> set (module_imports m).
          \<exists>c. i = Import (fst (call_import c)) (snd (call_import c)) (Some (call_type c))) \<and>
       module_memory m \<noteq> None \<and> allocator_code m \<noteq> None \<and> (\<forall>cb. export_fits m cb))"
proof -
  let ?abi = "abi_state_new gid svc :: ('e, 'v option) abi_state"
  have hst: "host_engine hst = eng" "host_linker hst = linked_functions"
    using host_new_Inr [OF assms(1)] by simp_all
  have none: "effective (contexts_of ?abi) = None" by (simp add: abi_state_new_def context_table_new_def)
  note new = instance_new_cases [OF none refl, of hst fill m lim env, unfolded hst, folded blank_def, folded linked_def]
  have ready: "instance_ready mem g blank = begun mem g" for mem g by (simp add: begun_def)
  have answers: "(case fst linked of
      Inl e \<Rightarrow> \<exists>s. e = Instantiate s
    | Inr memory \<Rightarrow> (memory = None \<longleftrightarrow> module_memory m = None) \<and> engine_id eng = module_engine m \<and>
        (\<forall>imp \<in> set (module_imports m).
           \<exists>c. imp = Import (fst (call_import c)) (snd (call_import c)) (Some (call_type c))))"
    unfolding linked_def by (rule instantiate_answers [OF hst(2)]) (simp_all add: hst assms(3) blank_def)
  have version: "(case detect_version (abi_exports m) of
      Inl e \<Rightarrow> e = UnsupportedAbi (abi_exports m) \<and> \<not> marked | Inr v \<Rightarrow> marked)"
    unfolding marked_def by (rule version_detected)
  have live: "\<not> is_poisoned (begun mem g)" "in_module (begun mem g) = m" for mem g
    by (simp_all add: begun_def blank_def is_poisoned_def)
  have resolved: "(case callbacks_resolve i of
      Inl e \<Rightarrow> \<exists>cb. \<not> export_fits m cb \<and> e = ExportTypeMismatch (callback_export_name cb)
    | Inr cs \<Rightarrow> \<forall>cb. export_fits m cb)" if "instance_start (begun mem g) = (Inr u, i)" for mem g u i
  proof -
    have m: "in_module i = m" using instance_start_returns(2) [OF that live(1)] live(2) by simp
    from callbacks_resolve_fits [OF instance_start_returns(1) [OF that live(1)]] show ?thesis unfolding m .
  qed
  show ?thesis
  proof (cases "detect_version (abi_exports m)")
    case (Inl e)
    with version assms(2) show ?thesis by (auto simp: guest_new_def)
  next
    case (Inr v)
    with version have marked by simp
    then have built: "(case instance_new hst fill m ?abi lim env of
        (Inl e, env) \<Rightarrow> (Inl (Runtime e), env)
      | (Inr i, env) \<Rightarrow>
          (case callbacks_resolve i of
             Inl e \<Rightarrow> (Inl (Runtime e), env)
           | Inr callbacks \<Rightarrow> (Inr \<lparr>detached = None, g_instance = i, g_abi = v,
               g_id = guest_of (st_abi (in_store i)), g_callbacks = callbacks, g_counted = False\<rparr>, env))) = (r, env')"
      using assms(2) Inr by (simp add: guest_new_def)
    consider (fuel) "\<not> metered" | (fails) e where "metered" "fst linked = Inl e"
      | (memory) "metered" "fst linked = Inr None" | (alloc) mem where "metered" "fst linked = Inr (Some mem)" "allocator_code m = None"
      | (starts) mem where "metered" "fst linked = Inr (Some mem)" "allocator_code m \<noteq> None"
      by (metis option.exhaust sum.exhaust)
    then show ?thesis
    proof cases
      case fuel
      then have "\<exists>e. r = Inl (Runtime (Config e))" "env' = env"
        using built unfolding new by (auto simp: metered_def split: if_splits)
      with fuel \<open>marked\<close> show ?thesis by auto
    next
      case (fails e)
      then have "r = Inl (Runtime e)" "env' = env" using built unfolding new by (simp_all add: metered_def)
      moreover have "\<exists>s. e = Instantiate s" using answers fails by simp
      ultimately show ?thesis using fails \<open>marked\<close> by auto
    next
      case memory
      then have "r = Inl (Runtime MissingMemory)" "env' = env" using built unfolding new by (simp_all add: metered_def)
      moreover have "module_memory m = None" using answers memory by simp
      ultimately show ?thesis using memory \<open>marked\<close> by simp
    next
      case (alloc mem)
      then have "r = Inl (Runtime MissingAllocator)" "env' = env" using built unfolding new by (simp_all add: metered_def)
      moreover have "module_memory m \<noteq> None" using answers alloc by auto
      ultimately show ?thesis using alloc \<open>marked\<close> by simp
    next
      case (starts mem)
      obtain r2 i where start: "instance_start (begun mem (st_guest (in_store (snd linked)))) = (r2, i)" by fastforce
      obtain mm where memory: "module_memory m = Some mm" using answers starts(2) by auto
      obtain f where f: "allocator_code m = Some f" using starts(3) by blast
      show ?thesis
      proof (cases r2)
        case (Inl e)
        then have "r = Inl (Runtime e)" "env' = st_env (in_store i)"
          using built starts start unfolding new by (simp_all add: metered_def ready f)
        with Inl start starts(1,2) f \<open>marked\<close> memory show ?thesis by simp
      next
        case (Inr u)
        note i = resolved [OF start [unfolded Inr]]
        have "env' = st_env (in_store i) \<and> (case callbacks_resolve i of
            Inl e \<Rightarrow> r = Inl (Runtime e) | Inr cs \<Rightarrow> \<exists>g. r = Inr g \<and> g_instance g = i)"
          using built starts start Inr unfolding new by (auto simp: metered_def ready f split: sum.splits)
        with i answers Inr start starts(1,2) f \<open>marked\<close> memory show ?thesis
          by (cases "callbacks_resolve i") auto
      qed
    qed
  qed
qed

text \<open>A linker of a runtime that refuses a name that is there.\<close>

definition sample_refuses :: linker_answer where
  "sample_refuses m name ty l = (if map_of l (m, name) = None then None else Some ''already defined'')"

theorem guest_new_refuses_witness:
  "fst (guest_new sample_host (\<lambda>n e. ((True, replicate n 0), e))
      (section_module\<lparr>module_imports := [Import ''env'' ''proxy_log'' (Some ([I32], [I32]))],
        module_link := sample_link 0 [Import ''env'' ''proxy_log'' (Some ([I32], [I32]))]\<rparr>)
      sample_services limits_default (GuestId 1) ()) \<noteq> (Inr sample_guest :: guest_error + (unit, unit, unit) guest)"
proof -
  let ?imp = "Import ''env'' ''proxy_log'' (Some ([I32], [I32]))"
  let ?m = "section_module\<lparr>module_imports := [?imp], module_link := sample_link 0 [?imp]\<rparr>"
  have host: "host_new sample_refuses sample_engine = Inr sample_host"
    by (simp add: host_new_accepted sample_refuses_def sample_host_def)
  obtain r env' where r: "guest_new sample_host (\<lambda>n e. ((True, replicate n 0), e)) ?m sample_services
      limits_default (GuestId 1) () = ((r, env') :: (guest_error + (unit, unit, unit) guest) \<times> unit)"
    by (metis prod.exhaust)
  have link: "id = module_engine ?m \<and> (\<forall>i \<in> set (module_imports ?m). resolves l i)" if "module_link ?m id l = None" for id l
    using that by (simp add: sample_link_def section_module_def sample_module_def split: if_splits)
  have "\<not> resolves linked_functions ?imp"
    using linked_calls [of "CallLog 0 0 0"] by (simp add: resolves_def)
  then have "\<not> (\<exists>c. ?imp = Import (fst (call_import c)) (snd (call_import c)) (Some (call_type c)))"
    by (simp only: resolves_call not_False_eq_True)
  moreover have "?imp \<in> set (module_imports ?m)" by simp
  moreover have "r = Inr g \<Longrightarrow> \<forall>i \<in> set (module_imports ?m).
      \<exists>c. i = Import (fst (call_import c)) (snd (call_import c)) (Some (call_type c))" for g
    using guest_new_refuses [OF host r link] by blast
  ultimately have "r \<noteq> Inr sample_guest" by metis
  then show ?thesis by (simp add: r)
qed

end
