(* ===== verification/Ledger.thy ===== *)
theory Ledger
  imports Embedder
begin

text \<open>
  What an embedder may rely on when it asks a guest what it changed (\<open>changes.rs\<close>,
  \<open>take_changes\<close> and \<open>queue_registrants\<close> of \<open>guest/contexts.rs\<close>). The
  locale \<open>ledger\<close> collects the changes an operation of the embedder makes by itself to the
  contexts, the registrations and the reports; what survives them and the code of a guest holds
  after any sequence of operations. Two invariants are such: the registrants of a queue are live
  roots, and the reports are complete.
\<close>

section \<open>The part of the state that is reported\<close>

definition ctx_seen :: "context_table \<Rightarrow> context_id \<Rightarrow>
    (context_type \<times> context_id option \<times> duration option) option" where
  "ctx_seen t c = map_option (\<lambda>e. (context_type_of e, entry_parent e, entry_tick_period e)) (ctx_entry t c)"

definition reported_part :: "('e, 'h) abi_state \<Rightarrow>
    u32 \<times> (context_id \<Rightarrow> (context_type \<times> context_id option \<times> duration option) option) \<times>
    (queue_id, context_id btree_set) btree_map \<times> changes" where
  "reported_part a =
     (next_context (contexts_of a), ctx_seen (contexts_of a), registrants_of a, changes_of a)"

lemma ctx_seen_update:
  "(\<And>e. context_type_of (f e) = context_type_of e \<and> entry_parent (f e) = entry_parent e \<and>
     entry_tick_period (f e) = entry_tick_period e) \<Longrightarrow> ctx_seen (ctx_update c f t) = ctx_seen t"
  by (rule ext) (simp add: ctx_seen_def option.map_comp comp_def)

lemma setters_seen [simp]:
  "ctx_seen (snd (ctx_set_state c st t)) = ctx_seen t" "ctx_seen (snd (ctx_reject c t)) = ctx_seen t"
  "ctx_seen (ctx_reject_vm c t) = ctx_seen t" "ctx_seen (snd (ctx_set_plugin c p t)) = ctx_seen t"
  "ctx_seen (snd (ctx_set_stream_kind c k t)) = ctx_seen t"
  "ctx_seen (snd (ctx_set_effective c t)) = ctx_seen t" "ctx_seen (snd (ctx_done t)) = ctx_seen t"
  by (auto simp: ctx_set_state_def ctx_reject_def ctx_set_plugin_def ctx_set_stream_kind_def ctx_done_def
      ctx_set_effective_def ctx_seen_update split: option.split)
    (auto simp: ctx_reject_vm_def ctx_seen_def [abs_def])

lemma setters_next [simp]:
  "next_context (snd (ctx_set_state c st t)) = next_context t"
  "next_context (snd (ctx_reject c t)) = next_context t"
  "next_context (ctx_reject_vm c t) = next_context t"
  "next_context (snd (ctx_set_plugin c p t)) = next_context t"
  "next_context (snd (ctx_set_stream_kind c k t)) = next_context t"
  "next_context (snd (ctx_set_effective c t)) = next_context t"
  "next_context (snd (ctx_done t)) = next_context t"
  by (auto simp: ctx_set_state_def ctx_reject_def ctx_set_plugin_def ctx_set_stream_kind_def ctx_done_def
      ctx_set_effective_def ctx_reject_vm_def split: option.split)

text \<open>What the end of a context does to the tables: the entry goes, and a root is forgotten.\<close>

definition end_context :: "context_id \<Rightarrow> bool \<Rightarrow> ('e, 'h) abi_state \<Rightarrow> ('e, 'h) abi_state" where
  "end_context ctx forget a =
     (let a = a\<lparr>contexts_of := snd (ctx_remove ctx (contexts_of a))\<rparr> in
      if forget then forget_registrant ctx a else a)"

section \<open>The operations of an embedder\<close>

lemma take_held_reported: "take_held g = (x, g') \<Longrightarrow> reported_part (abi_of g') = reported_part (abi_of g)"
  by (auto simp: take_held_eq reported_part_def)

lemma drop_reported: "reported_part (abi_of (scope_drop s)) = reported_part (abi_of (sc_guest s))"
  by (auto simp: scope_drop_def take_held_eq reported_part_def detach_def Let_def poison_def split: option.split)

lemma finish_reported:
  assumes "finish ty s = (stream, g)"
  shows "reported_part (abi_of g) = reported_part (abi_of (sc_guest s))"
proof -
  have "reported_part (abi_of (poison_if_running (sc_guest s))) = reported_part (abi_of (sc_guest s))"
    by (simp add: poison_if_running_def reported_part_def poison_def)
  with assms show ?thesis
    by (auto simp: finish_def Let_def drop_reported dest!: take_held_reported split: prod.splits)
qed

locale ledger = guest_invariant L for L :: "('e, 'v option, 'g) store \<Rightarrow> bool" +
  assumes keep_unreported: "L w \<Longrightarrow> reported_part (st_abi w') = reported_part (st_abi w) \<Longrightarrow> L w'"
    and keep_create: "L w \<Longrightarrow> ctx_create parent (contexts w) = (Inr c, t) \<Longrightarrow>
      L (set_abi (\<lambda>a. a\<lparr>contexts_of := t\<rparr>) w)"
    and keep_end: "L w \<Longrightarrow> ctx_ok (contexts w) \<Longrightarrow> \<not> has_children (contexts w) c \<Longrightarrow>
      (forget \<or> ctx_type (contexts w) c \<noteq> Some Root) \<Longrightarrow> L (set_abi (end_context c forget) w)"

context ledger
begin

abbreviation LG :: "('e, 'v, 'g) guest \<Rightarrow> bool" where
  "LG g \<equiv> L (g_store g)"

abbreviation LS :: "('e, 'v, 'g) scope \<Rightarrow> bool" where
  "LS s \<equiv> LG (sc_guest s)"

lemma LG_cong: "LG g \<Longrightarrow> reported_part (abi_of g') = reported_part (abi_of g) \<Longrightarrow> LG g'"
  by (rule keep_unreported)

lemma keeps_unreported:
  assumes "\<And>g. reported_part (abi_of (f g)) = reported_part (abi_of g)"
  shows "keeps LG (amod f)"
  by (rule keeps_amod) (rule LG_cong, assumption, rule assms)

lemma keeps_LG_setters:
  "keeps LG (amod (change_contexts (\<lambda>t. snd (ctx_set_state c st t))))"
  "keeps LG (amod (change_contexts (\<lambda>t. snd (ctx_reject c t))))"
  "keeps LG (amod (change_contexts (ctx_reject_vm c)))"
  "keeps LG (amod (change_contexts (\<lambda>t. snd (ctx_set_plugin c p t))))"
  "keeps LG (amod (change_contexts (\<lambda>t. snd (ctx_set_stream_kind c k t))))"
  "keeps LG (amod (record_stream_kind c k))" "keeps LG (amod mark_vm_started)"
  by (rule keeps_unreported; simp add: reported_part_def record_stream_kind_def mark_vm_started_def)+

lemma keeps_LG_live: "keeps LG require_live"
  by (rule keepsI) (auto simp: require_live_def Let_def intro: keep_poison)

lemma LG_run:
  assumes "run ctx cb params answer g = (r, g')" and "LG g"
  shows "LG g'"
proof -
  define g1 where "g1 = change_abi (\<lambda>a. a\<lparr>current_callback := Some cb\<rparr>)
      (change_contexts (\<lambda>t. snd (ctx_set_effective ctx t)) g)"
  obtain g2 where c: "call_callback cb params answer g1 = (r, g2)"
    and g': "g' = change_abi (\<lambda>a. a\<lparr>current_callback := None\<rparr>) g2"
    using assms(1) by (auto simp: run_def g1_def Let_def split: prod.splits)
  have "LG g1" using assms(2) by (rule LG_cong) (simp add: g1_def reported_part_def)
  from call_callback_keeps [of _ _ _ _ _ _ L, OF c this] have "LG g2" by (auto dest: keeps_call_typed)
  then show ?thesis by (rule LG_cong) (simp add: g' reported_part_def)
qed

lemma keeps_LG_run: "keeps LG (run ctx cb params answer)"
  by (rule keepsI) (rule LG_run, rule prod.collapse [symmetric])

lemma keeps_LG_create: "keeps LG (create_context parent)"
proof (rule keepsI)
  fix g assume L: "LG g"
  obtain r t where c: "ctx_create parent (contexts_of (abi_of g)) = (r, t)" by fastforce
  show "LG (snd (create_context parent g))"
  proof (cases r)
    case (Inl e)
    with c have t: "t = contexts_of (abi_of g)" by (auto dest: ctx_create_Inl)
    from L show ?thesis by (rule LG_cong) (simp add: create_context_def c t reported_part_def)
  next
    case (Inr cid)
    with keep_create [OF L c [unfolded Inr]] show ?thesis by (simp add: create_context_def c)
  qed
qed

lemma keeps_LG_deliver: "keeps LG (deliver call)"
proof (rule keepsI)
  fix g assume L: "LG g"
  obtain r h where run: "run (dc_context call) (dc_callback call) (dc_params call) 0 (lend call g) = (r, h)"
    by fastforce
  have "LG (lend call g)"
    using L by (rule LG_cong) (auto simp: lend_def reported_part_def split: option.splits)
  from LG_run [OF run this] have "LG h" .
  moreover have "reported_part (abi_of (snd (deliver call g))) = reported_part (abi_of h)"
    unfolding deliver_eq run prod.case snd_conv Let_def
    by (cases "taken call g") (auto simp: reported_part_def)
  ultimately show "LG (snd (deliver call g))" by (rule LG_cong)
qed

lemmas keeps_LG_steps = keeps_LG_setters keeps_LG_live keeps_LG_run keeps_LG_create keeps_LG_deliver

lemma keeps_LG_callbacks:
  "keeps LG (context_create parent)" "keeps LG (vm_start root)" "keeps LG (configure root plugin)"
  "keeps LG (deliver_http_response root callout response)" "keeps LG (deliver_grpc_close root callout st)"
  unfolding context_create_def vm_start_def configure_def deliver_http_response_def deliver_grpc_close_def Let_def
  by (intro keeps_intros keeps_LG_steps)+

lemma keeps_LG_deliveries:
  "keeps LG (receive_http_call_response ctx callout response)" "keeps LG (tick root)" "keeps LG (queue_ready root queue)"
  "keeps LG (grpc_receive_initial_metadata ctx callout metadata)" "keeps LG (grpc_receive ctx callout message)"
  "keeps LG (grpc_receive_trailing_metadata ctx callout metadata)" "keeps LG (grpc_close ctx callout st)"
  "keeps LG (foreign_function ctx function_id arguments)" "keeps LG (expect_stream_kind ctx kind)"
  unfolding receive_http_call_response_def tick_def queue_ready_def grpc_receive_initial_metadata_def
    grpc_receive_def grpc_receive_trailing_metadata_def grpc_close_def foreign_function_def expect_stream_kind_def
  by (intro keeps_intros keeps_LG_steps keeps_LG_callbacks)+

section \<open>The end of a context\<close>

lemma keeps_LG_drop: "keeps LG (drop_open_callouts c)"
  by (rule keepsI) (erule LG_cong, simp add: drop_open_callouts_def Let_def reported_part_def)

lemma keeps_LG_fail_each: "keeps LG (fail_each root xs)"
  by (induction root xs rule: fail_each.induct)
    (auto intro!: keeps_intros keeps_LG_callbacks split: callout_kind.split)

lemma keeps_LG_delete_parts: "keeps LG (delete_first ctx)" "keeps LG (delete_rest ctx root ended)"
  unfolding delete_first_def delete_rest_def fail_open_callouts_def
  by (intro keeps_intros keeps_LG_steps keeps_LG_drop keeps_LG_fail_each)+

lemma LG_mark: "LG (mark_deleting d g) = LG g"
proof
  have same: "reported_part (abi_of (mark_deleting d g)) = reported_part (abi_of g)"
    by (simp add: reported_part_def mark_deleting_def set_deleting_def)
  show "LG (mark_deleting d g)" if "LG g" using that same by (rule LG_cong)
  show "LG g" if "LG (mark_deleting d g)" using that same [symmetric] by (rule LG_cong)
qed

lemma LG_delete_marked:
  assumes wf: "guest_wf g" and nc: "\<not> has_children (contexts_of (abi_of g)) ctx" and L: "LG g"
    and d: "delete_marked ctx g = (r, g')"
  shows "LG g'"
proof -
  define g1 where "g1 = mark_deleting (Some ctx) g"
  have idle1: "idle_but (Some ctx) g1"
    using wf by (simp add: g1_def guest_wf_def idle_but_def) (simp add: mark_deleting_def set_deleting_def)
  have g1: "ready g1"
    using wf tables_ok_mark [of g "Some ctx"] idle1 by (auto simp: g1_def guest_wf_def ready_def idle_but_def [of None])
  have L1: "LG g1" using L by (simp add: g1_def LG_mark)
  obtain r1 g2 where first: "delete_first ctx g1 = (r1, g2)" by fastforce
  note c2 = calmsD [OF calms_delete_parts(1) g1 first]
  have L2: "LG g2" using keepsD [OF keeps_LG_delete_parts(1) L1] first by (metis snd_conv)
  show ?thesis
  proof (cases r1)
    case (Inl e)
    with first d have "g' = mark_deleting None g2"
      by (simp add: delete_marked_def g1_def [symmetric] delete_context_eq abind_def)
    with L2 show ?thesis by (simp add: LG_mark)
  next
    case (Inr x)
    obtain root ended where x: "x = (root, ended)" by fastforce
    let ?t = "contexts_of (abi_of g2)"
    obtain r4 g4 where rest: "delete_rest ctx root ended (delete_entry ctx root g2) = (r4, g4)" by fastforce
    with first d Inr x have g': "g' = mark_deleting None g4"
      by (simp add: delete_marked_def g1_def [symmetric] delete_context_eq abind_def)
    have ok: "ctx_ok ?t" "ctx_ok (contexts_of (abi_of g))"
      using c2 wf by (simp_all add: calm_def tables_ok_def guest_wf_def)
    have shape: "ctx_shape ?t = ctx_shape (contexts_of (abi_of g))" using c2 by (simp add: calm_def g1_def)
    have "root = ctx_parent ?t ctx"
      using first Inr x shape_lookups(3) [OF shape]
      by (auto simp: delete_first_def abind_def act_simps context_parent_def g1_def
          split: option.splits prod.splits sum.splits)
    then have "root = None \<or> ctx_type ?t ctx \<noteq> Some Root"
      using ctx_okD [OF ok(1), of ctx] by (auto simp: ctx_parent_def ctx_type_def ctx_entry_ok_def bind_eq_Some_conv)
    moreover have "\<not> has_children ?t ctx" using nc shape_has_children [OF ok(2,1) shape] by simp
    ultimately have "L (set_abi (end_context ctx (root = None)) (g_store g2))"
      by (intro keep_end L2 ok(1)) auto
    then have "LG (delete_entry ctx root g2)"
      by (rule keep_unreported) (simp add: delete_entry_def end_context_def Let_def)
    from keepsD [OF keeps_LG_delete_parts(2) this] rest have "LG g4" by (metis snd_conv)
    then show ?thesis by (simp add: g' LG_mark)
  qed
qed

section \<open>Scopes\<close>

lemma keeps_LS_on_guest: "keeps LG m \<Longrightarrow> keeps LS (on_guest m)"
  by (auto simp: keeps_def on_guest_def split: prod.splits)

lemma keeps_LS_served: "keeps LS (require_served ctx)" "keeps LS (require_served_stream ctx)"
  by (auto simp: keeps_def require_served_def require_served_stream_def split: option.splits)

lemma keeps_LG_announced_run: "keeps LG (announced_run ctx cb n params)"
proof (rule keepsI)
  fix g assume L: "LG g"
  obtain r h where run: "run ctx cb params (action_code Continue) (change_abi (set_announced n) g) = (r, h)"
    by fastforce
  have "LG (change_abi (set_announced n) g)"
    using L by (rule LG_cong) (simp add: reported_part_def set_announced_def)
  from LG_run [OF run this] show "LG (snd (announced_run ctx cb n params g))"
    by (rule LG_cong) (simp add: announced_run_def run [simplified] amap_err_def reported_part_def set_announced_def)
qed

lemma keeps_LS_stream:
  "keeps LS (stream_checks ctx kind)" "keeps LS (stream_action ctx kind cb n params)"
  "keeps LS (stream_event ctx cb params)"
  unfolding stream_action_def stream_event_def stream_checks_def
  by (intro keeps_intros keeps_LS_on_guest keeps_LS_served keeps_LG_steps keeps_LG_announced_run)+

lemma keeps_LS_perform:
  assumes "\<And>ctx. c \<noteq> DoDelete ctx"
  shows "keeps LS (perform c)"
proof (cases c)
  case (DoDelete ctx)
  with assms show ?thesis by blast
qed
    (simp_all only: perform.simps unit_result_def on_context_create_def on_vm_start_def on_configure_def
      on_request_headers_def on_request_body_def on_request_trailers_def on_response_headers_def
      on_response_body_def on_response_trailers_def on_new_connection_def on_downstream_data_def
      on_upstream_data_def on_downstream_connection_close_def on_upstream_connection_close_def
      on_http_call_response_def on_tick_def on_queue_ready_def on_grpc_receive_initial_metadata_def
      on_grpc_receive_def on_grpc_receive_trailing_metadata_def on_grpc_close_def on_foreign_function_def
      on_done_def on_log_def scope_expect_stream_kind_def Let_def,
      (intro keeps_intros keeps_LS_on_guest keeps_LS_stream keeps_LS_served keeps_LG_steps keeps_LG_callbacks
        keeps_LG_deliveries)+)

lemma keeps_both:
  "keeps P m \<Longrightarrow> keeps Q m \<Longrightarrow> keeps (\<lambda>s. P s \<and> Q s) m"
  by (simp add: keeps_def)

lemma keeps_LS_on_delete:
  fixes k :: "'v option stream_ops option"
  shows "keeps (\<lambda>s. scope_ok k s \<and> LS s) (on_delete ctx)"
proof -
  have del: "guest_ok k h \<and> LG h"
    if "guest_ok k g" "LG g" "require_deletable g ctx = Inr x" "delete_marked ctx g = (r, h)"
    for g h :: "('e, 'v, 'g) guest" and x r
  proof -
    have nc: "\<not> has_children (contexts_of (abi_of g)) ctx" and wf: "guest_wf g"
      using that(1,3) by (auto simp: require_deletable_def rbind_eq_Inr guest_ok_def split: if_splits)
    from delete_marked_effects [OF wf nc that(4)] that(1) LG_delete_marked [OF wf nc that(2,4)]
    show ?thesis by (auto simp: deletion_def guest_ok_def stream_ops_of_def)
  qed
  have d: "keeps (\<lambda>s. scope_ok k s \<and> LS s)
      (abind (on_guest (atry (\<lambda>g. require_deletable g ctx))) (\<lambda>_. on_guest (delete_marked ctx))
        :: ('e, 'v, 'g, callout_id list) scope_act)"
    using del by (auto simp: keeps_def abind_def on_guest_def act_simps scope_ok_def split: prod.splits sum.splits)
  have live: "keeps (\<lambda>s. scope_ok k s \<and> LS s) (on_guest (amap_err Runtime require_live))"
    by (intro keeps_both keeps_scope_on_guest keeps_amap_err keeps_wf_calms calms_require_live keeps_LS_on_guest
        keeps_LG_live)
  show ?thesis
    unfolding on_delete_def
    by (intro keeps_abind live d keeps_both keeps_require_served keeps_LS_served)
qed

lemma LS_perform:
  assumes "scope_ok k s" and "LS s"
  shows "LS (snd (perform c s))"
proof (cases "\<exists>ctx. c = DoDelete ctx")
  case True
  then obtain ctx where c: "c = DoDelete ctx" by blast
  have "LS (snd (on_delete ctx s))" using keepsD [OF keeps_LS_on_delete, of k s] assms by blast
  then show ?thesis by (auto simp: c unit_result_def abind_def aret_def split: prod.split sum.split)
next
  case False
  then show ?thesis using keepsD [OF keeps_LS_perform assms(2)] by blast
qed

lemma LS_start_run: "keeps LS (start_run root plugin)"
  unfolding start_run_def on_vm_start_def on_configure_def
  by (intro keeps_intros keeps_LS_on_guest keeps_LG_steps keeps_LG_callbacks)

lemma LS_enter: "LG g \<Longrightarrow> LS (enter stream g)"
  by (erule LG_cong) (simp add: enter_def scope_new_def discard_detached_def reported_part_def)

lemma LG_drop: "LS s \<Longrightarrow> LG (scope_drop s)"
  by (erule LG_cong) (rule drop_reported)

lemma LG_start:
  assumes ok: "guest_ok None g" and "LG g"
  shows "LG (snd (start plugin g))"
proof (cases "root_with_id (contexts_of (abi_of g)) (plugin_root_id plugin)")
  case None
  let ?k = "Some (fst no_stream)"
  let ?I = "\<lambda>s. scope_ok ?k s \<and> LS s"
  have e: "?I (enter_root g)"
    unfolding enter_root_def using assms by (auto intro!: ok_enter LS_enter simp: guest_ok_def)
  have create: "keeps ?I (on_context_create None)"
    unfolding on_context_create_def
    by (intro keeps_both keeps_scope_on_guest keeps_wf_lifecycle keeps_LS_on_guest keeps_LG_callbacks)
  obtain r s where c: "on_context_create None (enter_root g) = (r, s)" by fastforce
  have s: "?I s" using keepsD [OF create e] by (simp add: c)
  show ?thesis
  proof (cases r)
    case (Inl e)
    with None c s show ?thesis by (auto simp: start_def intro: LG_drop)
  next
    case (Inr root)
    obtain a s' where run: "start_run root plugin s = (a, s')" by fastforce
    have "?I s'"
      using keepsD [OF keeps_both [OF keeps_start_run LS_start_run] s, of root plugin] by (simp add: run)
    then have d: "LG (scope_drop s')" by (blast intro: LG_drop)
    have "LG (change_contexts (\<lambda>t. if cb = OnVmStart then ctx_reject_vm root t else snd (ctx_reject root t))
        (scope_drop s'))" for cb
      using d by (rule LG_cong) (simp add: reported_part_def)
    with d None c Inr run show ?thesis by (auto simp: start_def split: sum.split prod.split)
  qed
qed (use assms in \<open>simp add: start_def\<close>)

lemma operates_keeps:
  "operates h h' \<Longrightarrow> holder_ok h \<Longrightarrow> LG (held_guest h) \<Longrightarrow> LG (held_guest h')"
proof (induction rule: operates.induct)
  case (callback s c)
  then show ?case by (auto simp: holder_ok_def intro: LS_perform)
next
  case (change_stream s ops v v')
  then have "LG (sc_guest s)" by simp
  then have "LG (change_abi (\<lambda>a. a\<lparr>stream_state_of := Some (ops, v')\<rparr>) (sc_guest s))"
    by (rule LG_cong) (simp add: reported_part_def)
  then show ?case by simp
next
  case (finish_scope ty s stream g)
  then have "LG (sc_guest s)" by simp
  then have "LG g" by (rule LG_cong) (rule finish_reported [OF finish_scope(1)])
  then show ?case by simp
next
  case (drop_scope s)
  then show ?case by (auto simp: holder_ok_def intro: LG_drop)
next
  case (declare_kind g ctx kind)
  then show ?case using keepsD [OF keeps_LG_deliveries(9)] by simp
next
  case (change_services g f)
  then have "LG g" by simp
  then have "LG (services_mut f g)" by (rule LG_cong) (simp add: services_mut_def reported_part_def)
  then show ?case by simp
next
  case (take_back ty g stream g')
  then have "LG g" "g_store g' = g_store g" by (auto simp: take_stream_def split: option.splits if_splits)
  then show ?case by simp
next
  case (take_any g stream g')
  then show ?case by (auto simp: take_stream_any_def)
next
  case (outside g env)
  then have "LG g" by simp
  then have "LG (set_store (\<lambda>w. w\<lparr>st_env := env\<rparr>) g)" by (rule LG_cong) (simp add: reported_part_def)
  then show ?case by simp
qed (simp_all add: LS_enter LG_start holder_ok_def)

text \<open>A new guest: what holds of the empty state holds after its start functions.\<close>

lemma guest_new_keeps:
  assumes "guest_new hst fill m svc lim gid env = (Inr g, env')"
    and "\<And>w. st_abi w = abi_state_new gid svc \<Longrightarrow> L w"
  shows "LG g"
proof -
  obtain mem x u where i: "instance_start (instance_ready mem x (instance_blank hst fill m (abi_state_new gid svc) lim env)) =
      (Inr u, g_instance g)"
    by (rule guest_new_Inr [OF assms(1)])
  have "L (in_store (instance_ready mem x (instance_blank hst fill m (abi_state_new gid svc) lim env)))"
    by (rule assms(2)) simp
  from keepsD [OF keeps_instance_start this] show ?thesis by (simp only: i g_store_def snd_conv)
qed

end

section \<open>The contexts, as they are reported\<close>

definition seen_ok :: "u32 \<Rightarrow> (context_id \<Rightarrow> (context_type \<times> context_id option \<times> duration option) option) \<Rightarrow> bool" where
  "seen_ok n s \<longleftrightarrow>
     (\<forall>c k p tp. s c = Some (k, p, tp) \<longrightarrow> context_get c < n \<and>
        (case p of None \<Rightarrow> k = Root | Some q \<Rightarrow> \<exists>y. s q = Some (Root, y)))"

abbreviation contexts_seen :: "('e, 'h) abi_state \<Rightarrow> bool" where
  "contexts_seen a \<equiv> seen_ok (next_context (contexts_of a)) (ctx_seen (contexts_of a))"

lemma ctx_type_seen: "ctx_type t c = map_option fst (ctx_seen t c)"
  by (simp add: ctx_type_def ctx_seen_def option.map_comp comp_def)

lemma tick_period_seen:
  "ctx_tick_period t c = (case ctx_seen t c of Some (Root, _, tp) \<Rightarrow> tp | _ \<Rightarrow> None)"
  by (simp add: ctx_tick_period_def ctx_seen_def split: option.split context_type.split)

lemma root_of_seen: "root_of t c = map_option (\<lambda>x. case fst (snd x) of None \<Rightarrow> c | Some p \<Rightarrow> p) (ctx_seen t c)"
  by (simp add: root_of_def ctx_seen_def option.map_comp comp_def)

lemma seen_root:
  assumes "seen_ok n (ctx_seen t)" and "root_of t c = Some r"
  obtains p tp where "ctx_seen t r = Some (Root, p, tp)"
proof -
  obtain k p tp where c: "ctx_seen t c = Some (k, p, tp)" and r: "r = (case p of None \<Rightarrow> c | Some q \<Rightarrow> q)"
    using assms(2) by (auto simp: root_of_seen)
  with assms(1) have "case p of None \<Rightarrow> k = Root | Some q \<Rightarrow> \<exists>y. ctx_seen t q = Some (Root, y)"
    unfolding seen_ok_def by blast
  with c r that show thesis by (cases p) auto
qed

lemma seen_create:
  assumes "ctx_create parent t = (Inr c, t')"
  shows "ctx_seen t' = (ctx_seen t)(c \<mapsto> (if parent = None then Root else Stream, parent, None))"
    "c = ContextId (next_context t)" "next_context t < next_context t'"
    "\<And>p. parent = Some p \<Longrightarrow> ctx_type t p = Some Root"
  using ctx_create_Inr [OF assms] by (auto simp: ctx_seen_def)

lemma seen_ok_create:
  assumes "ctx_create parent t = (Inr c, t')" and "seen_ok (next_context t) (ctx_seen t)"
  shows "seen_ok (next_context t') (ctx_seen t')" "ctx_seen t c = None"
proof -
  note s = seen_create [OF assms(1)]
  show fresh: "ctx_seen t c = None"
    using assms(2) s(2) unfolding seen_ok_def by (cases "ctx_seen t c") fastforce+
  show "seen_ok (next_context t') (ctx_seen t')"
    unfolding seen_ok_def s(1)
  proof (intro allI impI)
    fix d k p tp assume d: "((ctx_seen t)(c \<mapsto> (if parent = None then Root else Stream, parent, None))) d = Some (k, p, tp)"
    let ?s = "(ctx_seen t)(c \<mapsto> (if parent = None then Root else Stream, parent, None))"
    show "context_get d < next_context t' \<and> (case p of None \<Rightarrow> k = Root | Some q \<Rightarrow> \<exists>y. ?s q = Some (Root, y))"
    proof (cases "d = c")
      case True
      with d s(2-4) show ?thesis using fresh by (cases parent) (auto simp: ctx_type_seen)
    next
      case False
      with d have d: "ctx_seen t d = Some (k, p, tp)" by simp
      with assms(2) have "context_get d < next_context t"
        "case p of None \<Rightarrow> k = Root | Some q \<Rightarrow> \<exists>y. ctx_seen t q = Some (Root, y)"
        unfolding seen_ok_def by blast+
      with s(3) fresh show ?thesis by (cases p) auto
    qed
  qed
qed

lemma seen_remove: "ctx_seen (snd (ctx_remove c t)) = (ctx_seen t)(c := None)"
  "next_context (snd (ctx_remove c t)) = next_context t"
  by (auto simp: ctx_remove_def ctx_seen_def Let_def split: option.split)

lemma seen_ok_remove:
  assumes "seen_ok n (ctx_seen t)" and "ctx_ok t" and "\<not> has_children t c"
  shows "seen_ok n ((ctx_seen t)(c := None))"
  unfolding seen_ok_def
proof (intro allI impI)
  fix d k p tp assume "((ctx_seen t)(c := None)) d = Some (k, p, tp)"
  then have d: "ctx_seen t d = Some (k, p, tp)" by (simp split: if_splits)
  with assms(1) have n: "context_get d < n"
    and p: "case p of None \<Rightarrow> k = Root | Some q \<Rightarrow> \<exists>y. ctx_seen t q = Some (Root, y)"
    unfolding seen_ok_def by blast+
  have "p \<noteq> Some c"
  proof
    assume "p = Some c"
    with p have root: "ctx_type t c = Some Root" by (auto simp: ctx_type_seen)
    obtain e where "ctx_entry t d = Some e" "entry_parent e = Some c"
      using d \<open>p = Some c\<close> by (auto simp: ctx_seen_def)
    then have "(d, e) \<in> set (entries t)" by (simp add: btm_get_SomeD)
    with root \<open>entry_parent e = Some c\<close> assms(3) show False
      by (auto simp: has_children_def list_ex_iff)
  qed
  with n p show "context_get d < n \<and>
      (case p of None \<Rightarrow> k = Root | Some q \<Rightarrow> \<exists>y. ((ctx_seen t)(c := None)) q = Some (Root, y))"
    by (cases p) auto
qed

lemma seen_tick:
  assumes "root_of t c = Some r" and "ctx_seen t r = Some (k, p, tp)"
  shows "ctx_seen (snd (ctx_set_tick_period c period t)) = (ctx_seen t)(r \<mapsto> (k, p, period))"
    "next_context (snd (ctx_set_tick_period c period t)) = next_context t"
  using assms by (auto simp: ctx_set_tick_period_def ctx_seen_def ctx_update_def split: option.splits)

lemma seen_ok_tick:
  assumes "seen_ok n s" and r: "s r = Some (k, p, tp)"
  shows "seen_ok n (s(r \<mapsto> (k, p, period)))"
  unfolding seen_ok_def
proof (intro allI impI)
  fix d k' p' tp' assume d: "(s(r \<mapsto> (k, p, period))) d = Some (k', p', tp')"
  obtain tp0 where "s d = Some (k', p', tp0)"
    using d r that by (cases "d = r") auto
  with assms(1) have n: "context_get d < n"
    and p: "case p' of None \<Rightarrow> k' = Root | Some q \<Rightarrow> \<exists>y. s q = Some (Root, y)"
    unfolding seen_ok_def by blast+
  with n p r show "context_get d < n \<and>
      (case p' of None \<Rightarrow> k' = Root | Some q \<Rightarrow> \<exists>y. (s(r \<mapsto> (k, p, period))) q = Some (Root, y))"
    by (cases p') auto
qed

section \<open>The registrants of a queue are live roots\<close>

definition live_registrants :: "('e, 'h) abi_state \<Rightarrow> bool" where
  "live_registrants a \<longleftrightarrow> contexts_seen a \<and>
     (\<forall>(q, roots) \<in> set (registrants_of a). \<forall>r \<in> fst ` set roots.
        ctx_type (contexts_of a) r = Some Root)"

lemma live_registrants_cong:
  "reported_part a' = reported_part a \<Longrightarrow> live_registrants a \<Longrightarrow> live_registrants a'"
  by (simp add: live_registrants_def reported_part_def ctx_type_seen)

lemma set_btm_insert: "set (btm_insert k v m) \<subseteq> insert (k, v) (set m)"
  by (induction m) auto

lemma keys_bts_insert: "fst ` set (bts_insert k s) = insert k (fst ` set s)"
  by (simp add: bts_insert_def keys_btm_insert)

lemma registered:
  assumes "(q', roots) \<in> set (registrants_of (abi_register_queue q r nm a))" and "d \<in> fst ` set roots"
  shows "q' = q \<and> d = r \<or> (\<exists>roots'. (q', roots') \<in> set (registrants_of a) \<and> d \<in> fst ` set roots')"
proof -
  let ?roots = "case btm_get (registrants_of a) q of None \<Rightarrow> [] | Some roots \<Rightarrow> roots"
  have "registrants_of (abi_register_queue q r nm a) = btm_insert q (bts_insert r ?roots) (registrants_of a)"
    by (simp add: abi_register_queue_def Let_def)
  with assms(1) set_btm_insert [of q "bts_insert r ?roots" "registrants_of a"]
  consider "q' = q" "roots = bts_insert r ?roots" | "(q', roots) \<in> set (registrants_of a)" by auto
  then show ?thesis
  proof cases
    case 1
    with assms(2) show ?thesis
      by (auto simp: keys_bts_insert dest: btm_get_SomeD split: option.splits)
  qed (use assms(2) in blast)
qed

lemma forgotten:
  assumes "(q, roots) \<in> set (registrants_of (forget_registrant r a))" and "d \<in> fst ` set roots"
  shows "d \<noteq> r \<and> (\<exists>roots'. (q, roots') \<in> set (registrants_of a) \<and> d \<in> fst ` set roots')"
  using assms by (force simp: forget_registrant_def btm_remove_def)

lemma register_contexts [simp]:
  "contexts_of (abi_register_queue q r nm a) = contexts_of a"
  by (simp add: abi_register_queue_def Let_def)

lemma live_registrants_tick:
  assumes "live_registrants a" and "root_of (contexts_of a) c = Some r"
  shows "live_registrants (note_tick_period r period
    (a\<lparr>contexts_of := snd (ctx_set_tick_period c period (contexts_of a))\<rparr>))"
proof -
  have ok: "contexts_seen a" using assms(1) by (simp add: live_registrants_def)
  obtain p tp where r: "ctx_seen (contexts_of a) r = Some (Root, p, tp)" by (rule seen_root [OF ok assms(2)])
  from seen_ok_tick [OF ok r] assms(1) r show ?thesis
    by (fastforce simp: live_registrants_def note_tick_period_def seen_tick [OF assms(2) r] ctx_type_seen)
qed

lemma live_registrants_create:
  assumes "live_registrants a" and "ctx_create parent (contexts_of a) = (Inr c, t)"
  shows "live_registrants (a\<lparr>contexts_of := t\<rparr>)"
proof -
  have "seen_ok (next_context (contexts_of a)) (ctx_seen (contexts_of a))"
    using assms(1) by (simp add: live_registrants_def)
  note s = seen_ok_create [OF assms(2) this]
  with assms(1) show ?thesis
    by (fastforce simp: live_registrants_def ctx_type_seen seen_create(1) [OF assms(2)])
qed

lemma live_registrants_end:
  assumes "live_registrants a" and "ctx_ok (contexts_of a)" and "\<not> has_children (contexts_of a) c"
    and "forget \<or> ctx_type (contexts_of a) c \<noteq> Some Root"
  shows "live_registrants (end_context c forget a)"
proof -
  let ?a = "end_context c forget a"
  have t: "contexts_of ?a = snd (ctx_remove c (contexts_of a))"
    by (simp add: end_context_def Let_def forget_registrant_def)
  have ok: "contexts_seen ?a"
    unfolding t seen_remove using assms(1-3) by (intro seen_ok_remove) (simp_all add: live_registrants_def)
  have "ctx_type (contexts_of ?a) r = Some Root"
    if r: "(q, roots) \<in> set (registrants_of ?a)" "r \<in> fst ` set roots" for q roots r
  proof -
    have "ctx_type (contexts_of a) r = Some Root \<and> r \<noteq> c"
    proof (cases forget)
      case True
      with r forgotten [of q roots c "a\<lparr>contexts_of := snd (ctx_remove c (contexts_of a))\<rparr>" r] assms(1) show ?thesis
        by (fastforce simp: end_context_def Let_def live_registrants_def)
    next
      case False
      with r assms(1,4) show ?thesis by (fastforce simp: end_context_def Let_def live_registrants_def)
    qed
    then show ?thesis by (simp add: t ctx_type_seen seen_remove)
  qed
  with ok show ?thesis by (fastforce simp: live_registrants_def)
qed

interpretation registrants: ledger "\<lambda>w :: ('e, 'v option, 'g) store. live_registrants (st_abi w)"
proof (unfold_locales, goal_cases)
  case (8 w c root queue nm)
  then have live: "live_registrants (st_abi w)" and ok: "contexts_seen (st_abi w)"
    by (simp_all add: live_registrants_def)
  have root: "ctx_type (contexts w) root = Some Root"
    by (rule seen_root [OF ok 8(2)]) (simp add: ctx_type_seen)
  have "ctx_type (contexts w) d = Some Root"
    if "(q, roots) \<in> set (registrants_of (abi_register_queue queue root nm (st_abi w)))" "d \<in> fst ` set roots"
    for q roots d
    using registered [OF that] root live unfolding live_registrants_def by blast
  with ok show ?case by (auto simp: live_registrants_def) 
next
  case (11 w c root period)
  then show ?case using live_registrants_tick by simp
next
  case (18 w w')
  then show ?case by (blast intro: live_registrants_cong)
next
  case (19 w parent c t)
  then show ?case using live_registrants_create by simp
next
  case (20 w c forget)
  then show ?case using live_registrants_end by simp
qed (auto 0 3 simp: live_registrants_def settle_grants_def grant_queue_def grant_metric_def hold_shared_name_def
    ctx_type_seen)

section \<open>The reports are complete\<close>

text \<open>
  What an embedder knows that keeps the reports of a guest: the tick period of each root, the
  registrations, and whether it asked while the guest had other shared services than those its
  registrations are of, in which case the registrations it would have read are lost.
\<close>

record notebook =
  known_periods :: "context_id \<Rightarrow> duration option"
  known_queues :: "(queue_id \<times> context_id) set"
  missed :: bool

definition no_notes :: notebook where
  "no_notes = \<lparr>known_periods = \<lambda>_. None, known_queues = {}, missed = False\<rparr>"

definition add_notes :: "changes \<Rightarrow> notebook \<Rightarrow> notebook" where
  "add_notes c k = k
     \<lparr>known_periods := \<lambda>root. case btm_get (tick_periods c) root of Some p \<Rightarrow> p | None \<Rightarrow> known_periods k root,
      known_queues := known_queues k \<union> (\<lambda>r. (qr_queue r, qr_root r)) ` fst ` set (changed_queues c)\<rparr>"

definition periods_known :: "notebook \<Rightarrow> ('e, 'h) abi_state \<Rightarrow> bool" where
  "periods_known k a \<longleftrightarrow> contexts_seen a \<and>
     (\<forall>c. next_context (contexts_of a) \<le> context_get c \<longrightarrow>
        known_periods k c = None \<and> btm_get (tick_periods (changes_of a)) c = None) \<and>
     (\<forall>c. ctx_type (contexts_of a) c = Some Root \<longrightarrow>
        ctx_tick_period (contexts_of a) c = known_periods (add_notes (changes_of a) k) c)"

definition queues_known :: "notebook \<Rightarrow> ('e, 'h) abi_state \<Rightarrow> bool" where
  "queues_known k a \<longleftrightarrow> missed k \<or>
     (\<forall>(q, roots) \<in> set (registrants_of a). \<forall>r \<in> fst ` set roots.
        (q, r) \<in> known_queues (add_notes (changes_of a) k))"

lemma known_periods_add [simp]:
  "known_periods (add_notes c k) root =
     (case btm_get (tick_periods c) root of Some p \<Rightarrow> p | None \<Rightarrow> known_periods k root)"
  by (simp add: add_notes_def)

lemma known_queues_add [simp]:
  "known_queues (add_notes c k) =
     known_queues k \<union> (\<lambda>r. (qr_queue r, qr_root r)) ` fst ` set (changed_queues c)"
  by (simp add: add_notes_def)

lemma periods_known_cong:
  "reported_part a' = reported_part a \<Longrightarrow> periods_known k a \<Longrightarrow> periods_known k a'"
  by (simp add: periods_known_def reported_part_def ctx_type_seen tick_period_seen)

lemma periods_known_tick:
  assumes "periods_known k a" and "root_of (contexts_of a) c = Some r"
  shows "periods_known k (note_tick_period r period
    (a\<lparr>contexts_of := snd (ctx_set_tick_period c period (contexts_of a))\<rparr>))"
proof -
  have ok: "contexts_seen a" using assms(1) by (simp add: periods_known_def)
  obtain p tp where r: "ctx_seen (contexts_of a) r = Some (Root, p, tp)" by (rule seen_root [OF ok assms(2)])
  then have "context_get r < next_context (contexts_of a)" using ok unfolding seen_ok_def by blast
  with seen_ok_tick [OF ok r] assms(1) r show ?thesis
    by (auto simp: periods_known_def note_tick_period_def seen_tick [OF assms(2) r] ctx_type_seen tick_period_seen
        not_less [symmetric])
qed

lemma periods_known_create:
  assumes k: "periods_known k a" and c: "ctx_create parent (contexts_of a) = (Inr c, t)"
  shows "periods_known k (a\<lparr>contexts_of := t\<rparr>)"
proof -
  have "seen_ok (next_context (contexts_of a)) (ctx_seen (contexts_of a))"
    using k by (simp add: periods_known_def)
  note s = seen_ok_create [OF c this] and e = seen_create [OF c]
  have new: "known_periods k c = None" "btm_get (tick_periods (changes_of a)) c = None"
    using k e(2) by (simp_all add: periods_known_def)
  have later: "known_periods k d = None \<and> btm_get (tick_periods (changes_of a)) d = None"
    if "next_context t \<le> context_get d" for d
    using k that e(3) by (simp add: periods_known_def)
  have "ctx_tick_period t d = known_periods (add_notes (changes_of a) k) d" if "ctx_type t d = Some Root" for d
    using that k new by (cases "d = c") (auto simp: periods_known_def ctx_type_seen tick_period_seen e(1) split: if_splits)
  with s(1) later show ?thesis by (simp add: periods_known_def)
qed

lemma periods_known_end:
  assumes k: "periods_known k a" and "ctx_ok (contexts_of a)" and "\<not> has_children (contexts_of a) c"
  shows "periods_known k (end_context c forget a)"
proof -
  let ?a = "end_context c forget a"
  have t: "contexts_of ?a = snd (ctx_remove c (contexts_of a))" "changes_of ?a = changes_of a"
    by (simp_all add: end_context_def Let_def forget_registrant_def)
  have ok: "contexts_seen ?a"
    unfolding t seen_remove using assms by (intro seen_ok_remove) (simp_all add: periods_known_def)
  with k show ?thesis
    by (auto simp: periods_known_def t ctx_type_seen tick_period_seen seen_remove)
qed

interpretation periods: ledger "\<lambda>w :: ('e, 'v option, 'g) store. periods_known k (st_abi w)" for k
proof (unfold_locales, goal_cases)
  case (11 w c root period)
  then show ?case using periods_known_tick by simp
next
  case (18 w w')
  then show ?case by (blast intro: periods_known_cong)
next
  case (19 w parent c t)
  then show ?case using periods_known_create by simp
next
  case (20 w c forget)
  then show ?case using periods_known_end by simp
qed (auto 0 3 simp: periods_known_def settle_grants_def grant_queue_def grant_metric_def hold_shared_name_def
    abi_register_queue_def Let_def ctx_type_seen tick_period_seen)

lemma queues_known_register:
  assumes "queues_known k a"
  shows "queues_known k (abi_register_queue q r nm a)"
proof (cases "missed k")
  case False
  let ?a = "abi_register_queue q r nm a"
  let ?known = "\<lambda>a. known_queues (add_notes (changes_of a) k)"
  let ?roots = "case btm_get (registrants_of a) q of None \<Rightarrow> [] | Some roots \<Rightarrow> roots"
  have old: "(q', d) \<in> ?known a" if "(q', roots) \<in> set (registrants_of a)" "d \<in> fst ` set roots" for q' roots d
    using assms that False unfolding queues_known_def by blast
  have more: "?known a \<subseteq> ?known ?a"
    by (auto simp: abi_register_queue_def Let_def keys_bts_insert)
  have new: "(q, r) \<in> ?known ?a"
  proof (cases "bts_contains ?roots r")
    case True
    then obtain roots where "(q, roots) \<in> set (registrants_of a)" "r \<in> fst ` set roots"
      by (cases "btm_get (registrants_of a) q") (auto simp: bts_contains_set dest: btm_get_SomeD)
    with old more show ?thesis by blast
  qed (force simp: abi_register_queue_def Let_def keys_bts_insert)
  show ?thesis
    unfolding queues_known_def using registered new old more by blast
qed (simp add: queues_known_def)

lemma queues_known_end:
  assumes "queues_known k a"
  shows "queues_known k (end_context c forget a)"
proof (cases "missed k")
  case False
  let ?a = "a\<lparr>contexts_of := snd (ctx_remove c (contexts_of a))\<rparr>"
  have old: "(q, d) \<in> known_queues (add_notes (changes_of a) k)"
    if "(q, roots) \<in> set (registrants_of a)" "d \<in> fst ` set roots" for q roots d
    using assms that False unfolding queues_known_def by blast
  have less: "\<exists>roots'. (q, roots') \<in> set (registrants_of a) \<and> d \<in> fst ` set roots'"
    if "(q, roots) \<in> set (registrants_of (end_context c forget a))" "d \<in> fst ` set roots" for q roots d
  proof (cases forget)
    case True
    with that have "(q, roots) \<in> set (registrants_of (forget_registrant c ?a))"
      by (simp add: end_context_def Let_def)
    from forgotten [OF this that(2)] show ?thesis by simp
  next
    case False
    with that show ?thesis by (auto simp: end_context_def Let_def)
  qed
  have same: "changes_of (end_context c forget a) = changes_of a"
    by (simp add: end_context_def Let_def forget_registrant_def)
  have "(q, d) \<in> known_queues (add_notes (changes_of (end_context c forget a)) k)"
    if "(q, roots) \<in> set (registrants_of (end_context c forget a))" "d \<in> fst ` set roots" for q roots d
    unfolding same using less [OF that] old by blast
  then show ?thesis unfolding queues_known_def by blast
qed (simp add: queues_known_def)

interpretation queues: ledger "\<lambda>w :: ('e, 'v option, 'g) store. queues_known k (st_abi w)" for k
proof (unfold_locales, goal_cases)
  case (8 w c root queue nm)
  then show ?case using queues_known_register by simp
next
  case (18 w w')
  then show ?case by (simp add: queues_known_def reported_part_def)
next
  case (20 w c forget)
  then show ?case using queues_known_end by simp
qed (auto 0 3 simp: queues_known_def settle_grants_def grant_queue_def grant_metric_def hold_shared_name_def
    note_tick_period_def)

end
