(* ===== verification/Samples.thy ===== *)
theory Samples
  imports Embedder
begin

text \<open>
  Guests for the witnesses: the sample module with a body for the callback that creates a context,
  and the guest that is built from it.
\<close>

definition acting_module :: "(i32 list \<Rightarrow> unit program) \<Rightarrow> unit wasm_module" where
  "acting_module code = sample_module
     \<lparr>module_exports := (''proxy_on_context_create'', Func ([I32, I32], []) code) # module_exports sample_module,
      module_imports := [Import ''env'' ''proxy_set_tick_period_milliseconds'' (Some ([I32], [I32])),
        Import ''env'' ''proxy_register_shared_queue'' (Some ([I32, I32, I32], [I32]))],
      module_link := sample_link 0 [Import ''env'' ''proxy_set_tick_period_milliseconds'' (Some ([I32], [I32])),
        Import ''env'' ''proxy_register_shared_queue'' (Some ([I32, I32, I32], [I32]))]\<rparr>"

definition acting_store :: "unit vm_services \<Rightarrow> (unit, unit option, unit) store" where
  "acting_store svc = set_guest_limits limits_default (host_state_new (abi_state_new (GuestId 1) svc) () ())
     \<lparr>st_memory := Some (replicate 64 0), st_allocator := True\<rparr>"

definition acting_guest :: "(i32 list \<Rightarrow> unit program) \<Rightarrow> unit vm_services \<Rightarrow> (unit, unit, unit) guest" where
  "acting_guest code svc = sample_guest
     \<lparr>g_instance := sample_instance\<lparr>in_module := acting_module code, in_store := acting_store svc\<rparr>,
      g_callbacks := (OnContextCreate, Some code) # tl (g_callbacks sample_guest)\<rparr>"

lemma acting_guest_new:
  "guest_new sample_host (\<lambda>n e. ((True, replicate n 0), e)) (acting_module code) svc limits_default
     (GuestId 1) () = (Inr (acting_guest code svc), ())"
proof -
  let ?i = "sample_instance\<lparr>in_module := acting_module code, in_store := acting_store svc\<rparr>"
  note defs = acting_module_def acting_store_def sample_defs
  have "set (abi_exports (acting_module code)) = {''proxy_abi_version_0_2_1''}"
    unfolding abi_exports_set by (auto simp: defs ABI_PREFIX_def)
  then have v: "detect_version (abi_exports (acting_module code)) = Inr V0_2_1"
    by (simp add: detect_version_def ok_or_def)
  have start: "instance_start ?i = (Inr (), ?i)"
    by (simp add: instance_start_def abind_def act_simps typed_func_def ensure_live_def is_poisoned_def defs has_export_iff)
  have callbacks: "callbacks_resolve ?i = Inr (g_callbacks (acting_guest code svc))"
    by (simp add: callbacks_resolve_def typed_func_def ensure_live_def is_poisoned_def defs has_export_iff
        sample_guest_def acting_guest_def)
  have "instance_new sample_host (\<lambda>n e. ((True, replicate n 0), e)) (acting_module code)
      (abi_state_new (GuestId 1) svc) limits_default () = (Inr ?i, ())"
    by (rule sample_instance_new)
      (use start in \<open>simp_all add: defs allocator_code_def get_func_def sample_link_def resolves_def linked_functions_def
        wasi_functions_def host_functions_def WASI_MODULE_def\<close>)
  with v show ?thesis
    by (simp add: guest_new_def callbacks) (simp add: acting_guest_def sample_guest_def defs)
qed

lemma acting_guest_simps [simp]:
  "g_store (acting_guest code svc) = acting_store svc" "st_abi (acting_store svc) = abi_state_new (GuestId 1) svc"
  "\<not> st_poisoned (acting_store svc)"
  by (simp_all add: acting_guest_def g_store_def acting_store_def set_guest_limits_def host_state_new_def)

end
