(* ===== verification/Reports.thy ===== *)
theory Reports
  imports Ledger Samples
begin

text \<open>
  What the reports of a guest are worth to the embedder: the registrants it is told of are live
  roots, and one that keeps what it reads knows every tick period and every registration.
\<close>

section \<open>What an embedder may rely on\<close>

lemma new_state_seen: "contexts_seen (abi_state_new gid svc)"
  by (simp add: seen_ok_def abi_state_new_def context_table_new_def ctx_seen_def)

lemma new_state_ledgers:
  "live_registrants (abi_state_new gid svc)" "periods_known no_notes (abi_state_new gid svc)"
  "queues_known no_notes (abi_state_new gid svc)"
  using new_state_seen [of gid svc]
  by (simp_all add: live_registrants_def periods_known_def queues_known_def no_notes_def abi_state_new_def
      changes_empty_def context_table_new_def ctx_type_def)

lemma registrants_in:
  assumes "root \<in> set (queue_registrants g queue)"
  obtains roots where "(queue, roots) \<in> set (registrants_of (abi_of g))" "root \<in> fst ` set roots"
    "grants_are_current (abi_of g)"
  using assms
  by (cases "btm_get (registrants_of (abi_of g)) queue")
    (auto simp: queue_registrants_def registrants_def dest: btm_get_SomeD split: if_splits)

lemma take_changes_eq:
  "guest_take_changes g =
     (if grants_are_current (abi_of g) then changes_of (abi_of g)
      else (changes_of (abi_of g))\<lparr>changed_queues := []\<rparr>,
      change_abi (\<lambda>a. a\<lparr>changes_of := changes_empty\<rparr>) g)"
  by (simp add: guest_take_changes_def take_changes_def Let_def change_abi_def set_store_def set_abi_def g_store_def)

lemma embeds_registrants:
  "embeds\<^sup>*\<^sup>* h h' \<Longrightarrow> holder_ok h \<Longrightarrow> live_registrants (abi_of (held_guest h)) \<Longrightarrow>
   holder_ok h' \<and> live_registrants (abi_of (held_guest h'))"
proof (induction rule: rtranclp_induct)
  case (step h' h'')
  then have ok: "holder_ok h'" "live_registrants (abi_of (held_guest h'))" by simp_all
  from step.hyps(2) have "live_registrants (abi_of (held_guest h''))"
  proof cases
    case operate
    from registrants.operates_keeps [OF this ok] show ?thesis .
  next
    case (read_changes g c g')
    then have "live_registrants (abi_of g')" using ok(2)
      by (fastforce simp: take_changes_eq live_registrants_def)
    with read_changes show ?thesis by simp
  qed
  with embeds_ok [OF step.hyps(2) ok(1)] show ?case by simp
qed simp

text \<open>
  C29. Whoever \<open>queue_registrants\<close> names can be served: over any sequence of operations of
  the embedder, with any code of the guest running in the callbacks, every registrant of a queue
  is a root context the guest still has, so a root that was deleted is never named.
\<close>

theorem registrants_live:
  assumes "guest_new hst fill m svc lim gid env = (Inr g0, env')" and "embeds\<^sup>*\<^sup>* (Held g0) h"
    and "root \<in> set (queue_registrants (held_guest h) queue)"
  shows "guest_context_type (held_guest h) root = Some Root"
proof -
  have ok: "holder_ok (Held g0)" using guest_new_ok [OF assms(1)] by (simp add: holder_ok_def)
  have "live_registrants (abi_of g0)"
    by (rule registrants.guest_new_keeps [OF assms(1)]) (simp add: new_state_ledgers)
  with embeds_registrants [OF assms(2) ok] have "live_registrants (abi_of (held_guest h))" by simp
  moreover obtain roots where "(queue, roots) \<in> set (registrants_of (abi_of (held_guest h)))" "root \<in> fst ` set roots"
    by (rule registrants_in [OF assms(3)])
  ultimately show ?thesis unfolding live_registrants_def guest_context_type_def by blast
qed

text \<open>An embedder that keeps what the reports say.\<close>

inductive follows :: "('e, 'v, 'g) holder \<times> notebook \<Rightarrow> ('e, 'v, 'g) holder \<times> notebook \<Rightarrow> bool" where
  follow_operation: "operates h h' \<Longrightarrow> follows (h, k) (h', k)"
| follow_changes: "guest_take_changes g = (c, g') \<Longrightarrow>
    follows (Held g, k) (Held g', (add_notes c k)
      \<lparr>missed := missed k \<or> registrants_of (abi_of g) \<noteq> [] \<and> \<not> grants_are_current (abi_of g)\<rparr>)"

inductive_cases followsE: "follows x y"

definition informed :: "('e, 'v, 'g) holder \<times> notebook \<Rightarrow> bool" where
  "informed x \<longleftrightarrow> holder_ok (fst x) \<and> periods_known (snd x) (abi_of (held_guest (fst x))) \<and>
     queues_known (snd x) (abi_of (held_guest (fst x)))"

lemma informed_read:
  assumes "periods_known k a" "queues_known k a"
    and "c = (if cur then changes_of a else (changes_of a)\<lparr>changed_queues := []\<rparr>)"
  shows "periods_known ((add_notes c k)\<lparr>missed := missed k \<or> registrants_of a \<noteq> [] \<and> \<not> cur\<rparr>)
      (a\<lparr>changes_of := changes_empty\<rparr>)"
    "queues_known ((add_notes c k)\<lparr>missed := missed k \<or> registrants_of a \<noteq> [] \<and> \<not> cur\<rparr>)
      (a\<lparr>changes_of := changes_empty\<rparr>)"
  using assms by (auto simp: periods_known_def queues_known_def changes_empty_def add_notes_def)

lemma follows_informed: "follows x y \<Longrightarrow> informed x \<Longrightarrow> informed y"
proof (induction rule: follows.induct)
  case (follow_operation h h' k)
  then show ?case
    using periods.operates_keeps [of h h' k] queues.operates_keeps [of h h' k]
    by (simp add: informed_def operates_ok)
next
  case (follow_changes g c g' k)
  then have "holder_ok (Held g')" using embeds_ok [OF read_changes [OF follow_changes(1)]] by (simp add: informed_def)
  moreover have "periods_known k (abi_of g)" "queues_known k (abi_of g)"
    using follow_changes(2) by (simp_all add: informed_def)
  moreover have c: "c = (if grants_are_current (abi_of g) then changes_of (abi_of g)
      else (changes_of (abi_of g))\<lparr>changed_queues := []\<rparr>)"
    and g': "abi_of g' = (abi_of g)\<lparr>changes_of := changes_empty\<rparr>"
    using follow_changes(1) by (auto simp: take_changes_eq)
  ultimately show ?case
    using informed_read [OF _ _ c, of k] by (simp only: informed_def fst_conv snd_conv held_guest.simps g')
qed

text \<open>
  C6. The reports are complete: an embedder that reads \<open>take_changes\<close> whenever it likes and
  keeps what it says knows, at the next reading and without asking the guest, the tick period of
  every root the guest has and every registrant of every queue, whatever callbacks ran in between
  with any code of the guest, unless it once read while the guest had other shared services than
  those its registrations are of.
\<close>

theorem reports_complete:
  assumes "guest_new hst fill m svc lim gid env = (Inr g0, env')"
    and "follows\<^sup>*\<^sup>* (Held g0, no_notes) (Held g, k)" and "guest_take_changes g = (c, g')"
  shows "(\<forall>root. guest_context_type g root = Some Root \<longrightarrow>
      guest_tick_period g root = known_periods (add_notes c k) root) \<and>
    (\<not> missed k \<longrightarrow> (\<forall>queue. \<forall>root \<in> set (queue_registrants g queue).
      (queue, root) \<in> known_queues (add_notes c k)))"
proof -
  have new: "informed (Held g0, no_notes)"
    using guest_new_ok [OF assms(1)] periods.guest_new_keeps [OF assms(1), of no_notes]
      queues.guest_new_keeps [OF assms(1), of no_notes]
    by (simp add: informed_def holder_ok_def new_state_ledgers)
  have "informed y" if "follows\<^sup>*\<^sup>* (Held g0, no_notes) y" for y
    using that by (induction rule: rtranclp_induct) (use new in \<open>auto intro: follows_informed\<close>)
  then have i: "periods_known k (abi_of g)" "queues_known k (abi_of g)"
    using assms(2) by (force simp: informed_def)+
  have ticks: "tick_periods c = tick_periods (changes_of (abi_of g))"
    and queues: "grants_are_current (abi_of g) \<Longrightarrow> c = changes_of (abi_of g)"
    using assms(3) by (auto simp: take_changes_eq split: if_splits)
  have "(queue, root) \<in> known_queues (add_notes c k)"
    if r: "root \<in> set (queue_registrants g queue)" and "\<not> missed k" for queue root
  proof -
    obtain roots where "(queue, roots) \<in> set (registrants_of (abi_of g))" "root \<in> fst ` set roots"
      "grants_are_current (abi_of g)" by (rule registrants_in [OF r])
    with i(2) queues \<open>\<not> missed k\<close> show ?thesis unfolding queues_known_def by blast
  qed
  with i(1) ticks show ?thesis
    by (simp add: periods_known_def guest_context_type_def guest_tick_period_def)
qed

section \<open>A guest that reports\<close>

text \<open>
  For the witnesses, a guest whose new contexts ask for a tick every 50 milliseconds and register
  a queue, on shared services that have one queue.
\<close>

definition one_queue :: "unit vm_services" where
  "one_queue = sample_services\<lparr>vs_shared := (1, shared_services_default
     \<lparr>register_shared_queue := \<lambda>call vm_id name e. (Inr (QueueId 7), e)\<rparr>)\<rparr>"

definition reporting_code :: "i32 list \<Rightarrow> unit program" where
  "reporting_code = (\<lambda>_. HostCall (CallSetTickPeriodMilliseconds 50)
     (\<lambda>_. HostCall (CallRegisterSharedQueue 0 0 0) Return))"

definition reporting_store :: "(unit, unit option, unit) store" where
  "reporting_store = acting_store one_queue"

definition reporting_guest :: "(unit, unit, unit) guest" where
  "reporting_guest = acting_guest reporting_code one_queue"

lemmas reporting_guest_new = acting_guest_new [of reporting_code one_queue, folded reporting_guest_def]

text \<open>The store while the guest creates its first context, and after each of the two calls.\<close>

definition report_contexts :: "duration option \<Rightarrow> context_table" where
  "report_contexts p = \<lparr>entries = [(ContextId 1, sample_root\<lparr>entry_tick_period := p\<rparr>)], next_context = 2,
     effective = Some (ContextId 1), vm_rejected = None\<rparr>"

definition report_state :: "(unit, unit option) abi_state" where
  "report_state = (abi_state_new (GuestId 1) one_queue)
     \<lparr>stream_state_of := Some no_stream, contexts_of := report_contexts None, current_callback := Some OnContextCreate\<rparr>"

definition report_ticked :: "(unit, unit option) abi_state" where
  "report_ticked = report_state\<lparr>contexts_of := report_contexts (Some (from_millis 50)),
     changes_of := \<lparr>tick_periods = [(ContextId 1, Some (from_millis 50))], changed_queues = []\<rparr>\<rparr>"

definition report_registered :: "(unit, unit option) abi_state" where
  "report_registered = report_ticked\<lparr>granted_against := Some (vs_shared one_queue), granted_queues := [(QueueId 7, ())],
     held_names := [(Registered [], ())], registrants_of := [(QueueId 7, [(ContextId 1, ())])],
     changes_of := \<lparr>tick_periods = [(ContextId 1, Some (from_millis 50))],
        changed_queues = [(QueueRegistration (QueueId 7) (ContextId 1) [], ())]\<rparr>\<rparr>"

abbreviation in_report :: "(unit, unit option) abi_state \<Rightarrow> (unit, unit option, unit) store" where
  "in_report a \<equiv> set_abi (\<lambda>_. a) reporting_store"

lemma reporting_store_simps [simp]:
  "st_memory reporting_store = Some (replicate 64 0)" "st_max_name_bytes reporting_store = Some 4096"
  "st_max_shared_names reporting_store = Some 1024" "st_env reporting_store = ()" "\<not> st_poisoned reporting_store"
  "st_abi reporting_store = abi_state_new (GuestId 1) one_queue"
  by (simp_all add: reporting_store_def acting_store_def set_guest_limits_def host_state_new_def limits_default_def)

lemma report_contexts_simps [simp]:
  "effective (report_contexts p) = Some (ContextId 1)" "rejection_of (report_contexts p) (ContextId 1) = None"
  "root_of (report_contexts p) (ContextId 1) = Some (ContextId 1)"
  "ctx_set_tick_period (ContextId 1) q (report_contexts p) = (True, report_contexts q)"
  by (simp_all add: report_contexts_def rejection_of_def is_rejected_def root_of_def btm_get_def sample_root_def
      ctx_set_tick_period_def ctx_update_def btm_adjust_def)

lemma report_memory:
  "guest_slice_try_from 0 0 = Inr \<lparr>sptr = 0, slen = 0\<rparr>"
  "mem_read (replicate 64 0) \<lparr>sptr = 0, slen = 0\<rparr> = Inr []"
  "mem_read_u32 (replicate 64 0) 0 = Inr (u32_from_le_bytes (replicate 4 0))"
  "mem_write_u32 (replicate 64 0) 0 7 = Inr (u32_to_le_bytes 7 @ replicate 60 0)"
  by (simp_all add: guest_slice_try_from_def guest_slice_new_def guest_ptr_of_def mem_read_def slice_bounds_def
      mem_read_u32_def mem_write_u32_def mem_write_def mem_slice_mut_def rbind_def ok_or_def u32_checked_add_def
      usize_checked_add_def usize_max_def read_word_def length_u32_to_le_bytes)

lemma report_tick: "proxy_set_tick_period_milliseconds 50 (in_report report_state) = (Inr (), in_report report_ticked)"
  by (simp add: proxy_set_tick_period_milliseconds_def context_of_def act_simps on_contexts_def Let_def on_abi_def
      report_state_def report_ticked_def note_tick_period_def abi_state_new_def changes_empty_def set_abi_def)

lemma abind_aget: "abind (aget f) k w = k (f w) w"
  by (simp add: abind_def aget_def)

lemma amap_Inr: "m w = (Inr x, w') \<Longrightarrow> amap_err f m w = (Inr x, w')"
  by (simp add: amap_err_def)

abbreviation settled_state :: "(unit, unit option) abi_state" where
  "settled_state \<equiv> report_ticked\<lparr>granted_against := Some (vs_shared one_queue)\<rparr>"

lemma report_settled:
  "with_shared NotFound (in_report report_ticked) =
     (Inr (with_callback OnContextCreate (invocation_new (GuestId 1) (ContextId 1)), snd (vs_shared one_queue)),
      in_report settled_state)"
  by (simp add: with_shared_def act_simps context_of_def on_abi_def settle_grants_def grants_seen_def report_ticked_def
      report_state_def abi_state_new_def set_abi_def invocation_of_def Let_def)

lemma report_room: "room_for_name (Registered []) (in_report settled_state) = (Inr (), in_report settled_state)"
  by (simp add: room_for_name_def within_shared_names_def act_simps abind_aget holds_shared_name_def shared_names_def
      usize_saturating_add_def usize_max_def report_ticked_def report_state_def abi_state_new_def)

lemma report_register:
  "proxy_register_shared_queue 0 0 0 (in_report report_ticked) =
     (Inr (), (in_report report_registered)\<lparr>st_memory := Some (u32_to_le_bytes 7 @ replicate 60 0)\<rparr>)"
proof -
  have queue: "register_shared_queue (snd (vs_shared one_queue)) call vm name e = (Inr (QueueId 7), e)" for call vm name e
    by (simp add: one_queue_def)
  have registered: "abi_register_queue (QueueId 7) (ContextId 1) [] (hold_shared_name (Registered [])
      (grant_queue (QueueId 7) settled_state)) = report_registered"
    by (simp add: abi_register_queue_def hold_shared_name_def grant_queue_def report_registered_def report_ticked_def
        report_state_def abi_state_new_def bts_insert_def bts_contains_def)
  have root: "contexts_of report_ticked = report_contexts (Some (from_millis 50))"
    by (simp add: report_ticked_def)
  show ?thesis
    by (simp add: proxy_register_shared_queue_def arg_slice_def read_slice_def check_u32_def split_store_def
        report_settled report_room abind_aget act_simps amap_Inr Let_def within_name_bytes_def embedder_def on_env_def
        put_u32_def mem_put_def mem_get_def on_abi_def report_memory guest_ptr_of_def memory_of_def queue
        from_embedder_def invocation_new_def with_callback_def root)
      (simp add: set_abi_def registered)
qed

lemma reporting_runs:
  "exec_program (host_body alloc rnd) (reporting_code ps) (in_report report_state) =
     (Inr 0, (in_report report_registered)\<lparr>st_memory := Some (u32_to_le_bytes 7 @ replicate 60 0)\<rparr>)"
  by (simp add: reporting_code_def act_simps host_result_def complete_def report_tick report_register)

lemma reporting_guest_store [simp]: "g_store reporting_guest = reporting_store"
  by (simp add: reporting_guest_def reporting_store_def)

lemma reporting_callback:
  assumes "g_callbacks g = g_callbacks reporting_guest" and "g_store g = in_report report_state"
  obtains g' where "call_callback OnContextCreate ps 0 g = (Inr 0, g')" "abi_of g' = report_registered"
proof -
  have "callbacks_get (g_callbacks g) OnContextCreate = Some reporting_code"
    by (simp add: assms(1) reporting_guest_def acting_guest_def callbacks_get_def)
  moreover obtain i where "call_typed reporting_code ps (g_instance g) = (Inr 0, i)" "st_abi (in_store i) = report_registered"
    using assms(2) by (simp add: call_typed_def call_on_def host_of_def g_store_def reporting_runs Let_def)
  ultimately show thesis
    using that by (simp add: call_callback_def g_store_def)
qed

lemma reporting_created:
  obtains s where "on_context_create None (enter_root reporting_guest) = (Inr (ContextId 1), s)"
    "abi_of (sc_guest s) = report_registered\<lparr>current_callback := None\<rparr>"
proof -
  let ?g = "sc_guest (enter_root reporting_guest)"
  let ?t = "(report_contexts None)\<lparr>effective := None\<rparr>"
  let ?g1 = "change_abi (\<lambda>a. a\<lparr>current_callback := Some OnContextCreate\<rparr>)
      (change_contexts (\<lambda>t. snd (ctx_set_effective (ContextId 1) t)) (change_contexts (\<lambda>_. ?t) ?g))"
  have abi: "abi_of ?g = (abi_state_new (GuestId 1) one_queue)\<lparr>stream_state_of := Some no_stream\<rparr>"
    by (simp add: enter_root_def enter_def scope_new_def discard_detached_def)
  have created: "create_context None ?g = (Inr (ContextId 1), change_contexts (\<lambda>_. ?t) ?g)"
    by (simp add: create_context_def abi ctx_create_def context_table_new_def abi_state_new_def u32_checked_add_def
        Let_def report_contexts_def sample_root_def)
  have "g_store ?g1 = in_report report_state"
    by (simp add: change_abi_def change_contexts_def enter_root_def enter_def scope_new_def discard_detached_def set_store_def
        set_abi_def ctx_set_effective_def report_contexts_def btm_get_def g_store_def report_state_def
        reporting_guest_store [unfolded g_store_def])
  moreover have "g_callbacks ?g1 = g_callbacks reporting_guest"
    by (simp add: change_abi_def change_contexts_def enter_root_def enter_def scope_new_def discard_detached_def set_store_def)
  ultimately obtain g' where g': "call_callback OnContextCreate [1, 0] 0 ?g1 = (Inr 0, g')" "abi_of g' = report_registered"
    using reporting_callback [of ?g1 "[1, 0]"] by blast
  have live: "require_live ?g = (Inr (), ?g)"
    by (simp add: require_live_def abi abi_state_new_def) (simp add: guest_is_poisoned_store Let_def enter_root_def enter_def scope_new_def discard_detached_def)
  have "context_create None ?g = (Inr (ContextId 1), change_abi (\<lambda>a. a\<lparr>current_callback := None\<rparr>) g')"
    using g' live created
    by (simp add: context_create_def act_simps amap_Inr vm_accepted_def abi abi_state_new_def context_table_new_def
        run_def Let_def context_wire_def)
  then show thesis
    using that g'(2) by (simp add: on_context_create_def on_guest_def)
qed

lemma reporting_path:
  obtains g where "embeds\<^sup>*\<^sup>* (Held reporting_guest) (Held g)"
    "follows\<^sup>*\<^sup>* (Held reporting_guest, no_notes) (Held g, no_notes)"
    "abi_of g = report_registered\<lparr>current_callback := None, stream_state_of := None\<rparr>"
proof -
  obtain s where s: "on_context_create None (enter_root reporting_guest) = (Inr (ContextId 1), s)"
    "abi_of (sc_guest s) = report_registered\<lparr>current_callback := None\<rparr>" by (rule reporting_created)
  let ?s = "snd (perform (DoContextCreate None) (enter_root reporting_guest))"
  have "?s = s" by (simp add: s(1) unit_result_def act_simps)
  moreover have "stream_state_of (abi_of (sc_guest s)) = Some no_stream"
    by (simp add: s(2) report_registered_def report_ticked_def report_state_def)
  ultimately have "abi_of (scope_drop ?s) = report_registered\<lparr>current_callback := None, stream_state_of := None\<rparr>"
    by (simp add: scope_drop_def take_held_eq s(2) detach_def Let_def)
  moreover have ops: "operates (Held reporting_guest) (Scoped (enter_root reporting_guest))"
    "operates (Scoped (enter_root reporting_guest)) (Scoped ?s)" "operates (Scoped ?s) (Held (scope_drop ?s))"
    unfolding enter_root_def by (rule operates.intros)+
  have "embeds\<^sup>*\<^sup>* (Held reporting_guest) (Held (scope_drop ?s))"
    using ops [THEN operate] by (meson converse_rtranclp_into_rtranclp rtranclp.rtrancl_refl)
  moreover have "follows\<^sup>*\<^sup>* (Held reporting_guest, no_notes) (Held (scope_drop ?s), no_notes)"
    using ops [THEN follow_operation] by (meson converse_rtranclp_into_rtranclp rtranclp.rtrancl_refl)
  ultimately show thesis by (intro that)
qed

lemmas reported_defs = report_registered_def report_ticked_def report_state_def

lemma registrants_live_witness:
  "\<exists>g :: (unit, unit, unit) guest. queue_registrants g (QueueId 7) = [ContextId 1] \<and>
     guest_context_type g (ContextId 1) = Some Root"
proof -
  obtain g where g: "embeds\<^sup>*\<^sup>* (Held reporting_guest) (Held g)"
    "abi_of g = report_registered\<lparr>current_callback := None, stream_state_of := None\<rparr>" by (rule reporting_path)
  have "queue_registrants g (QueueId 7) = [ContextId 1]"
    by (simp add: queue_registrants_def registrants_def grants_are_current_def grants_seen_def g(2) reported_defs
        arc_ptr_eq_def abi_state_new_def btm_get_def)
  with registrants_live [OF reporting_guest_new g(1), of "ContextId 1" "QueueId 7"] show ?thesis by auto
qed

lemma reports_complete_witness:
  "\<exists>(g :: (unit, unit, unit) guest) c g'. guest_take_changes g = (c, g') \<and>
     guest_tick_period g (ContextId 1) = Some (from_millis 50) \<and>
     known_periods (add_notes c no_notes) (ContextId 1) = Some (from_millis 50) \<and>
     queue_registrants g (QueueId 7) = [ContextId 1] \<and>
     (QueueId 7, ContextId 1) \<in> known_queues (add_notes c no_notes)"
proof -
  obtain g where g: "follows\<^sup>*\<^sup>* (Held reporting_guest, no_notes) (Held g, no_notes)"
    "abi_of g = report_registered\<lparr>current_callback := None, stream_state_of := None\<rparr>" by (rule reporting_path)
  obtain c g' where c: "guest_take_changes g = (c, g')" by fastforce
  have r: "queue_registrants g (QueueId 7) = [ContextId 1]"
    by (simp add: queue_registrants_def registrants_def grants_are_current_def grants_seen_def g(2) reported_defs
        arc_ptr_eq_def abi_state_new_def btm_get_def)
  have t: "guest_tick_period g (ContextId 1) = Some (from_millis 50)" "guest_context_type g (ContextId 1) = Some Root"
    by (simp_all add: guest_tick_period_def guest_context_type_def g(2) reported_defs report_contexts_def sample_root_def
        ctx_tick_period_def ctx_type_def btm_get_def)
  have "\<not> missed no_notes" by (simp add: no_notes_def)
  with reports_complete [OF reporting_guest_new g(1) c] r t
  have "known_periods (add_notes c no_notes) (ContextId 1) = Some (from_millis 50)"
    "(QueueId 7, ContextId 1) \<in> known_queues (add_notes c no_notes)" by fastforce+
  with c r t show ?thesis by blast
qed

lemma stale_changes:
  "guest_take_changes g = (c, g') \<Longrightarrow> \<not> grants_are_current (abi_of g) \<Longrightarrow>
     changed_queues c = [] \<and> abi_of g' = (abi_of g)\<lparr>changes_of := changes_empty\<rparr>"
  by (auto simp: take_changes_eq)

text \<open>
  The registration that is lost: an embedder that replaces the shared services, reads the changes
  and puts the first services back before any code of the guest runs is never told of the
  registration, although \<open>queue_registrants\<close> names the root again.
\<close>

lemma registration_lost:
  "\<exists>(g :: (unit, unit, unit) guest) other. fst (guest_take_changes g) \<noteq> changes_empty \<and>
     (let g1 = services_mut (with_shared_services other) g;
          (c, g2) = guest_take_changes g1;
          g3 = services_mut (with_shared_services (vs_shared (services_of (abi_of g)))) g2
      in changed_queues c = [] \<and> queue_registrants g3 (QueueId 7) = [ContextId 1] \<and>
         fst (guest_take_changes g3) = changes_empty)"
proof -
  obtain g where "embeds\<^sup>*\<^sup>* (Held reporting_guest) (Held g)"
    and g: "abi_of g = report_registered\<lparr>current_callback := None, stream_state_of := None\<rparr>" by (rule reporting_path)
  let ?other = "(2, snd (vs_shared one_queue))"
  have a: "services_of (abi_of g) = one_queue" "granted_against (abi_of g) = Some (vs_shared one_queue)"
    "btm_get (registrants_of (abi_of g)) (QueueId 7) = Some [(ContextId 1, ())]"
    "tick_periods (changes_of (abi_of g)) \<noteq> []"
    by (simp_all add: g reported_defs abi_state_new_def btm_get_def)
  have ids: "fst (vs_shared one_queue) = 1" by (simp add: one_queue_def)
  let ?g1 = "services_mut (with_shared_services ?other) g"
  have g1: "\<not> grants_are_current (abi_of ?g1)"
    by (simp add: services_mut_def with_shared_services_def grants_are_current_def grants_seen_def arc_ptr_eq_def a ids)
  obtain c g2 where c: "guest_take_changes ?g1 = (c, g2)" by fastforce
  have c2: "changed_queues c = []" "abi_of g2 = (abi_of ?g1)\<lparr>changes_of := changes_empty\<rparr>"
    using stale_changes [OF c g1] by blast+
  let ?g3 = "services_mut (with_shared_services (vs_shared one_queue)) g2"
  have g3: "queue_registrants ?g3 (QueueId 7) = [ContextId 1]" "fst (guest_take_changes ?g3) = changes_empty"
    by (simp_all add: queue_registrants_def registrants_def grants_are_current_def grants_seen_def arc_ptr_eq_def
        take_changes_eq services_mut_def with_shared_services_def c2 a)
  have "tick_periods (fst (guest_take_changes g)) \<noteq> []" using a(4) by (simp add: take_changes_eq)
  then have "fst (guest_take_changes g) \<noteq> changes_empty" by (auto simp: changes_empty_def)
  with c c2(1) g3 show ?thesis
    by (intro exI [of _ g] exI [of _ ?other]) (simp only: Let_def a prod.case simp_thms)
qed

end
