(* ===== verification/Fleet.thy ===== *)
theory Fleet
  imports Samples
begin

text \<open>
  All the guests of one specification (\<open>guest_spec.rs\<close>, \<open>guest/counting.rs\<close>): the
  embedder builds guests from it, operates them in any order, and drops them; the specification
  counts what it built and, as guests are dropped, how many of them were poisoned.
\<close>

section \<open>What an operation leaves of a guest\<close>

definition made_of :: "('e, 'v, 'g) guest \<Rightarrow> guest_id \<times> abi_version \<times> bool \<times> 'g callbacks" where
  "made_of g = (g_id g, g_abi g, g_counted g, g_callbacks g)"

lemma made_of_changes [simp]:
  "made_of (set_store f g) = made_of g" "made_of (change_abi h g) = made_of g"
  "made_of (change_contexts t g) = made_of g" "made_of (change_callouts t' g) = made_of g"
  "made_of (g\<lparr>detached := d\<rparr>) = made_of g" "made_of (g\<lparr>g_instance := i\<rparr>) = made_of g"
  by (simp_all add: made_of_def set_store_def change_abi_def change_contexts_def change_callouts_def)

abbreviation stays :: "(('e, 'v, 'g) guest, 'f, 'a) act \<Rightarrow> bool" where
  "stays m \<equiv> leaves made_of m"

lemma stays_changes [leaves_intros]:
  "stays (amod (change_contexts t))" "stays (amod (change_abi h))" "stays (amod (record_stream_kind c k))"
  "stays (amod mark_vm_started)"
  by (rule leaves_amod; simp add: record_stream_kind_def mark_vm_started_def)+

lemma stays_live [leaves_intros]: "stays require_live"
  by (rule leavesI) (simp add: require_live_def Let_def)

lemma made_of_callback: "made_of (snd (call_callback cb params answer g)) = made_of g"
  by (auto simp: call_callback_def split: option.split prod.split)

lemma stays_run [leaves_intros]: "stays (run ctx cb params answer)"
  by (rule leavesI) (simp add: run_def Let_def case_prod_beta made_of_callback)

lemma stays_create [leaves_intros]: "stays (create_context parent)"
  by (rule leavesI) (simp add: create_context_def split: prod.split)

lemma stays_deliver [leaves_intros]: "stays (deliver call)"
proof (rule leavesI)
  fix g
  obtain r h where run: "run (dc_context call) (dc_callback call) (dc_params call) 0 (lend call g) = (r, h)"
    by fastforce
  have "made_of h = made_of (lend call g)" using leavesD [OF stays_run] run by (metis snd_conv)
  also have "\<dots> = made_of g" by (simp add: lend_def split: option.split)
  finally have "made_of h = made_of g" .
  then show "made_of (snd (deliver call g)) = made_of g"
    unfolding deliver_eq run prod.case snd_conv Let_def by (cases "taken call g") auto
qed

lemma stays_callbacks [leaves_intros]:
  "stays (context_create parent)" "stays (vm_start root)" "stays (configure root plugin)"
  "stays (deliver_http_response root callout response)" "stays (deliver_grpc_close root callout st)"
  unfolding context_create_def vm_start_def configure_def deliver_http_response_def deliver_grpc_close_def Let_def
  by (intro leaves_intros)+

lemma stays_deliveries [leaves_intros]:
  "stays (receive_http_call_response ctx callout response)" "stays (tick root)" "stays (queue_ready root queue)"
  "stays (grpc_receive_initial_metadata ctx callout metadata)" "stays (grpc_receive ctx callout message)"
  "stays (grpc_receive_trailing_metadata ctx callout metadata)" "stays (grpc_close ctx callout st)"
  "stays (foreign_function ctx function_id arguments)" "stays (expect_stream_kind ctx kind)"
  unfolding receive_http_call_response_def tick_def queue_ready_def grpc_receive_initial_metadata_def
    grpc_receive_def grpc_receive_trailing_metadata_def grpc_close_def foreign_function_def expect_stream_kind_def
  by (intro leaves_intros)+

lemma stays_drop [leaves_intros]: "stays (drop_open_callouts c)"
  by (rule leavesI) (simp add: drop_open_callouts_def Let_def)

lemma stays_fail_each [leaves_intros]: "stays (fail_each root xs)"
  by (induction root xs rule: fail_each.induct) (auto intro!: leaves_intros split: callout_kind.split)

lemma stays_delete [leaves_intros]: "stays (delete_context ctx)" "stays (delete_marked ctx)"
proof -
  show "stays (delete_context ctx)"
    unfolding delete_context_def fail_open_callouts_def by (intro leaves_intros)
  note d = leavesD [OF this]
  show "stays (delete_marked ctx)"
    by (rule leavesI) (simp add: delete_marked_def case_prod_beta mark_deleting_def d)
qed

abbreviation scope_stays :: "(('e, 'v, 'g) scope, 'f, 'a) act \<Rightarrow> bool" where
  "scope_stays m \<equiv> leaves (\<lambda>s. made_of (sc_guest s)) m"

lemma scope_stays_on_guest [leaves_intros]: "stays m \<Longrightarrow> scope_stays (on_guest m)"
  by (auto simp: leaves_def on_guest_def split: prod.split) (metis snd_conv)

lemma scope_stays_served [leaves_intros]: "scope_stays (require_served ctx)" "scope_stays (require_served_stream ctx)"
  by (auto simp: leaves_def require_served_def require_served_stream_def split: option.splits)

lemma stays_announced_run [leaves_intros]: "stays (announced_run ctx cb n params)"
  by (rule leavesI) (simp add: announced_run_def amap_err_def case_prod_beta Let_def leavesD [OF stays_run])

lemma scope_stays_stream [leaves_intros]:
  "scope_stays (stream_checks ctx kind)" "scope_stays (stream_action ctx kind cb n params)"
  "scope_stays (stream_event ctx cb params)"
  unfolding stream_action_def stream_event_def stream_checks_def by (intro leaves_intros)+

lemma scope_stays_perform: "scope_stays (perform c)"
  by (cases c)
    (simp_all only: perform.simps unit_result_def on_context_create_def on_vm_start_def on_configure_def
      on_request_headers_def on_request_body_def on_request_trailers_def on_response_headers_def
      on_response_body_def on_response_trailers_def on_new_connection_def on_downstream_data_def
      on_upstream_data_def on_downstream_connection_close_def on_upstream_connection_close_def
      on_http_call_response_def on_tick_def on_queue_ready_def on_grpc_receive_initial_metadata_def
      on_grpc_receive_def on_grpc_receive_trailing_metadata_def on_grpc_close_def on_foreign_function_def
      on_done_def on_log_def on_delete_def scope_expect_stream_kind_def Let_def,
      (intro leaves_intros)+)

lemma made_of_drop [simp]: "made_of (scope_drop s) = made_of (sc_guest s)"
  by (auto simp: scope_drop_def take_held_eq detach_def Let_def split: option.split)

lemma made_of_finish: "finish ty s = (stream, g) \<Longrightarrow> made_of g = made_of (sc_guest s)"
  by (auto simp: finish_def take_held_eq poison_if_running_def Let_def split: if_splits)

lemma made_of_enter [simp]: "made_of (sc_guest (enter stream g)) = made_of g"
  by (simp add: enter_def scope_new_def discard_detached_def)

lemma made_of_start: "made_of (snd (start plugin g)) = made_of g"
proof (cases "root_with_id (contexts_of (abi_of g)) (plugin_root_id plugin)")
  case None
  have create: "scope_stays (on_context_create None)"
    unfolding on_context_create_def by (intro leaves_intros)
  have run: "scope_stays (start_run root plugin)" for root
    unfolding start_run_def on_vm_start_def on_configure_def by (intro leaves_intros)
  obtain r s where c: "on_context_create None (enter_root g) = (r, s)" by fastforce
  have "made_of (sc_guest (enter_root g)) = made_of g" by (simp add: enter_root_def)
  with leavesD [OF create, of "enter_root g"] have s: "made_of (sc_guest s) = made_of g" by (simp add: c)
  show ?thesis
  proof (cases r)
    case (Inr root)
    obtain a s' where a: "start_run root plugin s = (a, s')" by fastforce
    have "made_of (sc_guest s') = made_of g" using leavesD [OF run, of root s] s by (simp add: a)
    with None c Inr a show ?thesis by (auto simp: start_def split: sum.split prod.split)
  qed (use None c s in \<open>simp add: start_def\<close>)
qed (simp add: start_def)

lemma operates_made: "operates h h' \<Longrightarrow> made_of (held_guest h') = made_of (held_guest h)"
proof (induction rule: operates.induct)
  case (callback s c)
  then show ?case using leavesD [OF scope_stays_perform] by simp
next
  case (declare_kind g ctx kind)
  then show ?case using leavesD [OF stays_deliveries(9)] by simp
next
  case (finish_scope ty s stream g)
  then show ?case by (simp add: made_of_finish)
next
  case (change_services g f)
  then show ?case by (simp add: services_mut_def)
next
  case (take_back ty g stream g')
  then show ?case by (auto simp: take_stream_def split: option.splits if_splits)
next
  case (take_any g stream g')
  then show ?case by (auto simp: take_stream_any_def)
qed (simp_all add: made_of_start)

lemma embeds_made: "embeds h h' \<Longrightarrow> made_of (held_guest h') = made_of (held_guest h)"
proof (induction rule: embeds.induct)
  case (read_changes g c g')
  then show ?case by (auto simp: guest_take_changes_def split: prod.splits)
qed (rule operates_made)

section \<open>A poisoned guest stays poisoned\<close>

abbreviation held_poisoned :: "('e, 'v, 'g) holder \<Rightarrow> bool" where
  "held_poisoned h \<equiv> guest_is_poisoned (held_guest h)"

lemma poisoned_drop: "guest_is_poisoned (sc_guest s) \<Longrightarrow> guest_is_poisoned (scope_drop s)"
  by (auto simp: scope_drop_def take_held_eq detach_def Let_def guest_is_poisoned_store split: option.split)

lemma poisoned_finish:
  "finish ty s = (stream, g) \<Longrightarrow> guest_is_poisoned (sc_guest s) \<Longrightarrow> guest_is_poisoned g"
  by (auto simp: finish_def take_held_eq poison_if_running_def Let_def guest_is_poisoned_store
      intro!: poisoned_drop [unfolded guest_is_poisoned_store])

lemma poisoned_start:
  assumes "guest_is_poisoned g"
  shows "guest_is_poisoned (snd (start plugin g))"
proof (cases "root_with_id (contexts_of (abi_of g)) (plugin_root_id plugin)")
  case None
  have e: "guest_is_poisoned (sc_guest (enter_root g))"
    using assms by (simp add: enter_root_def enter_def scope_new_def discard_detached_def guest_is_poisoned_store)
  have "on_context_create None (enter_root g) = (Inl (Runtime Poisoned), enter_root g)"
    unfolding on_context_create_def context_create_def
    by (rule on_guest_same) (simp add: abind_def live_poisoned [OF e])
  with None poisoned_drop [OF e] show ?thesis by (simp add: start_def)
qed (use assms in \<open>simp add: start_def\<close>)

lemma operates_poisoned: "operates h h' \<Longrightarrow> held_poisoned h \<Longrightarrow> held_poisoned h'"
proof (induction rule: operates.induct)
  case (enter_scope g stream)
  then show ?case by (simp add: enter_def scope_new_def discard_detached_def guest_is_poisoned_store)
next
  case (callback s c)
  then show ?case using perform_poisoned [of s c] by auto
next
  case (declare_kind g ctx kind)
  then show ?case by (simp add: expect_stream_kind_def abind_def live_poisoned)
next
  case (change_services g f)
  then show ?case by (simp add: services_mut_def)
next
  case (take_back ty g stream g')
  then show ?case by (auto simp: take_stream_def guest_is_poisoned_store split: option.splits if_splits)
next
  case (take_any g stream g')
  then show ?case by (auto simp: take_stream_any_def guest_is_poisoned_store)
next
  case (outside g env)
  then show ?case by (simp add: guest_is_poisoned_store)
qed (auto intro: poisoned_finish poisoned_drop poisoned_start)

lemma embeds_poisoned: "embeds h h' \<Longrightarrow> held_poisoned h \<Longrightarrow> held_poisoned h'"
proof (induction rule: embeds.induct)
  case (read_changes g c g')
  then show ?case by (auto simp: guest_take_changes_def split: prod.splits)
qed (rule operates_poisoned)

section \<open>The guests of a specification\<close>

text \<open>
  The state is the specification, the guests alive, each with the fact whether it was ever
  poisoned, and how many guests were built and how many of those dropped were ever poisoned. A
  guest is dropped when no scope borrows it.
\<close>

record ('e, 'v, 'g) fleet =
  fl_spec :: "('e, 'g) guest_spec"
  fl_guests :: "(('e, 'v, 'g) holder \<times> bool) list"
  fl_built :: nat
  fl_lost :: nat

definition fleet_new :: "('e, 'g) guest_spec \<Rightarrow> ('e, 'v, 'g) fleet" where
  "fleet_new spec = \<lparr>fl_spec = spec, fl_guests = [], fl_built = 0, fl_lost = 0\<rparr>"

inductive fleet_moves :: "('e, 'v, 'g) fleet \<Rightarrow> ('e, 'v, 'g) fleet \<Rightarrow> bool" where
  built: "spec_build fill gid env (fl_spec f) = ((Inr g, env'), spec) \<Longrightarrow>
    fleet_moves f (f\<lparr>fl_spec := spec, fl_guests := fl_guests f @ [(Held g, guest_is_poisoned g)],
      fl_built := Suc (fl_built f)\<rparr>)"
| not_built: "spec_build fill gid env (fl_spec f) = ((Inl e :: guest_error + ('e, 'v, 'g) guest, env'), spec) \<Longrightarrow>
    fleet_moves f (f\<lparr>fl_spec := spec\<rparr>)"
| operated: "fl_guests f = before @ (h, ever) # after \<Longrightarrow> embeds h h' \<Longrightarrow>
    fleet_moves f (f\<lparr>fl_guests := before @ (h', ever \<or> held_poisoned h') # after\<rparr>)"
| dropped: "fl_guests f = before @ (Held g, ever) # after \<Longrightarrow>
    fleet_moves f (f\<lparr>fl_spec := (fl_spec f)\<lparr>spec_counters := guest_drop g (spec_counters (fl_spec f))\<rparr>,
      fl_guests := before @ after, fl_lost := fl_lost f + of_bool ever\<rparr>)"
| respecified: "fleet_moves f (f\<lparr>fl_spec := (fl_spec f)\<lparr>spec_services := svc\<rparr>\<rparr>)"

definition counted :: "nat \<Rightarrow> u64" where
  "counted n = of_nat (min n (2 ^ 64 - 1))"

lemma counted_0 [simp]: "counted 0 = 0"
  by (simp add: counted_def)

lemma raise_counted: "raise (counted n) = counted (Suc n)"
proof (cases "n < 2 ^ 64 - 1")
  case True
  then have "unat (counted n) = n" by (simp add: counted_def unat_of_nat)
  moreover have "unat (- 1 :: u64) = 2 ^ 64 - 1" by (simp add: unsigned_minus_1_eq_mask mask_eq_exp_minus_1)
  ultimately have "counted n \<noteq> - 1" using True by auto
  with True show ?thesis by (simp add: raise_def counted_def)
next
  case False
  then have "counted n = - 1" "counted (Suc n) = - 1" by (simp_all add: counted_def min_def)
  then show ?thesis by (simp add: raise_def)
qed

definition fleet_ok :: "('e, 'v, 'g) fleet \<Rightarrow> bool" where
  "fleet_ok f \<longleftrightarrow>
     builds (spec_counters (fl_spec f)) = counted (fl_built f) \<and>
     poisoned_guests (spec_counters (fl_spec f)) = counted (fl_lost f) \<and>
     fl_lost f + length (fl_guests f) \<le> fl_built f \<and>
     (\<forall>(h, ever) \<in> set (fl_guests f).
        holder_ok h \<and> g_counted (held_guest h) \<and> ever = held_poisoned h)"

lemma spec_build_Inr:
  assumes "spec_build fill gid env spec = ((Inr g, env'), spec')"
  obtains g0 where "guest_new (spec_host spec) fill (spec_module spec) (spec_services spec) (spec_limits spec) gid env =
      (Inr g0, env')" "g = count_on g0" "spec' = spec\<lparr>spec_counters := record_build (spec_counters spec)\<rparr>"
  using assms by (auto simp: spec_build_def split: prod.splits sum.splits)

lemma guest_ok_count_on: "guest_ok k g \<Longrightarrow> guest_ok k (count_on g)"
  by (simp add: guest_ok_def guest_wf_def tables_ok_def idle_but_def count_on_def stream_ops_of_def g_store_def
      guest_is_poisoned_store)

lemma fleet_moves_ok:
  assumes "fleet_moves f f'" and "fleet_ok f"
  shows "fleet_ok f'"
  using assms
proof (induction rule: fleet_moves.induct)
  case (built fill gid env f g env' spec)
  from built(1) obtain g0 where g0: "guest_new (spec_host (fl_spec f)) fill (spec_module (fl_spec f))
      (spec_services (fl_spec f)) (spec_limits (fl_spec f)) gid env = (Inr g0, env')" "g = count_on g0"
    and spec: "spec = (fl_spec f)\<lparr>spec_counters := record_build (spec_counters (fl_spec f))\<rparr>"
    by (rule spec_build_Inr)
  have "guest_ok None g" using guest_new_ok [OF g0(1)] by (simp add: g0(2) guest_ok_count_on)
  moreover have "g_counted g" by (simp add: g0(2) count_on_def)
  ultimately show ?case
    using built(2) by (auto simp: fleet_ok_def spec record_build_def raise_counted holder_ok_def)
next
  case (not_built fill gid env f e env' spec)
  then have "spec = fl_spec f" by (auto simp: spec_build_def split: prod.splits sum.splits)
  with not_built(2) show ?case by (simp add: fleet_ok_def)
next
  case (operated f before h ever after h')
  then have h: "holder_ok h" "g_counted (held_guest h)" "ever = held_poisoned h" by (auto simp: fleet_ok_def)
  have "holder_ok h'" by (rule embeds_ok [OF operated(2) h(1)])
  moreover have "g_counted (held_guest h')"
    using embeds_made [OF operated(2)] h(2) by (simp add: made_of_def)
  moreover have "ever \<longrightarrow> held_poisoned h'" using embeds_poisoned [OF operated(2)] h(3) by simp
  ultimately show ?case using operated(1,3) by (auto simp: fleet_ok_def)
next
  case (dropped f before g ever after)
  then have g: "g_counted g" "ever = guest_is_poisoned g" by (auto simp: fleet_ok_def)
  then have "poisoned_guests (guest_drop g (spec_counters (fl_spec f))) = counted (fl_lost f + of_bool ever)"
    "builds (guest_drop g (spec_counters (fl_spec f))) = counted (fl_built f)"
    using dropped(2) by (auto simp: fleet_ok_def guest_drop_def record_poison_def raise_counted)
  with dropped show ?case by (auto simp: fleet_ok_def)
next
  case (respecified f svc)
  then show ?case by (simp add: fleet_ok_def)
qed

lemma fleet_star_ok: "fleet_moves\<^sup>*\<^sup>* f f' \<Longrightarrow> fleet_ok f \<Longrightarrow> fleet_ok f'"
  by (induction rule: rtranclp_induct) (auto intro: fleet_moves_ok)

text \<open>
  C23. The counters of a specification are exact: over any builds, operations and drops of its
  guests, in any interleaving and with any code of the guests, \<open>builds\<close> is the number of
  guests built and \<open>poisoned_guests\<close> the number of guests dropped that were poisoned at any
  moment of their life (both saturating at the largest 64-bit number), a guest that was poisoned
  once is poisoned when it is dropped, and the guests alive and the lost ones are no more than
  the built ones.
\<close>

theorem fleet_counts:
  fixes f :: "('e, 'v, 'g) fleet"
  assumes "guest_spec_new hst m svc lim = Inr spec" and "fleet_moves\<^sup>*\<^sup>* (fleet_new spec) f"
  shows "unat (builds (spec_counters (fl_spec f))) = min (fl_built f) (2 ^ 64 - 1) \<and>
    unat (poisoned_guests (spec_counters (fl_spec f))) = min (fl_lost f) (2 ^ 64 - 1) \<and>
    fl_lost f + length (fl_guests f) \<le> fl_built f \<and>
    (\<forall>(h, ever) \<in> set (fl_guests f). ever = held_poisoned h)"
proof -
  have "fleet_ok (fleet_new spec :: ('e, 'v, 'g) fleet)"
    using assms(1) by (auto simp: fleet_ok_def fleet_new_def guest_spec_new_def split: sum.splits if_splits)
  with assms(2) have "fleet_ok f" by (rule fleet_star_ok)
  then show ?thesis by (auto simp: fleet_ok_def counted_def unat_of_nat)
qed

text \<open>A specification whose guest traps when its first context is created.\<close>

definition trapping_guest :: "(unit, unit, unit) guest" where
  "trapping_guest = count_on (acting_guest (\<lambda>_. TrapWith StackOverflow None) sample_services)"

definition trapping_spec :: "(unit, unit) guest_spec" where
  "trapping_spec = \<lparr>spec_host = sample_host, spec_module = acting_module (\<lambda>_. TrapWith StackOverflow None),
     spec_services = sample_services, spec_limits = limits_default,
     spec_counters = \<lparr>builds = 0, poisoned_guests = 0\<rparr>\<rparr>"

lemma trapping_spec_new:
  "guest_spec_new sample_host (acting_module (\<lambda>_. TrapWith StackOverflow None)) sample_services limits_default =
     Inr trapping_spec"
proof -
  let ?m = "acting_module (\<lambda>_. TrapWith StackOverflow None)"
  have "detect_version (abi_exports ?m) \<noteq> Inl e" for e
    using acting_guest_new [of "\<lambda>_. TrapWith StackOverflow None" sample_services]
    by (auto simp: guest_new_def)
  moreover have "module_engine ?m = engine_id (host_engine sample_host)"
    by (simp add: acting_module_def sample_module_def sample_host_def sample_engine_def)
  ultimately show ?thesis
    by (auto simp: guest_spec_new_def trapping_spec_def split: sum.split)
qed

lemma trap_call: "is_poisoned (snd (call_typed (\<lambda>_. TrapWith t b) ps i))"
  by (cases "st_poisoned (in_store i)")
    (simp_all add: call_typed_def call_on_def is_poisoned_def fail_def afail_def case_prod_beta Let_def)

lemma trapping_run:
  assumes "callbacks_get (g_callbacks g) OnContextCreate = Some (\<lambda>_. TrapWith t b)"
  shows "guest_is_poisoned (snd (run ctx OnContextCreate ps 0 g))"
proof -
  have "g_callbacks (change_abi f (change_contexts h g)) = g_callbacks g" for f h
    by (simp add: change_abi_def change_contexts_def set_store_def)
  with assms have "guest_is_poisoned (snd (call_callback OnContextCreate ps 0 (change_abi f (change_contexts h g))))" for f h
    by (simp add: call_callback_def case_prod_beta) (simp add: guest_is_poisoned_def trap_call)
  then show ?thesis by (simp add: run_def Let_def case_prod_beta)
qed

lemma trapping_created:
  "guest_is_poisoned (sc_guest (snd (perform (DoContextCreate None) (enter_root trapping_guest))))"
proof -
  let ?g = "sc_guest (enter_root trapping_guest)"
  have store: "g_store ?g = set_abi (\<lambda>a. a\<lparr>stream_state_of := Some no_stream\<rparr>) (acting_store sample_services)"
    by (simp add: enter_root_def enter_def scope_new_def discard_detached_def trapping_guest_def count_on_def)
      (simp add: change_abi_def set_store_def g_store_def acting_guest_def)
  have live: "require_live ?g = (Inr (), ?g)"
    by (simp add: require_live_def Let_def store abi_state_new_def) (simp add: guest_is_poisoned_store store)
  obtain t where created: "create_context None ?g = (Inr (ContextId 1), change_contexts (\<lambda>_. t) ?g)"
    by (simp add: create_context_def store ctx_create_def context_table_new_def abi_state_new_def u32_checked_add_def Let_def)
  have "callbacks_get (g_callbacks (change_contexts (\<lambda>_. t) ?g)) OnContextCreate = Some (\<lambda>_. TrapWith StackOverflow None)"
    by (simp add: enter_root_def enter_def scope_new_def discard_detached_def trapping_guest_def count_on_def
        change_contexts_def change_abi_def set_store_def acting_guest_def callbacks_get_def)
  note poisoned = trapping_run [OF this]
  have "guest_is_poisoned (snd (context_create None ?g))"
    using live created poisoned [of "ContextId 1" "[1, 0]"]
    by (cases "run (ContextId 1) OnContextCreate [1, 0] 0 (change_contexts (\<lambda>_. t) ?g)"; cases "fst (run (ContextId 1) OnContextCreate [1, 0] 0 (change_contexts (\<lambda>_. t) ?g))")
      (auto simp: context_create_def abind_def act_simps amap_err_def vm_accepted_def store abi_state_new_def
        context_table_new_def context_wire_def)
  then show ?thesis
    by (auto simp: on_context_create_def on_guest_def unit_result_def abind_def aret_def split: prod.split sum.split)
qed

lemma fleet_counts_witness:
  "\<exists>f :: (unit, unit, unit) fleet. fleet_moves\<^sup>*\<^sup>* (fleet_new trapping_spec) f \<and>
     unat (builds (spec_counters (fl_spec f))) = 1 \<and> unat (poisoned_guests (spec_counters (fl_spec f))) = 1"
proof -
  let ?f0 = "fleet_new trapping_spec :: (unit, unit, unit) fleet"
  let ?g = trapping_guest and ?s0 = "enter_root trapping_guest"
  let ?s1 = "snd (perform (DoContextCreate None) (enter_root trapping_guest))"
  let ?spec = "trapping_spec\<lparr>spec_counters := record_build (spec_counters trapping_spec)\<rparr>"
  have build: "spec_build (\<lambda>n e. ((True, replicate n 0), e)) (GuestId 1) () (fl_spec ?f0) = ((Inr ?g, ()), ?spec)"
    by (simp add: fleet_new_def spec_build_def trapping_spec_def acting_guest_new trapping_guest_def)
  have alive: "\<not> guest_is_poisoned ?g"
    by (simp add: trapping_guest_def count_on_def guest_is_poisoned_def is_poisoned_def acting_guest_def)
  have entered: "guest_is_poisoned (sc_guest ?s0) = False"
    using alive by (simp add: enter_root_def enter_def scope_new_def discard_detached_def guest_is_poisoned_store)
  have lost: "guest_is_poisoned (scope_drop ?s1)" by (rule poisoned_drop [OF trapping_created])
  define f :: "(unit, unit, unit) holder \<Rightarrow> bool \<Rightarrow> (unit, unit, unit) fleet"
    where "f h ever = \<lparr>fl_spec = ?spec, fl_guests = [(h, ever)], fl_built = 1, fl_lost = 0\<rparr>" for h ever
  have step: "fleet_moves (f h ever) (f h' (ever \<or> held_poisoned h'))" if "embeds h h'" for h h' ever
    using operated [of "f h ever" "[]" h ever "[]" h'] that by (simp add: f_def)
  have "fleet_moves ?f0 (f (Held ?g) False)"
    using fleet_moves.built [OF build] alive
    by (simp add: f_def fleet_new_def)
  moreover have "fleet_moves (f (Held ?g) False) (f (Scoped ?s0) False)"
    using step [of "Held ?g" "Scoped ?s0" False] entered by (simp add: enter_root_def operate enter_scope)
  moreover have "fleet_moves (f (Scoped ?s0) False) (f (Scoped ?s1) True)"
    using step [OF operate [OF callback [of ?s0 "DoContextCreate None"]], of False] trapping_created by simp
  moreover have "fleet_moves (f (Scoped ?s1) True) (f (Held (scope_drop ?s1)) True)"
    using step [OF operate [OF drop_scope], of ?s1 True] by simp
  moreover obtain f' where "fleet_moves (f (Held (scope_drop ?s1)) True) f'" and f': "fl_built f' = 1" "fl_lost f' = 1"
    using dropped [of "f (Held (scope_drop ?s1)) True" "[]" "scope_drop ?s1" True "[]"]
    by (simp add: f_def fleet_new_def)
  ultimately have path: "fleet_moves\<^sup>*\<^sup>* ?f0 f'" by (meson converse_rtranclp_into_rtranclp rtranclp.rtrancl_refl)
  from fleet_counts [OF trapping_spec_new this] f' path show ?thesis by auto
qed

end
