(* ===== verification/Host_Properties.thy ===== *)
theory Host_Properties
  imports Embedder
begin

text \<open>
  What single host functions promise the guest and the embedder: the grants that gate queues and
  metrics, the opening of a callout, the return of a value through the guest's allocator, and the
  resources the crate answers itself.
\<close>

section \<open>Grants\<close>

lemma holds_settled [simp]:
  "holds_queue (settle_grants (vs_shared (services_of a)) a) q = holds_queue (abi_settle a) q"
  "holds_metric (settle_grants (vs_shared (services_of a)) a) m = holds_metric (abi_settle a) m"
  by (simp_all add: abi_settle_def)

lemma require_queue_refused:
  "\<not> holds_queue (abi_settle (st_abi w)) q \<Longrightarrow>
   require_queue q w = (Inl (FStatus NotFound), set_abi abi_settle w)"
  by (simp add: require_queue_def settle_def on_abi_def abind_def act_simps set_abi_def)

lemma require_metric_refused:
  "\<not> holds_metric (abi_settle (st_abi w)) m \<Longrightarrow>
   require_metric m w = (Inl (FStatus NotFound), set_abi abi_settle w)"
  by (simp add: require_metric_def settle_def on_abi_def abind_def act_simps set_abi_def)

lemma set_abi_fields [simp]:
  "st_env (set_abi f w) = st_env w" "st_memory (set_abi f w) = st_memory w"
  by (simp_all add: set_abi_def)

text \<open>
  C21. The shared services are reached only through what was granted. While a queue is not granted
  against the services the guest has now, enqueueing to it and dequeueing from it fail without a
  call of the embedder and without a write to the memory, and so do the three metric functions for
  a metric that is not granted; and a guest whose services were replaced holds no grant at all,
  whatever the earlier services granted it.
\<close>

theorem ungranted_refused:
  "(queue_id_try_from q = Inr queue \<longrightarrow> \<not> holds_queue (abi_settle (st_abi w)) queue \<longrightarrow>
     (case proxy_enqueue_shared_queue q a b w of (r, w') \<Rightarrow>
        r \<noteq> Inr () \<and> st_env w' = st_env w \<and> st_memory w' = st_memory w) \<and>
     (case proxy_dequeue_shared_queue alloc q a b w of (r, w') \<Rightarrow>
        r \<noteq> Inr () \<and> st_env w' = st_env w \<and> st_memory w' = st_memory w)) \<and>
   (metric_id_try_from m = Inr metric \<longrightarrow> \<not> holds_metric (abi_settle (st_abi w)) metric \<longrightarrow>
     (case proxy_record_metric m v w of (r, w') \<Rightarrow>
        r \<noteq> Inr () \<and> st_env w' = st_env w \<and> st_memory w' = st_memory w) \<and>
     (case proxy_increment_metric m v w of (r, w') \<Rightarrow>
        r \<noteq> Inr () \<and> st_env w' = st_env w \<and> st_memory w' = st_memory w) \<and>
     (case proxy_get_metric m a w of (r, w') \<Rightarrow>
        r \<noteq> Inr () \<and> st_env w' = st_env w \<and> st_memory w' = st_memory w)) \<and>
   (\<not> grants_seen (st_abi w) (vs_shared (services w)) \<longrightarrow>
     \<not> holds_queue (abi_settle (st_abi w)) queue \<and> \<not> holds_metric (abi_settle (st_abi w)) metric)"
proof -
  have q: "(case proxy_enqueue_shared_queue q a b w of (r, w') \<Rightarrow>
        r \<noteq> Inr () \<and> st_env w' = st_env w \<and> st_memory w' = st_memory w)"
    "(case proxy_dequeue_shared_queue alloc q a b w of (r, w') \<Rightarrow>
        r \<noteq> Inr () \<and> st_env w' = st_env w \<and> st_memory w' = st_memory w)"
    if "queue_id_try_from q = Inr queue" "\<not> holds_queue (abi_settle (st_abi w)) queue"
  proof -
    have "queue_arg q v = (Inr queue, v)" for v :: "('a, 'b, 'c) store"
      by (simp only: queue_arg_def that(1) act_simps) simp
    with that(2) require_queue_refused [OF that(2)]
    show "(case proxy_enqueue_shared_queue q a b w of (r, w') \<Rightarrow>
        r \<noteq> Inr () \<and> st_env w' = st_env w \<and> st_memory w' = st_memory w)"
      "(case proxy_dequeue_shared_queue alloc q a b w of (r, w') \<Rightarrow>
        r \<noteq> Inr () \<and> st_env w' = st_env w \<and> st_memory w' = st_memory w)"
      by (auto simp: proxy_enqueue_shared_queue_def proxy_dequeue_shared_queue_def arg_slice_def
        read_slice_def check_u32_def amap_err_def split_store_def mem_get_def abind_def act_simps Let_def
        split: sum.splits)
  qed
  have m: "(case proxy_record_metric m v w of (r, w') \<Rightarrow>
        r \<noteq> Inr () \<and> st_env w' = st_env w \<and> st_memory w' = st_memory w)"
    "(case proxy_increment_metric m v w of (r, w') \<Rightarrow>
        r \<noteq> Inr () \<and> st_env w' = st_env w \<and> st_memory w' = st_memory w)"
    "(case proxy_get_metric m a w of (r, w') \<Rightarrow>
        r \<noteq> Inr () \<and> st_env w' = st_env w \<and> st_memory w' = st_memory w)"
    if "metric_id_try_from m = Inr metric" "\<not> holds_metric (abi_settle (st_abi w)) metric"
  proof -
    have "metric_arg m v = (Inr metric, v)" for v :: "('a, 'b, 'c) store"
      by (simp only: metric_arg_def that(1) act_simps) simp
    with that(2) require_metric_refused [OF that(2)]
    show "(case proxy_record_metric m v w of (r, w') \<Rightarrow>
        r \<noteq> Inr () \<and> st_env w' = st_env w \<and> st_memory w' = st_memory w)"
      "(case proxy_increment_metric m v w of (r, w') \<Rightarrow>
        r \<noteq> Inr () \<and> st_env w' = st_env w \<and> st_memory w' = st_memory w)"
      "(case proxy_get_metric m a w of (r, w') \<Rightarrow>
        r \<noteq> Inr () \<and> st_env w' = st_env w \<and> st_memory w' = st_memory w)"
      by (auto simp: proxy_record_metric_def proxy_increment_metric_def proxy_get_metric_def
        amap_err_def split_store_def mem_get_def abind_def act_simps Let_def
        split: sum.splits)
  qed
  show ?thesis
    using q m by (auto simp: abi_settle_def settle_grants_def holds_queue_def holds_metric_def bts_contains_def)
qed

lemma ungranted_refused_witness:
  "fst (proxy_dequeue_shared_queue (\<lambda>_ w. (Inr 0, w)) 7 0 4 sample_store) \<noteq> Inr () \<and>
   st_env (snd (proxy_dequeue_shared_queue (\<lambda>_ w. (Inr 0, w)) 7 0 4 sample_store)) = st_env sample_store"
proof -
  have "queue_id_try_from 7 = Inr (QueueId 7)" by (simp add: queue_id_try_from_def)
  moreover have "\<not> holds_queue (abi_settle (st_abi sample_store)) (QueueId 7)"
    by (simp add: sample_defs abi_settle_def settle_grants_def holds_queue_def bts_contains_def)
  ultimately show ?thesis
    using ungranted_refused [of 7 "QueueId 7" sample_store 0 4 "\<lambda>_ w. (Inr 0, w)" 0]
    by (cases "proxy_dequeue_shared_queue (\<lambda>_ w. (Inr 0, w)) 7 0 4 sample_store") simp
qed

section \<open>Opening a callout\<close>

text \<open>
  C22. A callout opens only for a live caller: a host function that opens one answers an identifier
  only when the effective context is known, accepted and not being deleted and the guest is below
  its limit; the identifier is not zero and not open, and exactly its entry, with the caller and
  its root, is new. A refusal, of the crate or of the embedder, opens nothing; at the limit and
  outside a context the embedder is not asked at all.
\<close>

theorem open_callout_spec:
  assumes "callouts_ok (callouts w)" and "st_max_open_callouts w < 2 ^ 32"
  shows "case open_callout kind ask w of
      (Inr cid, w') \<Rightarrow>
        (\<exists>caller root. effective (contexts w) = Some caller \<and> rejection_of (contexts w) caller = None \<and>
           root_of (contexts w) caller = Some root \<and> \<not> is_deleting (st_abi w) caller \<and>
           callout_get cid \<noteq> 0 \<and> callout_lookup (callouts w) cid = None \<and>
           callout_lookup (callouts w') = (callout_lookup (callouts w))(cid \<mapsto> callout_new kind caller root) \<and>
           callout_table_len (callouts w) < st_max_open_callouts w \<and>
           callout_table_len (callouts w') \<le> st_max_open_callouts w \<and> callouts_ok (callouts w'))
    | (Inl e, w') \<Rightarrow>
        (\<exists>s. e = FStatus s) \<and> callout_lookup (callouts w') = callout_lookup (callouts w) \<and>
        (effective (contexts w) = None \<or> st_max_open_callouts w \<le> callout_table_len (callouts w) \<longrightarrow>
           e = FStatus InternalFailure \<and> w' = w)"
proof (cases "fst (context_of InternalFailure w)")
  case (Inl e)
  then have "e = FStatus InternalFailure"
    by (auto simp: context_of_def act_simps split: option.splits if_splits)
  with Inl show ?thesis by (simp add: open_callout_eq)
next
  case (Inr caller)
  then have c: "effective (contexts w) = Some caller" "rejection_of (contexts w) caller = None"
    by (auto simp: context_of_def act_simps split: option.splits if_splits)
  show ?thesis
  proof (cases "root_of (contexts w) caller = None \<or> is_deleting (st_abi w) caller \<or>
      \<not> callout_table_len (callouts w) < st_max_open_callouts w")
    case True
    with Inr c show ?thesis by (auto simp: open_callout_eq split: option.splits)
  next
    case False
    then obtain root where r: "root_of (contexts w) caller = Some root" "\<not> is_deleting (st_abi w) caller"
        "callout_table_len (callouts w) < st_max_open_callouts w"
      by (cases "root_of (contexts w) caller") auto
    then have small: "callout_table_len (callouts w) < 2 ^ 32 - 1" using assms(2) by simp
    obtain cid t where v: "callout_reserve (callouts w) = Some (cid, t)"
      using reserve_returns [OF assms(1) small] by blast
    note ok = reserve_ok [OF assms(1) v small]
    obtain ans env where a: "ask (vs_callouts (services w)) (invocation_of w caller) cid (st_env w) = (ans, env)"
      by fastforce
    have same: "callout_lookup t = callout_lookup (callouts w)" "callout_table_len t = callout_table_len (callouts w)"
      using ok(2) by (simp_all add: callout_lookup_def [abs_def] callout_table_len_def)
    have len: "callout_table_len (callout_enter cid (callout_new kind caller root) t) \<le> st_max_open_callouts w"
      using callout_table_len_steps(3) [of cid "callout_new kind caller root" t] r(3) same(2) by linarith
    show ?thesis
      using Inr c r v a ok same len callouts_ok_enter [OF ok(1,3)]
      by (cases ans) (auto simp: open_callout_eq set_abi_def fun_eq_iff)
  qed
qed

lemma open_callout_spec_witness:
  "fst (open_callout HttpCall (\<lambda>_ _ _ env. (Inr (), env)) sample_store) = Inl (FStatus InternalFailure)"
proof -
  have "callouts_ok (callouts sample_store)" "st_max_open_callouts sample_store < 2 ^ 32"
    "effective (contexts sample_store) = None"
    by (simp_all add: sample_defs callouts_ok_def callout_table_new_def callout_lookup_def btm_get_def context_table_new_def)
  with open_callout_spec [of sample_store HttpCall "\<lambda>_ _ _ env. (Inr (), env)"]
  show ?thesis
    by (cases "open_callout HttpCall (\<lambda>_ _ _ env. (Inr (), env)) sample_store";
        cases "fst (open_callout HttpCall (\<lambda>_ _ _ env. (Inr (), env)) sample_store)") auto
qed

section \<open>Resources the crate answers\<close>

lemma host_map_served:
  "serves_map ty = Some which \<Longrightarrow>
   host_map ty Write w = (Inl (FStatus BadArgument), w) \<and>
   host_map ty Read w = (if Option.bind (delivery_of (st_abi w)) (\<lambda>d. delivery_map d which) = None
     then Inl (FStatus BadArgument) else Inr (DeliveredRef which), w)"
  by (auto simp: host_map_def map_served_def delivered_def delivered_map_of_def abind_def act_simps)

lemma arg_enum_known: "try_from v = Inr x \<Longrightarrow> abind (arg_enum try_from v) k w = k x w"
  by (simp add: arg_enum_def act_simps abind_def)

lemma pure_steps:
  "snd (arg_slice p n w) = w" "snd (read_slice s w) = w" "snd (from_error split_store w) = w"
  "snd (guest_pairs bs w) = w" "snd (within_name_bytes name st w) = w" "snd (check_u32 p w) = w"
  by (simp_all add: arg_slice_def read_slice_def guest_pairs_def amap_err_def split_store_def mem_get_def act_simps
      within_name_bytes_def check_u32_def abind_def split: sum.splits)

text \<open>An action that leaves the state, followed by a step that refuses without a change.\<close>

lemma refuses_abind:
  assumes "snd (m w) = w" and "\<And>x. fst (m w) = Inr x \<Longrightarrow> snd (k x w) = w \<and> fst (k x w) \<noteq> Inr y"
  shows "snd (abind m k w) = w \<and> fst (abind m k w) \<noteq> Inr y"
  using assms by (cases "m w"; cases "fst (m w)") (auto simp: abind_def)

lemma refuses_at: "m w = (Inl e, w) \<Longrightarrow> snd (abind m k w) = w \<and> fst (abind m k w) \<noteq> Inr y"
  by (simp add: abind_def)

text \<open>
  C35. What a delivery lends can be read during the delivery and never written. For a map that
  holds the value of a callout, every write of the guest (set, add, replace, remove) fails and
  changes nothing at all, and a read is answered exactly when the running delivery holds that map,
  never by the stream of the embedder; a write to a buffer the crate answers (the two
  configurations and the delivered bytes) fails the same way.
\<close>

theorem delivered_values_read_only:
  "(map_type_try_from i = Inr ty \<longrightarrow> serves_map ty = Some which \<longrightarrow>
     (snd (proxy_set_header_map_pairs i a b w) = w \<and> fst (proxy_set_header_map_pairs i a b w) \<noteq> Inr ()) \<and>
     (snd (proxy_add_header_map_value i a b c d w) = w \<and> fst (proxy_add_header_map_value i a b c d w) \<noteq> Inr ()) \<and>
     (snd (proxy_replace_header_map_value i a b c d w) = w \<and> fst (proxy_replace_header_map_value i a b c d w) \<noteq> Inr ()) \<and>
     (snd (proxy_remove_header_map_value i a b w) = w \<and> fst (proxy_remove_header_map_value i a b w) \<noteq> Inr ()) \<and>
     host_map ty Read w = (if Option.bind (delivery_of (st_abi w)) (\<lambda>d. delivery_map d which) = None
       then Inl (FStatus BadArgument) else Inr (DeliveredRef which), w)) \<and>
   (buffer_type_try_from j = Inr bt \<longrightarrow> buffer_served bt \<noteq> EmbedderServes \<longrightarrow>
     snd (proxy_set_buffer_bytes j s n a b w) = w \<and> fst (proxy_set_buffer_bytes j s n a b w) \<noteq> Inr ())"
proof -
  have maps: "snd (proxy_set_header_map_pairs i a b w) = w \<and> fst (proxy_set_header_map_pairs i a b w) \<noteq> Inr ()"
    "snd (proxy_add_header_map_value i a b c d w) = w \<and> fst (proxy_add_header_map_value i a b c d w) \<noteq> Inr ()"
    "snd (proxy_replace_header_map_value i a b c d w) = w \<and> fst (proxy_replace_header_map_value i a b c d w) \<noteq> Inr ()"
    "snd (proxy_remove_header_map_value i a b w) = w \<and> fst (proxy_remove_header_map_value i a b w) \<noteq> Inr ()"
    if "map_type_try_from i = Inr ty" "serves_map ty = Some which"
  proof -
    note at = refuses_at [of "host_map ty Write", OF conjunct1 [OF host_map_served [OF that(2)]]]
    show "snd (proxy_set_header_map_pairs i a b w) = w \<and> fst (proxy_set_header_map_pairs i a b w) \<noteq> Inr ()"
      "snd (proxy_add_header_map_value i a b c d w) = w \<and> fst (proxy_add_header_map_value i a b c d w) \<noteq> Inr ()"
      "snd (proxy_replace_header_map_value i a b c d w) = w \<and> fst (proxy_replace_header_map_value i a b c d w) \<noteq> Inr ()"
      "snd (proxy_remove_header_map_value i a b w) = w \<and> fst (proxy_remove_header_map_value i a b w) \<noteq> Inr ()"
      unfolding proxy_set_header_map_pairs_def proxy_add_header_map_value_def proxy_replace_header_map_value_def
        proxy_remove_header_map_value_def write_header_value_def arg_enum_known [of map_type_try_from, OF that(1)]
      by ((rule at | (rule refuses_abind, simp add: pure_steps))+)+
  qed
  have "snd (proxy_set_buffer_bytes j s n a b w) = w \<and> fst (proxy_set_buffer_bytes j s n a b w) \<noteq> Inr ()"
    if bt: "buffer_type_try_from j = Inr bt" "buffer_served bt \<noteq> EmbedderServes"
  proof -
    have "write_buffer bt w = (Inl (FStatus NotFound), w)"
      using bt(2) by (cases "buffer_served bt") (simp_all add: write_buffer_def act_simps)
    note at = refuses_at [of "write_buffer bt", OF this]
    show ?thesis
      unfolding proxy_set_buffer_bytes_def Let_def arg_enum_known [of buffer_type_try_from, OF bt(1)]
      by (rule at | (rule refuses_abind, simp add: pure_steps))+
  qed
  with maps host_map_served show ?thesis by blast
qed

lemma delivered_values_read_only_witness:
  "snd (proxy_remove_header_map_value (map_type_code HttpCallResponseHeaders) 0 4 sample_store) = sample_store \<and>
   fst (proxy_remove_header_map_value (map_type_code HttpCallResponseHeaders) 0 4 sample_store) \<noteq> Inr ()"
proof -
  have "map_type_try_from (map_type_code HttpCallResponseHeaders) = Inr HttpCallResponseHeaders"
    by (simp only: map_type_try_from_def MapType.round_trip)
  moreover have "serves_map HttpCallResponseHeaders = Some DmHttpCallResponseHeaders" by simp
  ultimately show ?thesis using delivered_values_read_only by blast
qed

section \<open>Values handed to the guest\<close>

lemma mem_put_Inr: "mem_put f w = (Inr u, w') \<longleftrightarrow> (\<exists>m. f (memory_of w) = Inr m \<and> w' = w\<lparr>st_memory := Some m\<rparr>)"
  by (auto simp: mem_put_def split: sum.splits)

lemma memory_of_put [simp]: "memory_of (w\<lparr>st_memory := Some m\<rparr>) = m"
  by (simp add: memory_of_def)

lemma map_sum_Inr: "map_sum f id r = Inr x \<longleftrightarrow> r = Inr x"
  by (cases r) auto

lemma allocate_Inr: "allocate alloc n w = (Inr p, v) \<Longrightarrow> p \<noteq> 0"
  by (auto simp: allocate_def guest_ptr_of_def split: if_splits option.splits prod.splits sum.splits)

text \<open>What the copy of a value into the guest leaves: the bytes lie at the slice it answers.\<close>

lemma write_to_guest_Inr:
  assumes "write_to_guest alloc bs w = (Inr sl, w')"
  shows "unat (slen sl) = length bs" "unat (sptr sl) + length bs < 2 ^ 32"
    "bs = [] \<Longrightarrow> sptr sl = 0 \<and> w' = w" "bs \<noteq> [] \<Longrightarrow> mem_read (memory_of w') sl = Inr bs \<and> sptr sl \<noteq> 0"
proof -
  obtain len where len: "u32_try_from_usize (length bs) = Some len"
    using assms by (cases "u32_try_from_usize (length bs)") (auto simp: write_to_guest_def abind_def act_simps)
  then have n: "unat len = length bs" "length bs < 2 ^ 32"
    by (auto simp: u32_try_from_usize_def unsigned_of_nat take_bit_nat_eq_self split: if_splits)
  have z: "slen sl = 0 \<and> sptr sl = 0 \<and> w' = w" if "bs = []"
  proof -
    have "len = 0" using n(1) that by (simp add: unat_eq_0)
    with assms len that show ?thesis
      by (auto simp: write_to_guest_def abind_def act_simps slice_get_def guest_slice_new_cases)
  qed
  have nz: "unat (slen sl) = length bs \<and> unat (sptr sl) + length bs < 2 ^ 32 \<and>
      mem_read (memory_of w') sl = Inr bs \<and> sptr sl \<noteq> 0" if "bs \<noteq> []"
  proof -
    have "len \<noteq> 0" using n(1) that by auto
    then obtain p v where "allocate alloc len w = (Inr p, v)" "p \<noteq> 0"
      and s: "guest_slice_new p len = Inr sl" "mem_write (memory_of v) sl bs = Inr (memory_of w')"
      using assms len
      by (auto simp: write_to_guest_def act_simps slice_get_def mem_put_Inr map_sum_Inr
          elim!: abind_InrE dest: allocate_Inr split: if_splits) (auto simp: split_store_def act_simps dest: allocate_Inr split: if_splits)
    with n mem_read_written show ?thesis by (auto simp: guest_slice_new_Inr)
  qed
  from n z nz show "unat (slen sl) = length bs" "unat (sptr sl) + length bs < 2 ^ 32"
    "bs = [] \<Longrightarrow> sptr sl = 0 \<and> w' = w" "bs \<noteq> [] \<Longrightarrow> mem_read (memory_of w') sl = Inr bs \<and> sptr sl \<noteq> 0"
    by (cases "bs = []"; force)+
qed

lemma mem_read_u32_frame:
  assumes "mem_write mem t bs = Inr mem'" and "slices_disjoint t \<lparr>sptr = p, slen = 4\<rparr>"
  shows "mem_read_u32 mem' p = mem_read_u32 mem p"
  using mem_read_frame [OF assms] by (simp add: mem_read_u32_def guest_slice_new_cases)

lemma mem_read_u32_written:
  "mem_write_u32 mem p v = Inr mem' \<Longrightarrow> mem_read_u32 mem' p = Inr v"
  by (auto simp: mem_write_u32_Inr mem_read_u32_def guest_slice_new_cases read_word_def dest!: mem_read_written)

text \<open>
  What the guest finds after a value was handed over: the words at its two pointers are the address
  and the length of the value, and the bytes there are the value, unless the words overlap it.
\<close>

definition hands_over :: "bytes \<Rightarrow> guest_ptr \<Rightarrow> guest_ptr \<Rightarrow> bytes \<Rightarrow> bool" where
  "hands_over mem d s bs \<longleftrightarrow>
     (\<exists>p n. mem_read_u32 mem d = Inr p \<and> mem_read_u32 mem s = Inr n \<and>
        unat n = length bs \<and> unat p + length bs < 2 ^ 32 \<and> (bs = [] \<longleftrightarrow> p = 0) \<and>
        (slices_disjoint \<lparr>sptr = d, slen = 4\<rparr> \<lparr>sptr = p, slen = n\<rparr> \<longrightarrow>
         slices_disjoint \<lparr>sptr = s, slen = 4\<rparr> \<lparr>sptr = p, slen = n\<rparr> \<longrightarrow> bs \<noteq> [] \<longrightarrow>
         mem_read mem \<lparr>sptr = p, slen = n\<rparr> = Inr bs))"

lemma write_return_hands_over:
  assumes dis: "slices_disjoint \<lparr>sptr = d, slen = 4\<rparr> \<lparr>sptr = s, slen = 4\<rparr>"
    and r: "write_return alloc bs d s w = (Inr (), w')"
  shows "hands_over (memory_of w') d s bs"
proof -
  obtain sl v m1 m2 where c: "write_to_guest alloc bs w = (Inr sl, v)"
    and m: "mem_write_u32 (memory_of v) d (sptr sl) = Inr m1" "mem_write_u32 m1 s (slen sl) = Inr m2"
    and w': "memory_of w' = m2"
    using r unfolding write_return_def write_optional_return_def
    by (auto elim!: abind_InrE simp: act_simps mem_put_Inr split_store_def check_return_def mem_get_def split: if_splits)
  note g = write_to_guest_Inr [OF c]
  have w2: "mem_write m1 \<lparr>sptr = s, slen = 4\<rparr> (u32_to_le_bytes (slen sl)) = Inr m2"
    "mem_write (memory_of v) \<lparr>sptr = d, slen = 4\<rparr> (u32_to_le_bytes (sptr sl)) = Inr m1"
    using m by (simp_all add: mem_write_u32_Inr)
  have "mem_read_u32 m2 d = Inr (sptr sl)"
    using mem_read_u32_frame [OF w2(1), of d] mem_read_u32_written [OF m(1)] dis
    by (auto simp: slices_disjoint_def)
  moreover have "mem_read_u32 m2 s = Inr (slen sl)" by (rule mem_read_u32_written [OF m(2)])
  moreover have "mem_read m2 sl = Inr bs"
    if "slices_disjoint \<lparr>sptr = d, slen = 4\<rparr> sl" "slices_disjoint \<lparr>sptr = s, slen = 4\<rparr> sl" "bs \<noteq> []"
    using mem_read_frame [OF w2(2) that(1)] mem_read_frame [OF w2(1) that(2)] g(4) [OF that(3)] by simp
  moreover obtain p n where "sl = \<lparr>sptr = p, slen = n\<rparr>" by (cases sl) auto
  ultimately show ?thesis
    unfolding hands_over_def using g w' by - (rule exI [of _ "sptr sl"], rule exI [of _ "slen sl"], auto)
qed

text \<open>
  C40. A value returned to the guest. When the return succeeds, the two words at the guest's
  pointers hold the address and the length of the value and the bytes at that address are the
  value, unless the guest gave pointers that overlap what they point at; an empty value has the
  address zero and allocates nothing. When one of the two words does not lie in the memory, the
  return fails and nothing happened: the allocator of the guest was not called.
\<close>

theorem write_return_spec:
  "(\<forall>w'. slices_disjoint \<lparr>sptr = d, slen = 4\<rparr> \<lparr>sptr = s, slen = 4\<rparr> \<longrightarrow>
      write_return alloc bs d s w = (Inr (), w') \<longrightarrow>
      (\<exists>p n. mem_read_u32 (memory_of w') d = Inr p \<and> mem_read_u32 (memory_of w') s = Inr n \<and>
         unat n = length bs \<and> unat p + length bs < 2 ^ 32 \<and> (bs = [] \<longleftrightarrow> p = 0) \<and>
         (slices_disjoint \<lparr>sptr = d, slen = 4\<rparr> \<lparr>sptr = p, slen = n\<rparr> \<longrightarrow>
          slices_disjoint \<lparr>sptr = s, slen = 4\<rparr> \<lparr>sptr = p, slen = n\<rparr> \<longrightarrow> bs \<noteq> [] \<longrightarrow>
          mem_read (memory_of w') \<lparr>sptr = p, slen = n\<rparr> = Inr bs))) \<and>
   ((\<exists>e. mem_read_u32 (memory_of w) d = Inl e) \<or> (\<exists>e. mem_read_u32 (memory_of w) s = Inl e) \<longrightarrow>
      snd (write_return alloc bs d s w) = w \<and> fst (write_return alloc bs d s w) \<noteq> Inr ())"
proof -
  have ok: "\<exists>p n. mem_read_u32 (memory_of w') d = Inr p \<and> mem_read_u32 (memory_of w') s = Inr n \<and>
         unat n = length bs \<and> unat p + length bs < 2 ^ 32 \<and> (bs = [] \<longleftrightarrow> p = 0) \<and>
         (slices_disjoint \<lparr>sptr = d, slen = 4\<rparr> \<lparr>sptr = p, slen = n\<rparr> \<longrightarrow>
          slices_disjoint \<lparr>sptr = s, slen = 4\<rparr> \<lparr>sptr = p, slen = n\<rparr> \<longrightarrow> bs \<noteq> [] \<longrightarrow>
          mem_read (memory_of w') \<lparr>sptr = p, slen = n\<rparr> = Inr bs)"
    if "slices_disjoint \<lparr>sptr = d, slen = 4\<rparr> \<lparr>sptr = s, slen = 4\<rparr>"
      and "write_return alloc bs d s w = (Inr (), w')" for w'
    using write_return_hands_over [OF that] by (simp add: hands_over_def)
  have "snd (write_return alloc bs d s w) = w \<and> fst (write_return alloc bs d s w) \<noteq> Inr ()"
    if "(\<exists>e. mem_read_u32 (memory_of w) d = Inl e) \<or> (\<exists>e. mem_read_u32 (memory_of w) s = Inl e)"
    using that by (auto simp: write_return_def write_optional_return_def abind_def act_simps split_store_def
        check_return_def mem_get_def split: sum.splits)
  with ok show ?thesis by blast
qed

lemma write_return_spec_witness:
  "\<exists>w' p n. write_return (\<lambda>_ w. (Inr 32, w)) [9] 0 4 sample_store = (Inr (), w') \<and>
    mem_read_u32 (memory_of w') 0 = Inr p \<and> mem_read_u32 (memory_of w') 4 = Inr n \<and> unat n = 1 \<and> p \<noteq> 0"
proof -
  have "fst (write_return (\<lambda>_ w. (Inr 32, w)) [9] 0 4 sample_store) = Inr ()"
    by (simp add: write_return_def write_optional_return_def abind_def act_simps split_store_def check_return_def
        mem_get_def mem_put_def mem_read_u32_def mem_write_u32_Inr mem_write_u32_def guest_slice_new_cases mem_read_eq
        mem_write_eq in_memory_def memory_of_def write_to_guest_def allocate_def slice_get_def sample_defs
        u32_try_from_usize_def i32_try_from_u32_def guest_ptr_of_def)
  then obtain w' where w': "write_return (\<lambda>_ w. (Inr 32, w)) [9] 0 4 sample_store = (Inr (), w')"
    by (metis prod.collapse)
  have "slices_disjoint \<lparr>sptr = 0, slen = 4\<rparr> \<lparr>sptr = 4, slen = 4\<rparr>" by (simp add: slices_disjoint_def)
  with write_return_spec [THEN conjunct1, rule_format, OF this w'] w' show ?thesis by auto
qed

end
