(* ===== verification/Wasi_Properties.thy ===== *)
theory Wasi_Properties
  imports Wasi Guest_Safety
begin

text \<open>
  What the WASI functions do with the memory and the log of a guest: a write to a standard
  stream logs everything or nothing, and the environment a guest reads is the one of its
  services.
\<close>

section \<open>Writing to the standard streams\<close>

definition bytes_at :: "bytes \<Rightarrow> guest_slice \<Rightarrow> bytes" where
  "bytes_at mem s = take (unat (slen s)) (drop (unat (sptr s)) mem)"

lemma read_at: "mem_read mem s = (if in_memory s mem then Inr (bytes_at mem s)
    else Inl (OutOfBounds (sptr s) (slen s) (length mem)))"
  by (simp add: mem_read_eq bytes_at_def)

lemma length_bytes_at [simp]: "in_memory s mem \<Longrightarrow> length (bytes_at mem s) = unat (slen s)"
  by (simp add: bytes_at_def in_memory_def)

lemma check_entries_eq:
  "check_entries es w = ((if \<forall>e \<in> set es. in_memory e (memory_of w) then Inr () else Inl Fault), w)"
  by (induction es) (auto simp: act_simps abind_def amap_err_def mem_get_def read_at)

lemma gather_eq:
  assumes "\<forall>e \<in> set es. in_memory e (memory_of w)" "length message \<le> budget"
  shows "gather budget es message w = (Inr (take budget (message @ concat (map (bytes_at (memory_of w)) es))), w)"
  using assms
proof (induction es arbitrary: message)
  case (Cons e es)
  let ?b = "bytes_at (memory_of w) e"
  show ?case
  proof (cases "budget - length message = 0")
    case True
    with Cons.prems(2) have "length message = budget" by simp
    then show ?thesis by (simp add: act_simps)
  next
    case False
    let ?room = "budget - length message"
    have "gather budget es (message @ take (min (length ?b) ?room) ?b) w =
        (Inr (take budget ((message @ take (min (length ?b) ?room) ?b) @ concat (map (bytes_at (memory_of w)) es))), w)"
      using Cons.prems by (intro Cons.IH) auto
    moreover have "take budget ((message @ take (min (length ?b) ?room) ?b) @ rest) = take budget (message @ ?b @ rest)" for rest
      by (cases "length ?b \<le> ?room") auto
    ultimately show ?thesis
      using False Cons.prems(1) by (simp add: abind_def amap_err_def mem_get_def read_at Let_def)
  qed
qed (simp add: act_simps)

lemma word_put_after_get:
  "mem_read_u32 mem p = Inr x \<Longrightarrow> \<exists>mem'. mem_write_u32 mem p v = Inr mem'"
  by (auto simp: mem_read_u32_def mem_write_u32_def rbind_eq_Inr guest_slice_new_cases mem_read_eq mem_write_eq
      split: if_splits)

lemma memory_env: "memory_of (w\<lparr>st_env := env\<rparr>) = memory_of w" "memory_of (v\<lparr>st_memory := Some m\<rparr>) = m"
  by (simp_all add: memory_of_def)

lemma iovec_slices_Fault: "iovec_slices table = Inl e \<Longrightarrow> e = Fault"
proof -
  have "foldr (\<lambda>entry acc. rbind (map_sum (\<lambda>_. Fault) id (f entry)) (\<lambda>s. rbind acc (\<lambda>ss. Inr (s # ss)))) xs (Inr []) = Inl e \<Longrightarrow> e = Fault"
    for f :: "bytes \<Rightarrow> memory_error + guest_slice" and xs
  proof (induction xs)
    case (Cons x xs)
    then show ?case by (cases "f x") (auto simp: rbind_def split: sum.splits)
  qed simp
  then show "iovec_slices table = Inl e \<Longrightarrow> e = Fault" by (simp add: iovec_slices_def)
qed

definition fd_level :: "i32 \<Rightarrow> log_level option" where
  "fd_level fd = (case wasi_fd_id_try_from fd of Inr Stdout \<Rightarrow> Some Info | Inr Stderr \<Rightarrow> Some LevelError | Inl _ \<Rightarrow> None)"

lemma fd_write_eq:
  "fd_write_impl fd iovs n nwritten w =
     (case fd_level fd of
        None \<Rightarrow> (Inl Badf, w)
      | Some level \<Rightarrow>
          if st_memory w = None \<or> (\<forall>x. mem_read_u32 (memory_of w) nwritten \<noteq> Inr x) \<or> sint n < 0 then (Inl Fault, w)
          else if n > MAX_IOVECS then (Inl Inval, w)
          else
            (case guest_slice_new iovs (n * IOVEC_SIZE) of
               Inl _ \<Rightarrow> (Inl Fault, w)
             | Inr table \<Rightarrow>
                 if \<not> in_memory table (memory_of w) then (Inl Fault, w)
                 else
                   (case iovec_slices (bytes_at (memory_of w) table) of
                      Inl _ \<Rightarrow> (Inl Fault, w)
                    | Inr es \<Rightarrow>
                        if \<exists>e \<in> set es. \<not> in_memory e (memory_of w) then (Inl Fault, w)
                        else
                          (let budget = (case st_max_log_bytes w of Some m \<Rightarrow> m | None \<Rightarrow> length (memory_of w));
                               written = concat (map (bytes_at (memory_of w)) es);
                               v = (if n > 0 then w\<lparr>st_env := vs_log (services w) (log_context_of w) level
                                     (strip_newline (take budget written)) (st_env w)\<rparr> else w);
                               total = (if length written < 2 ^ 32 then of_nat (length written) else - 1)
                           in (Inr (), v\<lparr>st_memory := Some (projr (mem_write_u32 (memory_of w) nwritten total))\<rparr>)))))"
proof (cases "fd_level fd")
  case None
  then show ?thesis
    by (simp add: fd_write_impl_def abind_def act_simps fd_level_def split: sum.splits wasi_fd_id.splits)
next
  case (Some level)
  then have level: "(case wasi_fd_id_try_from fd of Inr Stdout \<Rightarrow> Inr Info | Inr Stderr \<Rightarrow> Inr LevelError | Inl _ \<Rightarrow> Inl Badf) = Inr level"
    by (auto simp: fd_level_def split: sum.splits wasi_fd_id.splits)
  show ?thesis
  proof (cases "st_memory w = None \<or> (\<forall>x. mem_read_u32 (memory_of w) nwritten \<noteq> Inr x) \<or> sint n < 0 \<or> n > MAX_IOVECS")
    case True
    then show ?thesis
      using Some by (cases "mem_read_u32 (memory_of w) nwritten")
        (auto simp: fd_write_impl_def abind_def act_simps level split_store_def mem_get_def amap_err_def guest_ptr_of_def Let_def)
  next
    case False
    then obtain m x where m: "st_memory w = Some m" "mem_read_u32 (memory_of w) nwritten = Inr x" and n: "0 \<le> sint n" "n \<le> MAX_IOVECS"
      by (auto simp: not_le not_less)
    then have n': "\<not> sint n < 0" "\<not> MAX_IOVECS < n" by (simp_all add: not_less)
    have "unat n \<le> 1024" using n(2) by (simp add: MAX_IOVECS_def word_le_nat_alt)
    then have mul: "unat n * unat IOVEC_SIZE < 2 ^ 32" by (simp add: IOVEC_SIZE_def)
    note start = fd_write_impl_def abind_def act_simps level split_store_def mem_get_def amap_err_def guest_ptr_of_def Let_def
      m n' mul
    let ?mem = "memory_of w"
    show ?thesis
    proof (cases "guest_slice_new iovs (n * IOVEC_SIZE)")
      case (Inl e)
      then show ?thesis using Some by (simp add: start)
    next
      case (Inr table)
      show ?thesis
      proof (cases "in_memory table ?mem \<and> (\<exists>es. iovec_slices (bytes_at ?mem table) = Inr es \<and> (\<forall>e \<in> set es. in_memory e ?mem))")
        case False
        then show ?thesis
          using Some Inr n mul iovec_slices_Fault [of "bytes_at ?mem table"]
          by (cases "iovec_slices (bytes_at ?mem table)") (auto simp: start read_at check_entries_eq)
      next
        case True
        then obtain es where es: "in_memory table ?mem" "iovec_slices (bytes_at ?mem table) = Inr es" "\<forall>e \<in> set es. in_memory e ?mem"
          by blast
        have total: "sum_list (map (\<lambda>s. unat (slen s)) es) = length (concat (map (bytes_at ?mem) es))"
          using es(3) by (induction es) auto
        obtain mem' where put: "mem_write_u32 ?mem nwritten
            (if length (concat (map (bytes_at ?mem) es)) < 2 ^ 32 then of_nat (length (concat (map (bytes_at ?mem) es))) else - 1) = Inr mem'"
          using word_put_after_get [OF m(2)] by blast
        show ?thesis
          using Some Inr es put n mul
          by (cases "length (concat (map (bytes_at ?mem) es)) < 2 ^ 32") (simp_all add: start read_at check_entries_eq gather_eq total log_message_def mem_put_def memory_env(1)
              u32_try_from_usize_def split: option.splits)
      qed
    qed
  qed
qed


lemma fd_write_success:
  assumes "fd_write_impl fd iovs n nwritten w = (Inr u, w')"
  shows "\<exists>level table es. fd_level fd = Some level \<and> unat n \<le> 1024 \<and>
    mem_read (memory_of w) \<lparr>sptr = iovs, slen = 8 * n\<rparr> = Inr table \<and> iovec_slices table = Inr es \<and>
    (\<forall>e \<in> set es. in_memory e (memory_of w)) \<and>
    (let written = concat (map (bytes_at (memory_of w)) es);
         budget = (case st_max_log_bytes w of Some m \<Rightarrow> m | None \<Rightarrow> length (memory_of w))
     in mem_write_u32 (memory_of w) nwritten (of_nat (min (length written) (2 ^ 32 - 1))) = Inr (memory_of w') \<and>
        st_env w' = (if n = 0 then st_env w
          else vs_log (services w) (log_context_of w) level (strip_newline (take budget written)) (st_env w)) \<and>
        st_abi w' = st_abi w)"
proof -
  obtain level x slice es where f: "fd_level fd = Some level" "mem_read_u32 (memory_of w) nwritten = Inr x"
      "\<not> n > MAX_IOVECS" "guest_slice_new iovs (n * IOVEC_SIZE) = Inr slice" "in_memory slice (memory_of w)"
      "iovec_slices (bytes_at (memory_of w) slice) = Inr es" "\<forall>e \<in> set es. in_memory e (memory_of w)"
      "\<not> sint n < 0" "st_memory w \<noteq> None"
    using assms by (auto simp: fd_write_eq Let_def split: option.splits if_splits sum.splits)
  let ?written = "concat (map (bytes_at (memory_of w)) es)"
  let ?budget = "case st_max_log_bytes w of Some m \<Rightarrow> m | None \<Rightarrow> length (memory_of w)"
  let ?total = "if length ?written < 2 ^ 32 then of_nat (length ?written) else - 1 :: u32"
  let ?v = "if n > 0 then w\<lparr>st_env := vs_log (services w) (log_context_of w) level
      (strip_newline (take ?budget ?written)) (st_env w)\<rparr> else w"
  have w': "w' = ?v\<lparr>st_memory := Some (projr (mem_write_u32 (memory_of w) nwritten ?total))\<rparr>"
    using assms f by (auto simp: fd_write_eq Let_def split: option.splits)
  obtain mem' where put: "mem_write_u32 (memory_of w) nwritten ?total = Inr mem'"
    using word_put_after_get [OF f(2)] by blast
  have total: "of_nat (min (length ?written) (2 ^ 32 - 1)) = ?total"
    by (auto simp: min_def not_less word_eq_iff_unsigned)
  have slice: "slice = \<lparr>sptr = iovs, slen = 8 * n\<rparr>"
    using f(4) by (simp add: guest_slice_new_Inr IOVEC_SIZE_def mult.commute)
  have n: "unat n \<le> 1024" "(n = 0) = (\<not> n > 0)"
    using f(3) by (auto simp: MAX_IOVECS_def word_le_nat_alt not_less word_greater_zero_iff)
  have "mem_write_u32 (memory_of w) nwritten (of_nat (min (length ?written) (2 ^ 32 - 1))) = Inr (memory_of w')"
    unfolding total by (simp only: w' put memory_env sum.sel)
  moreover have "st_env w' = (if n = 0 then st_env w
      else vs_log (services w) (log_context_of w) level (strip_newline (take ?budget ?written)) (st_env w))" "st_abi w' = st_abi w"
    by (simp_all add: w' n(2))
  moreover have "mem_read (memory_of w) \<lparr>sptr = iovs, slen = 8 * n\<rparr> = Inr (bytes_at (memory_of w) slice)"
    using f(5) by (simp add: read_at slice)
  ultimately show ?thesis
    using f(1,6,7) n(1) unfolding Let_def by blast
qed

text \<open>
  C36. Writing to a standard stream through WASI is all or nothing. A call that fails (another
  descriptor, too many entries, an entry, the table or the result outside the memory) changes
  nothing and logs nothing. One that succeeds reports the total length of the entries, saturated
  at 32 bits, and logs their bytes joined, cut at the bound of the embedder or else at the size
  of the memory, without a final newline, once; with no entry it logs nothing.
\<close>

theorem fd_write_spec:
  "case fd_write_impl fd iovs n nwritten w of
     (Inl e, w') \<Rightarrow> w' = w \<and> e \<in> {Badf, Inval, Fault}
   | (Inr _, w') \<Rightarrow>
       (\<exists>level table es. fd_level fd = Some level \<and> unat n \<le> 1024 \<and>
          mem_read (memory_of w) \<lparr>sptr = iovs, slen = 8 * n\<rparr> = Inr table \<and> iovec_slices table = Inr es \<and>
          (\<forall>e \<in> set es. in_memory e (memory_of w)) \<and>
          (let written = concat (map (bytes_at (memory_of w)) es);
               budget = (case st_max_log_bytes w of Some m \<Rightarrow> m | None \<Rightarrow> length (memory_of w))
           in mem_write_u32 (memory_of w) nwritten (of_nat (min (length written) (2 ^ 32 - 1))) = Inr (memory_of w') \<and>
              st_env w' = (if n = 0 then st_env w
                else vs_log (services w) (log_context_of w) level (strip_newline (take budget written)) (st_env w)) \<and>
              st_abi w' = st_abi w))"
proof -
  obtain r w' where r: "fd_write_impl fd iovs n nwritten w = (r, w')" by fastforce
  show ?thesis
  proof (cases r)
    case (Inl e)
    with r have "w' = w \<and> e \<in> {Badf, Inval, Fault}"
      by (auto simp: fd_write_eq Let_def split: option.splits if_splits sum.splits)
    with r Inl show ?thesis by simp
  next
    case (Inr u)
    note s = fd_write_success [OF r [unfolded Inr]]
    from r Inr s show ?thesis by simp
  qed
qed


definition greeting :: "(unit, unit option, unit) store" where
  "greeting = sample_store\<lparr>st_memory := Some [8, 0, 0, 0, 2, 0, 0, 0, 104, 10, 0, 0, 0, 0, 0, 0]\<rparr>"

lemma fd_write_spec_witness:
  "\<exists>w'. fd_write_impl 1 0 1 12 greeting = (Inr (), w') \<and> mem_read_u32 (memory_of w') 12 = Inr 2"
proof -
  have m: "memory_of greeting = [8, 0, 0, 0, 2, 0, 0, 0, 104, 10, 0, 0, 0, 0, 0, 0]"
    by (simp add: greeting_def memory_of_def)
  have es: "iovec_slices (take 8 (memory_of greeting)) = Inr [\<lparr>sptr = 8, slen = 2\<rparr>]"
    by (simp add: m iovec_slices_def iovec_read_u32_def u32_from_le_bytes_def guest_slice_new_cases)
  have fd: "fd_level 1 = Some Info" by (simp add: fd_level_def wasi_fd_id_try_from_def abi_try_from_def wasi_fd_id_all_def)
  have mem: "st_memory greeting \<noteq> None" by (simp add: greeting_def)
  have "fst (fd_write_impl 1 0 1 12 greeting) = Inr ()"
    using es mem
    by (simp add: fd_write_eq fd m mem_read_u32_def mem_read_eq guest_slice_new_cases in_memory_def MAX_IOVECS_def
        IOVEC_SIZE_def bytes_at_def Let_def)
  then obtain w' where r: "fd_write_impl 1 0 1 12 greeting = (Inr (), w')"
    by (metis prod.collapse)
  have "mem_write_u32 (memory_of greeting) 12 2 = Inr (memory_of w')"
    using fd_write_spec [where w = greeting and fd = 1 and iovs = 0 and n = 1 and nwritten = 12] es
    by (auto simp: r m mem_read_eq in_memory_def bytes_at_def Let_def)
  then have "mem_read_u32 (memory_of w') 12 = Inr 2"
    by (auto simp: mem_write_u32_Inr mem_read_u32_def guest_slice_new_cases mem_read_written read_word_def)
  with r show ?thesis by blast
qed

section \<open>The environment\<close>

definition env_entry :: "bytes \<times> bytes \<Rightarrow> bytes" where
  "env_entry = (\<lambda>(key, value). key @ [61] @ value @ [0])"

lemma environment_block_eq: "environment_block vs = concat (map env_entry vs)"
  by (simp add: environment_block_def env_entry_def)

lemma write_block_success:
  assumes "write_block start block w = (r, w')"
  shows "r = Inr () \<Longrightarrow> unat start + length block < 2 ^ 32 \<and>
      mem_write (memory_of w) \<lparr>sptr = start, slen = of_nat (length block)\<rparr> block = Inr (memory_of w')"
    and "r = Inl e \<Longrightarrow> w' = w \<and> e = Fault"
    and "st_env w' = st_env w \<and> st_abi w' = st_abi w"
  using assms
  by (auto simp: write_block_def abind_def act_simps amap_err_def mem_put_def memory_env guest_slice_new_cases ok_or_def
      u32_try_from_usize_def split: option.splits sum.splits if_splits)

lemma environ_pointers_Cons:
  assumes "environ_pointers offset (v # vs) = Inr ps"
  obtains n later :: u32 and rest where "unat n = length (env_entry v)" "unat later = unat offset + unat n"
    "environ_pointers later vs = Inr rest" "ps = u32_to_le_bytes offset @ rest"
proof -
  obtain k x where v: "v = (k, x)" by fastforce
  obtain n later rest where r: "u32_try_from_usize (length k + length x + 2) = Some n" "u32_checked_add offset n = Some later"
      "environ_pointers later vs = Inr rest" "ps = u32_to_le_bytes offset @ rest"
    using assms by (auto simp: v rbind_eq_Inr ok_or_def split: option.splits)
  have "unat n = length (env_entry v)"
    using u32_try_from_usize_unat [OF r(1)] by (simp add: v env_entry_def)
  from this u32_checked_add_Some [OF r(2)] r(3,4) show ?thesis by (rule that)
qed

lemma environ_pointers_eq:
  assumes "environ_pointers offset vs = Inr ps"
  shows "length ps = 4 * length vs"
    and "i < length vs \<Longrightarrow> \<exists>p. take 4 (drop (4 * i) ps) = u32_to_le_bytes p \<and>
      unat p = unat offset + length (concat (map env_entry (take i vs)))"
  using assms
proof (induction vs arbitrary: offset ps i)
  case (Cons v vs)
  { case 1
    then show ?case by (auto elim!: environ_pointers_Cons dest: Cons.IH(1))
  next
    case 2
    obtain n later :: u32 and rest where e: "unat n = length (env_entry v)" "unat later = unat offset + unat n"
        "environ_pointers later vs = Inr rest" "ps = u32_to_le_bytes offset @ rest"
      by (rule environ_pointers_Cons [OF 2(2)])
    show ?case
    proof (cases i)
      case (Suc j)
      with 2(1) Cons.IH(2) [OF _ e(3), of j] e(1,2,4) show ?thesis by auto
    qed (use e(4) in auto)
  }
qed simp_all


lemma concat_drop_take:
  assumes "i < length vs"
  shows "take (length (f (vs ! i))) (drop (length (concat (map f (take i vs)))) (concat (map f vs))) = f (vs ! i)"
proof -
  have "concat (map f vs) = concat (map f (take i vs)) @ f (vs ! i) @ concat (map f (drop (Suc i) vs))"
    using assms by (metis concat.simps(2) concat_append id_take_nth_drop list.simps(9) map_append)
  then show ?thesis by simp
qed

lemma concat_upto:
  assumes "i < length vs"
  shows "length (concat (map f (take i vs))) + length (f (vs ! i)) \<le> length (concat (map f vs))"
proof -
  have "concat (map f vs) = concat (map f (take i vs)) @ f (vs ! i) @ concat (map f (drop (Suc i) vs))"
    using assms by (metis concat.simps(2) concat_append id_take_nth_drop list.simps(9) map_append)
  then show ?thesis by simp
qed

lemma read_part:
  assumes "mem_read mem \<lparr>sptr = p, slen = n\<rparr> = Inr bs" "unat q = unat p + k" "k + unat l \<le> unat n"
  shows "mem_read mem \<lparr>sptr = q, slen = l\<rparr> = Inr (take (unat l) (drop k bs))"
  using assms by (auto simp: mem_read_eq in_memory_def drop_take min_def add.commute split: if_splits)


lemma environ_get_success:
  assumes "environ_get_impl array buf w = (Inr u, w')"
  defines "vs \<equiv> environment (services w)"
  defines "block \<equiv> environment_block vs"
  shows "mem_read (memory_of w') \<lparr>sptr = buf, slen = of_nat (length block)\<rparr> = Inr block"
    and "unat array + 4 * length vs \<le> unat buf \<or> unat buf + length block \<le> unat array \<Longrightarrow> i < length vs \<Longrightarrow>
      \<exists>p. mem_read_u32 (memory_of w') (array + of_nat (4 * i)) = Inr p \<and>
        mem_read (memory_of w') \<lparr>sptr = p, slen = of_nat (length (env_entry (vs ! i)))\<rparr> = Inr (env_entry (vs ! i))"
proof -
  obtain ps w1 where ps: "environ_pointers buf vs = Inr ps" and b1: "write_block array ps w = (Inr (), w1)"
    and b2: "write_block buf block w1 = (Inr (), w')"
    using assms(1) by (auto simp: environ_get_impl_def vs_def block_def Let_def guest_ptr_of_def act_simps split_store_def
        amap_err_def elim!: abind_InrE split: if_splits)
  note w1 = write_block_success(1) [OF b1 refl] and w2 = write_block_success(1) [OF b2 refl]
  note len = environ_pointers_eq(1) [OF ps]
  have sizes: "length block < 4294967296" "unat array + 4 * length vs < 4294967296"
    using w1 w2 len by simp_all
  show read: "mem_read (memory_of w') \<lparr>sptr = buf, slen = of_nat (length block)\<rparr> = Inr block"
    using w2 by (blast dest: mem_read_written)
  show "\<exists>p. mem_read_u32 (memory_of w') (array + of_nat (4 * i)) = Inr p \<and>
      mem_read (memory_of w') \<lparr>sptr = p, slen = of_nat (length (env_entry (vs ! i)))\<rparr> = Inr (env_entry (vs ! i))"
    if apart: "unat array + 4 * length vs \<le> unat buf \<or> unat buf + length block \<le> unat array" and i: "i < length vs"
  proof -
    obtain p where p: "take 4 (drop (4 * i) ps) = u32_to_le_bytes p"
        "unat p = unat buf + length (concat (map env_entry (take i vs)))"
      using environ_pointers_eq(2) [OF ps i] by blast
    define n :: u32 where "n = of_nat (length ps)"
    have n: "unat n = 4 * length vs" using sizes(2) by (simp add: n_def len unat_of_nat_u32 del: of_nat_mult)
    have "mem_read (memory_of w1) \<lparr>sptr = array, slen = n\<rparr> = Inr ps"
      unfolding n_def using w1 by (blast dest: mem_read_written)
    moreover have "mem_read (memory_of w') \<lparr>sptr = array, slen = n\<rparr> = mem_read (memory_of w1) \<lparr>sptr = array, slen = n\<rparr>"
      by (rule mem_read_frame [OF conjunct2 [OF w2]]) (use apart sizes n in \<open>auto simp: slices_disjoint_def\<close>)
    ultimately have "mem_read (memory_of w') \<lparr>sptr = array, slen = n\<rparr> = Inr ps" by simp
    moreover have q: "unat (array + of_nat (4 * i)) = unat array + 4 * i"
      using sizes(2) i by (simp add: unat_word_ariths)
    ultimately have "mem_read (memory_of w') \<lparr>sptr = array + of_nat (4 * i), slen = 4\<rparr> = Inr (u32_to_le_bytes p)"
      using read_part [where k = "4 * i" and l = 4 and q = "array + of_nat (4 * i)" and n = n and p = array
        and mem = "memory_of w'" and bs = ps] i n by (simp add: p(1))
    then have r1: "mem_read_u32 (memory_of w') (array + of_nat (4 * i)) = Inr p"
      using q i sizes(2) by (simp add: mem_read_u32_def guest_slice_new_cases read_word_def)
    have "length (concat (map env_entry (take i vs))) + length (env_entry (vs ! i)) \<le> length block"
      using concat_upto [OF i] by (simp add: block_def environment_block_eq)
    moreover from this sizes(1) have "length (env_entry (vs ! i)) < 4294967296" by linarith
    ultimately have "mem_read (memory_of w') \<lparr>sptr = p, slen = of_nat (length (env_entry (vs ! i)))\<rparr> =
        Inr (env_entry (vs ! i))"
      using read_part [OF read p(2), of "of_nat (length (env_entry (vs ! i)))"] sizes(1) concat_drop_take [OF i, of env_entry]
      by (simp add: block_def environment_block_eq)
    with r1 show ?thesis by blast
  qed
qed


lemma environ_sizes_success:
  assumes "environ_sizes_get_impl cp sp w = (Inr u, w')"
  defines "vs \<equiv> environment (services w)"
  shows "mem_read_u32 (memory_of w') sp = Inr (of_nat (length (environment_block vs)))"
    and "length (environment_block vs) < 2 ^ 32 \<and> length vs < 2 ^ 32"
    and "unat cp + 4 \<le> unat sp \<or> unat sp + 4 \<le> unat cp \<Longrightarrow> mem_read_u32 (memory_of w') cp = Inr (of_nat (length vs))"
proof -
  obtain m where m: "mem_write_u32 (memory_of w) cp (of_nat (length vs)) = Inr m"
      "mem_write_u32 m sp (of_nat (length (environment_block vs))) = Inr (memory_of w')"
    and len: "length (environment_block vs) < 2 ^ 32 \<and> length vs < 2 ^ 32"
    using assms(1)
    by (auto simp: environ_sizes_get_impl_def vs_def guest_ptr_of_def act_simps split_store_def amap_err_def mem_put_def
        memory_env ok_or_def u32_try_from_usize_def elim!: abind_InrE split: if_splits option.splits sum.splits prod.splits)
  have word: "mem_read_u32 m2 q = Inr v" if "mem_write_u32 m1 q v = Inr m2" for m1 m2 q v
    using that by (auto simp: mem_write_u32_Inr mem_read_u32_def guest_slice_new_cases mem_read_written read_word_def)
  show "mem_read_u32 (memory_of w') sp = Inr (of_nat (length (environment_block vs)))"
    by (rule word [OF m(2)])
  show "length (environment_block vs) < 2 ^ 32 \<and> length vs < 2 ^ 32" by (rule len)
  show "mem_read_u32 (memory_of w') cp = Inr (of_nat (length vs))" if "unat cp + 4 \<le> unat sp \<or> unat sp + 4 \<le> unat cp"
  proof -
    have "mem_read (memory_of w') \<lparr>sptr = cp, slen = 4\<rparr> = mem_read m \<lparr>sptr = cp, slen = 4\<rparr>"
      using m(2) that by (intro mem_read_frame) (auto simp: mem_write_u32_Inr slices_disjoint_def)
    with word [OF m(1)] show ?thesis
      by (auto simp: mem_read_u32_def rbind_eq_Inr guest_slice_new_Inr)
  qed
qed


text \<open>
  The environment of a guest: the sizes a guest asks for are the number of its variables and
  the length of their block, and the environment it then reads is that block at the address it
  gave, with the pointers, when the two regions do not overlap, each at the text
  \<open>key=value\<close> and its zero byte, in the order of the services.
\<close>

theorem environ_spec:
  assumes "environ_sizes_get_impl cp sp w0 = (Inr (), w1)" and "environ_get_impl array buf w = (Inr (), w2)"
    and "environment (services w0) = vs" "environment (services w) = vs"
  shows "mem_read_u32 (memory_of w1) sp = Inr (of_nat (length (environment_block vs))) \<and>
    length (environment_block vs) < 2 ^ 32 \<and>
    (unat cp + 4 \<le> unat sp \<or> unat sp + 4 \<le> unat cp \<longrightarrow> mem_read_u32 (memory_of w1) cp = Inr (of_nat (length vs))) \<and>
    mem_read (memory_of w2) \<lparr>sptr = buf, slen = of_nat (length (environment_block vs))\<rparr> = Inr (environment_block vs) \<and>
    (unat array + 4 * length vs \<le> unat buf \<or> unat buf + length (environment_block vs) \<le> unat array \<longrightarrow>
      (\<forall>i < length vs. \<exists>p. mem_read_u32 (memory_of w2) (array + of_nat (4 * i)) = Inr p \<and>
        mem_read (memory_of w2) \<lparr>sptr = p, slen = of_nat (length (env_entry (vs ! i)))\<rparr> = Inr (env_entry (vs ! i))))"
  using environ_sizes_success [OF assms(1)] environ_get_success [OF assms(2)] unfolding assms(3,4) by blast


definition env_store :: "(unit, unit option, unit) store" where
  "env_store = set_abi (\<lambda>a. a\<lparr>services_of := (services_of a)\<lparr>environment := [([65], [66])]\<rparr>\<rparr>) sample_store"

lemma env_store_simps [simp]:
  "environment (services env_store) = [([65], [66])]" "st_memory env_store = Some (replicate 64 0)"
  "memory_of env_store = replicate 64 0"
  by (simp_all add: env_store_def sample_store_def set_guest_limits_def host_state_new_def memory_of_def)

lemma environ_spec_witness:
  "\<exists>w2. environ_get_impl 8 16 env_store = (Inr (), w2) \<and>
     mem_read (memory_of w2) \<lparr>sptr = 16, slen = 4\<rparr> = Inr [65, 61, 66, 0]"
proof -
  have "fst (environ_sizes_get_impl 0 4 env_store) = Inr ()"
    by (simp add: environ_sizes_get_impl_def guest_ptr_of_def abind_def act_simps split_store_def amap_err_def mem_put_def memory_env
        ok_or_def u32_try_from_usize_def environment_block_def mem_write_u32_def guest_slice_new_cases mem_write_eq in_memory_def)
  moreover have "fst (environ_get_impl 8 16 env_store) = Inr ()"
    by (simp add: environ_get_impl_def write_block_def abind_def act_simps split_store_def amap_err_def mem_put_def memory_env
        ok_or_def u32_try_from_usize_def environment_block_def guest_slice_new_cases mem_write_eq in_memory_def Let_def
        u32_checked_add_def guest_ptr_of_def)
  ultimately obtain w1 w2 where r: "environ_sizes_get_impl 0 4 env_store = (Inr (), w1)" "environ_get_impl 8 16 env_store = (Inr (), w2)"
    by (metis prod.collapse)
  have "mem_read (memory_of w2) \<lparr>sptr = 16, slen = 4\<rparr> = Inr [65, 61, 66, 0]"
    using environ_spec [OF r env_store_simps(1) env_store_simps(1)] by (simp add: environment_block_def)
  with r(2) show ?thesis by blast
qed

end
