(* ===== verification/Store_Refinement.thy ===== *)
theory Store_Refinement
  imports Shared_Store
begin

text \<open>
  What the shared services promise, without the data structures of the store: shared data with
  versions, named queues and named metrics as maps, with the choices the promise leaves open (the
  next version, a fresh identifier) as choices of a step relation. The in-memory store refines it:
  every operation of the store is a step of the relation between the abstractions of its states.
\<close>

section \<open>The abstract service\<close>

record abstract_store =
  a_data :: "store_key \<rightharpoonup> bytes \<times> u32"
  a_queue_names :: "store_key \<rightharpoonup> queue_id"
  a_queues :: "queue_id \<rightharpoonup> bytes list"
  a_metric_names :: "store_key \<rightharpoonup> metric_id"
  a_metrics :: "metric_id \<rightharpoonup> metric_type \<times> u64"
  queue_ids_left :: bool
  metric_ids_left :: bool

inductive spec_step ::
  "store_limits \<Rightarrow> store_op \<Rightarrow> status + store_result \<Rightarrow> abstract_store \<Rightarrow> abstract_store \<Rightarrow> bool"
  for l :: store_limits where
  get_held: "a_data A (vm, k) = Some (v, c) \<Longrightarrow>
    spec_step l (GetData vm k) (Inr (ValueResult \<lparr>sv_bytes = v, sv_cas = c\<rparr>)) A A"
| get_unknown: "a_data A (vm, k) = None \<Longrightarrow> spec_step l (GetData vm k) (Inl NotFound) A A"
| set_first: "length v \<le> value_bytes l \<Longrightarrow> a_data A (vm, k) = None \<Longrightarrow> card (dom (a_data A)) < limit_keys l \<Longrightarrow>
    c \<noteq> 0 \<Longrightarrow>
    spec_step l (SetData vm k v cas) (Inr UnitResult) A (A\<lparr>a_data := (a_data A)((vm, k) \<mapsto> (v, c))\<rparr>)"
| set_again: "length v \<le> value_bytes l \<Longrightarrow> a_data A (vm, k) = Some (u, d) \<Longrightarrow> cas \<in> {None, Some d} \<Longrightarrow>
    c \<noteq> 0 \<Longrightarrow> c \<noteq> d \<Longrightarrow>
    spec_step l (SetData vm k v cas) (Inr UnitResult) A (A\<lparr>a_data := (a_data A)((vm, k) \<mapsto> (v, c))\<rparr>)"
| set_stale: "length v \<le> value_bytes l \<Longrightarrow> a_data A (vm, k) = Some (u, d) \<Longrightarrow> cas \<notin> {None, Some d} \<Longrightarrow>
    spec_step l (SetData vm k v cas) (Inl CasMismatch) A A"
| set_full: "value_bytes l < length v \<or> a_data A (vm, k) = None \<and> limit_keys l \<le> card (dom (a_data A)) \<Longrightarrow>
    spec_step l (SetData vm k v cas) (Inl InternalFailure) A A"
| register_again: "a_queue_names A (vm, n) = Some q \<Longrightarrow>
    spec_step l (RegisterQueue vm n) (Inr (QueueResult q)) A A"
| register_first: "a_queue_names A (vm, n) = None \<Longrightarrow> card (dom (a_queue_names A)) < limit_queues l \<Longrightarrow>
    queue_ids_left A \<Longrightarrow> queue_get q \<noteq> 0 \<Longrightarrow> a_queues A q = None \<Longrightarrow> q \<notin> ran (a_queue_names A) \<Longrightarrow>
    spec_step l (RegisterQueue vm n) (Inr (QueueResult q)) A
      (A\<lparr>a_queue_names := (a_queue_names A)((vm, n) \<mapsto> q), a_queues := (a_queues A)(q \<mapsto> []),
         queue_ids_left := b\<rparr>)"
| register_full: "a_queue_names A (vm, n) = None \<Longrightarrow>
    limit_queues l \<le> card (dom (a_queue_names A)) \<or> \<not> queue_ids_left A \<Longrightarrow>
    spec_step l (RegisterQueue vm n) (Inl InternalFailure) A A"
| resolve: "spec_step l (ResolveQueue vm n)
    (case a_queue_names A (vm, n) of None \<Rightarrow> Inl NotFound | Some q \<Rightarrow> Inr (QueueResult q)) A A"
| enqueue: "length v \<le> value_bytes l \<Longrightarrow> a_queues A q = Some its \<Longrightarrow> length its < queue_items l \<Longrightarrow>
    spec_step l (Enqueue q v) (Inr UnitResult) A (A\<lparr>a_queues := (a_queues A)(q \<mapsto> its @ [v])\<rparr>)"
| enqueue_unknown: "length v \<le> value_bytes l \<Longrightarrow> a_queues A q = None \<Longrightarrow>
    spec_step l (Enqueue q v) (Inl NotFound) A A"
| enqueue_full: "value_bytes l < length v \<or> (\<exists>its. a_queues A q = Some its \<and> queue_items l \<le> length its) \<Longrightarrow>
    spec_step l (Enqueue q v) (Inl InternalFailure) A A"
| dequeue: "a_queues A q = Some (v # its) \<Longrightarrow>
    spec_step l (Dequeue q) (Inr (BytesResult v)) A (A\<lparr>a_queues := (a_queues A)(q \<mapsto> its)\<rparr>)"
| dequeue_none: "a_queues A q = r \<Longrightarrow> r \<in> {None, Some []} \<Longrightarrow>
    spec_step l (Dequeue q) (Inl (if r = None then NotFound else Empty)) A A"
| define_again: "a_metric_names A (vm, n) = Some m \<Longrightarrow> a_metrics A m = Some (kind', x) \<Longrightarrow>
    spec_step l (DefineMetric vm kind n) (if kind = kind' then Inr (MetricResult m) else Inl BadArgument) A A"
| define_first: "a_metric_names A (vm, n) = None \<Longrightarrow> card (dom (a_metric_names A)) < limit_metrics l \<Longrightarrow>
    metric_ids_left A \<Longrightarrow> metric_get m \<noteq> 0 \<Longrightarrow> a_metrics A m = None \<Longrightarrow> m \<notin> ran (a_metric_names A) \<Longrightarrow>
    spec_step l (DefineMetric vm kind n) (Inr (MetricResult m)) A
      (A\<lparr>a_metric_names := (a_metric_names A)((vm, n) \<mapsto> m), a_metrics := (a_metrics A)(m \<mapsto> (kind, 0)),
         metric_ids_left := b\<rparr>)"
| define_full: "a_metric_names A (vm, n) = None \<Longrightarrow>
    limit_metrics l \<le> card (dom (a_metric_names A)) \<or> \<not> metric_ids_left A \<Longrightarrow>
    spec_step l (DefineMetric vm kind n) (Inl InternalFailure) A A"
| metric_unknown: "a_metrics A m = None \<Longrightarrow> op \<in> {RecordMetric m v, IncrementMetric m d, GetMetric m} \<Longrightarrow>
    spec_step l op (Inl NotFound) A A"
| record_value: "a_metrics A m = Some (kind, x) \<Longrightarrow> kind \<noteq> Histogram \<Longrightarrow>
    spec_step l (RecordMetric m v) (Inr UnitResult) A (A\<lparr>a_metrics := (a_metrics A)(m \<mapsto> (kind, v))\<rparr>)"
| record_histogram: "a_metrics A m = Some (Histogram, x) \<Longrightarrow>
    spec_step l (RecordMetric m v) (Inr UnitResult) A A"
| increment: "a_metrics A m = Some (kind, x) \<Longrightarrow> kind \<noteq> Histogram \<Longrightarrow> (kind = Counter \<longrightarrow> 0 \<le> sint d) \<Longrightarrow>
    int (unat y) = int (unat x) + sint d \<Longrightarrow>
    spec_step l (IncrementMetric m d) (Inr UnitResult) A (A\<lparr>a_metrics := (a_metrics A)(m \<mapsto> (kind, y))\<rparr>)"
| increment_refused: "a_metrics A m = Some (kind, x) \<Longrightarrow>
    kind = Histogram \<or> kind = Counter \<and> sint d < 0 \<or> int (unat x) + sint d \<notin> {0..<2 ^ 64} \<Longrightarrow>
    spec_step l (IncrementMetric m d) (Inl BadArgument) A A"
| get_value: "a_metrics A m = Some (kind, x) \<Longrightarrow>
    spec_step l (GetMetric m) (if kind = Histogram then Inl BadArgument else Inr (NumberResult x)) A A"

section \<open>The abstraction of a store\<close>

definition abs_store :: "in_memory_store \<Rightarrow> abstract_store" where
  "abs_store s =
     \<lparr>a_data = btm_get (shared_data s),
      a_queue_names = btm_get (queue_by_name (shared_queues s)),
      a_queues = btm_get (items (shared_queues s)),
      a_metric_names = btm_get (metric_by_name (shared_metrics s)),
      a_metrics = (\<lambda>m. map_option (\<lambda>e. (metric_kind e, metric_value e))
        (btm_get (metric_entries (shared_metrics s)) m)),
      queue_ids_left = (next_id (next_queue (shared_queues s)) \<noteq> None),
      metric_ids_left = (next_id (next_metric (shared_metrics s)) \<noteq> None)\<rparr>"

lemma card_dom: "btm_ok m \<Longrightarrow> card (dom (btm_get m)) = length m"
  by (metis dom_btm_get btm_ok_distinct distinct_card length_map set_map)

lemma abs_simps [simp]:
  "a_data (abs_store s) = btm_get (shared_data s)"
  "a_queue_names (abs_store s) = btm_get (queue_by_name (shared_queues s))"
  "a_queues (abs_store s) = btm_get (items (shared_queues s))"
  "a_metric_names (abs_store s) = btm_get (metric_by_name (shared_metrics s))"
  "a_metrics (abs_store s) m = map_option (\<lambda>e. (metric_kind e, metric_value e))
     (btm_get (metric_entries (shared_metrics s)) m)"
  "queue_ids_left (abs_store s) = (next_id (next_queue (shared_queues s)) \<noteq> None)"
  "metric_ids_left (abs_store s) = (next_id (next_metric (shared_metrics s)) \<noteq> None)"
  by (simp_all add: abs_store_def)

lemma store_sizes:
  assumes "store_ok s"
  shows "card (dom (btm_get (shared_data s))) = length (shared_data s)"
    "card (dom (btm_get (queue_by_name (shared_queues s)))) = length (queue_by_name (shared_queues s))"
    "card (dom (btm_get (metric_by_name (shared_metrics s)))) = length (metric_by_name (shared_metrics s))"
  using assms by (simp_all add: store_ok_def data_ok_def queues_ok_def metrics_ok_def card_dom)

lemmas abs_steps = spec_step.intros [where A = "abs_store s", unfolded abs_simps] for s

lemma refines_data:
  assumes "store_ok s" and "store_exec i op s = (r, s')"
    and "op = GetData vm k \<or> op = SetData vm k v cas"
  shows "spec_step (store_limits_of s) op r (abs_store s) (abs_store s')"
  using assms(3)
proof
  assume op: "op = GetData vm k"
  then show ?thesis
    using assms(2) by (cases "btm_get (shared_data s) (vm, k)")
      (auto simp: tag_def store_get_shared_data_def intro: abs_steps)
next
  assume op: "op = SetData vm k v cas"
  have abs: "abs_store (s\<lparr>shared_data := btm_insert (vm, k) (v, c) (shared_data s)\<rparr>) =
      (abs_store s)\<lparr>a_data := (a_data (abs_store s))((vm, k) \<mapsto> (v, c))\<rparr>" for c
    by (auto simp: abs_store_def fun_eq_iff)
  show ?thesis
  proof (cases "btm_get (shared_data s) (vm, k)")
    case None
    with op assms(2) store_sizes [OF assms(1)] show ?thesis
      by (auto simp: tag_def store_set_shared_data_def abs not_less not_le Let_def split: if_splits
          intro!: abs_steps(3,6))
  next
    case (Some e)
    with op assms(2) show ?thesis
      by (cases e) (auto simp: tag_def store_set_shared_data_def abs not_less not_le Let_def split: if_splits option.splits
          intro!: abs_steps(4-6))
  qed
qed

lemma refines_queues:
  assumes "store_ok s" and "store_exec i op s = (r, s')"
    and "op = RegisterQueue vm n \<or> op = ResolveQueue vm n \<or> op = Enqueue q v \<or> op = Dequeue q"
  shows "spec_step (store_limits_of s) op r (abs_store s) (abs_store s')"
proof -
  have ok: "queues_ok (store_limits_of s) (shared_queues s)" using assms(1) by (simp add: store_ok_def)
  have items: "abs_store (s\<lparr>shared_queues := (shared_queues s)\<lparr>items := btm_insert q its (items (shared_queues s))\<rparr>\<rparr>) =
      (abs_store s)\<lparr>a_queues := (btm_get (items (shared_queues s)))(q \<mapsto> its)\<rparr>" for its
    by (auto simp: abs_store_def fun_eq_iff)
  have quiet: "abs_store (t\<lparr>warned_no_observer := b\<rparr>) = abs_store t" "abs_store (t\<lparr>observed := o'\<rparr>) = abs_store t"
    for b o' t by (simp_all add: abs_store_def)
  consider "op = RegisterQueue vm n" | "op = ResolveQueue vm n" | "op = Enqueue q v" | "op = Dequeue q"
    using assms(3) by blast
  then show ?thesis
  proof cases
    case 1
    note r = assms(2) [unfolded 1, simplified, unfolded tag_def store_register_queue_def Let_def]
    show ?thesis
    proof (cases "btm_get (queue_by_name (shared_queues s)) (vm, n)")
      case (Some x)
      with 1 r abs_steps(7) [of s vm n x "store_limits_of s"] show ?thesis
        by (auto simp: quiet split: if_splits)
    next
      case None
      show ?thesis
      proof (cases "next_id (next_queue (shared_queues s)) = None \<or>
          limit_queues (store_limits_of s) \<le> length (queue_by_name (shared_queues s))")
        case True
        with 1 None r abs_steps(9) [of s vm n "store_limits_of s"] store_sizes [OF assms(1)] show ?thesis
          by (auto simp: quiet split: if_splits)
      next
        case False
        then obtain x m where x: "next_id (next_queue (shared_queues s)) = Some (x, m)" by auto
        note fresh = queues_fresh_id [OF ok x] next_id_Some [OF x]
        have "QueueId x \<notin> ran (btm_get (queue_by_name (shared_queues s)))"
          using fresh(3) by (auto simp: ran_def)
        moreover have "abs_store s' = (abs_store s)\<lparr>
            a_queue_names := (btm_get (queue_by_name (shared_queues s)))((vm, n) \<mapsto> QueueId x),
            a_queues := (btm_get (items (shared_queues s)))(QueueId x \<mapsto> []),
            queue_ids_left := (next_id m \<noteq> None)\<rparr>" "r = Inr (QueueResult (QueueId x))"
          using False None r x by (auto simp: abs_store_def fun_eq_iff split: if_splits)
        ultimately show ?thesis
          using False None 1 x fresh store_sizes [OF assms(1)] by (auto intro!: abs_steps(8))
      qed
    qed
  next
    case 2
    then show ?thesis
      using assms(2) abs_steps(10) [of "store_limits_of s" vm n s]
      by (cases "btm_get (queue_by_name (shared_queues s)) (vm, n)")
        (auto simp: tag_def store_resolve_queue_def)
  next
    case 3
    with assms(2) show ?thesis
      by (cases "btm_get (items (shared_queues s)) q"; cases "btm_get (queue_owners (shared_queues s)) q")
        (auto simp: tag_def store_enqueue_def items quiet not_less not_le Let_def split: if_splits intro: abs_steps)
  next
    case 4
    with assms(2) abs_steps(15) [of s q _ "store_limits_of s"] show ?thesis
      by (cases "btm_get (items (shared_queues s)) q"; cases "the (btm_get (items (shared_queues s)) q)")
        (auto simp: tag_def store_dequeue_def items Let_def intro: abs_steps)
  qed
qed

lemma refines_metrics:
  assumes "store_ok s" and "store_exec i op s = (r, s')"
    and "op = DefineMetric vm kind n \<or> op = RecordMetric m v \<or> op = IncrementMetric m d \<or> op = GetMetric m"
  shows "spec_step (store_limits_of s) op r (abs_store s) (abs_store s')"
proof -
  have ok: "metrics_ok (store_limits_of s) (shared_metrics s)" using assms(1) by (simp add: store_ok_def)
  have set: "abs_store (set_metric_value m x s) =
      (abs_store s)\<lparr>a_metrics := (a_metrics (abs_store s))(m \<mapsto> (k, x))\<rparr>"
    if "a_metrics (abs_store s) m = Some (k, y)" for k x y
    using that by (auto simp: abs_store_def set_metric_value_def fun_eq_iff)
  consider "op = DefineMetric vm kind n" | "op = RecordMetric m v" | "op = IncrementMetric m d" | "op = GetMetric m"
    using assms(3) by blast
  then show ?thesis
  proof cases
    case 1
    note r = assms(2) [unfolded 1, simplified, unfolded tag_def store_define_metric_def Let_def]
    show ?thesis
    proof (cases "btm_get (metric_by_name (shared_metrics s)) (vm, n)")
      case (Some x)
      then obtain e where "btm_get (metric_entries (shared_metrics s)) x = Some e"
        using ok Some unfolding metrics_ok_def by (metis option.exhaust)
      with Some 1 r abs_steps(16) [of s vm n x "metric_kind e" "metric_value e" "store_limits_of s" kind] show ?thesis
        by (auto split: if_splits)
    next
      case None
      show ?thesis
      proof (cases "next_id (next_metric (shared_metrics s)) = None \<or>
          limit_metrics (store_limits_of s) \<le> length (metric_by_name (shared_metrics s))")
        case True
        with 1 None r abs_steps(18) [of s vm n "store_limits_of s" kind] store_sizes [OF assms(1)] show ?thesis
          by (auto split: if_splits)
      next
        case False
        then obtain x w where x: "next_id (next_metric (shared_metrics s)) = Some (x, w)" by auto
        have fresh: "btm_get (metric_entries (shared_metrics s)) (MetricId x) = None"
          using ok next_id_Some [OF x] by (cases "btm_get (metric_entries (shared_metrics s)) (MetricId x)")
            (auto simp: metrics_ok_def)
        then have "btm_get (metric_by_name (shared_metrics s)) k \<noteq> Some (MetricId x)" for k
          using ok by (metis metrics_ok_def)
        then have "MetricId x \<notin> ran (btm_get (metric_by_name (shared_metrics s)))"
          by (auto simp: ran_def)
        then have "spec_step (store_limits_of s) (DefineMetric vm kind n) (Inr (MetricResult (MetricId x))) (abs_store s)
            ((abs_store s)\<lparr>a_metric_names := (a_metric_names (abs_store s))((vm, n) \<mapsto> MetricId x),
              a_metrics := (a_metrics (abs_store s))(MetricId x \<mapsto> (kind, 0)),
              metric_ids_left := (next_id w \<noteq> None)\<rparr>)"
          using False None x fresh next_id_Some [OF x] store_sizes [OF assms(1)]
          by (intro spec_step.define_first) auto
        moreover have "abs_store s' = (abs_store s)\<lparr>
            a_metric_names := (a_metric_names (abs_store s))((vm, n) \<mapsto> MetricId x),
            a_metrics := (a_metrics (abs_store s))(MetricId x \<mapsto> (kind, 0)),
            metric_ids_left := (next_id w \<noteq> None)\<rparr>" "r = Inr (MetricResult (MetricId x))"
          using False None r x by (auto simp: abs_store_def fun_eq_iff split: if_splits)
        ultimately show ?thesis by (simp add: 1)
      qed
    qed
  next
    case 2
    note r = assms(2) [unfolded 2, simplified, unfolded tag_def store_record_metric_def]
    show ?thesis
    proof (cases "btm_get (metric_entries (shared_metrics s)) m")
      case (Some e)
      with 2 r set show ?thesis
        by (cases "metric_kind e") (auto intro: spec_step.record_histogram intro!: spec_step.record_value)
    qed (use 2 r in \<open>auto intro!: abs_steps(19)\<close>)
  next
    case 3
    note r = assms(2) [unfolded 3, simplified, unfolded tag_def store_increment_metric_def]
    show ?thesis
    proof (cases "btm_get (metric_entries (shared_metrics s)) m")
      case (Some e)
      let ?sum = "int (unat (metric_value e)) + sint d"
      have a: "a_metrics (abs_store s) m = Some (metric_kind e, metric_value e)" using Some by simp
      show ?thesis
      proof (cases "metric_kind e = Histogram \<or> metric_kind e = Counter \<and> sint d < 0 \<or> ?sum \<notin> {0..<2 ^ 64}")
        case True
        with 3 r Some spec_step.increment_refused [OF a True] show ?thesis
          by (auto simp: checked_add_signed_def Let_def split: if_splits)
      next
        case False
        then have u: "int (unat (of_int ?sum :: u64)) = ?sum"
          by (simp add: unsigned_of_int take_bit_int_eq_self del: of_int_add)
        have "r = Inr UnitResult" "s' = set_metric_value m (of_int ?sum) s"
          using False r Some by (auto simp: checked_add_signed_def Let_def)
        with 3 False spec_step.increment [OF a _ _ u] set [OF a] show ?thesis by auto
      qed
    qed (use 3 r in \<open>auto intro!: abs_steps(19)\<close>)
  next
    case 4
    note r = assms(2) [unfolded 4, simplified, unfolded tag_def store_get_metric_def]
    show ?thesis
    proof (cases "btm_get (metric_entries (shared_metrics s)) m")
      case (Some e)
      then have a: "a_metrics (abs_store s) m = Some (metric_kind e, metric_value e)" by simp
      from 4 r Some spec_step.get_value [OF a, of "store_limits_of s"] show ?thesis
        by (cases "metric_kind e") auto
    qed (use 4 r in \<open>auto intro!: abs_steps(19)\<close>)
  qed
qed

lemma store_exec_keeps:
  assumes "store_exec i op s = (r, s')" and "store_ok s"
  shows "store_ok s'" "store_limits_of s' = store_limits_of s"
    "spec_step (store_limits_of s) op r (abs_store s) (abs_store s')"
proof -
  show "store_ok s'" using assms by (rule store_ok_exec [rotated])
  show "store_limits_of s' = store_limits_of s"
    using assms(1) by (cases op; simp add: tag_def)
      (auto simp: store_get_shared_data_def store_set_shared_data_def store_register_queue_def store_resolve_queue_def
        store_enqueue_def store_dequeue_def store_define_metric_def store_record_metric_def
        store_increment_metric_def store_get_metric_def set_metric_value_def Let_def
        split: option.splits list.splits if_splits metric_type.splits)
  show "spec_step (store_limits_of s) op r (abs_store s) (abs_store s')"
  proof (cases op)
    case (GetData vm k)
    then show ?thesis by (intro refines_data [OF assms(2,1)]) blast
  next
    case (SetData vm k v cas)
    then show ?thesis by (intro refines_data [OF assms(2,1)]) blast
  qed (intro refines_queues [OF assms(2,1)] refines_metrics [OF assms(2,1)], blast)+
qed

section \<open>The store refines the service\<close>

fun spec_run ::
  "store_limits \<Rightarrow> (store_op \<times> (status + store_result)) list \<Rightarrow> abstract_store \<Rightarrow> abstract_store \<Rightarrow> bool" where
  "spec_run l [] A B \<longleftrightarrow> A = B"
| "spec_run l ((op, r) # trace) A C \<longleftrightarrow> (\<exists>B. spec_step l op r A B \<and> spec_run l trace B C)"

lemma run_refines:
  "run_ops (store_exec i) ops s = (trace, s') \<Longrightarrow> store_ok s \<Longrightarrow>
   spec_run (store_limits_of s) trace (abs_store s) (abs_store s')"
proof (induction ops arbitrary: s trace)
  case (Cons op ops)
  obtain r v where step: "store_exec i op s = (r, v)" by fastforce
  obtain rest where rest: "run_ops (store_exec i) ops v = (rest, s')" and trace: "trace = (op, r) # rest"
    using Cons.prems(1) step by (auto split: prod.splits)
  note k = store_exec_keeps [OF step Cons.prems(2)]
  with Cons.IH [OF rest k(1)] show ?case by (auto simp: trace)
qed simp

text \<open>
  C8. The in-memory store refines the shared services: whatever operations guests perform on a new
  store with whatever limits, in whatever order, the answers are answers the abstract service
  gives, through the abstractions of the states of the store. So the maps, the identifier tables
  and the item lists of the store together behave as one map of data with versions, one map of
  named queues and one of named metrics.
\<close>

theorem store_refines_service:
  assumes "run_ops (store_exec i) ops (with_store_limits l store_new) = (trace, s)"
  shows "spec_run l trace
    \<lparr>a_data = Map.empty, a_queue_names = Map.empty, a_queues = Map.empty, a_metric_names = Map.empty,
     a_metrics = Map.empty, queue_ids_left = True, metric_ids_left = True\<rparr> (abs_store s)"
proof -
  have "next_id 0 \<noteq> None" by (simp add: next_id_def u32_checked_add_def)
  then have "abs_store (with_store_limits l store_new) =
    \<lparr>a_data = Map.empty, a_queue_names = Map.empty, a_queues = Map.empty, a_metric_names = Map.empty,
     a_metrics = Map.empty, queue_ids_left = True, metric_ids_left = True\<rparr>"
    by (simp add: abs_store_def with_store_limits_def store_new_def fun_eq_iff)
  with run_refines [OF assms store_ok_new] show ?thesis
    by (simp add: with_store_limits_def)
qed

lemma store_refines_service_witness:
  "\<exists>A. spec_run store_limits_default
     [(RegisterQueue [1] [2], Inr (QueueResult (QueueId 1))), (Enqueue (QueueId 1) [7], Inr UnitResult),
      (Dequeue (QueueId 1), Inr (BytesResult [7]))]
     \<lparr>a_data = Map.empty, a_queue_names = Map.empty, a_queues = Map.empty, a_metric_names = Map.empty,
      a_metrics = Map.empty, queue_ids_left = True, metric_ids_left = True\<rparr> A"
proof -
  let ?i = "invocation_new (GuestId 1) (ContextId 1)"
  have "fst (run_ops (store_exec ?i) [RegisterQueue [1] [2], Enqueue (QueueId 1) [7], Dequeue (QueueId 1)]
      (with_store_limits store_limits_default store_new)) =
    [(RegisterQueue [1] [2], Inr (QueueResult (QueueId 1))), (Enqueue (QueueId 1) [7], Inr UnitResult),
      (Dequeue (QueueId 1), Inr (BytesResult [7]))]"
    by (simp add: with_store_limits_def store_new_def store_limits_default_def tag_def store_register_queue_def
        store_enqueue_def store_dequeue_def next_id_def u32_checked_add_def Let_def btm_get_def)
  with store_refines_service [where i = ?i and l = store_limits_default, OF prod.collapse [symmetric],
      of "[RegisterQueue [1] [2], Enqueue (QueueId 1) [7], Dequeue (QueueId 1)]"]
  show ?thesis by metis
qed

end
