(* ===== verification/Guest_Views.thy ===== *)
theory Guest_Views
  imports Host_Properties
begin

text \<open>
  What a guest sees of the values it reads and writes through its own memory: the whole way from
  the two words the guest gave, through the checks of the host function, the borrow of the stream
  state of the embedder and the guest's allocator, to the bytes the guest finds
  (\<open>host_functions/buffer.rs\<close>, \<open>header_map.rs\<close>). The stream state of the
  embedder is a parameter; what is used of it are the contracts of \<open>byte_buffer\<close> and
  \<open>header_multimap\<close>, which the vectors of the crate satisfy.
\<close>

section \<open>The common steps of a body\<close>

lemma split_step:
  "abind (from_error split_store) k w =
     (if st_memory w = None then (Inl (Unwind MissingMemory), w) else k () w)"
  by (simp add: abind_def amap_err_def split_store_def act_simps)

lemma check_step:
  "abind (check_u32 p) k w =
     (case mem_read_u32 (memory_of w) p of
        Inl e \<Rightarrow> (Inl (FStatus InvalidMemoryAccess), w) | Inr v \<Rightarrow> k () w)"
  by (simp add: check_u32_def abind_def amap_err_def mem_get_def act_simps split: sum.split)

lemma slice_step:
  "abind (arg_slice p n) k w =
     (if unat p + unat n < 2 ^ 32 then k \<lparr>sptr = p, slen = n\<rparr> w
      else (Inl (FStatus InvalidMemoryAccess), w))"
  by (simp add: arg_slice_def guest_slice_try_from_def guest_slice_new_cases guest_ptr_of_def
      abind_def act_simps failure_of_memory_def)

lemma read_step:
  "abind (read_slice sl) k w =
     (case mem_read (memory_of w) sl of
        Inl e \<Rightarrow> (Inl (FStatus InvalidMemoryAccess), w) | Inr bs \<Rightarrow> k bs w)"
  by (simp add: read_slice_def abind_def amap_err_def mem_get_def split: sum.split)

lemma pairs_step:
  "abind (guest_pairs bs) k w =
     (case decode_pairs bs (st_pair_limits w) of
        Inl e \<Rightarrow> (Inl (FStatus BadArgument), w) | Inr ps \<Rightarrow> k ps w)"
  by (simp add: guest_pairs_def abind_def act_simps failure_of_decode_def split: sum.split)

lemma known_step: "try_from v = Inr x \<Longrightarrow> abind (arg_enum try_from v) k w = k x w"
  by (rule arg_enum_known)

lemma lift_step:
  "abind (alift r) k w = (case r of Inl e \<Rightarrow> (Inl e, w) | Inr x \<Rightarrow> k x w)"
  "abind (atry f) k w = (case f w of Inl e \<Rightarrow> (Inl e, w) | Inr x \<Rightarrow> k x w)"
  "abind (aget g) k w = k (g w) w"
  "abind (aret x) k w = k x w"
  by (simp_all add: abind_def act_simps split: sum.split)

lemmas body_steps = split_step check_step slice_step read_step pairs_step lift_step

lemma from_error_eq:
  "from_error m w = (case m w of (Inl e, v) \<Rightarrow> (Inl (failure_of_error e), v) | (Inr x, v) \<Rightarrow> (Inr x, v))"
  by (cases "fst (m w)"; cases "m w") (auto simp: amap_err_def)

lemma error_step:
  "abind (from_error m) k w =
     (case m w of (Inl e, v) \<Rightarrow> (Inl (failure_of_error e), v) | (Inr x, v) \<Rightarrow> k x v)"
  by (simp add: abind_def from_error_eq split: prod.split sum.split)

text \<open>A step that answers and leaves the state.\<close>

lemma quiet_step: "m w = (Inr x, w) \<Longrightarrow> abind m k w = k x w"
  by (simp add: abind_def)

text \<open>A hand-over succeeds when the allocator answers an address with room and the words are in the memory.\<close>

lemma mem_write_ok:
  "unat p + length bs \<le> length m \<Longrightarrow> length m < 2 ^ 31 \<Longrightarrow>
   \<exists>m'. mem_write m \<lparr>sptr = p, slen = of_nat (length bs)\<rparr> bs = Inr m' \<and> length m' = length m"
  by (simp add: mem_write_eq in_memory_def)

lemma mem_write_u32_ok:
  "unat p + 4 \<le> length m \<Longrightarrow> length m < 2 ^ 31 \<Longrightarrow> \<exists>m'. mem_write_u32 m p v = Inr m' \<and> length m' = length m"
  using mem_write_ok [of p "u32_to_le_bytes v" m] by (simp add: mem_write_u32_Inr)

lemma mem_read_u32_ok: "unat p + 4 \<le> length m \<Longrightarrow> length m < 2 ^ 31 \<Longrightarrow> \<exists>v. mem_read_u32 m p = Inr v"
  by (simp add: mem_read_u32_def guest_slice_new_cases mem_read_eq in_memory_def)

lemma write_return_succeeds:
  assumes m: "st_memory w = Some m" "length m < 2 ^ 31" and w: "\<not> st_poisoned w" "st_allocator w"
    and p: "p \<noteq> 0" "unat p + length bs \<le> length m" and ds: "unat d + 4 \<le> length m" "unat s + 4 \<le> length m"
  shows "\<exists>m'. write_return (\<lambda>_ w. (Inr p, w)) bs d s w = (Inr (), w\<lparr>st_memory := Some m'\<rparr>) \<and> length m' = length m"
proof -
  have len: "u32_try_from_usize (length bs) = Some (of_nat (length bs))" "length bs < 2 ^ 31"
    using m(2) p(2) by (simp_all add: u32_try_from_usize_def)
  then have n: "unat (of_nat (length bs) :: u32) = length bs" by simp
  obtain sl m1 where c: "write_to_guest (\<lambda>_ w. (Inr p, w)) bs w = (Inr sl, w\<lparr>st_memory := Some m1\<rparr>)" "length m1 = length m"
  proof (cases "bs = []")
    case True
    with len m(1) that [of "\<lparr>sptr = 0, slen = 0\<rparr>" m] show ?thesis
      by (simp add: write_to_guest_def abind_def act_simps slice_get_def guest_slice_new_cases)
  next
    case False
    obtain m1 where m1: "mem_write m \<lparr>sptr = p, slen = of_nat (length bs)\<rparr> bs = Inr m1" "length m1 = length m"
      using mem_write_ok [OF p(2) m(2)] by blast
    have "of_nat (length bs) \<noteq> (0 :: u32)" using n False by (metis length_0_conv unat_0)
    with m1 len n m w p that [of "\<lparr>sptr = p, slen = of_nat (length bs)\<rparr>" m1] show ?thesis
      by (simp add: write_to_guest_def abind_def act_simps allocate_def i32_try_from_u32_def guest_ptr_of_def slice_get_def
          guest_slice_new_cases split_store_def mem_put_def memory_of_def)
  qed
  obtain m2 where m2: "mem_write_u32 m1 d (sptr sl) = Inr m2" "length m2 = length m"
    using mem_write_u32_ok [of d m1 "sptr sl"] ds c(2) m(2) by auto
  obtain m3 where m3: "mem_write_u32 m2 s (slen sl) = Inr m3" "length m3 = length m"
    using mem_write_u32_ok [of s m2 "slen sl"] ds m2(2) m(2) by auto
  obtain x y where xy: "mem_read_u32 m d = Inr x" "mem_read_u32 m s = Inr y"
    using mem_read_u32_ok ds m(2) by blast
  with c m2 m3 m(1) show ?thesis
    by (intro exI [of _ m3]) (simp add: write_return_def write_optional_return_def abind_def act_simps split_store_def check_return_def
        mem_get_def mem_put_def memory_of_def)
qed

section \<open>The stream state a guest serves\<close>

text \<open>
  The host lends the guest a resource of its stream while a context is in effect that was not
  refused and the stream state is there.
\<close>

definition serving :: "('e, 'h, 'g) store \<Rightarrow> context_id \<Rightarrow> 'h stream_ops \<Rightarrow> 'h \<Rightarrow> bool" where
  "serving w ctx ops h \<longleftrightarrow>
     effective (contexts w) = Some ctx \<and> rejection_of (contexts w) ctx = None \<and>
     stream_state_of (st_abi w) = Some (ops, h)"

definition set_stream_value :: "'h \<Rightarrow> ('e, 'h, 'g) store \<Rightarrow> ('e, 'h, 'g) store" where
  "set_stream_value h = set_abi (\<lambda>a. a\<lparr>stream_state_of := map_option (\<lambda>(ops, _). (ops, h)) (stream_state_of a)\<rparr>)"

lemma set_stream_value_simps [simp]:
  "serving w ctx ops h \<Longrightarrow> serving (set_stream_value h' w) ctx ops h'"
  "invocation_of (set_stream_value h' w) ctx = invocation_of w ctx"
  "st_memory (set_stream_value h' w) = st_memory w"
  "st_pair_limits (set_stream_value h' w) = st_pair_limits w"
  "memory_of (set_stream_value h' w) = memory_of w"
  "set_stream_value h (set_stream_value h' w) = set_stream_value h w"
  by (simp_all add: serving_def set_stream_value_def set_abi_def invocation_of_def memory_of_def Let_def
      option.map_comp comp_def case_prod_unfold split: option.split)

lemma set_stream_value_same: "serving w ctx ops h \<Longrightarrow> set_stream_value h w = w"
  by (simp add: serving_def set_stream_value_def set_abi_def)

lemma with_stream_serving:
  "serving w ctx ops h \<Longrightarrow> with_stream absent w = (Inr (invocation_of w ctx, ops), w)"
  by (simp add: serving_def with_stream_def context_of_def abind_def act_simps)

lemma stream_call_serving:
  "serving w ctx ops h \<Longrightarrow> stream_call absent f w = (Inr (fst (f h)), set_stream_value (snd (f h)) w)"
  by (simp add: serving_def stream_call_def on_stream_def abind_def act_simps set_stream_value_def set_abi_def
      case_prod_unfold Let_def)

lemma stream_call_quiet:
  assumes "serving w ctx ops h" and "f h = (r, h)"
  shows "stream_call absent f w = (Inr r, w)"
  using stream_call_serving [OF assms(1), of absent f] set_stream_value_same [OF assms(1)] assms(2) by simp

text \<open>A store with one context in effect that serves a stream state, for the witnesses.\<close>

definition viewing_store :: "bytes \<Rightarrow> 'h stream_ops \<Rightarrow> 'h \<Rightarrow> (unit, 'h, unit) store" where
  "viewing_store mem ops h =
     set_abi (\<lambda>a. a\<lparr>contexts_of := (snd (ctx_create None context_table_new))\<lparr>effective := Some (ContextId 1)\<rparr>,
         stream_state_of := Some (ops, h)\<rparr>)
       (set_guest_limits limits_default (host_state_new (abi_state_new (GuestId 1) sample_services) () ())
          \<lparr>st_memory := Some mem, st_allocator := True\<rparr>)"

lemma viewing_store_simps [simp]:
  "serving (viewing_store mem ops h) (ContextId 1) ops h"
  "st_memory (viewing_store mem ops h) = Some mem" "memory_of (viewing_store mem ops h) = mem"
  "\<not> st_poisoned (viewing_store mem ops h)" "st_allocator (viewing_store mem ops h)"
  "services (viewing_store mem ops h) = sample_services" "announced (st_abi (viewing_store mem ops h)) = None"
  by (simp_all add: viewing_store_def serving_def set_abi_def ctx_create_def context_table_new_def rejection_of_def
      set_guest_limits_def host_state_new_def abi_state_new_def u32_checked_add_def btm_get_def memory_of_def
      is_rejected_def root_of_def Let_def)

definition body_stream :: "bytes stream_ops" where
  "body_stream = stream_ops_default\<lparr>ss_buffer := \<lambda>_ _ _ h. (Inr vec_buffer_ops, h)\<rparr>"

section \<open>Buffers\<close>

text \<open>
  The bytes behind a source: those of the crate, or what the buffer of the stream state contains,
  where \<open>content\<close> is the reading of a buffer of the embedder.
\<close>

definition source_bytes :: "('h buffer_ops \<Rightarrow> 'h \<Rightarrow> bytes) \<Rightarrow> 'h source \<Rightarrow> ('e, 'h, 'g) store \<Rightarrow> bytes" where
  "source_bytes content src w =
     (case src of
        CrateBytes bs \<Rightarrow> bs
      | StreamBuffer ops \<Rightarrow>
          (case stream_state_of (st_abi w) of Some (_, h) \<Rightarrow> content ops h | None \<Rightarrow> []))"

definition lawful_source :: "('h buffer_ops \<Rightarrow> 'h \<Rightarrow> bytes) \<Rightarrow> 'h source \<Rightarrow> ('e, 'h, 'g) store \<Rightarrow> bool" where
  "lawful_source content src w \<longleftrightarrow>
     length (source_bytes content src w) \<le> usize_max \<and>
     (\<forall>ops. src = StreamBuffer ops \<longrightarrow> byte_buffer ops (content ops))"

lemma with_stream_Inr:
  "with_stream absent w = (Inr (call, ops), v) \<Longrightarrow>
   v = w \<and> (\<exists>ctx h. serving w ctx ops h \<and> call = invocation_of w ctx)"
  by (auto simp: with_stream_def context_of_def act_simps serving_def abind_def split: option.splits sum.splits if_splits)

lemma read_buffer_stream:
  assumes "read_buffer bt w = (Inr (StreamBuffer bops), v)"
  shows "\<exists>ctx ops h. serving v ctx ops h"
proof -
  obtain call ops u u' r where w: "with_stream NotFound u' = (Inr (call, ops), u)"
    and c: "stream_call NotFound (ss_buffer ops call Read bt) u = (Inr r, v)"
    using assms
    by (auto simp: read_buffer_def act_simps elim!: abind_InrE
        split: served.splits crate_buffer.splits option.splits sum.splits prod.splits)
  from with_stream_Inr [OF w] obtain ctx h where s: "serving u ctx ops h" by blast
  have "v = set_stream_value (snd (ss_buffer ops call Read bt h)) u"
    using c by (simp add: stream_call_serving [OF s])
  with set_stream_value_simps(1) [OF s] show ?thesis by blast
qed

lemma source_len_lawful:
  assumes "lawful_source content src v" and "\<And>ops. src = StreamBuffer ops \<Longrightarrow> \<exists>ctx sops h. serving v ctx sops h"
  shows "source_len src v = (Inr (length (source_bytes content src v)), v)"
proof (cases src)
  case (StreamBuffer ops)
  with assms obtain ctx sops h where s: "serving v ctx sops h" and b: "byte_buffer ops (content ops)"
    unfolding lawful_source_def by blast
  have "source_len src v = (Inr (buf_len ops h), v)"
    unfolding source_len_def StreamBuffer source.case by (rule stream_call_quiet [OF s]) simp
  with s StreamBuffer byte_buffer.len_ok [OF b] show ?thesis
    by (simp add: source_bytes_def serving_def)
qed (simp add: source_len_def source_bytes_def act_simps)

lemma source_copy_lawful:
  assumes "lawful_source content src v" and "\<And>ops. src = StreamBuffer ops \<Longrightarrow> \<exists>ctx sops h. serving v ctx sops h"
    and "first \<le> length (source_bytes content src v)"
  shows "source_copy_range src first sz v = (Inr (take sz (drop first (source_bytes content src v))), v)"
proof -
  let ?bs = "source_bytes content src v" and ?rg = "clamp_range (length (source_bytes content src v)) first sz"
  have n: "length ?bs \<le> usize_max" using assms(1) by (simp add: lawful_source_def)
  have rg: "?rg = (first, min (first + sz) (length ?bs))" using clamp_range_eq [OF n] assms(3) by simp
  have cut: "slice_of ?bs ?rg = take sz (drop first ?bs)"
    unfolding rg by (simp add: slice_of_def min_def)
  have step: "source_copy_range src first sz v = (case src of CrateBytes bs \<Rightarrow> aret (slice_of bs ?rg)
     | StreamBuffer ops \<Rightarrow> stream_call NotFound (\<lambda>h. (buf_copy_range_into ops h (fst ?rg) (snd ?rg - fst ?rg) [], h))) v"
    using quiet_step [where m = "source_len src", OF source_len_lawful [OF assms(1)]] assms(2)
    by (simp add: source_copy_range_def Let_def)
  show ?thesis
  proof (cases src)
    case (CrateBytes bs)
    with step cut show ?thesis by (simp add: source_bytes_def act_simps)
  next
    case (StreamBuffer ops)
    with assms obtain ctx sops h where s: "serving v ctx sops h" and b: "byte_buffer ops (content ops)"
      unfolding lawful_source_def by blast
    have bs: "?bs = content ops h" using s StreamBuffer by (simp add: source_bytes_def serving_def)
    have "buf_copy_range_into ops h (fst ?rg) (snd ?rg - fst ?rg) [] = take sz (drop first ?bs)"
      using byte_buffer.copy_clamped [OF b, of h first sz "fst ?rg" "snd ?rg"] n cut
      by (simp add: bs copy_range_def byte_buffer.len_ok [OF b])
    with step StreamBuffer show ?thesis by (simp add: stream_call_quiet [OF s])
  qed
qed

lemma get_buffer_bytes_eq:
  assumes bt: "buffer_type_try_from i = Inr bt"
    and lawful: "\<forall>src v. read_buffer bt w = (Inr src, v) \<longrightarrow> lawful_source content src v"
  shows "proxy_get_buffer_bytes alloc i first count d s w =
      (if st_memory w = None then (Inl (Unwind MissingMemory), w)
       else if (\<exists>p \<in> {d, s}. \<exists>m. mem_read_u32 (memory_of w) p = Inl m) then (Inl (FStatus InvalidMemoryAccess), w)
       else (case read_buffer bt w of
          (Inl e, v) \<Rightarrow> (Inl e, v)
        | (Inr src, v) \<Rightarrow>
            if length (source_bytes content src v) < unat first then (Inl (FStatus BadArgument), v)
            else from_error (write_return alloc
              (take (unat count) (drop (unat first) (source_bytes content src v))) d s) v))"
proof (cases "read_buffer bt w")
  case (Pair r v)
  have tail: "abind (source_len src) (\<lambda>len.
      if unat first > len then afail (FStatus BadArgument)
      else abind (source_copy_range src (unat first) (unat count)) (\<lambda>bs.
        from_error (write_return alloc bs d s))) v =
    (if length (source_bytes content src v) < unat first then (Inl (FStatus BadArgument), v)
     else from_error (write_return alloc
       (take (unat count) (drop (unat first) (source_bytes content src v))) d s) v)" if "r = Inr src" for src
  proof -
    have l: "lawful_source content src v" using lawful Pair that by simp
    have m: "\<exists>ctx sops h. serving v ctx sops h" if "src = StreamBuffer ops" for ops
      using read_buffer_stream Pair that \<open>r = Inr src\<close> by blast
    show ?thesis
      using source_len_lawful [OF l m] source_copy_lawful [OF l m, where first = "unat first" and sz = "unat count"]
      by (simp add: quiet_step act_simps)
  qed
  show ?thesis
    unfolding proxy_get_buffer_bytes_def known_step [of buffer_type_try_from, OF bt] Let_def as_usize_def guest_ptr_of_def
    using Pair tail by (cases r) (auto simp: body_steps abind_Inl abind_Inr split: sum.split)
qed

text \<open>
  C9. A read of a buffer, from the two words of the guest to the bytes it finds. The read succeeds only
  when the source of the buffer is lent and the start is not past its end, and then the guest finds
  at its two words exactly the bytes from the start, at most as many as it asked for and never past
  the end, whatever the size. Every failure is one of five, each with its status and with what was
  changed by then: a guest without a memory; a word outside the memory, where nothing was asked; the
  refusal of the source; a start past the end; or the failure of the hand-over, in the allocator of
  the guest.
\<close>

theorem get_buffer_bytes_spec:
  assumes bt: "buffer_type_try_from i = Inr bt"
    and dis: "slices_disjoint \<lparr>sptr = d, slen = 4\<rparr> \<lparr>sptr = s, slen = 4\<rparr>"
    and lawful: "\<forall>src v. read_buffer bt w = (Inr src, v) \<longrightarrow> lawful_source content src v"
  shows "case proxy_get_buffer_bytes alloc i first count d s w of
      (Inr u, w') \<Rightarrow>
        \<exists>src v. read_buffer bt w = (Inr src, v) \<and> unat first \<le> length (source_bytes content src v) \<and>
          hands_over (memory_of w') d s (take (unat count) (drop (unat first) (source_bytes content src v)))
    | (Inl e, w') \<Rightarrow>
        (st_memory w = None \<and> e = Unwind MissingMemory \<and> w' = w) \<or>
        ((\<exists>p \<in> {d, s}. \<exists>m. mem_read_u32 (memory_of w) p = Inl m) \<and> e = FStatus InvalidMemoryAccess \<and> w' = w) \<or>
        read_buffer bt w = (Inl e, w') \<or>
        (\<exists>src. read_buffer bt w = (Inr src, w') \<and> length (source_bytes content src w') < unat first \<and>
           e = FStatus BadArgument) \<or>
        (\<exists>src v err. read_buffer bt w = (Inr src, v) \<and>
           write_return alloc (take (unat count) (drop (unat first) (source_bytes content src v))) d s v = (Inl err, w') \<and>
           e = failure_of_error err)"
  unfolding get_buffer_bytes_eq [OF bt lawful]
  by (auto simp: from_error_eq split: prod.split sum.split dest: write_return_hands_over [OF dis])

section \<open>A buffer written and read back\<close>

text \<open>What the stream lends for the type, whatever its value: the same buffer for a read and a write.\<close>

definition lends_buffer :: "'h stream_ops \<Rightarrow> invocation \<Rightarrow> buffer_type \<Rightarrow> 'h buffer_ops \<Rightarrow> bool" where
  "lends_buffer ops call bt bops \<longleftrightarrow> (\<forall>access h. ss_buffer ops call access bt h = (Inr bops, h))"

lemma on_abi_get_announced:
  "serving w ctx ops h \<Longrightarrow> \<exists>r v. on_abi_get (take_announced bt) w = (Inr r, v) \<and> serving v ctx ops h \<and>
     invocation_of v ctx = invocation_of w ctx \<and> (announced (st_abi w) = None \<longrightarrow> v = w)"
  by (auto simp: on_abi_get_def take_announced_def serving_def invocation_of_def Let_def split: option.split)

lemma read_buffer_lent:
  assumes "buffer_served bt = EmbedderServes" and s: "serving w ctx ops h"
    and l: "lends_buffer ops (invocation_of w ctx) bt bops"
  shows "\<exists>v. read_buffer bt w = (Inr (StreamBuffer bops), v) \<and> serving v ctx ops h \<and>
    (announced (st_abi w) = None \<longrightarrow> v = w)"
proof -
  obtain r v where v: "on_abi_get (take_announced bt) w = (Inr r, v)" "serving v ctx ops h"
    "invocation_of v ctx = invocation_of w ctx" "announced (st_abi w) = None \<longrightarrow> v = w"
    using on_abi_get_announced [OF s, of bt] by (elim exE conjE)
  have "stream_call NotFound (ss_buffer ops (invocation_of w ctx) Read bt) v = (Inr (Inr bops), v)"
    using l by (intro stream_call_quiet [OF v(2)]) (simp add: lends_buffer_def)
  with v assms(1) show ?thesis
    by (simp add: read_buffer_def abind_Inr with_stream_serving from_embedder_def act_simps)
qed

lemma write_buffer_lent:
  assumes "buffer_served bt = EmbedderServes" and s: "serving w ctx ops h"
    and l: "lends_buffer ops (invocation_of w ctx) bt bops"
  shows "write_buffer bt w = (Inr bops, w)"
proof -
  have "stream_call NotFound (ss_buffer ops (invocation_of w ctx) Write bt) w = (Inr (Inr bops), w)"
    using l by (intro stream_call_quiet [OF s]) (simp add: lends_buffer_def)
  with assms(1) show ?thesis
    by (simp add: write_buffer_def abind_Inr with_stream_serving [OF s] from_embedder_def act_simps)
qed

lemma length_splice_le:
  "length (take a bs @ v @ drop b bs) \<le> length bs + length v" if "a \<le> b"
  using that by simp

lemma mem_read_short: "mem_read mem \<lparr>sptr = p, slen = n\<rparr> = Inr v \<Longrightarrow> length v = unat n"
  by (auto dest: mem_read_length)

text \<open>The write, in one equation: what the borrow is asked to do and what the store is afterwards.\<close>

lemma set_buffer_bytes_eq:
  assumes bt: "buffer_type_try_from i = Inr bt" "buffer_served bt = EmbedderServes"
    and s: "serving w ctx ops h" and l: "lends_buffer ops (invocation_of w ctx) bt bops"
  shows "proxy_set_buffer_bytes i first n p sz w =
    (if 2 ^ 32 \<le> unat p + unat sz then (Inl (FStatus InvalidMemoryAccess), w)
     else if st_memory w = None then (Inl (Unwind MissingMemory), w)
     else (case mem_read (memory_of w) \<lparr>sptr = p, slen = sz\<rparr> of
        Inl e \<Rightarrow> (Inl (FStatus InvalidMemoryAccess), w)
      | Inr v \<Rightarrow>
          (let rg = clamp_range (buf_len bops h) (unat first) (unat n);
               (r, h') = buf_replace bops h (fst rg) (snd rg - fst rg) v
           in (map_sum (\<lambda>_. FStatus NotFound) id r, set_stream_value h' w))))"
  unfolding proxy_set_buffer_bytes_def known_step [of buffer_type_try_from, OF bt(1)] Let_def as_usize_def
  by (simp add: body_steps quiet_step [where m = "write_buffer bt", OF write_buffer_lent [OF bt(2) s l]]
        abind_Inr [where m = "stream_call NotFound f" for f, OF stream_call_serving [OF s]]
        set_stream_value_same [OF s] refused_def act_simps case_prod_unfold split: sum.split)

text \<open>
  C10. What a guest writes into a buffer of its stream is what it reads back. A write that succeeds took
  the bytes at the guest's slice, replaced with them exactly the part of the buffer from the start
  to the start plus the size, both cut at the end, and changed nothing of the store but the stream
  state; a read from the clamped start, as many bytes as were written, then hands over exactly the
  written bytes, wherever the allocator of the guest puts them. A write that fails gave the status
  of an access outside the memory, with the store unchanged, or that of a buffer the stream will
  not change.
\<close>

theorem buffer_write_read_back:
  assumes bt: "buffer_type_try_from i = Inr bt" "buffer_served bt = EmbedderServes"
    and s: "serving w ctx ops h" and l: "lends_buffer ops (invocation_of w ctx) bt bops"
    and lawful: "byte_buffer bops content" and small: "length (content h) < 2 ^ 63"
  shows "case proxy_set_buffer_bytes i first n p sz w of
      (Inr u, w') \<Rightarrow>
        \<exists>v h'. mem_read (memory_of w) \<lparr>sptr = p, slen = sz\<rparr> = Inr v \<and> w' = set_stream_value h' w \<and>
          content h' = take (unat first) (content h) @ v @ drop (unat first + unat n) (content h) \<and>
          (\<forall>alloc d q w''. slices_disjoint \<lparr>sptr = d, slen = 4\<rparr> \<lparr>sptr = q, slen = 4\<rparr> \<longrightarrow>
             proxy_get_buffer_bytes alloc i (of_nat (min (unat first) (length (content h)))) sz d q w' = (Inr (), w'') \<longrightarrow>
             hands_over (memory_of w'') d q v)
    | (Inl e, w') \<Rightarrow>
        e \<in> {FStatus InvalidMemoryAccess, Unwind MissingMemory} \<and> w' = w \<or>
        e = FStatus NotFound \<and> (\<exists>h'. w' = set_stream_value h' w)"
proof -
  let ?len = "length (content h)" and ?slice = "\<lparr>sptr = p, slen = sz\<rparr>"
  have big: "?len \<le> usize_max" using small by (simp add: usize_max_def)
  define a b where ab: "a = min (unat first) ?len" "b = min (unat first + unat n) ?len"
  have rg: "clamp_range (buf_len bops h) (unat first) (unat n) = (a, b)"
    by (simp add: byte_buffer.len_ok [OF lawful] clamp_range_eq [OF big] ab)
  have read: "hands_over (memory_of w'') d q v"
    if v: "mem_read (memory_of w) ?slice = Inr v" and h': "content h' = take a (content h) @ v @ drop b (content h)"
      and dis: "slices_disjoint \<lparr>sptr = d, slen = 4\<rparr> \<lparr>sptr = q, slen = 4\<rparr>"
      and g: "proxy_get_buffer_bytes alloc i (of_nat a) sz d q (set_stream_value h' w) = (Inr (), w'')"
    for v h' alloc d q w''
  proof -
    let ?w = "set_stream_value h' w"
    have n: "length v = unat sz" using mem_read_short [OF v] .
    obtain u where u: "read_buffer bt ?w = (Inr (StreamBuffer bops), u)" "serving u ctx ops h'"
      using read_buffer_lent [OF bt(2) set_stream_value_simps(1) [OF s]] l by auto
    have bytes: "source_bytes (\<lambda>_. content) (StreamBuffer bops) u = content h'"
      using u(2) by (simp add: source_bytes_def serving_def)
    have "length (content h') \<le> ?len + length v"
      unfolding h' by (rule length_splice_le) (simp add: ab)
    then have "length (content h') \<le> usize_max"
      using small n unat_u32_bound [of sz] by (simp add: usize_max_def)
    then have law: "\<forall>src v. read_buffer bt ?w = (Inr src, v) \<longrightarrow> lawful_source (\<lambda>_. content) src v"
      using u bytes lawful by (simp add: lawful_source_def)
    have unat_a: "unat (of_nat a :: u32) = a"
      unfolding ab by (intro unat_of_nat_u32) (use unat_u32_less [of first] in linarith)
    have "take (unat sz) (drop a (content h')) = v"
      unfolding h' using n by (simp add: ab)
    with g write_return_hands_over [OF dis, of alloc v u w''] show ?thesis
      unfolding get_buffer_bytes_eq [OF bt(1) law]
      by (auto simp: u(1) bytes unat_a from_error_eq split: if_splits prod.splits sum.splits)
  qed
  have take_drop: "take a (content h) = take (unat first) (content h)" "drop b (content h) = drop (unat first + unat n) (content h)"
    by (simp_all add: ab min_def)
  show ?thesis
  proof (cases "mem_read (memory_of w) ?slice")
    case (Inr v)
    obtain r h' where rep: "buf_replace bops h a (b - a) v = (r, h')" by fastforce
    have "content h' = take a (content h) @ v @ drop b (content h)" if "r = Inr ()"
      using byte_buffer.replace_ok [OF lawful big, of a "b - a" v h'] rep that clamp_range_idem [OF big, of "unat first" "unat n" a b] rg
      by (simp add: byte_buffer.len_ok [OF lawful] splice_def)
    with Inr rep read [OF Inr] take_drop show ?thesis
      by (cases r) (auto simp: set_buffer_bytes_eq [OF bt s l] rg ab(1) [symmetric])
  qed (simp add: set_buffer_bytes_eq [OF bt s l])
qed

lemma get_buffer_bytes_spec_witness:
  "\<exists>w'. proxy_get_buffer_bytes (\<lambda>_ w. (Inr 16, w)) (buffer_type_code HttpRequestBody) 1 9 0 4
     (viewing_store (replicate 64 0) body_stream [1, 2, 3]) = (Inr (), w') \<and> hands_over (memory_of w') 0 4 [2, 3]"
proof -
  let ?w = "viewing_store (replicate 64 0) body_stream [1, 2, 3]"
  have bt: "buffer_type_try_from (buffer_type_code HttpRequestBody) = Inr HttpRequestBody"
    by (simp only: buffer_type_try_from_def BufferType.round_trip)
  have "buffer_served HttpRequestBody = EmbedderServes" by (simp add: buffer_served_def)
  moreover have v: "serving ?w (ContextId 1) body_stream [1, 2, 3]" by simp
  moreover have "lends_buffer body_stream (invocation_of ?w (ContextId 1)) HttpRequestBody vec_buffer_ops"
    by (simp add: lends_buffer_def body_stream_def)
  ultimately have r: "read_buffer HttpRequestBody ?w = (Inr (StreamBuffer vec_buffer_ops), ?w)"
    using read_buffer_lent by fastforce
  have bytes: "source_bytes (\<lambda>_ h. h) (StreamBuffer vec_buffer_ops) ?w = [1, 2, 3]"
    using v by (simp add: source_bytes_def serving_def)
  have law: "\<forall>src v. read_buffer HttpRequestBody ?w = (Inr src, v) \<longrightarrow> lawful_source (\<lambda>_ h. h) src v"
    using r v bytes vbuf.byte_buffer_axioms by (simp add: lawful_source_def usize_max_def)
  have "fst (proxy_get_buffer_bytes (\<lambda>_ w. (Inr 16, w)) (buffer_type_code HttpRequestBody) 1 9 0 4 ?w) = Inr ()"
    unfolding get_buffer_bytes_eq [OF bt law] r
    using write_return_succeeds [of ?w "replicate 64 0" 16 "[2, 3]" 0 4]
      mem_read_u32_ok [of 0 "replicate 64 0"] mem_read_u32_ok [of 4 "replicate 64 0"]
    by (auto simp: bytes from_error_eq)
  moreover have "slices_disjoint \<lparr>sptr = 0, slen = 4\<rparr> \<lparr>sptr = 4, slen = 4\<rparr>" by (simp add: slices_disjoint_def)
  ultimately show ?thesis
    using get_buffer_bytes_spec [OF bt _ law, where d = 0 and s = 4 and alloc = "\<lambda>_ w. (Inr 16, w)" and first = 1
        and count = 9] r bytes
    by (cases "proxy_get_buffer_bytes (\<lambda>_ w. (Inr 16, w)) (buffer_type_code HttpRequestBody) 1 9 0 4 ?w") auto
qed

lemma buffer_write_read_back_witness:
  "proxy_set_buffer_bytes (buffer_type_code HttpRequestBody) 1 1 4 2
     (viewing_store [0, 0, 0, 0, 7, 9, 0, 0] body_stream [1, 2, 3]) =
   (Inr (), set_stream_value [1, 7, 9, 3] (viewing_store [0, 0, 0, 0, 7, 9, 0, 0] body_stream [1, 2, 3]))"
proof -
  let ?w = "viewing_store [0, 0, 0, 0, 7, 9, 0, 0] body_stream [1, 2, 3]"
  have bt: "buffer_type_try_from (buffer_type_code HttpRequestBody) = Inr HttpRequestBody" "buffer_served HttpRequestBody = EmbedderServes"
    by (simp only: buffer_type_try_from_def BufferType.round_trip) (simp add: buffer_served_def)
  have s: "serving ?w (ContextId 1) body_stream [1, 2, 3]" by simp
  have l: "lends_buffer body_stream (invocation_of ?w (ContextId 1)) HttpRequestBody vec_buffer_ops"
    by (simp add: lends_buffer_def body_stream_def)
  have m: "mem_read (memory_of ?w) \<lparr>sptr = 4, slen = 2\<rparr> = Inr [7, 9]"
    by (simp add: mem_read_eq in_memory_def)
  have "fst (proxy_set_buffer_bytes (buffer_type_code HttpRequestBody) 1 1 4 2 ?w) = Inr ()"
    unfolding set_buffer_bytes_eq [OF bt s l] m by (simp add: vec_buffer_ops_def vec_replace_def Let_def)
  with buffer_write_read_back [OF bt s l vbuf.byte_buffer_axioms, where first = 1 and n = 1 and p = 4 and sz = 2] m show ?thesis
    by (cases "proxy_set_buffer_bytes (buffer_type_code HttpRequestBody) 1 1 4 2 ?w") auto
qed

end
