(* ===== verification/Header_Views.thy ===== *)
theory Header_Views
  imports Guest_Views
begin

text \<open>
  What a guest sees of a header map of its stream through its own memory
  (\<open>host_functions/header_map.rs\<close> over \<open>codec/pairs.rs\<close>): the values it
  writes and reads one at a time, and the serialized map it writes and reads back. The map of the
  embedder is a parameter with the contract of \<open>header_multimap\<close>.
\<close>

section \<open>The borrow of a map\<close>

definition lends_map :: "'h stream_ops \<Rightarrow> invocation \<Rightarrow> map_type \<Rightarrow> 'h header_map_ops \<Rightarrow> bool" where
  "lends_map ops call ty mops \<longleftrightarrow> (\<forall>access h. ss_header_map ops call access ty h = (Inr mops, h))"

lemma host_map_lent:
  assumes "map_served ty = EmbedderServes" and s: "serving w ctx ops h"
    and l: "lends_map ops (invocation_of w ctx) ty mops"
  shows "host_map ty access w = (Inr (StreamRef mops), w)"
proof -
  have "stream_call BadArgument (ss_header_map ops (invocation_of w ctx) access ty) w = (Inr (Inr mops), w)"
    using l by (intro stream_call_quiet [OF s]) (simp add: lends_map_def)
  with assms(1) show ?thesis
    by (simp add: host_map_def abind_Inr with_stream_serving [OF s] from_embedder_def act_simps)
qed

lemma map_read_serving:
  "serving w ctx ops h \<Longrightarrow> map_read f g (StreamRef mops) w = (Inr (g mops h), w)"
  by (simp add: map_read_def stream_call_quiet)

lemma map_write_serving:
  assumes "serving w ctx ops h"
  shows "map_write wr (StreamRef mops) w =
    (map_sum failure_of_not_allowed id (fst (apply_write mops wr h)), set_stream_value (snd (apply_write mops wr h)) w)"
  by (simp add: map_write_def abind_Inr [where m = "stream_call BadArgument f" for f, OF stream_call_serving [OF assms]]
      act_simps)

section \<open>Values\<close>

text \<open>
  What the reads of single values of a map answer when the map reads as \<open>f\<close>: a word outside the
  memory and an absent key are refused without a change, and a present value is handed over, unless
  the hand-over itself fails in the allocator of the guest.
\<close>

definition reads_as :: "i32 \<Rightarrow> ('e, 'h, 'g) store \<Rightarrow> (bytes \<Rightarrow> bytes option) \<Rightarrow> bool" where
  "reads_as i w f \<longleftrightarrow>
     (\<forall>alloc kp kn k d s.
        unat kp + unat kn < 2 ^ 32 \<longrightarrow> mem_read (memory_of w) \<lparr>sptr = kp, slen = kn\<rparr> = Inr k \<longrightarrow>
        slices_disjoint \<lparr>sptr = d, slen = 4\<rparr> \<lparr>sptr = s, slen = 4\<rparr> \<longrightarrow>
        (let r = proxy_get_header_map_value alloc i kp kn d s w in
         if \<exists>p \<in> {d, s}. \<exists>m. mem_read_u32 (memory_of w) p = Inl m then r = (Inl (FStatus InvalidMemoryAccess), w)
         else (case f k of
            None \<Rightarrow> r = (Inl (FStatus NotFound), w)
          | Some v \<Rightarrow>
              (case r of
                 (Inr u, w') \<Rightarrow> hands_over (memory_of w') d s v
               | (Inl e, w') \<Rightarrow> \<exists>err. write_return alloc v d s w = (Inl err, w') \<and> e = failure_of_error err))))"

lemma mem_read_memory:
  "mem_read (memory_of w) t = Inr k \<Longrightarrow> st_memory w = None \<Longrightarrow> slen t = 0"
  by (auto simp: mem_read_eq memory_of_def in_memory_def unat_eq_0 split: if_splits)

lemma reads_as_lent:
  assumes ty: "map_type_try_from i = Inr ty" "map_served ty = EmbedderServes"
    and s: "serving w ctx ops h" and l: "lends_map ops (invocation_of w ctx) ty mops" and m: "st_memory w \<noteq> None"
  shows "reads_as i w (hm_get mops h)"
  unfolding reads_as_def Let_def
proof (intro allI impI)
  fix alloc kp kn k d q
  assume k: "unat kp + unat kn < 2 ^ 32" "mem_read (memory_of w) \<lparr>sptr = kp, slen = kn\<rparr> = Inr k"
    and dis: "slices_disjoint \<lparr>sptr = d, slen = 4\<rparr> \<lparr>sptr = q, slen = 4\<rparr>"
  have eq: "proxy_get_header_map_value alloc i kp kn d q w =
      (if \<exists>p \<in> {d, q}. \<exists>m. mem_read_u32 (memory_of w) p = Inl m then (Inl (FStatus InvalidMemoryAccess), w)
       else (case hm_get mops h k of None \<Rightarrow> (Inl (FStatus NotFound), w)
         | Some v \<Rightarrow> from_error (write_return alloc v d q) w))"
    unfolding proxy_get_header_map_value_def known_step [of map_type_try_from, OF ty(1)] Let_def guest_ptr_of_def
    using k m
    by (auto simp: body_steps abind_Inr host_map_lent [OF ty(2) s l] map_read_serving [OF s] split: sum.split option.split)
  show "if \<exists>p \<in> {d, q}. \<exists>m. mem_read_u32 (memory_of w) p = Inl m
      then proxy_get_header_map_value alloc i kp kn d q w = (Inl (FStatus InvalidMemoryAccess), w)
      else (case hm_get mops h k of
          None \<Rightarrow> proxy_get_header_map_value alloc i kp kn d q w = (Inl (FStatus NotFound), w)
        | Some v \<Rightarrow>
            (case proxy_get_header_map_value alloc i kp kn d q w of
               (Inr u, w') \<Rightarrow> hands_over (memory_of w') d q v
             | (Inl e, w') \<Rightarrow> \<exists>err. write_return alloc v d q w = (Inl err, w') \<and> e = failure_of_error err))"
    unfolding eq
    by (auto simp: from_error_eq split: option.split prod.split sum.split dest: write_return_hands_over [OF dis])
qed

lemma write_value_eq:
  assumes ty: "map_type_try_from i = Inr ty" "map_served ty = EmbedderServes"
    and s: "serving w ctx ops h" and l: "lends_map ops (invocation_of w ctx) ty mops"
    and r: "write_header_value wr i kp kn vp vn w = (Inr u, w')"
  shows "\<exists>k v h'. mem_read (memory_of w) \<lparr>sptr = kp, slen = kn\<rparr> = Inr k \<and>
    mem_read (memory_of w) \<lparr>sptr = vp, slen = vn\<rparr> = Inr v \<and> st_memory w \<noteq> None \<and>
    apply_write mops (wr k v) h = (Inr (), h') \<and> w' = set_stream_value h' w"
proof -
  show ?thesis
    using r unfolding write_header_value_def known_step [of map_type_try_from, OF ty(1)]
    by (auto simp: body_steps abind_Inr host_map_lent [OF ty(2) s l] map_write_serving [OF s] prod_eq_iff map_sum_Inr
        split: sum.splits option.splits if_splits)
qed

lemma remove_value_eq:
  assumes ty: "map_type_try_from i = Inr ty" "map_served ty = EmbedderServes"
    and s: "serving w ctx ops h" and l: "lends_map ops (invocation_of w ctx) ty mops"
    and r: "proxy_remove_header_map_value i kp kn w = (Inr u, w')"
  shows "\<exists>k h'. mem_read (memory_of w) \<lparr>sptr = kp, slen = kn\<rparr> = Inr k \<and>
    hm_remove mops h k = (Inr (), h') \<and> w' = set_stream_value h' w"
  using r unfolding proxy_remove_header_map_value_def known_step [of map_type_try_from, OF ty(1)]
  by (auto simp: body_steps abind_Inr host_map_lent [OF ty(2) s l] map_write_serving [OF s] prod_eq_iff map_sum_Inr
      split: sum.splits option.splits if_splits)

text \<open>What a successful write leaves: the same borrow over the new value of the stream state.\<close>

lemma reads_as_after:
  assumes ty: "map_type_try_from i = Inr ty" "map_served ty = EmbedderServes"
    and s: "serving w ctx ops h" and l: "lends_map ops (invocation_of w ctx) ty mops"
    and w': "w' = set_stream_value h' w" and m: "st_memory w \<noteq> None" and f: "hm_get mops h' = f"
  shows "reads_as i w' f"
  using reads_as_lent [OF ty set_stream_value_simps(1) [OF s]] l m unfolding w' f [symmetric] by simp

text \<open>
  C11. The header values a guest reads are the ones it wrote. Before any write, what it can read of a
  map of its stream is what the map holds. After a replace that succeeded, the key written reads as
  the value written and every other key as before; after an add, an absent key reads as the value
  and a present one as before; after a remove, the key is not found and every other key reads as
  before. Keys and values are the bytes at the slices the guest gave, the values it reads are handed
  over through its allocator, and a write changes nothing of the store but the stream state.
\<close>

theorem header_values_spec:
  assumes ty: "map_type_try_from i = Inr ty" "map_served ty = EmbedderServes"
    and s: "serving w ctx ops h" and l: "lends_map ops (invocation_of w ctx) ty mops"
    and m: "st_memory w \<noteq> None" and lawful: "header_multimap mops pairs_of"
  shows "reads_as i w (hm_get mops h) \<and>
    (\<forall>w'. proxy_replace_header_map_value i kp kn vp vn w = (Inr (), w') \<longrightarrow>
       (\<exists>k v h'. mem_read (memory_of w) \<lparr>sptr = kp, slen = kn\<rparr> = Inr k \<and>
          mem_read (memory_of w) \<lparr>sptr = vp, slen = vn\<rparr> = Inr v \<and> w' = set_stream_value h' w \<and>
          reads_as i w' ((hm_get mops h)(k \<mapsto> v)))) \<and>
    (\<forall>w'. proxy_add_header_map_value i kp kn vp vn w = (Inr (), w') \<longrightarrow>
       (\<exists>k v h'. mem_read (memory_of w) \<lparr>sptr = kp, slen = kn\<rparr> = Inr k \<and>
          mem_read (memory_of w) \<lparr>sptr = vp, slen = vn\<rparr> = Inr v \<and> w' = set_stream_value h' w \<and>
          reads_as i w' ([k \<mapsto> v] ++ hm_get mops h))) \<and>
    (\<forall>w'. proxy_remove_header_map_value i kp kn w = (Inr (), w') \<longrightarrow>
       (\<exists>k h'. mem_read (memory_of w) \<lparr>sptr = kp, slen = kn\<rparr> = Inr k \<and> w' = set_stream_value h' w \<and>
          reads_as i w' ((hm_get mops h)(k := None))))"
proof (intro conjI allI impI)
  note after = reads_as_after [OF ty s l _ m]
  show "reads_as i w (hm_get mops h)" by (rule reads_as_lent [OF ty s l m])
  fix w'
  { assume "proxy_replace_header_map_value i kp kn vp vn w = (Inr (), w')"
    from write_value_eq [OF ty s l this [unfolded proxy_replace_header_map_value_def]] obtain k v h'
      where r: "mem_read (memory_of w) \<lparr>sptr = kp, slen = kn\<rparr> = Inr k" "mem_read (memory_of w) \<lparr>sptr = vp, slen = vn\<rparr> = Inr v"
        "hm_set mops h k v = (Inr (), h')" "w' = set_stream_value h' w" by auto
    have "hm_get mops h' = (hm_get mops h)(k \<mapsto> v)"
      by (rule ext) (simp add: header_multimap.get_set [OF lawful r(3)])
    with r after [OF r(4)] show "\<exists>k v h'. mem_read (memory_of w) \<lparr>sptr = kp, slen = kn\<rparr> = Inr k \<and>
        mem_read (memory_of w) \<lparr>sptr = vp, slen = vn\<rparr> = Inr v \<and> w' = set_stream_value h' w \<and>
        reads_as i w' ((hm_get mops h)(k \<mapsto> v))" by blast }
  { assume "proxy_add_header_map_value i kp kn vp vn w = (Inr (), w')"
    from write_value_eq [OF ty s l this [unfolded proxy_add_header_map_value_def]] obtain k v h'
      where r: "mem_read (memory_of w) \<lparr>sptr = kp, slen = kn\<rparr> = Inr k" "mem_read (memory_of w) \<lparr>sptr = vp, slen = vn\<rparr> = Inr v"
        "hm_add mops h k v = (Inr (), h')" "w' = set_stream_value h' w" by auto
    have "hm_get mops h' = [k \<mapsto> v] ++ hm_get mops h"
      by (rule ext) (simp add: header_multimap.get_add [OF lawful r(3)] map_add_def split: option.split)
    with r after [OF r(4)] show "\<exists>k v h'. mem_read (memory_of w) \<lparr>sptr = kp, slen = kn\<rparr> = Inr k \<and>
        mem_read (memory_of w) \<lparr>sptr = vp, slen = vn\<rparr> = Inr v \<and> w' = set_stream_value h' w \<and>
        reads_as i w' ([k \<mapsto> v] ++ hm_get mops h)" by blast }
  { assume "proxy_remove_header_map_value i kp kn w = (Inr (), w')"
    from remove_value_eq [OF ty s l this] obtain k h'
      where r: "mem_read (memory_of w) \<lparr>sptr = kp, slen = kn\<rparr> = Inr k" "hm_remove mops h k = (Inr (), h')"
        "w' = set_stream_value h' w" by auto
    have "hm_get mops h' = (hm_get mops h)(k := None)"
      by (rule ext) (simp add: header_multimap.get_remove [OF lawful r(2)])
    with r after [OF r(3)] show "\<exists>k h'. mem_read (memory_of w) \<lparr>sptr = kp, slen = kn\<rparr> = Inr k \<and>
        w' = set_stream_value h' w \<and> reads_as i w' ((hm_get mops h)(k := None))" by blast }
qed

section \<open>The serialized map\<close>

lemma set_pairs_eq:
  assumes ty: "map_type_try_from i = Inr ty" "map_served ty = EmbedderServes"
    and s: "serving w ctx ops h" and l: "lends_map ops (invocation_of w ctx) ty mops"
  shows "proxy_set_header_map_pairs i p n w =
    (if 2 ^ 32 \<le> unat p + unat n then (Inl (FStatus InvalidMemoryAccess), w)
     else if st_memory w = None then (Inl (Unwind MissingMemory), w)
     else (case mem_read (memory_of w) \<lparr>sptr = p, slen = n\<rparr> of
        Inl e \<Rightarrow> (Inl (FStatus InvalidMemoryAccess), w)
      | Inr bs \<Rightarrow>
          (case decode_pairs bs (st_pair_limits w) of
             Inl e \<Rightarrow> (Inl (FStatus BadArgument), w)
           | Inr ps \<Rightarrow>
               (map_sum (\<lambda>_. FStatus BadArgument) id (fst (hm_replace_all mops h ps)),
                set_stream_value (snd (hm_replace_all mops h ps)) w))))"
proof -
  have refusal: "failure_of_not_allowed = (\<lambda>_. FStatus BadArgument)"
    by (rule ext) (simp add: failure_of_not_allowed_def)
  show ?thesis
    unfolding proxy_set_header_map_pairs_def known_step [of map_type_try_from, OF ty(1)]
    by (auto simp: body_steps abind_Inr host_map_lent [OF ty(2) s l] map_write_serving [OF s] refusal
        split: sum.split)
qed

lemma get_pairs_eq:
  assumes ty: "map_type_try_from i = Inr ty" "map_served ty = EmbedderServes"
    and s: "serving w ctx ops h" and l: "lends_map ops (invocation_of w ctx) ty mops"
  shows "proxy_get_header_map_pairs alloc i d q w =
    (if st_memory w = None then (Inl (Unwind MissingMemory), w)
     else if \<exists>p \<in> {d, q}. \<exists>m. mem_read_u32 (memory_of w) p = Inl m then (Inl (FStatus InvalidMemoryAccess), w)
     else (case encode_map mops h of
        Inl e \<Rightarrow> (Inl (FStatus SerializationFailure), w)
      | Inr bs \<Rightarrow> from_error (write_return alloc bs d q) w))"
  unfolding proxy_get_header_map_pairs_def known_step [of map_type_try_from, OF ty(1)] Let_def guest_ptr_of_def
  by (auto simp: body_steps abind_Inr host_map_lent [OF ty(2) s l] map_read_serving [OF s] failure_of_encode_def
      split: sum.split)

text \<open>
  C12. A map the guest writes as bytes is the map it reads back, byte for byte. When the guest hands the
  host a serialized map for its stream and the host takes it, the map of the stream is exactly what
  the bytes decode to within the limits of the guest, nothing else of the store changed, and a read
  of the map then hands the guest the same bytes it wrote (no bytes for a map without pairs); such
  a read can fail only in the hand-over itself, never in the serialization. Bytes that are not a map or are
  over the limits, and a slice outside the memory, change nothing.
\<close>

theorem header_map_round_trip:
  assumes ty: "map_type_try_from i = Inr ty" "map_served ty = EmbedderServes"
    and s: "serving w ctx ops h" and l: "lends_map ops (invocation_of w ctx) ty mops"
    and lawful: "header_multimap mops pairs_of"
  shows "case proxy_set_header_map_pairs i p n w of
      (Inr u, w') \<Rightarrow>
        \<exists>bs h'. mem_read (memory_of w) \<lparr>sptr = p, slen = n\<rparr> = Inr bs \<and>
          decode_pairs bs (st_pair_limits w) = Inr (pairs_of h') \<and> w' = set_stream_value h' w \<and>
          (\<forall>alloc d q. slices_disjoint \<lparr>sptr = d, slen = 4\<rparr> \<lparr>sptr = q, slen = 4\<rparr> \<longrightarrow>
             (case proxy_get_header_map_pairs alloc i d q w' of
                (Inr u, w'') \<Rightarrow> hands_over (memory_of w'') d q (if pairs_of h' = [] then [] else bs)
              | (Inl e, w'') \<Rightarrow> e \<noteq> FStatus SerializationFailure))
    | (Inl e, w') \<Rightarrow>
        e \<in> {FStatus InvalidMemoryAccess, FStatus BadArgument, Unwind MissingMemory} \<and> w' = w \<or>
        e = FStatus BadArgument \<and> (\<exists>h'. w' = set_stream_value h' w)"
proof -
  let ?slice = "\<lparr>sptr = p, slen = n\<rparr>"
  have read: "case proxy_get_header_map_pairs alloc i d q (set_stream_value h' w) of
      (Inr u, w'') \<Rightarrow> hands_over (memory_of w'') d q (if pairs_of h' = [] then [] else bs)
    | (Inl e, w'') \<Rightarrow> e \<noteq> FStatus SerializationFailure"
    if bs: "mem_read (memory_of w) ?slice = Inr bs" "decode_pairs bs (st_pair_limits w) = Inr (pairs_of h')"
      and dis: "slices_disjoint \<lparr>sptr = d, slen = 4\<rparr> \<lparr>sptr = q, slen = 4\<rparr>" for bs h' alloc d q
  proof -
    have "length bs < 2 ^ 32" using mem_read_short [OF bs(1)] unat_u32_bound [of n] by simp
    then have len: "length bs \<le> usize_max" by (simp add: usize_max_def)
    have e: "encode_map mops h' = Inr (if pairs_of h' = [] then [] else bs)"
      using decode_pairs_sound(1) [OF bs(2) len] len
      by (auto simp: header_multimap.encode_map_eq [OF lawful] encode_pairs_Inr)
    have l': "lends_map ops (invocation_of (set_stream_value h' w) ctx) ty mops" using l by simp
    have f: "failure_of_error err \<noteq> FStatus SerializationFailure" for err by (cases err) simp_all
    show ?thesis
      unfolding get_pairs_eq [OF ty set_stream_value_simps(1) [OF s] l'] e
      by (auto simp: from_error_eq f split: prod.split sum.split dest: write_return_hands_over [OF dis])
  qed
  show ?thesis
  proof (cases "mem_read (memory_of w) ?slice")
    case (Inr bs)
    show ?thesis
    proof (cases "decode_pairs bs (st_pair_limits w)")
      case ps: (Inr ps)
      obtain r h' where rep: "hm_replace_all mops h ps = (r, h')" by fastforce
      have "pairs_of h' = ps" if "r = Inr ()"
        using header_multimap.replace_ok [OF lawful] rep that by simp
      note decoded = this
      have all: "r = Inr () \<Longrightarrow> decode_pairs bs (st_pair_limits w) = Inr (pairs_of h') \<and>
          (\<forall>alloc d q. slices_disjoint \<lparr>sptr = d, slen = 4\<rparr> \<lparr>sptr = q, slen = 4\<rparr> \<longrightarrow>
             (case proxy_get_header_map_pairs alloc i d q (set_stream_value h' w) of
                (Inr u, w'') \<Rightarrow> hands_over (memory_of w'') d q (if pairs_of h' = [] then [] else bs)
              | (Inl e, w'') \<Rightarrow> e \<noteq> FStatus SerializationFailure))"
        using ps decoded by (intro conjI allI impI read [OF Inr]) simp_all
      show ?thesis
      proof (cases "2 ^ 32 \<le> unat p + unat n \<or> st_memory w = None")
        case False
        then obtain mem where "\<not> 2 ^ 32 \<le> unat p + unat n" "st_memory w = Some mem" by auto
        with ps rep Inr have eq: "proxy_set_header_map_pairs i p n w =
            (map_sum (\<lambda>_. FStatus BadArgument) id r, set_stream_value h' w)"
          unfolding set_pairs_eq [OF ty s l] by simp
        show ?thesis
        proof (cases r)
          case ok: (Inr u)
          then have "r = Inr ()" by simp
          note read_back = all [OF this]
          show ?thesis
            unfolding eq ok map_sum.simps prod.case sum.case
            by (rule exI [of _ bs], rule exI [of _ h']) (use Inr read_back in simp)
        qed (auto simp: eq)
      next
        case True
        then show ?thesis unfolding set_pairs_eq [OF ty s l] by auto
      qed
    qed (simp add: set_pairs_eq [OF ty s l] Inr)
  qed (simp add: set_pairs_eq [OF ty s l])
qed

section \<open>A stream with a vector map\<close>

definition fields_stream :: "vec_header_map stream_ops" where
  "fields_stream = stream_ops_default\<lparr>ss_header_map := \<lambda>_ _ _ h. (Inr vec_header_map_ops, h)\<rparr>"

lemma fields_facts:
  "map_type_try_from (map_type_code HttpRequestHeaders) = Inr HttpRequestHeaders"
  "map_served HttpRequestHeaders = EmbedderServes" "lends_map fields_stream call ty vec_header_map_ops"
  by (simp only: map_type_try_from_def MapType.round_trip) (simp_all add: map_served_def lends_map_def fields_stream_def)

lemma header_values_spec_witness:
  "reads_as (map_type_code HttpRequestHeaders)
     (snd (proxy_replace_header_map_value (map_type_code HttpRequestHeaders) 0 1 1 1
        (viewing_store [7, 9] fields_stream \<lparr>vpairs = [([8], [3])]\<rparr>)))
     [[7] \<mapsto> [9], [8] \<mapsto> [3]]"
proof -
  let ?w = "viewing_store [7, 9] fields_stream \<lparr>vpairs = [([8], [3])]\<rparr>"
  have s: "serving ?w (ContextId 1) fields_stream \<lparr>vpairs = [([8], [3])]\<rparr>" "st_memory ?w \<noteq> None" by simp_all
  have mem: "mem_read (memory_of ?w) \<lparr>sptr = 0, slen = 1\<rparr> = Inr [7]" "mem_read (memory_of ?w) \<lparr>sptr = 1, slen = 1\<rparr> = Inr [9]"
    by (simp_all add: mem_read_eq in_memory_def)
  have "fst (proxy_replace_header_map_value (map_type_code HttpRequestHeaders) 0 1 1 1 ?w) = Inr ()"
    unfolding proxy_replace_header_map_value_def write_header_value_def known_step [of map_type_try_from, OF fields_facts(1)]
    by (simp add: body_steps mem [simplified] abind_Inr host_map_lent [OF fields_facts(2) s(1) fields_facts(3)]
        map_write_serving [OF s(1)] vec_header_map_ops_def vec_set_def)
  moreover have "(hm_get vec_header_map_ops \<lparr>vpairs = [([8], [3])]\<rparr>)([7] \<mapsto> [9]) = [[7] \<mapsto> [9], [8] \<mapsto> [3]]"
    by (rule ext) (simp add: vec_header_map_ops_def vec_get_def)
  ultimately show ?thesis
    using header_values_spec [OF fields_facts(1,2) s(1) fields_facts(3) s(2) vhm.header_multimap_axioms,
        where kp = 0 and kn = 1 and vp = 1 and vn = 1] mem
    by (cases "proxy_replace_header_map_value (map_type_code HttpRequestHeaders) 0 1 1 1 ?w") force
qed

lemma header_map_round_trip_witness:
  "proxy_set_header_map_pairs (map_type_code HttpRequestHeaders) 0 15
     (viewing_store (wire_form [([5], [])]) fields_stream \<lparr>vpairs = []\<rparr>) =
   (Inr (), set_stream_value \<lparr>vpairs = [([5], [])]\<rparr> (viewing_store (wire_form [([5], [])]) fields_stream \<lparr>vpairs = []\<rparr>))"
proof -
  let ?w = "viewing_store (wire_form [([5], [])]) fields_stream \<lparr>vpairs = []\<rparr>"
  have s: "serving ?w (ContextId 1) fields_stream \<lparr>vpairs = []\<rparr>" by simp
  have n: "length (wire_form [([5], [])]) = 15" by (simp add: length_wire_form)
  have m: "mem_read (memory_of ?w) \<lparr>sptr = 0, slen = 15\<rparr> = Inr (wire_form [([5], [])])"
    by (simp add: mem_read_eq in_memory_def n)
  have lim: "st_pair_limits ?w = pair_limits_default"
    by (simp add: viewing_store_def set_abi_def set_guest_limits_def limits_default_def limits_pair_limits_def
        with_bytes_def with_pairs_def pair_limits_unlimited_def pair_limits_default_def)
  have "encode_pairs [([5], [])] = Inr (wire_form [([5], [])])"
    by (simp add: encode_pairs_Inr length_wire_form usize_max_def)
  then have d: "decode_pairs (wire_form [([5], [])]) (st_pair_limits ?w) = Inr [([5], [])]"
    unfolding lim by (rule decode_encode_limits) (simp_all add: length_wire_form pair_limits_default_def
      DEFAULT_MAX_DECODED_MAP_BYTES_def DEFAULT_MAX_DECODED_PAIRS_def)
  have "fst (proxy_set_header_map_pairs (map_type_code HttpRequestHeaders) 0 15 ?w) = Inr ()"
    unfolding set_pairs_eq [OF fields_facts(1,2) s fields_facts(3)]
    by (simp add: m [simplified] d [simplified] vec_header_map_ops_def vec_replace_all_def)
  with header_map_round_trip [OF fields_facts(1,2) s fields_facts(3) vhm.header_multimap_axioms, where p = 0 and n = 15] m d
  obtain h' where "proxy_set_header_map_pairs (map_type_code HttpRequestHeaders) 0 15 ?w = (Inr (), set_stream_value h' ?w)"
      "vpairs h' = [([5], [])]"
    by (cases "proxy_set_header_map_pairs (map_type_code HttpRequestHeaders) 0 15 ?w") auto
  then show ?thesis by (cases h') simp
qed

end
