(* ===== verification/Service_Runs.thy ===== *)
theory Service_Runs
  imports Guest_Safety Store_Refinement
begin

text \<open>
  Guests over the in-memory store. A guest reaches the shared services only through its host
  functions, and when the services of its VM are the store of the crate, whatever code it runs is
  for the store a run of its operations. So what \<open>Shared_Store\<close> and
  \<open>Store_Refinement\<close> show of runs of operations holds of guests, however many share a store.
\<close>

section \<open>The operations of the store\<close>

lemma store_exec_any: "store_exec i op s = store_exec j op s"
  by (cases op) (simp_all add: tag_def store_get_shared_data_def store_set_shared_data_def store_register_queue_def
      store_resolve_queue_def store_enqueue_def store_dequeue_def store_define_metric_def store_record_metric_def
      store_increment_metric_def store_get_metric_def)

lemma run_ops_append:
  "run_ops step (xs @ ys) s =
     (case run_ops step xs s of (t, s') \<Rightarrow> (case run_ops step ys s' of (u, s'') \<Rightarrow> (t @ u, s'')))"
  by (induction xs arbitrary: s) (auto split: prod.splits)

text \<open>What a service may do to the store: nothing, or one of its operations.\<close>

definition store_changes :: "(in_memory_store \<Rightarrow> in_memory_store) set" where
  "store_changes = {f. f = (\<lambda>s. s) \<or> (\<exists>i op. f = (\<lambda>s. snd (store_exec i op s)))}"

definition reached :: "invocation \<Rightarrow> in_memory_store \<Rightarrow> in_memory_store \<Rightarrow> bool" where
  "reached i s s' \<longleftrightarrow> (\<exists>ops. snd (run_ops (store_exec i) ops s) = s')"

lemma reached_refl: "reached i s s"
  unfolding reached_def by (rule exI [of _ "[]"]) simp

lemma reached_change: "reached i s s' \<Longrightarrow> f \<in> store_changes \<Longrightarrow> reached i s (f s')"
proof -
  assume r: "reached i s s'" and f: "f \<in> store_changes"
  from r obtain ops where ops: "snd (run_ops (store_exec i) ops s) = s'" by (auto simp: reached_def)
  from f consider "f s' = s'" | j op where "f s' = snd (store_exec j op s')" by (auto simp: store_changes_def)
  then show ?thesis
  proof cases
    case (2 j op)
    with ops store_exec_any [of j op s' i] show ?thesis
      unfolding reached_def by (intro exI [of _ "ops @ [op]"]) (simp add: run_ops_append case_prod_unfold Let_def)
  qed (use r in simp)
qed

text \<open>
  The services of a VM over a store: the shared services are the store's, and the clock, the log
  and the callouts of the embedder do not use it.
\<close>

definition store_only :: "in_memory_store vm_services \<Rightarrow> bool" where
  "store_only s \<longleftrightarrow>
     snd (vs_shared s) = in_memory_services \<and>
     (\<forall>e. snd (realtime_nanos (vs_clock s) e) = e \<and> snd (monotonic_nanos (vs_clock s) e) = e) \<and>
     (\<forall>ctx level message e. vs_log s ctx level message e = e) \<and>
     (\<forall>call c e. (\<forall>r. snd (cs_http_call (vs_callouts s) call c r e) = e) \<and>
        (\<forall>r. snd (cs_grpc_call (vs_callouts s) call c r e) = e) \<and>
        (\<forall>r. snd (cs_grpc_stream (vs_callouts s) call c r e) = e) \<and>
        (\<forall>m b. snd (cs_grpc_send (vs_callouts s) call c m b e) = e) \<and>
        cs_grpc_cancel (vs_callouts s) call c e = e \<and> cs_grpc_close (vs_callouts s) call c e = e)"

lemma snd_tag: "snd (tag f p) = snd p"
  by (simp add: tag_def)

lemma store_changes_ops: "(\<lambda>s. snd (store_exec i op s)) \<in> store_changes"
  by (auto simp: store_changes_def)

lemma services_store: "store_only s \<Longrightarrow> services_within store_changes s"
proof -
  assume s: "store_only s"
  note op = store_changes_ops [of _ "GetData _ _"] store_changes_ops [of _ "SetData _ _ _ _"]
    store_changes_ops [of _ "RegisterQueue _ _"] store_changes_ops [of _ "ResolveQueue _ _"]
    store_changes_ops [of _ "Enqueue _ _"] store_changes_ops [of _ "Dequeue _"]
    store_changes_ops [of _ "DefineMetric _ _ _"] store_changes_ops [of _ "RecordMetric _ _"]
    store_changes_ops [of _ "IncrementMetric _ _"] store_changes_ops [of _ "GetMetric _"]
  have same: "f \<in> store_changes" if "\<And>e. f e = e" for f
    using that by (auto simp: store_changes_def)
  from s show ?thesis
    unfolding services_within_def
    by (intro conjI allI)
      (use op in \<open>simp_all add: store_only_def in_memory_services_def snd_tag same\<close>)
qed

interpretation over_store: served_guest
  "\<lambda>w. services_within store_changes (services w) \<and> reached i s (st_env w)" store_changes for i s
  by unfold_locales (simp_all add: reached_change)

text \<open>The random bytes a guest asks for are not taken from the store either.\<close>

definition fill_only :: "(in_memory_store, 'h, 'g) wasm_instance \<Rightarrow> bool" where
  "fill_only i \<longleftrightarrow> (\<forall>n e. snd (in_fill i n e) = e)"

lemma call_reaches:
  assumes "call_typed f params i = (r, i')" and "store_only (services (in_store i))" and "fill_only i"
  shows "reached c (st_env (in_store i)) (st_env (in_store i'))"
proof -
  have "(\<lambda>e. snd (in_fill i n e)) \<in> store_changes" for n
    using assms(3) by (auto simp: fill_only_def store_changes_def)
  from over_store.keeps_served_call [OF _ assms(1) this, of c "st_env (in_store i)"] show ?thesis
    using services_store [OF assms(2)] reached_refl by blast
qed

section \<open>Guests that share a store\<close>

text \<open>
  A turn is one call into some guest over the store: any instance, whatever its memory, tables and
  code, whose services are over the store and whose world is the store as the earlier turns left it.
\<close>

inductive turns :: "(in_memory_store, 'h, 'g) wasm_instance itself \<Rightarrow> in_memory_store \<Rightarrow> in_memory_store \<Rightarrow> bool" for ty where
  idle: "turns ty s s"
| turn: "turns ty s (st_env (in_store i)) \<Longrightarrow> store_only (services (in_store i)) \<Longrightarrow>
    fill_only (i :: (in_memory_store, 'h, 'g) wasm_instance) \<Longrightarrow>
    call_typed f params i = (r, i') \<Longrightarrow> turns ty s (st_env (in_store i'))"

inductive_cases turnsE: "turns ty s s'"

lemma reached_trans: "reached c s s' \<Longrightarrow> reached c s' s'' \<Longrightarrow> reached c s s''"
proof -
  assume "reached c s s'" "reached c s' s''"
  then obtain xs ys where "snd (run_ops (store_exec c) xs s) = s'" "snd (run_ops (store_exec c) ys s') = s''"
    by (auto simp: reached_def)
  then show ?thesis
    unfolding reached_def by (intro exI [of _ "xs @ ys"]) (simp add: run_ops_append case_prod_unfold)
qed

lemma run_ops_fst: "run_ops step ops s = (trace, s') \<Longrightarrow> map fst trace = ops"
  by (induction ops arbitrary: s trace) (auto split: prod.splits)

lemma run_limits:
  "run_ops (store_exec i) ops s = (trace, s') \<Longrightarrow> store_ok s \<Longrightarrow> store_limits_of s' = store_limits_of s"
proof (induction ops arbitrary: s trace)
  case (Cons op ops)
  obtain r v where step: "store_exec i op s = (r, v)" by fastforce
  then obtain rest where "run_ops (store_exec i) ops v = (rest, s')"
    using Cons.prems(1) by (auto split: prod.splits)
  from Cons.IH [OF this] store_exec_keeps [OF step Cons.prems(2)] show ?case by simp
qed simp

text \<open>A run cut in two: what came before is the run of its own operations, and so is the rest.\<close>

lemma run_split:
  assumes "run_ops step ops s = (before @ after, s')"
  obtains m where "run_ops step (map fst before) s = (before, m)" "run_ops step (map fst after) m = (after, s')"
proof -
  have ops: "ops = map fst before @ map fst after" using run_ops_fst [OF assms] by simp
  obtain m t where m: "run_ops step (map fst before) s = (t, m)" by fastforce
  obtain u v where u: "run_ops step (map fst after) m = (u, v)" by fastforce
  have "t @ u = before @ after" "v = s'" using assms m u by (simp_all add: ops run_ops_append)
  moreover have "length t = length before" using run_ops_fst [OF m] by (metis length_map)
  ultimately show thesis using that m u by simp
qed

lemma turns_reach: "turns ty s s' \<Longrightarrow> reached c s s'"
  by (induction rule: turns.induct) (auto intro: reached_refl reached_trans call_reaches)

text \<open>
  C5. Guests that share a store use it only through the service. Whatever code any number of guests of
  any VMs run in turn over a new store with whatever limits, and however their calls end, there is one run
  of operations of the service that explains the store: its answers are those of the abstract
  service (which knows only maps and queues), the store satisfies its invariant within its limits,
  and over that run every queue is first in, first out, with nothing lost, repeated or reordered, whoever
  sent and whoever received.
\<close>

theorem guests_share_store:
  assumes "turns ty (with_store_limits l store_new) s'"
  shows "\<exists>ops trace. run_ops (store_exec c) ops (with_store_limits l store_new) = (trace, s') \<and>
    spec_run l trace (abs_store (with_store_limits l store_new)) (abs_store s') \<and>
    store_ok s' \<and> store_limits_of s' = l \<and>
    (\<forall>before after. trace = before @ after \<longrightarrow>
       (\<exists>m. run_ops (store_exec c) (map fst before) (with_store_limits l store_new) = (before, m) \<and>
          (\<forall>q its. queue_contents m q = Some its \<longrightarrow>
             (\<exists>its'. queue_contents s' q = Some its' \<and>
                its @ concat (map (\<lambda>e. accepted_by e q) after) = concat (map (\<lambda>e. delivered_by e q) after) @ its'))))"
proof -
  let ?new = "with_store_limits l store_new"
  from turns_reach [OF assms] obtain ops trace where run: "run_ops (store_exec c) ops ?new = (trace, s')"
    unfolding reached_def by (metis prod.collapse)
  have fifo: "\<exists>m. run_ops (store_exec c) (map fst before) ?new = (before, m) \<and>
      (\<forall>q its. queue_contents m q = Some its \<longrightarrow>
         (\<exists>its'. queue_contents s' q = Some its' \<and>
            its @ concat (map (\<lambda>e. accepted_by e q) after) = concat (map (\<lambda>e. delivered_by e q) after) @ its'))"
    if cut: "trace = before @ after" for before after
  proof -
    obtain m where m: "run_ops (store_exec c) (map fst before) ?new = (before, m)"
        "run_ops (store_exec c) (map fst after) m = (after, s')"
      by (rule run_split [OF run [unfolded cut]])
    with store_queue_fifo [OF store_ok_run [OF store_ok_new m(1)] _ m(2)] show ?thesis by blast
  qed
  have new: "store_limits_of ?new = l" by (simp add: with_store_limits_def)
  show ?thesis
    using run run_refines [OF run store_ok_new] run_limits [OF run store_ok_new] store_ok_run [OF store_ok_new run] fifo
    unfolding new by blast
qed

definition shared_world :: "in_memory_store vm_services" where
  "shared_world = vm_services_new (\<lambda>_ _ _ e. e) \<lparr>realtime_nanos = (\<lambda>e. (0, e)), monotonic_nanos = (\<lambda>e. (0, e))\<rparr>
     (1, in_memory_services)"

definition sharing_instance :: "in_memory_store \<Rightarrow> (in_memory_store, unit, unit) wasm_instance" where
  "sharing_instance s =
     \<lparr>in_store = (host_state_new (abi_state_new (GuestId 1) shared_world) s ())\<lparr>st_memory := Some (replicate 64 0)\<rparr>,
      in_module = sample_module,
      in_budget = budget_new limits_default 10, in_depth = 8, in_fill = (\<lambda>n e. ((True, replicate n 0), e))\<rparr>"

lemma guests_share_store_witness:
  "\<exists>ops trace. run_ops (store_exec (invocation_new (GuestId 1) (ContextId 1))) ops (with_store_limits store_limits_default store_new) =
     (trace, st_env (in_store (snd (call_typed (\<lambda>_. HostCall (CallRegisterSharedQueue 0 4 8) (\<lambda>r. Return r)) []
        (sharing_instance (with_store_limits store_limits_default store_new))))))"
proof -
  let ?s = "with_store_limits store_limits_default store_new" and ?f = "\<lambda>_. HostCall (CallRegisterSharedQueue 0 4 8) (\<lambda>r. Return r)"
  have e: "st_env (in_store (sharing_instance ?s)) = ?s" by (simp add: sharing_instance_def host_state_new_def)
  have "turns TYPE((in_memory_store, unit, unit) wasm_instance) ?s (st_env (in_store (snd (call_typed ?f [] (sharing_instance ?s)))))"
  proof (rule turns.turn [OF _ _ _ prod.collapse [symmetric]])
    show "turns TYPE((in_memory_store, unit, unit) wasm_instance) ?s (st_env (in_store (sharing_instance ?s)))"
      unfolding e by (rule turns.idle)
  qed (simp_all add: sharing_instance_def fill_only_def store_only_def host_state_new_def abi_state_new_def shared_world_def
      vm_services_new_def no_callouts_def)
  from guests_share_store [OF this] show ?thesis by blast
qed

end
