(* ===== verification/Shared_Access.thy ===== *)
theory Shared_Access
  imports Guest_Views Service_Runs
begin

text \<open>
  Guests that share data and queues through the in-memory store of the crate, from the memory of
  one guest to the memory of another (\<open>host_functions/shared_data.rs\<close>,
  \<open>shared_queue.rs\<close> over \<open>shared_services/store.rs\<close>). Two guests are two
  stores of instances with a world of the embedder that the second takes as the first left it.
\<close>

section \<open>A guest over the store\<close>

definition sharing :: "(in_memory_store, 'h, 'g) store \<Rightarrow> context_id \<Rightarrow> bool" where
  "sharing w ctx \<longleftrightarrow>
     effective (contexts w) = Some ctx \<and> rejection_of (contexts w) ctx = None \<and>
     snd (vs_shared (services w)) = in_memory_services \<and> st_memory w \<noteq> None"

abbreviation vm_of :: "('e, 'h, 'g) store \<Rightarrow> bytes" where
  "vm_of w \<equiv> vm_id_of (services w)"

abbreviation settled :: "('e, 'h, 'g) store \<Rightarrow> ('e, 'h, 'g) store" where
  "settled w \<equiv> set_abi abi_settle w"

lemma abi_settle_simps [simp]:
  "contexts_of (abi_settle a) = contexts_of a" "services_of (abi_settle a) = services_of a"
  by (simp_all add: abi_settle_def settle_grants_def)

lemma settled_simps [simp]:
  "services (settled w) = services w" "contexts (settled w) = contexts w" "memory_of (settled w) = memory_of w"
  "st_max_name_bytes (settled w) = st_max_name_bytes w" "st_max_shared_names (settled w) = st_max_shared_names w"
  "invocation_of (settled w) ctx = invocation_of w ctx"
  by (simp_all add: set_abi_def abi_settle_def settle_grants_def memory_of_def invocation_of_def Let_def
      split: option.split)

lemma with_shared_step:
  assumes "effective (contexts w) = Some ctx" and "rejection_of (contexts w) ctx = None"
  shows "abind (with_shared absent) k w = k (invocation_of w ctx, snd (vs_shared (services w))) (settled w)"
proof -
  have "set_abi (settle_grants (vs_shared (services w))) w = settled w"
    by (simp add: set_abi_def abi_settle_def)
  with assms settled_simps(6) [of w ctx] show ?thesis
    by (simp add: with_shared_def abind_def act_simps on_abi_def context_of_def)
qed

lemma name_step:
  "abind (within_name_bytes name otherwise) k w =
     (if (case st_max_name_bytes w of Some m \<Rightarrow> length name \<le> m | None \<Rightarrow> True) then k () w else (Inl (FStatus otherwise), w))"
  by (simp add: within_name_bytes_def abind_def act_simps)

lemma embedder_eq:
  "embedder f w = (from_embedder (fst (f (st_env w))), w\<lparr>st_env := snd (f (st_env w))\<rparr>)"
  by (simp add: embedder_def on_env_def abind_def act_simps case_prod_unfold Let_def)

lemma embedder_step:
  "abind (embedder f) k w =
     (case from_embedder (fst (f (st_env w))) of Inl e \<Rightarrow> (Inl e, w\<lparr>st_env := snd (f (st_env w))\<rparr>)
      | Inr x \<Rightarrow> k x (w\<lparr>st_env := snd (f (st_env w))\<rparr>))"
  by (simp add: abind_def embedder_eq)

lemma from_embedder_simps [simp]:
  "from_embedder (Inr x) = Inr x" "s \<noteq> Ok \<Longrightarrow> from_embedder (Inl s) = Inl (FStatus s)"
  by (simp_all add: from_embedder_def)

lemma from_embedder_Inr [simp]: "from_embedder r = Inr x \<longleftrightarrow> r = Inr x"
  by (auto simp: from_embedder_def split: sum.splits if_splits)

section \<open>Shared data\<close>

text \<open>Each function as one equation over the operation of the store.\<close>

lemma set_shared_data_eq:
  assumes "sharing w ctx"
  shows "proxy_set_shared_data kp kn vp vn cas w =
    (if 2 ^ 32 \<le> unat kp + unat kn \<or> 2 ^ 32 \<le> unat vp + unat vn then (Inl (FStatus InvalidMemoryAccess), w)
     else (case mem_read (memory_of w) \<lparr>sptr = kp, slen = kn\<rparr> of
        Inl e \<Rightarrow> (Inl (FStatus InvalidMemoryAccess), w)
      | Inr k \<Rightarrow> (case mem_read (memory_of w) \<lparr>sptr = vp, slen = vn\<rparr> of
          Inl e \<Rightarrow> (Inl (FStatus InvalidMemoryAccess), w)
        | Inr v \<Rightarrow>
            if (case st_max_name_bytes w of Some m \<Rightarrow> length k \<le> m | None \<Rightarrow> True)
            then (case store_set_shared_data (invocation_of w ctx) (vm_of w) k v (cas_arg cas) (st_env w) of
              (r, s) \<Rightarrow> (from_embedder r, (settled w)\<lparr>st_env := s\<rparr>))
            else (Inl (FStatus InternalFailure), settled w))))"
  using assms unfolding proxy_set_shared_data_def sharing_def
  by (auto simp: body_steps with_shared_step name_step embedder_eq in_memory_services_def case_prod_unfold
      split: sum.split)

lemma set_shared_data_Inr:
  assumes "sharing w ctx" and "proxy_set_shared_data kp kn vp vn cas w = (Inr u, w')"
  obtains k v where "mem_read (memory_of w) \<lparr>sptr = kp, slen = kn\<rparr> = Inr k"
    "mem_read (memory_of w) \<lparr>sptr = vp, slen = vn\<rparr> = Inr v"
    "store_set_shared_data (invocation_of w ctx) (vm_of w) k v (cas_arg cas) (st_env w) = (Inr (), st_env w')"
    "w' = (settled w)\<lparr>st_env := st_env w'\<rparr>"
  using assms(2) unfolding set_shared_data_eq [OF assms(1)]
  by (auto split: if_splits sum.splits prod.splits)

text \<open>
  What the guest finds after a read: the value where \<open>hands_over\<close> says, unless the word of the
  version overlaps it, and the version in its word.
\<close>

definition hands_over_shared :: "bytes \<Rightarrow> guest_ptr \<Rightarrow> guest_ptr \<Rightarrow> guest_ptr \<Rightarrow> shared_value \<Rightarrow> bool" where
  "hands_over_shared mem d s c value \<longleftrightarrow>
     mem_read_u32 mem c = Inr (sv_cas value) \<and>
     (\<exists>p n. mem_read_u32 mem d = Inr p \<and> mem_read_u32 mem s = Inr n \<and> unat n = length (sv_bytes value) \<and>
        ((\<forall>q \<in> {d, s, c}. slices_disjoint \<lparr>sptr = q, slen = 4\<rparr> \<lparr>sptr = p, slen = n\<rparr>) \<longrightarrow> sv_bytes value \<noteq> [] \<longrightarrow>
         mem_read mem \<lparr>sptr = p, slen = n\<rparr> = Inr (sv_bytes value)))"

lemma hands_over_word:
  assumes "hands_over mem d s (sv_bytes value)" and w: "mem_write_u32 mem c (sv_cas value) = Inr mem'"
    and dis: "slices_disjoint \<lparr>sptr = c, slen = 4\<rparr> \<lparr>sptr = d, slen = 4\<rparr>"
      "slices_disjoint \<lparr>sptr = c, slen = 4\<rparr> \<lparr>sptr = s, slen = 4\<rparr>"
  shows "hands_over_shared mem' d s c value"
proof -
  have m: "mem_write mem \<lparr>sptr = c, slen = 4\<rparr> (u32_to_le_bytes (sv_cas value)) = Inr mem'"
    using w by (simp add: mem_write_u32_Inr)
  from assms(1) obtain p n where pn: "mem_read_u32 mem d = Inr p" "mem_read_u32 mem s = Inr n" "unat n = length (sv_bytes value)"
    "slices_disjoint \<lparr>sptr = d, slen = 4\<rparr> \<lparr>sptr = p, slen = n\<rparr> \<Longrightarrow>
     slices_disjoint \<lparr>sptr = s, slen = 4\<rparr> \<lparr>sptr = p, slen = n\<rparr> \<Longrightarrow> sv_bytes value \<noteq> [] \<Longrightarrow>
     mem_read mem \<lparr>sptr = p, slen = n\<rparr> = Inr (sv_bytes value)"
    unfolding hands_over_def by blast
  with mem_read_u32_frame [OF m dis(1)] mem_read_u32_frame [OF m dis(2)] mem_read_u32_written [OF w]
    mem_read_frame [OF m, of "\<lparr>sptr = p, slen = n\<rparr>"]
  show ?thesis
    unfolding hands_over_shared_def by (intro conjI exI [of _ p] exI [of _ n]) simp_all
qed

lemma split_store_Inr: "split_store v = (Inr u, v') \<longleftrightarrow> v' = v \<and> st_memory v \<noteq> None"
  by (auto simp: split_store_def act_simps)

lemma get_shared_data_Inr:
  assumes "sharing w ctx" and "proxy_get_shared_data alloc kp kn d s c w = (Inr u, w')"
    and dis: "slices_disjoint \<lparr>sptr = d, slen = 4\<rparr> \<lparr>sptr = s, slen = 4\<rparr>"
      "slices_disjoint \<lparr>sptr = c, slen = 4\<rparr> \<lparr>sptr = d, slen = 4\<rparr>"
      "slices_disjoint \<lparr>sptr = c, slen = 4\<rparr> \<lparr>sptr = s, slen = 4\<rparr>"
  shows "\<exists>k v n. mem_read (memory_of w) \<lparr>sptr = kp, slen = kn\<rparr> = Inr k \<and>
    btm_get (shared_data (st_env w)) (vm_of w, k) = Some (v, n) \<and>
    hands_over_shared (memory_of w') d s c \<lparr>sv_bytes = v, sv_cas = n\<rparr>"
proof -
  obtain k sv x x' where k: "mem_read (memory_of w) \<lparr>sptr = kp, slen = kn\<rparr> = Inr k"
    and g: "fst (store_get_shared_data (invocation_of w ctx) (vm_of w) k (st_env w)) = Inr sv"
    and r: "write_return alloc (sv_bytes sv) d s x = (Inr (), x')"
    and c: "put_u32 c (sv_cas sv) x' = (Inr (), w')"
    using assms(2) assms(1) unfolding proxy_get_shared_data_def sharing_def Let_def guest_ptr_of_def
    by (auto simp: body_steps with_shared_step name_step embedder_step in_memory_services_def
        from_error_eq split_store_Inr split: sum.splits if_splits prod.splits elim!: abind_InrE)
  have "mem_write_u32 (memory_of x') c (sv_cas sv) = Inr (memory_of w')"
    using c by (auto simp: put_u32_def from_error_eq mem_put_Inr split: prod.splits sum.splits)
  with hands_over_word [OF write_return_hands_over [OF dis(1) r] _ dis(2,3)] k g
  show ?thesis
    by (cases sv) (auto simp: store_get_shared_data_def)
qed

lemma store_set_Inr:
  assumes "store_set_shared_data i vm k v cas s = (Inr u, s')"
  obtains c where "shared_data s' = btm_insert (vm, k) (v, c) (shared_data s)" "c \<noteq> 0"
    "\<And>x n. btm_get (shared_data s) (vm, k) = Some (x, n) \<Longrightarrow> c \<noteq> n \<and> cas \<in> {None, Some n}"
  using assms by (auto simp: store_set_shared_data_def Let_def split: if_splits option.splits)

text \<open>A guest with one context in effect over a store, for the witnesses.\<close>

definition sharing_store :: "bytes \<Rightarrow> in_memory_store \<Rightarrow> (in_memory_store, unit, unit) store" where
  "sharing_store mem s =
     set_abi (\<lambda>a. a\<lparr>contexts_of := (snd (ctx_create None context_table_new))\<lparr>effective := Some (ContextId 1)\<rparr>\<rparr>)
       (set_guest_limits limits_default (host_state_new (abi_state_new (GuestId 1) shared_world) s ())
          \<lparr>st_memory := Some mem, st_allocator := True\<rparr>)"

lemma sharing_store_simps [simp]:
  "sharing (sharing_store mem s) (ContextId 1)" "st_memory (sharing_store mem s) = Some mem"
  "memory_of (sharing_store mem s) = mem" "\<not> st_poisoned (sharing_store mem s)" "st_allocator (sharing_store mem s)"
  "services (sharing_store mem s) = shared_world" "st_env (sharing_store mem s) = s"
  "st_max_name_bytes (sharing_store mem s) = Some 4096" "vm_id_of shared_world = []"
  by (simp_all add: sharing_store_def sharing_def set_abi_def ctx_create_def context_table_new_def rejection_of_def
      set_guest_limits_def host_state_new_def abi_state_new_def u32_checked_add_def btm_get_def memory_of_def
      is_rejected_def root_of_def Let_def limits_default_def shared_world_def vm_services_new_def)

lemma sharing_store_reads:
  "mem_read (k # v # rest) \<lparr>sptr = 0, slen = 1\<rparr> = Inr [k]" "mem_read (k # v # rest) \<lparr>sptr = 1, slen = 1\<rparr> = Inr [v]"
  by (simp_all add: mem_read_eq in_memory_def)

lemma sharing_store_set:
  assumes "store_set_shared_data (invocation_of (sharing_store [k, v] s) (ContextId 1)) [] [k] [v] (cas_arg cas) s = (Inr (), s')"
  shows "proxy_set_shared_data 0 1 1 1 cas (sharing_store [k, v] s) = (Inr (), (settled (sharing_store [k, v] s))\<lparr>st_env := s'\<rparr>)"
  using assms by (simp add: set_shared_data_eq [OF sharing_store_simps(1)] sharing_store_reads)

lemma sharing_store_first:
  "store_set_shared_data i [] [k] [v] (cas_arg 0) store_new = (Inr (), store_new\<lparr>shared_data := [(([], [k]), [v], 1)]\<rparr>)"
  by (simp add: store_set_shared_data_def store_new_def store_limits_default_def btm_get_def cas_arg_def)

text \<open>
  C14. Data goes from the memory of one guest to the memory of another. After a guest has set a key, a
  guest of the same VM identifier that reads that key finds in its own memory exactly the bytes the
  first one had at its slice, with a version that is not zero and not the one the key had before; a guest that
  reads another key, or reads under another VM identifier, finds what was there before the set.
\<close>

theorem shared_data_between_guests:
  assumes a: "sharing a ca" "proxy_set_shared_data kp kn vp vn cas a = (Inr u, a')"
    and b: "sharing b cb" "proxy_get_shared_data alloc kp' kn' d s c b = (Inr u', b')"
    and env: "st_env b = st_env a'"
    and dis: "slices_disjoint \<lparr>sptr = d, slen = 4\<rparr> \<lparr>sptr = s, slen = 4\<rparr>"
      "slices_disjoint \<lparr>sptr = c, slen = 4\<rparr> \<lparr>sptr = d, slen = 4\<rparr>"
      "slices_disjoint \<lparr>sptr = c, slen = 4\<rparr> \<lparr>sptr = s, slen = 4\<rparr>"
  shows "\<exists>k v k' found n.
    mem_read (memory_of a) \<lparr>sptr = kp, slen = kn\<rparr> = Inr k \<and> mem_read (memory_of a) \<lparr>sptr = vp, slen = vn\<rparr> = Inr v \<and>
    mem_read (memory_of b) \<lparr>sptr = kp', slen = kn'\<rparr> = Inr k' \<and>
    hands_over_shared (memory_of b') d s c \<lparr>sv_bytes = found, sv_cas = n\<rparr> \<and>
    (if vm_of b = vm_of a \<and> k' = k
     then found = v \<and> n \<noteq> 0 \<and> (\<forall>x m. btm_get (shared_data (st_env a)) (vm_of a, k) = Some (x, m) \<longrightarrow> n \<noteq> m)
     else btm_get (shared_data (st_env a)) (vm_of b, k') = Some (found, n))"
proof -
  from set_shared_data_Inr [OF a] obtain k v
    where kv: "mem_read (memory_of a) \<lparr>sptr = kp, slen = kn\<rparr> = Inr k" "mem_read (memory_of a) \<lparr>sptr = vp, slen = vn\<rparr> = Inr v"
      and set: "store_set_shared_data (invocation_of a ca) (vm_of a) k v (cas_arg cas) (st_env a) = (Inr (), st_env a')" by metis
  from store_set_Inr [OF set] obtain m where m: "shared_data (st_env a') = btm_insert (vm_of a, k) (v, m) (shared_data (st_env a))"
    "m \<noteq> 0" "\<And>x n. btm_get (shared_data (st_env a)) (vm_of a, k) = Some (x, n) \<Longrightarrow> m \<noteq> n" by metis
  from get_shared_data_Inr [OF b dis] obtain k' found n
    where g: "mem_read (memory_of b) \<lparr>sptr = kp', slen = kn'\<rparr> = Inr k'"
      "btm_get (shared_data (st_env b)) (vm_of b, k') = Some (found, n)"
      "hands_over_shared (memory_of b') d s c \<lparr>sv_bytes = found, sv_cas = n\<rparr>" by blast
  have "if vm_of b = vm_of a \<and> k' = k
     then found = v \<and> n \<noteq> 0 \<and> (\<forall>x m. btm_get (shared_data (st_env a)) (vm_of a, k) = Some (x, m) \<longrightarrow> n \<noteq> m)
     else btm_get (shared_data (st_env a)) (vm_of b, k') = Some (found, n)"
    using g(2) m by (auto simp: env)
  with kv g(1,3) show ?thesis by blast
qed

lemma shared_data_between_guests_witness:
  "\<exists>b' n. proxy_get_shared_data (\<lambda>_ w. (Inr 16, w)) 12 1 0 4 8 (sharing_store (replicate 12 0 @ [5] @ replicate 7 0)
      (st_env (snd (proxy_set_shared_data 0 1 1 1 0 (sharing_store [5, 7] store_new))))) = (Inr (), b') \<and>
    hands_over_shared (memory_of b') 0 4 8 \<lparr>sv_bytes = [7], sv_cas = n\<rparr>"
proof -
  let ?a = "sharing_store [5, 7] store_new" and ?s = "store_new\<lparr>shared_data := [(([], [5]), [7], 1)]\<rparr>"
  let ?mem = "replicate 12 0 @ [5] @ replicate 7 0 :: bytes"
  let ?b = "sharing_store ?mem ?s"
  note a = sharing_store_set [OF sharing_store_first, of 5 7]
  have k: "mem_read ?mem \<lparr>sptr = 12, slen = 1\<rparr> = Inr [5]" by (simp add: mem_read_eq in_memory_def)
  have g: "store_get_shared_data i [] [5] ?s = (Inr \<lparr>sv_bytes = [7], sv_cas = 1\<rparr>, ?s)" for i
    by (simp add: store_get_shared_data_def btm_get_def)
  let ?v = "(settled ?b)\<lparr>st_env := ?s\<rparr>"
  have v: "st_memory ?v = Some ?mem" "\<not> st_poisoned ?v" "st_allocator ?v"
    by (simp_all add: set_abi_def)
  obtain m where r: "write_return (\<lambda>_ w. (Inr 16, w)) [7] 0 4 ?v = (Inr (), ?v\<lparr>st_memory := Some m\<rparr>)" "length m = length ?mem"
    using write_return_succeeds [OF v(1) _ v(2,3), of 16 "[7]" 0 4] by auto
  obtain m' where m': "mem_write_u32 m 8 1 = Inr m'"
    using mem_write_u32_ok [of 8 m 1] r(2) by auto
  obtain x y z where xyz: "mem_read_u32 ?mem 0 = Inr x" "mem_read_u32 ?mem 4 = Inr y" "mem_read_u32 ?mem 8 = Inr z"
    using mem_read_u32_ok [of 0 ?mem] mem_read_u32_ok [of 4 ?mem] mem_read_u32_ok [of 8 ?mem] by auto
  have "fst (proxy_get_shared_data (\<lambda>_ w. (Inr 16, w)) 12 1 0 4 8 ?b) = Inr ()"
    using sharing_store_simps(1) [of ?mem ?s, unfolded sharing_def] r m' xyz k g
    unfolding proxy_get_shared_data_def Let_def guest_ptr_of_def
    by (simp add: body_steps with_shared_step name_step embedder_step in_memory_services_def error_step [of "write_return a b c d" for a b c d]
        put_u32_def from_error_eq mem_put_def)
  then obtain b' where b': "proxy_get_shared_data (\<lambda>_ w. (Inr 16, w)) 12 1 0 4 8 ?b = (Inr (), b')"
    by (metis prod.collapse)
  have dis: "slices_disjoint \<lparr>sptr = 0, slen = 4\<rparr> \<lparr>sptr = 4, slen = 4\<rparr>" "slices_disjoint \<lparr>sptr = 8, slen = 4\<rparr> \<lparr>sptr = 0, slen = 4\<rparr>"
    "slices_disjoint \<lparr>sptr = 8, slen = 4\<rparr> \<lparr>sptr = 4, slen = 4\<rparr>" by (simp_all add: slices_disjoint_def)
  have "st_env ?b = st_env ((settled ?a)\<lparr>st_env := ?s\<rparr>)" by simp
  from shared_data_between_guests [OF sharing_store_simps(1) a sharing_store_simps(1) b' this dis]
  show ?thesis using b' k by (auto simp: a sharing_store_reads)
qed

text \<open>
  C13. No lost update. When two guests of a VM identifier set a key that was there, each with the version
  they read, and the first succeeds, then the second is refused and changes nothing of the store,
  whatever value it brings and whichever guest it is: its version is stale.
\<close>

theorem no_lost_update:
  assumes a: "sharing a ca" "proxy_set_shared_data kp kn vp vn cas a = (Inr u, a')"
    and b: "sharing b cb" "st_env b = st_env a'" "vm_of b = vm_of a"
    and k: "mem_read (memory_of a) \<lparr>sptr = kp, slen = kn\<rparr> = Inr k" "mem_read (memory_of b) \<lparr>sptr = kp', slen = kn'\<rparr> = Inr k"
    and version: "cas \<noteq> 0" "btm_get (shared_data (st_env a)) (vm_of a, k) \<noteq> None"
  shows "case proxy_set_shared_data kp' kn' vp' vn' cas b of
      (Inr u', b') \<Rightarrow> False
    | (Inl e, b') \<Rightarrow> st_env b' = st_env b \<and> e \<in> {FStatus CasMismatch, FStatus InternalFailure, FStatus InvalidMemoryAccess}"
proof -
  from set_shared_data_Inr [OF a] k(1) obtain v
    where set: "store_set_shared_data (invocation_of a ca) (vm_of a) k v (cas_arg cas) (st_env a) = (Inr (), st_env a')"
    by (metis Inr_inject)
  from store_set_Inr [OF set] obtain m where m: "shared_data (st_env a') = btm_insert (vm_of a, k) (v, m) (shared_data (st_env a))"
    "\<And>x n. btm_get (shared_data (st_env a)) (vm_of a, k) = Some (x, n) \<Longrightarrow> m \<noteq> n \<and> cas_arg cas \<in> {None, Some n}" by metis
  have "m \<noteq> cas" using m(2) version by (auto simp: cas_arg_def)
  moreover have "btm_get (shared_data (st_env b)) (vm_of b, k) = Some (v, m)" by (simp add: b m(1))
  ultimately have "store_set_shared_data i (vm_of b) k x (cas_arg cas) (st_env b) =
      (Inl (if value_bytes (store_limits_of (st_env b)) < length x then InternalFailure else CasMismatch), st_env b)" for i x
    using version(1) by (simp add: store_set_shared_data_def cas_arg_def Let_def)
  then show ?thesis
    unfolding set_shared_data_eq [OF b(1)] k(2)
    by (auto simp: set_abi_def split: sum.split)
qed

lemma no_lost_update_witness:
  "fst (proxy_set_shared_data 0 1 1 1 1 (sharing_store [5, 9]
     (st_env (snd (proxy_set_shared_data 0 1 1 1 1 (sharing_store [5, 8] (store_new\<lparr>shared_data := [(([], [5]), [7], 1)]\<rparr>))))))) \<noteq> Inr ()"
proof -
  let ?s = "store_new\<lparr>shared_data := [(([], [5]), [7], 1)]\<rparr>"
  have "store_set_shared_data i [] [5] [8] (cas_arg 1) ?s = (Inr (), ?s\<lparr>shared_data := [(([], [5]), [8], 2)]\<rparr>)" for i
    by (simp add: store_set_shared_data_def store_new_def store_limits_default_def btm_get_def cas_arg_def next_cas_def)
  note a = sharing_store_set [OF this]
  have held: "btm_get (shared_data (st_env (sharing_store [5, 8] ?s))) (vm_of (sharing_store [5, 8] ?s), [5]) \<noteq> None"
    by (simp add: btm_get_def)
  let ?t = "?s\<lparr>shared_data := [(([], [5]), [8], 2)]\<rparr>"
  have "mem_read (memory_of (sharing_store [5, x] s)) \<lparr>sptr = 0, slen = 1\<rparr> = Inr [5]" for x s
    by (simp add: sharing_store_reads)
  from no_lost_update [OF sharing_store_simps(1) a sharing_store_simps(1) _ _ this [of 8 ?s] this [of 9 ?t] _ held, of 1 1]
  show ?thesis
    by (cases "proxy_set_shared_data 0 1 1 1 1 (sharing_store [5, 9] ?t)") (auto simp: a split: sum.splits)
qed

section \<open>Shared queues\<close>

lemma room_step:
  "abind (room_for_name held) k w =
     (if holds_shared_name (st_abi w) held \<or>
         (case st_max_shared_names w of Some m \<Rightarrow> shared_names (st_abi w) < m | None \<Rightarrow> True)
      then k () w else (Inl (FStatus InternalFailure), w))"
  by (simp add: room_for_name_def within_shared_names_def abind_def act_simps)

lemma abi_step:
  "abind (on_abi f) k w = k () (set_abi f w)"
  by (simp add: on_abi_def abind_def act_simps)

lemma put_u32_Inr: "put_u32 p v w = (Inr u, w') \<Longrightarrow> mem_read_u32 (memory_of w') p = Inr v \<and> st_abi w' = st_abi w \<and> st_env w' = st_env w"
  by (auto simp: put_u32_def from_error_eq mem_put_Inr mem_read_u32_written split: prod.splits sum.splits)

lemma granted [simp]:
  "holds_queue (grant_queue q a) q" "holds_queue (hold_shared_name n a) q = holds_queue a q"
  "holds_queue (abi_register_queue q' root nm a) q = holds_queue a q"
  by (simp_all add: holds_queue_def grant_queue_def hold_shared_name_def abi_register_queue_def bts_contains_def bts_insert_def Let_def)

lemma register_queue_Inr:
  assumes "sharing w ctx" and "proxy_register_shared_queue np nn rp w = (Inr u, w')"
    and n: "mem_read (memory_of w) \<lparr>sptr = np, slen = nn\<rparr> = Inr nm"
  shows "\<exists>q. store_register_queue (invocation_of w ctx) (vm_of w) nm (st_env w) = (Inr q, st_env w') \<and>
    mem_read_u32 (memory_of w') rp = Inr (queue_get q) \<and> holds_queue (st_abi w') q"
proof -
  let ?r = "store_register_queue (invocation_of w ctx) (vm_of w) nm (st_env w)"
  have m: "st_memory w \<noteq> None" "effective (contexts w) = Some ctx" "rejection_of (contexts w) ctx = None"
    "snd (vs_shared (services w)) = in_memory_services" using assms(1) by (simp_all add: sharing_def)
  obtain q x where x: "put_u32 rp (queue_get q) x = (Inr (), w')"
    and q: "fst ?r = Inr q" "st_env x = snd ?r" "holds_queue (st_abi x) q"
    using assms(2) m(1) unfolding proxy_register_shared_queue_def Let_def guest_ptr_of_def
    by (auto simp: body_steps n with_shared_step [OF m(2,3)] m(4) name_step embedder_step room_step abi_step in_memory_services_def
        split: sum.splits if_splits option.splits intro!: that)
  then have "?r = (Inr q, st_env x)" by (simp add: prod_eq_iff)
  with put_u32_Inr [OF x] q(3) show ?thesis by auto
qed

lemma resolve_queue_Inr:
  assumes "sharing w ctx" and "proxy_resolve_shared_queue vp vn np nn rp w = (Inr u, w')"
    and n: "mem_read (memory_of w) \<lparr>sptr = vp, slen = vn\<rparr> = Inr vm" "mem_read (memory_of w) \<lparr>sptr = np, slen = nn\<rparr> = Inr nm"
  shows "\<exists>q. store_resolve_queue (invocation_of w ctx) (if vm = [] then vm_of w else vm) nm (st_env w) = (Inr q, st_env w') \<and>
    mem_read_u32 (memory_of w') rp = Inr (queue_get q) \<and> holds_queue (st_abi w') q"
proof -
  let ?r = "store_resolve_queue (invocation_of w ctx) (if vm = [] then vm_of w else vm) nm (st_env w)"
  have m: "st_memory w \<noteq> None" "effective (contexts w) = Some ctx" "rejection_of (contexts w) ctx = None"
    "snd (vs_shared (services w)) = in_memory_services" using assms(1) by (simp_all add: sharing_def)
  obtain q x where x: "put_u32 rp (queue_get q) x = (Inr (), w')"
    and q: "fst ?r = Inr q" "st_env x = snd ?r" "holds_queue (st_abi x) q"
    using assms(2) m(1) unfolding proxy_resolve_shared_queue_def Let_def guest_ptr_of_def
    by (auto simp: body_steps n with_shared_step [OF m(2,3)] m(4) name_step embedder_step room_step abi_step in_memory_services_def
        split: sum.splits if_splits option.splits intro!: that)
  then have "?r = (Inr q, st_env x)" by (simp add: prod_eq_iff)
  with put_u32_Inr [OF x] q(3) show ?thesis by auto
qed

lemma queue_id_of: "queue_get q \<noteq> 0 \<Longrightarrow> queue_id_try_from (queue_get q) = Inr q"
  by (cases q) (simp add: queue_id_try_from_def)

lemma require_step:
  "abind (require_queue q) k w =
     (if holds_queue (abi_settle (st_abi w)) q then k () (settled w) else (Inl (FStatus NotFound), settled w))"
  by (simp add: require_queue_def settle_def on_abi_def abind_def act_simps)

lemma queue_step:
  "queue_get q \<noteq> 0 \<Longrightarrow> abind (queue_arg (queue_get q)) k w = k q w"
  by (simp add: queue_arg_def queue_id_of lift_step)

lemma store_register_named:
  "store_register_queue i vm nm s = (Inr q, s') \<Longrightarrow> btm_get (queue_by_name (shared_queues s')) (vm, nm) = Some q"
  by (auto simp: store_register_queue_def Let_def split: option.splits if_splits prod.splits)

lemma store_enqueue_contents:
  "store_enqueue i q v s = (Inr u, s') \<Longrightarrow>
   \<exists>its. queue_contents s q = Some its \<and> queue_contents s' q = Some (its @ [v])"
  by (auto simp: store_enqueue_def queue_contents_def Let_def split: if_splits option.splits prod.splits)

lemma enqueue_Inr:
  assumes "sharing w ctx" and "queue_get q \<noteq> 0" and "proxy_enqueue_shared_queue (queue_get q) vp vn w = (Inr u, w')"
  shows "\<exists>v its. mem_read (memory_of w) \<lparr>sptr = vp, slen = vn\<rparr> = Inr v \<and> queue_contents (st_env w) q = Some its \<and>
    queue_contents (st_env w') q = Some (its @ [v])"
proof -
  have m: "st_memory w \<noteq> None" "effective (contexts w) = Some ctx" "rejection_of (contexts w) ctx = None"
    "snd (vs_shared (services w)) = in_memory_services" using assms(1) by (simp_all add: sharing_def)
  obtain v i where "mem_read (memory_of w) \<lparr>sptr = vp, slen = vn\<rparr> = Inr v"
    "store_enqueue i q v (st_env w) = (Inr (), st_env w')"
    using assms(3) m(1) unfolding proxy_enqueue_shared_queue_def queue_step [OF assms(2)]
    by (auto simp: body_steps require_step with_shared_step m in_memory_services_def embedder_eq prod_eq_iff
        split: sum.splits if_splits option.splits intro!: that)
  with store_enqueue_contents show ?thesis by blast
qed

lemma dequeue_Inr:
  assumes "sharing w ctx" and "queue_get q \<noteq> 0" and "proxy_dequeue_shared_queue alloc (queue_get q) d s w = (Inr u, w')"
    and dis: "slices_disjoint \<lparr>sptr = d, slen = 4\<rparr> \<lparr>sptr = s, slen = 4\<rparr>"
  shows "\<exists>v its. queue_contents (st_env w) q = Some (v # its) \<and> hands_over (memory_of w') d s v"
proof -
  have m: "st_memory w \<noteq> None" "effective (contexts w) = Some ctx" "rejection_of (contexts w) ctx = None"
    "snd (vs_shared (services w)) = in_memory_services" using assms(1) by (simp_all add: sharing_def)
  obtain v i x where "write_return alloc v d s x = (Inr (), w')" "fst (store_dequeue i q (st_env w)) = Inr v"
    using assms(3) m(1) unfolding proxy_dequeue_shared_queue_def queue_step [OF assms(2)] Let_def guest_ptr_of_def
    by (auto simp: body_steps require_step with_shared_step m in_memory_services_def embedder_step from_error_eq
        split: sum.splits if_splits option.splits prod.splits intro!: that)
  with write_return_hands_over [OF dis] show ?thesis
    by (auto simp: store_dequeue_def queue_contents_def Let_def split: option.splits list.splits)
qed

text \<open>
  C15. A queue connects two guests. When one guest registers a queue and another resolves it by the name
  and the VM identifier of the first, both find the same identifier in their memories and both hold
  it. Whoever then enqueues under that identifier puts the bytes at its slice behind those that wait,
  and whoever dequeues finds in its own memory the bytes that waited longest; so bytes the one sends
  into an empty queue are the bytes the other receives.
\<close>

theorem queue_between_guests:
  assumes a: "sharing a ca" "proxy_register_shared_queue np nn rp a = (Inr u, a')"
    and b: "sharing b cb" "proxy_resolve_shared_queue vp vn mp mn rq b = (Inr u', b')" "st_env b = st_env a'"
    and names: "mem_read (memory_of a) \<lparr>sptr = np, slen = nn\<rparr> = Inr nm" "mem_read (memory_of b) \<lparr>sptr = mp, slen = mn\<rparr> = Inr nm"
    and vm: "mem_read (memory_of b) \<lparr>sptr = vp, slen = vn\<rparr> = Inr vm" "(if vm = [] then vm_of b else vm) = vm_of a"
    and ok: "store_ok (st_env a)"
  shows "\<exists>q. mem_read_u32 (memory_of a') rp = Inr (queue_get q) \<and> mem_read_u32 (memory_of b') rq = Inr (queue_get q) \<and>
    holds_queue (st_abi a') q \<and> holds_queue (st_abi b') q \<and>
    (\<forall>p cp wp wn p' c cc alloc d s c' its.
       sharing (p :: (in_memory_store, 'h, 'g) store) cp \<longrightarrow> sharing (c :: (in_memory_store, 'k, 'l) store) cc \<longrightarrow>
       queue_contents (st_env p) q = Some its \<longrightarrow>
       proxy_enqueue_shared_queue (queue_get q) wp wn p = (Inr (), p') \<longrightarrow> st_env c = st_env p' \<longrightarrow>
       slices_disjoint \<lparr>sptr = d, slen = 4\<rparr> \<lparr>sptr = s, slen = 4\<rparr> \<longrightarrow>
       proxy_dequeue_shared_queue alloc (queue_get q) d s c = (Inr (), c') \<longrightarrow>
       (\<exists>v. mem_read (memory_of p) \<lparr>sptr = wp, slen = wn\<rparr> = Inr v \<and>
          hands_over (memory_of c') d s (hd (its @ [v]))))"
proof -
  from register_queue_Inr [OF a names(1)] obtain q
    where q: "store_register_queue (invocation_of a ca) (vm_of a) nm (st_env a) = (Inr q, st_env a')"
      "mem_read_u32 (memory_of a') rp = Inr (queue_get q)" "holds_queue (st_abi a') q" by blast
  from resolve_queue_Inr [OF b(1,2) vm(1) names(2)] obtain r
    where r: "store_resolve_queue (invocation_of b cb) (vm_of a) nm (st_env b) = (Inr r, st_env b')"
      "mem_read_u32 (memory_of b') rq = Inr (queue_get r)" "holds_queue (st_abi b') r" unfolding vm(2) by blast
  have ok': "store_ok (st_env a')" by (rule store_ok_register [OF ok q(1)])
  have named: "btm_get (queue_by_name (shared_queues (st_env a'))) (vm_of a, nm) = Some q"
    by (rule store_register_named [OF q(1)])
  then have same: "r = q" using r(1) by (simp add: store_resolve_queue_def b(3) ok_or_def split: option.splits)
  have nz: "queue_get q \<noteq> 0"
    using ok' named unfolding store_ok_def queues_ok_def by blast
  have "\<exists>v. mem_read (memory_of p) \<lparr>sptr = wp, slen = wn\<rparr> = Inr v \<and> hands_over (memory_of c') d s (hd (its @ [v]))"
    if p: "sharing p cp" "queue_contents (st_env p) q = Some its" "proxy_enqueue_shared_queue (queue_get q) wp wn p = (Inr (), p')"
      and c: "sharing c cc" "st_env c = st_env p'" "slices_disjoint \<lparr>sptr = d, slen = 4\<rparr> \<lparr>sptr = s, slen = 4\<rparr>"
        "proxy_dequeue_shared_queue alloc (queue_get q) d s c = (Inr (), c')"
    for p :: "(in_memory_store, 'h, 'g) store" and cp wp wn p' and c :: "(in_memory_store, 'k, 'l) store" and cc alloc d s c' its
  proof -
    from enqueue_Inr [OF p(1) nz p(3)] p(2) obtain v where v: "mem_read (memory_of p) \<lparr>sptr = wp, slen = wn\<rparr> = Inr v"
      "queue_contents (st_env p') q = Some (its @ [v])" by auto
    from dequeue_Inr [OF c(1) nz c(4,3)] v(2) c(2) obtain x rest where "its @ [v] = x # rest" "hands_over (memory_of c') d s x"
      by auto
    with v(1) show ?thesis by (metis list.sel(1))
  qed
  with q(2,3) r(2,3) show ?thesis unfolding same by blast
qed

lemma put_u32_succeeds:
  "unat p + 4 \<le> length (memory_of w) \<Longrightarrow> length (memory_of w) < 2 ^ 31 \<Longrightarrow> fst (put_u32 p v w) = Inr ()"
  using mem_write_u32_ok [of p "memory_of w" v] by (auto simp: put_u32_def from_error_eq mem_put_def)

lemma memory_of_kept [simp]:
  "memory_of (set_abi f w) = memory_of w" "memory_of (w\<lparr>st_env := e\<rparr>) = memory_of w"
  "contexts (w\<lparr>st_env := e\<rparr>) = contexts w" "st_memory (w\<lparr>st_env := e\<rparr>) = st_memory w"
  "st_memory (set_abi f w) = st_memory w"
  by (simp_all add: memory_of_def set_abi_def)

lemma register_queue_succeeds:
  assumes "sharing w ctx" and "mem_read (memory_of w) \<lparr>sptr = np, slen = nn\<rparr> = Inr nm" "mem_read_u32 (memory_of w) rp = Inr x"
    and "unat np + unat nn < 2 ^ 32"
    and "unat rp + 4 \<le> length (memory_of w)" "length (memory_of w) < 2 ^ 31"
    and "\<And>m. st_max_name_bytes w = Some m \<Longrightarrow> length nm \<le> m"
      "\<And>m. st_max_shared_names w = Some m \<Longrightarrow> shared_names (st_abi (settled w)) < m"
    and "fst (store_register_queue (invocation_of w ctx) (vm_of w) nm (st_env w)) = Inr q"
  shows "fst (proxy_register_shared_queue np nn rp w) = Inr ()"
proof -
  obtain mem where mem: "st_memory w = Some mem" using assms(1) by (auto simp: sharing_def)
  have m: "effective (contexts w) = Some ctx" "rejection_of (contexts w) ctx = None"
    "snd (vs_shared (services w)) = in_memory_services" using assms(1) by (simp_all add: sharing_def)
  have lim: "case st_max_name_bytes w of Some m \<Rightarrow> length nm \<le> m | None \<Rightarrow> True"
    "case st_max_shared_names w of Some m \<Rightarrow> shared_names (st_abi (settled w)) < m | None \<Rightarrow> True"
    using assms(7,8) by (simp_all split: option.split)
  have room: "abind (room_for_name held) k (settled w) = k () (settled w)" for held and k :: "unit \<Rightarrow> (in_memory_store, 'a, 'b, unit) host"
    using lim(2) by (simp add: room_step)
  show ?thesis
    unfolding proxy_register_shared_queue_def Let_def guest_ptr_of_def
    using assms mem m lim(1)
    by (simp add: body_steps with_shared_step name_step room embedder_step abi_step in_memory_services_def
        put_u32_succeeds split: option.split)
qed

lemma resolve_queue_succeeds:
  assumes "sharing w ctx" and "mem_read (memory_of w) \<lparr>sptr = np, slen = nn\<rparr> = Inr nm" "mem_read_u32 (memory_of w) rp = Inr x"
    and "mem_read (memory_of w) \<lparr>sptr = vp, slen = vn\<rparr> = Inr vm" "unat vp + unat vn < 2 ^ 32"
    and "unat np + unat nn < 2 ^ 32"
    and "unat rp + 4 \<le> length (memory_of w)" "length (memory_of w) < 2 ^ 31"
    and "\<And>m. st_max_name_bytes w = Some m \<Longrightarrow> length nm \<le> m"
      "\<And>m. st_max_shared_names w = Some m \<Longrightarrow> shared_names (st_abi (settled w)) < m"
    and "fst (store_resolve_queue (invocation_of w ctx) (if vm = [] then vm_of w else vm) nm (st_env w)) = Inr q"
  shows "fst (proxy_resolve_shared_queue vp vn np nn rp w) = Inr ()"
proof -
  obtain mem where mem: "st_memory w = Some mem" using assms(1) by (auto simp: sharing_def)
  have m: "effective (contexts w) = Some ctx" "rejection_of (contexts w) ctx = None"
    "snd (vs_shared (services w)) = in_memory_services" using assms(1) by (simp_all add: sharing_def)
  have lim: "case st_max_name_bytes w of Some m \<Rightarrow> length nm \<le> m | None \<Rightarrow> True"
    "case st_max_shared_names w of Some m \<Rightarrow> shared_names (st_abi (settled w)) < m | None \<Rightarrow> True"
    using assms(9,10) by (simp_all split: option.split)
  have room: "abind (room_for_name held) k (settled w) = k () (settled w)" for held and k :: "unit \<Rightarrow> (in_memory_store, 'a, 'b, unit) host"
    using lim(2) by (simp add: room_step)
  show ?thesis
    unfolding proxy_resolve_shared_queue_def Let_def guest_ptr_of_def
    using assms mem m lim(1)
    by (cases "vm = []") (simp_all add: body_steps with_shared_step name_step room embedder_step abi_step in_memory_services_def
        put_u32_succeeds split: option.split)
qed

lemma queue_between_guests_witness:
  "\<exists>q. mem_read_u32 (memory_of (snd (proxy_register_shared_queue 12 1 0 (sharing_store (replicate 12 0 @ 5 # replicate 7 0) store_new)))) 0 =
       Inr (queue_get q) \<and>
     mem_read_u32 (memory_of (snd (proxy_resolve_shared_queue 0 0 12 1 4 (sharing_store (replicate 12 0 @ 5 # replicate 7 0)
       (st_env (snd (proxy_register_shared_queue 12 1 0 (sharing_store (replicate 12 0 @ 5 # replicate 7 0) store_new)))))))) 4 =
       Inr (queue_get q)"
proof -
  let ?mem = "replicate 12 0 @ 5 # replicate 7 0 :: bytes"
  let ?a = "sharing_store ?mem store_new"
  have m: "mem_read ?mem \<lparr>sptr = 12, slen = 1\<rparr> = Inr [5]" "mem_read ?mem \<lparr>sptr = 0, slen = 0\<rparr> = Inr []"
    by (simp_all add: mem_read_eq in_memory_def)
  obtain x y where xy: "mem_read_u32 ?mem 0 = Inr x" "mem_read_u32 ?mem 4 = Inr y"
    using mem_read_u32_ok [of 0 ?mem] mem_read_u32_ok [of 4 ?mem] by auto
  have room: "st_max_shared_names (sharing_store ?mem s) = Some n \<Longrightarrow> shared_names (st_abi (settled (sharing_store ?mem s))) < n" for s n
    by (auto simp: sharing_store_def set_abi_def set_guest_limits_def limits_default_def host_state_new_def abi_state_new_def
        abi_settle_def settle_grants_def shared_names_def usize_saturating_add_def)
  let ?s = "snd (store_register_queue (invocation_of ?a (ContextId 1)) [] [5] store_new)"
  have r: "fst (store_register_queue (invocation_of ?a (ContextId 1)) [] [5] store_new) = Inr (QueueId 1)"
    "fst (store_resolve_queue i [] [5] ?s) = Inr (QueueId 1)" for i
    by (simp_all add: store_register_queue_def store_resolve_queue_def store_new_def store_limits_default_def next_id_def u32_checked_add_def
        btm_get_def Let_def)
  have "fst (proxy_register_shared_queue 12 1 0 ?a) = Inr ()"
    by (rule register_queue_succeeds [OF sharing_store_simps(1), where nm = "[5]"]) (use m xy room r in simp_all)
  then obtain a' where a': "proxy_register_shared_queue 12 1 0 ?a = (Inr (), a')" by (metis prod.collapse)
  from register_queue_Inr [OF sharing_store_simps(1) a', of "[5]"] m have env: "st_env a' = ?s" by auto
  let ?b = "sharing_store ?mem (st_env a')"
  have "fst (proxy_resolve_shared_queue 0 0 12 1 4 ?b) = Inr ()"
    by (rule resolve_queue_succeeds [OF sharing_store_simps(1), where nm = "[5]" and vm = "[]"]) (use m xy room r env in simp_all)
  then obtain b' where b': "proxy_resolve_shared_queue 0 0 12 1 4 ?b = (Inr (), b')" by (metis prod.collapse)
  have "store_ok (st_env ?a)" using store_ok_new [of store_limits_default] by (simp add: with_store_limits_def store_new_def)
  from queue_between_guests [OF sharing_store_simps(1) a' sharing_store_simps(1) b' _ _ _ _ _ this, of "[5]" "[]"] m
  show ?thesis by (auto simp: a' b')
qed

end
