(* ===== verification/Texts.thy ===== *)
theory Texts
  imports Services
begin

text \<open>
  The texts of the crate: the \<open>Display\<close> of every identifier, name and problem and the
  messages of its errors (\<open>error.rs\<close>, \<open>guest_error.rs\<close>,
  \<open>codec/pairs/errors.rs\<close>, \<open>context.rs\<close>, \<open>callout.rs\<close>,
  \<open>shared_services/ids.rs\<close>, \<open>types.rs\<close>). A message is what a log of the embedder
  keeps of an error, so the lemmas say what can be read off it. How \<open>{:?}\<close> prints the names
  a module offered and how \<open>from_utf8_lossy\<close> reads bytes depend on tables of Unicode: both are
  parameters.
\<close>

section \<open>Numbers in decimal\<close>

definition digit :: "nat \<Rightarrow> char" where
  "digit d = char_of (48 + d)"

fun decimal :: "nat \<Rightarrow> string" where
  "decimal n = (if n < 10 then [digit n] else decimal (n div 10) @ [digit (n mod 10)])"

declare decimal.simps [simp del]

definition u32_text :: "u32 \<Rightarrow> string" where
  "u32_text w = decimal (unat w)"

definition i32_text :: "i32 \<Rightarrow> string" where
  "i32_text w = (if sint w < 0 then CHR ''-'' # decimal (nat (- sint w)) else decimal (nat (sint w)))"

section \<open>Names and problems\<close>

fun limit_text :: "limit \<Rightarrow> string" where
  "limit_text Epoch = ''CPU time''"
| "limit_text Fuel = ''fuel''"
| "limit_text Stack = ''stack''"

fun field_text :: "field \<Rightarrow> string" where
  "field_text Key = ''key''"
| "field_text Value = ''value''"

fun status_text :: "status \<Rightarrow> string" where
  "status_text Ok = ''OK''"
| "status_text NotFound = ''NOT_FOUND''"
| "status_text BadArgument = ''BAD_ARGUMENT''"
| "status_text SerializationFailure = ''SERIALIZATION_FAILURE''"
| "status_text ParseFailure = ''PARSE_FAILURE''"
| "status_text InvalidMemoryAccess = ''INVALID_MEMORY_ACCESS''"
| "status_text Empty = ''EMPTY''"
| "status_text CasMismatch = ''CAS_MISMATCH''"
| "status_text InternalFailure = ''INTERNAL_FAILURE''"
| "status_text Unimplemented = ''UNIMPLEMENTED''"

definition callback_text :: "callback \<Rightarrow> string" where
  "callback_text c = callback_export_name c"

definition version_text :: "abi_version \<Rightarrow> string" where
  "version_text v = version_export_name v"

definition context_id_text :: "context_id \<Rightarrow> string" where
  "context_id_text i = u32_text (context_get i)"

definition queue_id_text :: "queue_id \<Rightarrow> string" where
  "queue_id_text i = u32_text (queue_get i)"

definition metric_id_text :: "metric_id \<Rightarrow> string" where
  "metric_id_text i = u32_text (metric_get i)"

definition callout_id_text :: "callout_id \<Rightarrow> string" where
  "callout_id_text i = u32_text (callout_get i)"

definition guest_id_text :: "guest_id \<Rightarrow> string" where
  "guest_id_text i = (case i of GuestId n \<Rightarrow> decimal (unat n))"

fun invalid_context_id_text :: "invalid_context_id \<Rightarrow> string" where
  "invalid_context_id_text (InvalidContextId value) = u32_text value @ '' is not a valid context identifier''"

fun invalid_callout_id_text :: "invalid_callout_id \<Rightarrow> string" where
  "invalid_callout_id_text (InvalidCalloutId value) = u32_text value @ '' is not a valid callout identifier''"

fun invalid_queue_id_text :: "invalid_queue_id \<Rightarrow> string" where
  "invalid_queue_id_text (InvalidQueueId value) = u32_text value @ '' is not a valid queue identifier''"

fun invalid_metric_id_text :: "invalid_metric_id \<Rightarrow> string" where
  "invalid_metric_id_text (InvalidMetricId value) = u32_text value @ '' is not a valid metric identifier''"

fun unknown_value_text :: "unknown_value \<Rightarrow> string" where
  "unknown_value_text (UnknownValue name value) = i32_text value @ '' is not a known '' @ name @ '' value''"

fun stream_kind_text :: "stream_kind \<Rightarrow> string" where
  "stream_kind_text Tcp = ''a TCP stream''"
| "stream_kind_text Http = ''an HTTP stream''"

fun context_problem_text :: "context_problem \<Rightarrow> string" where
  "context_problem_text Unknown = ''is unknown''"
| "context_problem_text NotRoot = ''is not a root context''"
| "context_problem_text NotStream = ''is not a stream context''"
| "context_problem_text NotDone = ''is not done''"
| "context_problem_text HasChildren = ''still has stream contexts''"
| "context_problem_text (OtherStream served) =
     ''is not the stream context '' @ context_id_text served @ '' that this scope serves''"
| "context_problem_text (WrongStreamKind recorded attempted) =
     ''is '' @ stream_kind_text recorded @ '' and took a callback of '' @ stream_kind_text attempted"

fun callout_kind_text :: "callout_kind \<Rightarrow> string" where
  "callout_kind_text HttpCall = ''an HTTP call''"
| "callout_kind_text GrpcCall = ''a gRPC call''"
| "callout_kind_text GrpcStream = ''a gRPC stream''"

fun callout_problem_text :: "callout_problem \<Rightarrow> string" where
  "callout_problem_text NotOpen = ''is not open''"
| "callout_problem_text (NotMadeBy ctx) = ''was not made by context '' @ context_id_text ctx"
| "callout_problem_text NoResponseHeader = ''got a received response with no header''"
| "callout_problem_text (WrongKind kind) = ''is '' @ callout_kind_text kind"

fun queue_problem_text :: "queue_problem \<Rightarrow> string" where
  "queue_problem_text (NotRegisteredBy root) = ''was not registered by context '' @ context_id_text root"

section \<open>Errors\<close>

fun memory_error_text :: "memory_error \<Rightarrow> string" where
  "memory_error_text (RangeOverflow p n) =
     ''guest range '' @ u32_text p @ ''+'' @ u32_text n @ '' does not fit in 32 bits''"
| "memory_error_text (OutOfBounds p n memory_size) =
     ''guest range '' @ u32_text p @ ''+'' @ u32_text n @ '' is outside the '' @ decimal memory_size @ '' byte memory''"
| "memory_error_text (LengthMismatch expected actual) =
     ''expected '' @ u32_text expected @ '' bytes for the guest range, got '' @ decimal actual"

fun error_text :: "error \<Rightarrow> string" where
  "error_text (Compile source) = ''the module did not compile''"
| "error_text (Instantiate source) = ''the module did not instantiate''"
| "error_text (Config message) = ''the configuration is invalid: '' @ message"
| "error_text EngineMismatch = ''the module was compiled on another engine than the host''"
| "error_text MissingMemory = ''the module exports no memory named \"memory\"''"
| "error_text MissingAllocator = ''the module exports neither proxy_on_memory_allocate nor malloc''"
| "error_text (MissingExport name) = ''the module does not export '' @ name"
| "error_text (ExportTypeMismatch name) = ''the export '' @ name @ '' does not have the expected type''"
| "error_text (Trap message backtrace) = ''the guest trapped: '' @ message"
| "error_text (LimitExceeded l) = ''the guest exceeded its '' @ limit_text l @ '' limit''"
| "error_text (GuestExit code) = ''the guest called proc_exit with code '' @ i32_text code"
| "error_text Poisoned = ''the instance is poisoned by an earlier failure''"
| "error_text (Memory e) = memory_error_text e"
| "error_text (AllocationFailed n) = ''the guest allocator returned null for '' @ u32_text n @ '' bytes''"
| "error_text (ValueTooLarge n) = decimal n @ '' bytes is more than the ABI can pass to the guest''"

fun unsupported_abi_text :: "(string list \<Rightarrow> string) \<Rightarrow> unsupported_abi \<Rightarrow> string" where
  "unsupported_abi_text debug (UnsupportedAbi names) =
     ''no supported proxy_abi_version export, found '' @ debug names"

fun guest_error_text :: "(string list \<Rightarrow> string) \<Rightarrow> (bytes \<Rightarrow> string) \<Rightarrow> guest_error \<Rightarrow> string" where
  "guest_error_text debug lossy (Unsupported u) = unsupported_abi_text debug u"
| "guest_error_text debug lossy (GuestRejected cb root) =
     ''the guest rejected root context '' @ context_id_text root @ '' in '' @ callback_text cb"
| "guest_error_text debug lossy (DuplicateRootId root_id root) =
     ''root context '' @ context_id_text root @ '' already holds the root id '' @ lossy root_id"
| "guest_error_text debug lossy (ContextError i problem) =
     ''context '' @ context_id_text i @ '' '' @ context_problem_text problem"
| "guest_error_text debug lossy ContextIdsExhausted = ''no context identifier is left''"
| "guest_error_text debug lossy (UnexpectedReturn cb value) =
     callback_text cb @ '' returned '' @ i32_text value @ '', which is not a valid result''"
| "guest_error_text debug lossy (CalloutError i problem) =
     ''callout '' @ callout_id_text i @ '' '' @ callout_problem_text problem"
| "guest_error_text debug lossy (QueueError i problem) =
     ''queue '' @ queue_id_text i @ '' '' @ queue_problem_text problem"
| "guest_error_text debug lossy (Runtime e) = error_text e"

fun decode_error_text :: "decode_error \<Rightarrow> string" where
  "decode_error_text TruncatedCount = ''input ends before the pair count''"
| "decode_error_text (TruncatedLengths pairs) =
     ''input ends inside the length table, '' @ u32_text pairs @ '' pairs declared''"
| "decode_error_text (TruncatedKey pair) = ''input ends inside the key of pair '' @ u32_text pair"
| "decode_error_text (TruncatedValue pair) = ''input ends inside the value of pair '' @ u32_text pair"
| "decode_error_text (MissingTerminator pair field) =
     ''pair '' @ u32_text pair @ '' '' @ field_text field @ '' is not terminated by 0x00''"
| "decode_error_text (TrailingBytes count) = decimal count @ '' bytes remain after the last pair''"
| "decode_error_text (PairLimit pairs limit) = u32_text pairs @ '' pairs exceed the limit of '' @ u32_text limit"
| "decode_error_text (ByteLimit given limit) = decimal given @ '' bytes exceed the limit of '' @ decimal limit"

fun encode_error_text :: "encode_error \<Rightarrow> string" where
  "encode_error_text (TooLong pair field len) =
     ''pair '' @ decimal pair @ '' '' @ field_text field @ '' is '' @ decimal len @ '' bytes long, which exceeds u32::MAX''"
| "encode_error_text (TooManyPairs count) = decimal count @ '' pairs exceed u32::MAX''"
| "encode_error_text TooLarge = ''the encoded map exceeds usize::MAX bytes''"
| "encode_error_text Changed = ''the pairs changed while they were being encoded''"

fun http_call_refusal_text :: "http_call_refusal \<Rightarrow> string" where
  "http_call_refusal_text HttpUnknownUpstream = ''the upstream is not known''"
| "http_call_refusal_text HttpFailed = ''the call could not be made''"

fun grpc_open_refusal_text :: "grpc_open_refusal \<Rightarrow> string" where
  "grpc_open_refusal_text GrpcUnknownUpstream = ''the upstream is not known''"
| "grpc_open_refusal_text GrpcFailed = ''the call could not be made''"

section \<open>A number can be read back\<close>

definition digit_value :: "char \<Rightarrow> nat" where
  "digit_value c = of_char c - 48"

definition is_digit :: "char \<Rightarrow> bool" where
  "is_digit c \<longleftrightarrow> of_char c \<in> {48..57 :: nat}"

definition read_decimal :: "string \<Rightarrow> nat" where
  "read_decimal s = foldl (\<lambda>n c. 10 * n + digit_value c) 0 s"

lemma digit_simps [simp]: "d < 10 \<Longrightarrow> is_digit (digit d)" "d < 10 \<Longrightarrow> digit_value (digit d) = d"
  by (simp_all add: digit_def is_digit_def digit_value_def)

lemma read_decimal_decimal [simp]: "read_decimal (decimal n) = n"
proof (induction n rule: decimal.induct)
  case (1 n)
  then show ?case
    by (subst decimal.simps) (auto simp: read_decimal_def)
qed

lemma decimal_digits: "c \<in> set (decimal n) \<Longrightarrow> is_digit c"
proof (induction n rule: decimal.induct)
  case (1 n)
  then show ?case
    by (subst (asm) (2) decimal.simps) (auto split: if_splits)
qed

lemma decimal_inject [simp]: "decimal m = decimal n \<longleftrightarrow> m = n"
  by (metis read_decimal_decimal)

lemma decimal_not_Nil [simp]: "decimal n \<noteq> []" "[] \<noteq> decimal n"
  by (subst decimal.simps, simp)+

text \<open>A number in a text ends at the first character that is no digit, a name at the first space.\<close>

lemma append_split_at:
  assumes "\<forall>c \<in> set x. P c" "\<forall>c \<in> set y. P c" "u = [] \<or> \<not> P (hd u)" "v = [] \<or> \<not> P (hd v)"
  shows "x @ u = y @ v \<longleftrightarrow> x = y \<and> u = v"
  using assms by (induction x y rule: list_induct2') (auto simp: append_eq_Cons_conv Cons_eq_append_conv)

lemma decimal_append:
  "u = [] \<or> \<not> is_digit (hd u) \<Longrightarrow> v = [] \<or> \<not> is_digit (hd v) \<Longrightarrow>
   decimal m @ u = decimal n @ v \<longleftrightarrow> m = n \<and> u = v"
  using append_split_at [of "decimal m" is_digit "decimal n" u v] decimal_digits by auto

lemma is_digit_simps [simp]:
  "\<not> is_digit CHR '' ''" "\<not> is_digit CHR ''+''" "\<not> is_digit CHR '',''"  "\<not> is_digit CHR ''-''"
  by (simp_all add: is_digit_def)

lemma decimal_Cons: "decimal n = c # x \<Longrightarrow> is_digit c"
  using decimal_digits [of c n] by simp

lemma decimal_append_Cons: "decimal n @ y = c # x \<Longrightarrow> is_digit c"
  by (metis append_is_Nil_conv decimal_Cons decimal_not_Nil(1) hd_append2 list.collapse list.sel(1))

lemma u32_text_append:
  "u = [] \<or> \<not> is_digit (hd u) \<Longrightarrow> v = [] \<or> \<not> is_digit (hd v) \<Longrightarrow>
   u32_text m @ u = u32_text n @ v \<longleftrightarrow> m = n \<and> u = v"
  by (simp add: u32_text_def decimal_append word_eq_iff_unsigned [where 'a = nat])

lemma u32_text_inject [simp]: "u32_text v = u32_text w \<longleftrightarrow> v = w"
  using u32_text_append [of "[]" "[]"] by simp

lemma i32_text_inject [simp]: "i32_text v = i32_text w \<longleftrightarrow> v = w"
proof -
  have "CHR ''-'' # x \<noteq> decimal n" "decimal n \<noteq> CHR ''-'' # x" for x n
    using decimal_Cons [of n "CHR ''-''" x] by auto
  then have "i32_text v = i32_text w \<longleftrightarrow> sint v = sint w"
    by (auto simp: i32_text_def)
  then show ?thesis using signed_word_eqI [of v w] by auto
qed

lemma i32_text_chars: "c \<in> set (i32_text w) \<Longrightarrow> is_digit c \<or> c = CHR ''-''"
  using decimal_digits by (auto simp: i32_text_def split: if_splits)

lemma i32_text_append:
  assumes "u = [] \<or> \<not> is_digit (hd u) \<and> hd u \<noteq> CHR ''-''" "v = [] \<or> \<not> is_digit (hd v) \<and> hd v \<noteq> CHR ''-''"
  shows "i32_text m @ u = i32_text n @ v \<longleftrightarrow> m = n \<and> u = v"
  using append_split_at [of "i32_text m" "\<lambda>c. is_digit c \<or> c = CHR ''-''" "i32_text n" u v] i32_text_chars assms by auto

lemma callback_text_chars: "c \<in> set (callback_text cb) \<Longrightarrow> c \<noteq> CHR '' ''"
  by (cases cb) (auto simp: callback_text_def)

lemma callback_text_inject [simp]: "callback_text a = callback_text b \<longleftrightarrow> a = b"
  by (cases a; cases b) (simp_all add: callback_text_def)

lemma callback_text_append:
  "callback_text a @ CHR '' '' # x = callback_text b @ CHR '' '' # y \<longleftrightarrow> a = b \<and> x = y"
  using append_split_at [of "callback_text a" "\<lambda>c. c \<noteq> CHR '' ''" "callback_text b" "CHR '' '' # x" "CHR '' '' # y"]
    callback_text_chars by auto

lemma callback_text_Cons: "\<exists>x. callback_text cb = CHR ''p'' # CHR ''r'' # CHR ''o'' # x"
  by (cases cb) (simp_all add: callback_text_def)

lemmas id_text_defs = context_id_text_def callout_id_text_def queue_id_text_def

lemma id_inject [simp]:
  "context_get a = context_get b \<longleftrightarrow> a = b" "callout_get c = callout_get d \<longleftrightarrow> c = d" "queue_get e = queue_get f \<longleftrightarrow> e = f"
  using context_id.expand callout_id.expand queue_id.expand by blast+

lemma stream_kind_text_inject [simp]: "stream_kind_text a = stream_kind_text b \<longleftrightarrow> a = b"
  by (cases a; cases b) simp_all

lemma callout_kind_text_inject [simp]: "callout_kind_text a = callout_kind_text b \<longleftrightarrow> a = b"
  by (cases a; cases b) simp_all

lemma limit_text_inject [simp]: "limit_text a = limit_text b \<longleftrightarrow> a = b"
  by (cases a; cases b) simp_all

lemma field_text_inject [simp]: "field_text a = field_text b \<longleftrightarrow> a = b"
  by (cases a; cases b) simp_all

lemma stream_kind_text_eq: "stream_kind_text k = (case k of Tcp \<Rightarrow> ''a TCP stream'' | Http \<Rightarrow> ''an HTTP stream'')"
  by (cases k) simp_all

lemma context_problem_text_inject [simp]: "context_problem_text a = context_problem_text b \<longleftrightarrow> a = b"
  by (cases a; cases b)
    (simp_all add: id_text_defs u32_text_append stream_kind_text_eq split: stream_kind.split)

lemma callout_problem_text_inject [simp]: "callout_problem_text a = callout_problem_text b \<longleftrightarrow> a = b"
proof -
  have kinds: "callout_kind_text k = (case k of HttpCall \<Rightarrow> ''an HTTP call'' | GrpcCall \<Rightarrow> ''a gRPC call'' | GrpcStream \<Rightarrow> ''a gRPC stream'')" for k
    by (cases k) simp_all
  show ?thesis
    by (cases a; cases b) (simp_all add: id_text_defs kinds split: callout_kind.split)
qed

lemma queue_problem_text_inject [simp]: "queue_problem_text a = queue_problem_text b \<longleftrightarrow> a = b"
  by (cases a; cases b) (simp add: id_text_defs)

lemma memory_error_text_inject [simp]: "memory_error_text a = memory_error_text b \<longleftrightarrow> a = b"
  by (cases a; cases b) (simp_all add: u32_text_append decimal_append)

section \<open>What the text of an error tells\<close>

text \<open>What a text does not keep of an error: the source of a compilation or an instantiation, and the backtrace.\<close>

fun without_source :: "error \<Rightarrow> error" where
  "without_source (Compile source) = Compile []"
| "without_source (Instantiate source) = Instantiate []"
| "without_source (Trap message backtrace) = Trap message None"
| "without_source e = e"

lemma digit_neq [simp]:
  "decimal n @ x \<noteq> CHR ''t'' # y" "CHR ''t'' # y \<noteq> decimal n @ x"
  "decimal n @ x \<noteq> CHR ''g'' # y" "CHR ''g'' # y \<noteq> decimal n @ x"
  "decimal n @ x \<noteq> CHR ''e'' # y" "CHR ''e'' # y \<noteq> decimal n @ x"
  "decimal n @ x \<noteq> CHR ''i'' # y" "CHR ''i'' # y \<noteq> decimal n @ x"
  "decimal n @ x \<noteq> CHR ''p'' # y" "CHR ''p'' # y \<noteq> decimal n @ x"
  "decimal n @ x \<noteq> CHR ''r'' # y" "CHR ''r'' # y \<noteq> decimal n @ x"
  "decimal n @ x \<noteq> CHR ''c'' # y" "CHR ''c'' # y \<noteq> decimal n @ x"
  "decimal n @ x \<noteq> CHR ''n'' # y" "CHR ''n'' # y \<noteq> decimal n @ x"
  "decimal n @ x \<noteq> CHR ''q'' # y" "CHR ''q'' # y \<noteq> decimal n @ x"
  using decimal_append_Cons [of n x] by (fastforce simp: is_digit_def dest: sym)+

lemma memory_error_text_neq [simp]:
  "memory_error_text e \<noteq> CHR ''t'' # x" "CHR ''t'' # x \<noteq> memory_error_text e"
  "memory_error_text e \<noteq> CHR ''r'' # x" "CHR ''r'' # x \<noteq> memory_error_text e"
  "memory_error_text e \<noteq> CHR ''c'' # x" "CHR ''c'' # x \<noteq> memory_error_text e"
  "memory_error_text e \<noteq> CHR ''n'' # x" "CHR ''n'' # x \<noteq> memory_error_text e"
  "memory_error_text e \<noteq> CHR ''p'' # x" "CHR ''p'' # x \<noteq> memory_error_text e"
  "memory_error_text e \<noteq> CHR ''q'' # x" "CHR ''q'' # x \<noteq> memory_error_text e"
  "memory_error_text e \<noteq> decimal n @ x" "decimal n @ x \<noteq> memory_error_text e"
  by (cases e; simp)+

lemma error_text_tells: "error_text a = error_text b \<longleftrightarrow> without_source a = without_source b"
  by (cases a; cases b) (simp_all add: u32_text_append decimal_append)

lemma error_text_neq [simp]:
  "error_text e \<noteq> CHR ''r'' # x" "CHR ''r'' # x \<noteq> error_text e"
  "error_text e \<noteq> CHR ''c'' # x" "CHR ''c'' # x \<noteq> error_text e"
  "error_text e \<noteq> CHR ''n'' # x" "CHR ''n'' # x \<noteq> error_text e"
  "error_text e \<noteq> CHR ''p'' # x" "CHR ''p'' # x \<noteq> error_text e"
  "error_text e \<noteq> CHR ''q'' # x" "CHR ''q'' # x \<noteq> error_text e"
  by (cases e; simp)+

lemma error_text_not_rejected [simplified, simp]:
  "error_text e \<noteq> ''the guest rejected root context '' @ x" "''the guest rejected root context '' @ x \<noteq> error_text e"
  by (cases e; simp)+

lemma unsupported_text: "unsupported_abi_text debug u = ''no supported proxy_abi_version export, found '' @ debug (found u)"
  by (cases u) simp

lemma callback_text_neq [simp]:
  "callback_text cb @ x \<noteq> error_text e" "error_text e \<noteq> callback_text cb @ x"
  "c \<noteq> CHR ''p'' \<Longrightarrow> callback_text cb @ x \<noteq> c # y" "c \<noteq> CHR ''p'' \<Longrightarrow> c # y \<noteq> callback_text cb @ x"
  using callback_text_Cons [of cb] by auto

fun told :: "(string list \<Rightarrow> string) \<Rightarrow> (bytes \<Rightarrow> string) \<Rightarrow> guest_error \<Rightarrow> guest_error \<times> string" where
  "told debug lossy (Unsupported u) = (Unsupported (UnsupportedAbi []), debug (found u))"
| "told debug lossy (DuplicateRootId root_id root) = (DuplicateRootId [] root, lossy root_id)"
| "told debug lossy (Runtime e) = (Runtime (without_source e), [])"
| "told debug lossy e = (e, [])"

text \<open>
  The text of an error tells which error it is: two errors of a guest have the same text exactly
  when they are the same but for what no text keeps, the source and the backtrace of an error of the
  runtime, and for what the library's own printing of the offered names and of the root id merges.
  No refusal reads like another or like a failure of the runtime, and every identifier, value and
  problem can be read off the text.
\<close>

theorem guest_error_text_tells:
  "guest_error_text debug lossy a = guest_error_text debug lossy b \<longleftrightarrow> told debug lossy a = told debug lossy b"
  by (cases a; cases b)
    (auto simp: id_text_defs u32_text_append callback_text_append i32_text_append error_text_tells unsupported_text)

text \<open>The errors of the codec are told apart by their texts too, with every number they carry.\<close>

lemma field_text_eq: "field_text f = (case f of Key \<Rightarrow> ''key'' | Value \<Rightarrow> ''value'')"
  by (cases f) simp_all

lemma decode_error_text_inject: "decode_error_text a = decode_error_text b \<longleftrightarrow> a = b"
  by (cases a; cases b) (auto simp: u32_text_def decimal_append field_text_eq word_eq_iff_unsigned [where 'a = nat] split: field.splits)

lemma encode_error_text_inject: "encode_error_text a = encode_error_text b \<longleftrightarrow> a = b"
  by (cases a; cases b) (auto simp: u32_text_def decimal_append field_text_eq word_eq_iff_unsigned [where 'a = nat] split: field.splits)

end
