(* ===== verification/Spec2Isabelle.thy ===== *)
theory Spec2Isabelle
  imports Prelude Ordered_Maps Abi_Types Pair_Codec Header_Maps Buffers Guest_Memory Identifiers Contexts Callouts Shared_Store Services Host_State Host_Shared Host_Streams Host_Callouts Wasi Guest_Run Guests Call_Scopes Guest_Invariants Guest_Safety Guest_Verdict Scope_Invariants Scope_Safety Embedder Guest_Answers Deliveries Epoch_Clock Engines Linking Start_Section Guest_Building Ledger Samples Reports Fleet Host_Properties Wasi_Properties Store_Refinement Guest_Views Header_Views Service_Runs Shared_Access Texts
begin

text \<open>
  A verification development for \<open>proxy-wasm-host\<close>, a Rust library that hosts guests of
  the Proxy-Wasm ABI 0.2.1. Paths below are under \<open>src/crates/proxy-wasm-host/src\<close>.

  \<^bold>\<open>The program.\<close> An embedder (a proxy) builds an \<open>Engine\<close>, whose thread advances
  an epoch so that a call that runs too long is stopped, and on it a \<open>Host\<close> with the functions
  a guest may import. It builds a \<open>Guest\<close> from a compiled module, its services and its limits. It lends the guest the state of one stream by entering a
  \<open>CallScope\<close>, runs callbacks of the ABI in the scope, and takes the stream state back. A
  callback runs code of the guest, which calls host functions; those read and write the linear
  memory of the guest, the tables of contexts and of open callouts, the lent stream state and the
  services, and return bytes by calling the allocator of the guest, which is guest code again.
  Guest code is not trusted: whatever it does, the host must keep its tables consistent, keep one
  root of a guest apart from another, and stop using a guest whose code failed.

  \<^bold>\<open>Theories and sources.\<close>

  \<^item> \<open>Prelude\<close>: machine integers at their width (\<open>u32\<close>, \<open>u64\<close>, \<open>i32\<close>; a
    \<open>usize\<close> is a natural number up to \<open>usize_max\<close>, that is \<open>2 ^ 64 - 1\<close>, with checked
    and saturating addition), little-endian bytes, results as sums, and the actions \<open>act\<close>
    with their binds (one bind for each question mark of the code) and the logics \<open>keeps\<close> and
    \<open>leaves\<close> over them. \<open>Ordered_Maps\<close>: the \<open>BTreeMap\<close> and \<open>BTreeSet\<close> of the code
    as sorted association lists.
  \<^item> \<open>Abi_Types\<close> (\<open>abi/v0_2_1/types\<close>, \<open>abi/version.rs\<close>, \<open>callback.rs\<close>): the
    enumerations of the ABI with their codes, and the detection of the ABI version.
  \<^item> \<open>Pair_Codec\<close> (\<open>codec\<close>), \<open>Header_Maps\<close> (\<open>header_map.rs\<close>), \<open>Buffers\<close>
    (\<open>buffer.rs\<close>): the wire format of maps and property paths, and the two traits of the
    embedder's values with the implementations the library gives.
  \<^item> \<open>Guest_Memory\<close> (\<open>runtime/memory.rs\<close>): slices and bounds.
  \<^item> \<open>Identifiers\<close>, \<open>Contexts\<close> (\<open>abi/v0_2_1/context/table.rs\<close>), \<open>Callouts\<close>
    (\<open>callout.rs\<close>): the tables, with their invariants \<open>ctx_ok\<close> and \<open>callouts_ok\<close>.
  \<^item> \<open>Shared_Store\<close> (\<open>shared_services\<close>), \<open>Services\<close> (\<open>services\<close>,
    \<open>stream_state\<close>, \<open>callout_service\<close>): the in-memory store, and what the embedder gives a
    guest as records of operations.
  \<^item> \<open>Host_State\<close> (\<open>state\<close>, \<open>runtime/host_state.rs\<close>, \<open>runtime/limits.rs\<close>,
    \<open>runtime/guest_call.rs\<close>, \<open>runtime/alloc.rs\<close>): the record \<open>abi_state\<close> of the
    ABI layer, the record \<open>store\<close> with the memory, the limits and the poison flag, how a failure
    becomes a status or unwinds, and how bytes are returned to a guest.
  \<^item> \<open>Host_Shared\<close>, \<open>Host_Streams\<close>, \<open>Host_Callouts\<close> (\<open>host_functions\<close>),
    \<open>Wasi\<close> (\<open>wasi.rs\<close>): one definition for each function a guest may import.
  \<^item> \<open>Epoch_Clock\<close>, \<open>Engines\<close> (\<open>runtime/engine.rs\<close>): the clock of an engine as a
    step relation \<open>clock_moves\<close> of three parties (the ticker thread, the handles, the drop of
    the last handle), with the lock, the condition variable and the flag they share; the settings
    and the build of an engine; the deadline of a call. \<open>Linking\<close> (\<open>host.rs\<close>,
    \<open>host_functions/table.rs\<close>): the functions a host defines on a linker of the runtime, in their
    order. Whether the runtime accepts a definition, and whether it links a module, are its answers
    (\<open>linker_answer\<close>, the field \<open>module_link\<close>); \<open>resolves\<close> is what it is documented to
    require of an import, and only a hypothesis uses it.
  \<^item> \<open>Guest_Run\<close> (\<open>host_functions/table.rs\<close>, \<open>runtime/module.rs\<close>,
    \<open>runtime/instance.rs\<close>, \<open>guest/callbacks.rs\<close>): modules, the table of imports, guest code and its calls, instances (with
    the start section of a module, which runs inside the instantiation, before the host has the memory)
    and callbacks. \<open>Guests\<close> (\<open>guest.rs\<close>, \<open>guest_spec.rs\<close>), \<open>Call_Scopes\<close>
    (\<open>call_scope\<close>, \<open>guest/scope.rs\<close>, \<open>guest/start.rs\<close>): what the embedder calls.
  \<^item> \<open>Texts\<close> (\<open>error.rs\<close>, \<open>guest_error.rs\<close> and the files of the identifiers): the
    texts of identifiers, problems and errors.

  \<^bold>\<open>What is shown.\<close>

  \<^item> Of guest code. The locale \<open>host_changes\<close> of \<open>Guest_Invariants\<close> lists once every
    change a host function makes to a store. Two locales extend it with what the world of the embedder
    may do: \<open>service_invariant\<close> with a world that moves only by operations of the services the
    guest was given (\<open>served_guest\<close> adds that a failed call keeps the invariant), and
    \<open>host_invariant\<close> with a world that may move at will (\<open>guest_invariant\<close> adds the
    poison); the second of each pair is a sublocale of the first. The interpretations in
    \<open>Guest_Safety\<close> and \<open>Scope_Invariants\<close> give the properties of every call of any
    guest code: the tables stay well formed, other roots stay as they are, and what belongs to
    the host is not changed; the one in \<open>Service_Runs\<close> gives what guests do to the in-memory
    store they share: whatever code several guests run in turn, the store is reached by its own
    operations, so its invariant, its refinement and the order of its queues hold. \<open>Guest_Verdict\<close> follows the errors of host functions and shows
    that a call poisons the instance exactly when it fails.
  \<^item> Of the embedder's operations. \<open>Scope_Invariants\<close> and \<open>Scope_Safety\<close> carry the
    invariants through every callback, \<open>Embedder\<close> through every sequence of operations on a
    guest that was built (the step relation \<open>embeds\<close>); \<open>Guest_Answers\<close> shows what an
    answer tells, \<open>Deliveries\<close> specifies answers of callouts and the start of a root.
  \<^item> Of what an embedder can rely on between callbacks. The locale \<open>ledger\<close> of \<open>Ledger\<close>
    extends \<open>guest_invariant\<close> with the three changes the embedder's own operations make to what
    a guest reports; its interpretations carry invariants of the reports through every operation,
    and \<open>Reports\<close> draws from them that the registrants of a queue are live roots and that an
    embedder that keeps what \<open>take_changes\<close> says knows every tick period and registration.
    \<open>Fleet\<close> carries the counters of a specification through the builds, operations and
    drops of all its guests.
  \<^item> Of the epoch. The locale \<open>leads_to\<close> of \<open>Epoch_Clock\<close> is the argument of a fair
    run (a rank that falls at every step of the helpful party and never rises); its interpretations
    give that the ticker goes on ticking and that the drop of an engine returns. The wait of the ticker
    ends by the notification of the drop, by the timeout (\<open>TimeOut\<close>, once the period is over) or
    spuriously (\<open>Spurious\<close>): the invariant \<open>notified\<close> says that no notification is lost, so
    the drop returns although no timeout and no spurious wake-up ever comes. \<open>Engines\<close>
    bounds from below when a deadline can pass.
  \<^item> Of the build of a guest. \<open>Start_Section\<close> goes through every host function to show that a
    start section changes nothing of the host, and \<open>Guest_Building\<close> says what a guest can be
    built from and the error of each refusal.
  \<^item> Of single host functions: \<open>Host_Properties\<close> and \<open>Wasi_Properties\<close>, and from the
    memory of the guest to the value of the embedder and back \<open>Guest_Views\<close> (buffers) and
    \<open>Header_Views\<close> (header maps): what a guest reads is what the stream state holds, what it
    writes is what the stream state then holds. They assume of a stream state only the laws its
    trait documents (\<open>lends_buffer\<close>, \<open>lends_map\<close>). \<open>Shared_Access\<close> does the same
    for two guests over one store: a value or a message goes from the memory of the one into the
    memory of the other, and of two writers with the same version one is refused.
  \<^item> Of the texts: in \<open>Texts\<close> the text of an error of a guest tells which error it is, with every
    number it carries, and a decimal number is read back.
  \<^item> Of the components: the invariant of each table, round trips and bounds of the codec, bounds
    of memory, the traits as locales interpreted on the library's implementations, and in
    \<open>Store_Refinement\<close> a simulation of the in-memory store by an abstract service (one map of
    versioned data, one of queues, one of metrics).

  \<^bold>\<open>Parameters, bounds and fuel.\<close> The code of a guest is a tree of its own steps and of
  host calls (\<open>program\<close>), any tree at all; it is well founded because the epoch deadline of
  the engine ends every call, and a guest that would run on is one that traps. A host function
  and the allocator of the guest can call each other; every level takes stack, so
  \<open>alloc_at\<close> recurses on the stack depth of the engine and level zero is the stack trap,
  which the code maps to the stack limit. No property depends on the depth. The loop that
  reserves a callout identifier is a partial function; \<open>callout_reserve_terminates\<close> shows
  that it returns whenever an identifier is free, and the limit on open callouts keeps it so; the
  branch \<open>DIVERGES\<close> of \<open>reserve_callout\<close> stands for the loop that would not end. The
  services, the stream state and the callout service are records of functions over a world of
  the embedder, without any assumption. Random bytes, the identity of a guest (a counter of the
  process), the engine and module facts the code reads, and in \<open>Texts\<close> how a list of names is printed for
  debugging and how bytes are read as UTF-8 are arguments.

  The clock measures time in the nanoseconds of the model's steps, which pass at any rate; the
  properties of its progress assume a fair path (a party that stays able to move is not put off for
  ever, where the drop counts on no timeout) and, for the ticks, that time goes on.

  \<^bold>\<open>Not modelled.\<close> Compilation, the acceptance of the settings of an engine, the stop of a
  call at its deadline, the memory and table limiter, the counters of fuel, the linker and the linking
  of a module belong to the wasm
  runtime; the compiler and the runtime are arguments of \<open>module_new\<close> and \<open>engine_build\<close>. Branches marked as unreachable give no value, and
  \<open>finish_returns_stream\<close> shows that those of a scope (\<open>stream\<close>, \<open>stream_mut\<close>,
  \<open>finish\<close>) are not taken. Mutexes, reference
  counts (an \<open>Arc\<close> is a value with an identity) and atomic counters are sequential outside
  \<open>Epoch_Clock\<close>, because a guest is used by one thread at a time and the store locks each
  operation as a whole.
  The lines of the library's own tracing, the Debug output, the tests, examples, benchmarks and
  the guests for them have no part in the behaviour. Whole-program liveness (that a guest answers
  within its deadline) rests on the runtime and is not stated.
\<close>

end
